(* ===== verification/Prelude.thy ===== *)
theory Prelude
  imports Main "HOL-Library.Char_ord" "HOL-Library.List_Lexorder"
begin

text \<open>
  What every component of the development shares.

  A C \<open>char\<close> or \<open>unsigned char\<close> is a HOL \<open>char\<close> (256 values); a buffer of them is a
  list. \<open>cstr\<close> reads a buffer the way C reads a string: up to the first NUL.

  The programs are values of type \<open>('w, 'a) prog\<close>: they take the world \<open>'w\<close> behind the
  platform interfaces and give a result and the next world, or \<open>None\<close> when a loop of the
  source does not end. \<open>wp\<close> is the weakest precondition of a program (partial
  correctness: divergence satisfies it), \<open>returns\<close> says that it ends.
\<close>

named_theorems wp_simps \<open>weakest preconditions of the program combinators\<close>
named_theorems byte_simps \<open>bytes read as numbers\<close>

type_synonym bytes = "char list"

section \<open>Bytes\<close>

abbreviation NUL :: char where "NUL \<equiv> CHR 0x00"

definition cstr :: "bytes \<Rightarrow> bytes" where
  "cstr bs = takeWhile (\<lambda>c. c \<noteq> NUL) bs"

definition nul_free :: "bytes \<Rightarrow> bool" where
  "nul_free bs \<longleftrightarrow> NUL \<notin> set bs"

lemma nul_free_simps [simp]:
  "nul_free []"
  "nul_free (c # bs) \<longleftrightarrow> c \<noteq> NUL \<and> nul_free bs"
  "nul_free (as @ bs) \<longleftrightarrow> nul_free as \<and> nul_free bs"
  by (auto simp: nul_free_def)

lemma cstr_Nil [simp]: "cstr [] = []"
  by (simp add: cstr_def)

lemma cstr_Cons: "cstr (c # bs) = (if c = NUL then [] else c # cstr bs)"
  by (simp add: cstr_def)

lemma nul_free_cstr [simp]: "nul_free (cstr bs)"
  by (auto simp: cstr_def nul_free_def dest: set_takeWhileD)

lemma cstr_nul_free [simp]: "nul_free bs \<Longrightarrow> cstr bs = bs"
  by (auto simp: cstr_def nul_free_def takeWhile_eq_all_conv)

lemma cstr_append_nul_free: "nul_free as \<Longrightarrow> cstr (as @ bs) = as @ cstr bs"
  by (induction as) (auto simp: cstr_Cons)

lemma length_cstr_le: "length (cstr bs) \<le> length bs"
  by (simp add: cstr_def length_takeWhile_le)

lemma nul_free_take [simp]: "nul_free bs \<Longrightarrow> nul_free (take n bs)"
  by (auto simp: nul_free_def dest: in_set_takeD)

lemma nul_free_drop [simp]: "nul_free bs \<Longrightarrow> nul_free (drop n bs)"
  by (auto simp: nul_free_def dest: in_set_dropD)

text \<open>The value of a byte, as C's conversion of \<open>unsigned char\<close> to a wider type gives it.\<close>

definition u8 :: "char \<Rightarrow> nat" where
  "u8 c = of_char c"

definition byte :: "nat \<Rightarrow> char" where
  "byte n = char_of n"

lemma u8_less [simp]: "u8 c < 256"
  using nat_of_char_less_256 [of c] by (simp add: u8_def)

lemma u8_byte [simp]: "u8 (byte n) = n mod 256"
  by (simp add: u8_def byte_def)

lemma byte_u8 [simp]: "byte (u8 c) = c"
  by (simp add: u8_def byte_def)

lemma u8_inject [simp]: "u8 c = u8 d \<longleftrightarrow> c = d"
  by (simp add: u8_def)

lemma u8_less_iff: "u8 c < u8 d \<longleftrightarrow> c < d"
  by (simp add: u8_def less_char_def)

lemma byte_eq_iff: "byte m = byte n \<longleftrightarrow> m mod 256 = n mod 256"
  by (metis byte_u8 u8_byte)

text \<open>A fact about all byte values is checked value by value.\<close>

lemma all_bytes: "list_all P [0..<256] \<Longrightarrow> n < 256 \<Longrightarrow> P n"
  by (auto simp: list_all_iff)

section \<open>Programs over the world behind the interfaces\<close>

type_synonym ('w, 'a) prog = "'w \<Rightarrow> ('a \<times> 'w) option"

definition return_io :: "'a \<Rightarrow> ('w, 'a) prog" where
  "return_io a = (\<lambda>w. Some (a, w))"

definition bind_io :: "('w, 'a) prog \<Rightarrow> ('a \<Rightarrow> ('w, 'b) prog) \<Rightarrow> ('w, 'b) prog" where
  "bind_io m f = (\<lambda>w. case m w of None \<Rightarrow> None | Some (a, w') \<Rightarrow> f a w')"

text \<open>A call through an interface: it always returns, and it may change the world.\<close>

definition call_io :: "('w \<Rightarrow> 'a \<times> 'w) \<Rightarrow> ('w, 'a) prog" where
  "call_io op = (\<lambda>w. Some (op w))"

definition wp :: "('w, 'a) prog \<Rightarrow> ('a \<Rightarrow> 'w \<Rightarrow> bool) \<Rightarrow> 'w \<Rightarrow> bool" where
  "wp m Q w \<longleftrightarrow> (\<forall>a w'. m w = Some (a, w') \<longrightarrow> Q a w')"

definition returns :: "('w, 'a) prog \<Rightarrow> 'w \<Rightarrow> bool" where
  "returns m w \<longleftrightarrow> m w \<noteq> None"

lemma wp_return_io [wp_simps]: "wp (return_io a) Q w \<longleftrightarrow> Q a w"
  by (simp add: wp_def return_io_def)

lemma wp_bind_io [wp_simps]: "wp (bind_io m f) Q w \<longleftrightarrow> wp m (\<lambda>a. wp (f a) Q) w"
  by (auto simp: wp_def bind_io_def split: option.splits)

lemma wp_call_io [wp_simps]: "wp (call_io op) Q w \<longleftrightarrow> (case op w of (a, w') \<Rightarrow> Q a w')"
  by (auto simp: wp_def call_io_def split: prod.splits)

lemma wp_mono: "wp m Q w \<Longrightarrow> (\<And>a w'. Q a w' \<Longrightarrow> R a w') \<Longrightarrow> wp m R w"
  by (auto simp: wp_def)

lemma wpD: "wp m Q w \<Longrightarrow> m w = Some (a, w') \<Longrightarrow> Q a w'"
  by (simp add: wp_def)

lemma bind_io_Some_iff:
  "bind_io m f w = Some (b, w'') \<longleftrightarrow> (\<exists>a w'. m w = Some (a, w') \<and> f a w' = Some (b, w''))"
  by (auto simp: bind_io_def split: option.splits)

lemma return_io_Some_iff [simp]: "return_io a w = Some (b, w') \<longleftrightarrow> b = a \<and> w' = w"
  by (auto simp: return_io_def)

lemma call_io_Some_iff [simp]: "call_io op w = Some (b, w') \<longleftrightarrow> op w = (b, w')"
  by (auto simp: call_io_def)

lemma bind_io_return [simp]: "bind_io (return_io a) f = f a"
  by (simp add: bind_io_def return_io_def)

lemma bind_io_assoc [simp]: "bind_io (bind_io m f) g = bind_io m (\<lambda>a. bind_io (f a) g)"
  by (auto simp: bind_io_def fun_eq_iff split: option.splits)

lemma returns_return_io [simp]: "returns (return_io a) w"
  by (simp add: returns_def return_io_def)

lemma returns_call_io [simp]: "returns (call_io op) w"
  by (simp add: returns_def call_io_def)

lemma returns_bind_io:
  "returns m w \<Longrightarrow> (\<And>a w'. m w = Some (a, w') \<Longrightarrow> returns (f a) w') \<Longrightarrow> returns (bind_io m f) w"
  by (auto simp: returns_def bind_io_def split: option.splits)

text \<open>
  A postcondition on the result alone, from every world: \<open>ensures m Q\<close>. The rules in
  \<open>ensures_intros\<close> take a program apart combinator by combinator.
\<close>

named_theorems ensures_intros \<open>postconditions of the program combinators\<close>

definition ensures :: "('w, 'a) prog \<Rightarrow> ('a \<Rightarrow> bool) \<Rightarrow> bool" where
  "ensures m Q \<longleftrightarrow> (\<forall>w a w'. m w = Some (a, w') \<longrightarrow> Q a)"

lemma ensuresD: "ensures m Q \<Longrightarrow> m w = Some (a, w') \<Longrightarrow> Q a"
  by (auto simp: ensures_def)

lemma ensures_return [ensures_intros]: "Q a \<Longrightarrow> ensures (return_io a) Q"
  by (simp add: ensures_def)

lemma ensures_bind: "ensures m R \<Longrightarrow> (\<And>a. R a \<Longrightarrow> ensures (f a) Q) \<Longrightarrow> ensures (bind_io m f) Q"
  unfolding ensures_def bind_io_Some_iff by blast

lemma ensures_any: "ensures m (\<lambda>_. True)"
  by (simp add: ensures_def)

lemma ensures_bind_any: "(\<And>a. ensures (f a) Q) \<Longrightarrow> ensures (bind_io m f) Q"
  by (rule ensures_bind [OF ensures_any])

lemma ensures_if [ensures_intros]:
  "(b \<Longrightarrow> ensures m Q) \<Longrightarrow> (\<not> b \<Longrightarrow> ensures n Q) \<Longrightarrow> ensures (if b then m else n) Q"
  by simp

lemma ensures_mono: "ensures m R \<Longrightarrow> (\<And>a. R a \<Longrightarrow> Q a) \<Longrightarrow> ensures m Q"
  by (auto simp: ensures_def)

section \<open>Fallible pure code\<close>

text \<open>\<open>DAEMOON_TRY\<close> in a function without effects: \<open>Inl\<close> is the failure.\<close>

definition bind_sum :: "'e + 'a \<Rightarrow> ('a \<Rightarrow> 'e + 'b) \<Rightarrow> 'e + 'b" where
  "bind_sum x f = (case x of Inl e \<Rightarrow> Inl e | Inr a \<Rightarrow> f a)"

lemma bind_sum_simps [simp]:
  "bind_sum (Inl e) f = Inl e" "bind_sum (Inr a) f = f a"
  by (simp_all add: bind_sum_def)

lemma bind_sum_Inr_iff: "bind_sum x f = Inr b \<longleftrightarrow> (\<exists>a. x = Inr a \<and> f a = Inr b)"
  by (cases x) auto

lemma bind_sum_Inl_iff: "bind_sum x f = Inl e \<longleftrightarrow> x = Inl e \<or> (\<exists>a. x = Inr a \<and> f a = Inl e)"
  by (cases x) auto

section \<open>Lists\<close>

lemma take_snoc_nth: "n < length xs \<Longrightarrow> take n xs @ [xs ! n] = take (Suc n) xs"
  by (simp add: take_Suc_conv_app_nth)

lemma set_butlastD: "x \<in> set (butlast xs) \<Longrightarrow> x \<in> set xs"
  by (rule in_set_butlastD)

lemma concat_map_inj:
  assumes "\<And>x y r s. x \<in> set xs \<Longrightarrow> y \<in> set ys \<Longrightarrow> f x @ r = f y @ s \<Longrightarrow> x = y \<and> r = s"
    and "\<And>x. f x \<noteq> []"
    and "concat (map f xs) = concat (map f ys)"
  shows "xs = ys"
  using assms(1,3)
proof (induction xs arbitrary: ys)
  case Nil
  then show ?case using assms(2) by (cases ys) auto
next
  case (Cons x xs)
  then obtain y ys' where ys: "ys = y # ys'"
    using assms(2) by (cases ys) auto
  with Cons.prems have "x = y" and rest: "concat (map f xs) = concat (map f ys')"
    using Cons.prems(1) [of x y "concat (map f xs)" "concat (map f ys')"] by auto
  moreover have "xs = ys'"
    using rest Cons.prems(1) by (intro Cons.IH) (auto simp: ys)
  ultimately show ?case by (simp add: ys)
qed

end
