(* ===== verification/Result.thy ===== *)
theory Result
  imports Prelude
begin

text \<open>
  The one error type of the core: \<open>core/include/daemoon/result.h\<close>, the frozen codes of
  \<open>error_codes.h\<close> and the generated table of \<open>core/src/error_table.c\<close>. A C
  \<open>daemoon_result_t\<close> is an \<open>int\<close>; \<open>result_of_int\<close> and \<open>int_of_result\<close>
  are the enumeration. The lemmas show that the table is consistent: one row per failure,
  wire codes and numbers that identify it, and no path from an unknown code to success.
\<close>

named_theorems result_defs \<open>the operations of the error table\<close>

section \<open>Codes\<close>

datatype result =
  OK
| ERR_INVALID_REQUEST
| ERR_INVALID_MANIFEST
| ERR_UNSUPPORTED_PLATFORM
| ERR_UNAUTHORIZED
| ERR_DEVICE_REVOKED
| ERR_FORBIDDEN
| ERR_NOT_FOUND
| ERR_VERSION_CONFLICT
| ERR_SHARE_EXPIRED
| ERR_PAIRING_EXPIRED
| ERR_PAIRING_PENDING
| ERR_SAVE_TOO_LARGE
| ERR_CHECKSUM_MISMATCH
| ERR_RATE_LIMITED
| ERR_INTERNAL_ERROR
| ERR_IO_ERROR
| ERR_OUT_OF_MEMORY
| ERR_PARSE_ERROR
| ERR_NETWORK_ERROR
| ERR_TIMEOUT
| ERR_BACKEND_ERROR
| ERR_USER_CANCELLED
| ERR_NO_SPACE
| ERR_UNSUPPORTED
| ERR_ARCHIVE_ERROR
| ERR_BUFFER_TOO_SMALL
| ERR_EMPTY_SAVE
| ERR_TLS_ERROR

text \<open>\<open>DAEMOON_TRY\<close>: go on after a success, return a failure unchanged.\<close>

definition TRY :: "('w, result) prog \<Rightarrow> ('w, result) prog \<Rightarrow> ('w, result) prog" where
  "TRY m k = bind_io m (\<lambda>r. if r \<noteq> OK then return_io r else k)"

lemma wp_TRY [wp_simps]:
  "wp (TRY m k) Q w \<longleftrightarrow> wp m (\<lambda>r w'. if r = OK then wp k Q w' else Q r w') w"
  by (auto simp: TRY_def wp_def bind_io_def return_io_def split: option.splits if_splits)

text \<open>The codes in the order of \<open>error_codes.h\<close>, which is also the order of the table.\<close>

definition all_errors :: "result list" where
  "all_errors =
    [ERR_INVALID_REQUEST,
     ERR_INVALID_MANIFEST,
     ERR_UNSUPPORTED_PLATFORM,
     ERR_UNAUTHORIZED,
     ERR_DEVICE_REVOKED,
     ERR_FORBIDDEN,
     ERR_NOT_FOUND,
     ERR_VERSION_CONFLICT,
     ERR_SHARE_EXPIRED,
     ERR_PAIRING_EXPIRED,
     ERR_PAIRING_PENDING,
     ERR_SAVE_TOO_LARGE,
     ERR_CHECKSUM_MISMATCH,
     ERR_RATE_LIMITED,
     ERR_INTERNAL_ERROR,
     ERR_IO_ERROR,
     ERR_OUT_OF_MEMORY,
     ERR_PARSE_ERROR,
     ERR_NETWORK_ERROR,
     ERR_TIMEOUT,
     ERR_BACKEND_ERROR,
     ERR_USER_CANCELLED,
     ERR_NO_SPACE,
     ERR_UNSUPPORTED,
     ERR_ARCHIVE_ERROR,
     ERR_BUFFER_TOO_SMALL,
     ERR_EMPTY_SAVE,
     ERR_TLS_ERROR]"

fun int_of_result :: "result \<Rightarrow> int" where
  "int_of_result OK = 0"
| "int_of_result ERR_INVALID_REQUEST = 1"
| "int_of_result ERR_INVALID_MANIFEST = 2"
| "int_of_result ERR_UNSUPPORTED_PLATFORM = 3"
| "int_of_result ERR_UNAUTHORIZED = 4"
| "int_of_result ERR_DEVICE_REVOKED = 5"
| "int_of_result ERR_FORBIDDEN = 6"
| "int_of_result ERR_NOT_FOUND = 7"
| "int_of_result ERR_VERSION_CONFLICT = 8"
| "int_of_result ERR_SHARE_EXPIRED = 9"
| "int_of_result ERR_PAIRING_EXPIRED = 10"
| "int_of_result ERR_PAIRING_PENDING = 11"
| "int_of_result ERR_SAVE_TOO_LARGE = 12"
| "int_of_result ERR_CHECKSUM_MISMATCH = 13"
| "int_of_result ERR_RATE_LIMITED = 14"
| "int_of_result ERR_INTERNAL_ERROR = 15"
| "int_of_result ERR_IO_ERROR = 16"
| "int_of_result ERR_OUT_OF_MEMORY = 17"
| "int_of_result ERR_PARSE_ERROR = 18"
| "int_of_result ERR_NETWORK_ERROR = 19"
| "int_of_result ERR_TIMEOUT = 20"
| "int_of_result ERR_BACKEND_ERROR = 21"
| "int_of_result ERR_USER_CANCELLED = 22"
| "int_of_result ERR_NO_SPACE = 23"
| "int_of_result ERR_UNSUPPORTED = 24"
| "int_of_result ERR_ARCHIVE_ERROR = 25"
| "int_of_result ERR_BUFFER_TOO_SMALL = 26"
| "int_of_result ERR_EMPTY_SAVE = 27"
| "int_of_result ERR_TLS_ERROR = 28"

definition result_of_int :: "int \<Rightarrow> result option" where
  "result_of_int n = find (\<lambda>r. int_of_result r = n) (OK # all_errors)"

section \<open>Message ids\<close>

text \<open>
  A \<open>daemoon_str_id_t\<close> is its position in the enumeration of \<open>str_ids.h\<close>
  (183 entries). The ids the modelled code names:
\<close>

type_synonym str_id = nat

definition STR_COUNT :: nat where "STR_COUNT = 183"

abbreviation (input) STR_ERR_INVALID_REQUEST :: str_id where "STR_ERR_INVALID_REQUEST \<equiv> 64"
abbreviation (input) STR_ERR_INVALID_MANIFEST :: str_id where "STR_ERR_INVALID_MANIFEST \<equiv> 63"
abbreviation (input) STR_ERR_UNSUPPORTED_PLATFORM :: str_id where "STR_ERR_UNSUPPORTED_PLATFORM \<equiv> 82"
abbreviation (input) STR_ERR_UNAUTHORIZED :: str_id where "STR_ERR_UNAUTHORIZED \<equiv> 80"
abbreviation (input) STR_ERR_DEVICE_REVOKED :: str_id where "STR_ERR_DEVICE_REVOKED \<equiv> 59"
abbreviation (input) STR_ERR_FORBIDDEN :: str_id where "STR_ERR_FORBIDDEN \<equiv> 61"
abbreviation (input) STR_ERR_NOT_FOUND :: str_id where "STR_ERR_NOT_FOUND \<equiv> 69"
abbreviation (input) STR_ERR_VERSION_CONFLICT :: str_id where "STR_ERR_VERSION_CONFLICT \<equiv> 84"
abbreviation (input) STR_ERR_SHARE_EXPIRED :: str_id where "STR_ERR_SHARE_EXPIRED \<equiv> 76"
abbreviation (input) STR_ERR_PAIRING_EXPIRED :: str_id where "STR_ERR_PAIRING_EXPIRED \<equiv> 71"
abbreviation (input) STR_ERR_PAIRING_PENDING :: str_id where "STR_ERR_PAIRING_PENDING \<equiv> 72"
abbreviation (input) STR_ERR_SAVE_TOO_LARGE :: str_id where "STR_ERR_SAVE_TOO_LARGE \<equiv> 75"
abbreviation (input) STR_ERR_CHECKSUM_MISMATCH :: str_id where "STR_ERR_CHECKSUM_MISMATCH \<equiv> 58"
abbreviation (input) STR_ERR_RATE_LIMITED :: str_id where "STR_ERR_RATE_LIMITED \<equiv> 74"
abbreviation (input) STR_ERR_INTERNAL_ERROR :: str_id where "STR_ERR_INTERNAL_ERROR \<equiv> 62"
abbreviation (input) STR_ERR_IO_ERROR :: str_id where "STR_ERR_IO_ERROR \<equiv> 65"
abbreviation (input) STR_ERR_OUT_OF_MEMORY :: str_id where "STR_ERR_OUT_OF_MEMORY \<equiv> 70"
abbreviation (input) STR_ERR_PARSE_ERROR :: str_id where "STR_ERR_PARSE_ERROR \<equiv> 73"
abbreviation (input) STR_ERR_NETWORK_ERROR :: str_id where "STR_ERR_NETWORK_ERROR \<equiv> 66"
abbreviation (input) STR_ERR_TIMEOUT :: str_id where "STR_ERR_TIMEOUT \<equiv> 77"
abbreviation (input) STR_ERR_BACKEND_ERROR :: str_id where "STR_ERR_BACKEND_ERROR \<equiv> 56"
abbreviation (input) STR_ERR_USER_CANCELLED :: str_id where "STR_ERR_USER_CANCELLED \<equiv> 83"
abbreviation (input) STR_ERR_NO_SPACE :: str_id where "STR_ERR_NO_SPACE \<equiv> 68"
abbreviation (input) STR_ERR_UNSUPPORTED :: str_id where "STR_ERR_UNSUPPORTED \<equiv> 81"
abbreviation (input) STR_ERR_ARCHIVE_ERROR :: str_id where "STR_ERR_ARCHIVE_ERROR \<equiv> 55"
abbreviation (input) STR_ERR_BUFFER_TOO_SMALL :: str_id where "STR_ERR_BUFFER_TOO_SMALL \<equiv> 57"
abbreviation (input) STR_ERR_EMPTY_SAVE :: str_id where "STR_ERR_EMPTY_SAVE \<equiv> 60"
abbreviation (input) STR_ERR_TLS_ERROR :: str_id where "STR_ERR_TLS_ERROR \<equiv> 79"
abbreviation (input) STR_SYNC_ACTION_UPLOAD :: str_id where "STR_SYNC_ACTION_UPLOAD \<equiv> 153"
abbreviation (input) STR_SYNC_ACTION_DOWNLOAD :: str_id where "STR_SYNC_ACTION_DOWNLOAD \<equiv> 151"
abbreviation (input) STR_SYNC_ACTION_CONFLICT :: str_id where "STR_SYNC_ACTION_CONFLICT \<equiv> 150"
abbreviation (input) STR_SYNC_ACTION_NONE :: str_id where "STR_SYNC_ACTION_NONE \<equiv> 152"
abbreviation (input) STR_WARN_GAME_RUNNING :: str_id where "STR_WARN_GAME_RUNNING \<equiv> 165"
abbreviation (input) STR_WARN_SECURE_VALUE :: str_id where "STR_WARN_SECURE_VALUE \<equiv> 166"
abbreviation (input) STR_CONFIRM_RESTORE :: str_id where "STR_CONFIRM_RESTORE \<equiv> 48"
abbreviation (input) STR_BACKUP_CREATING :: str_id where "STR_BACKUP_CREATING \<equiv> 10"
abbreviation (input) STR_BACKUP_FAILED :: str_id where "STR_BACKUP_FAILED \<equiv> 12"
abbreviation (input) STR_PROGRESS_VERIFYING :: str_id where "STR_PROGRESS_VERIFYING \<equiv> 128"
abbreviation (input) STR_VERIFY_FAILED :: str_id where "STR_VERIFY_FAILED \<equiv> 163"
abbreviation (input) STR_PROGRESS_UNPACKING :: str_id where "STR_PROGRESS_UNPACKING \<equiv> 126"
abbreviation (input) STR_COMMIT_FAILED :: str_id where "STR_COMMIT_FAILED \<equiv> 45"
abbreviation (input) STR_PROGRESS_PACKING :: str_id where "STR_PROGRESS_PACKING \<equiv> 125"
abbreviation (input) STR_PROGRESS_UPLOADING :: str_id where "STR_PROGRESS_UPLOADING \<equiv> 127"
abbreviation (input) STR_PROGRESS_DOWNLOADING :: str_id where "STR_PROGRESS_DOWNLOADING \<equiv> 124"
abbreviation (input) STR_CONFLICT_EXPLAIN :: str_id where "STR_CONFLICT_EXPLAIN \<equiv> 50"
abbreviation (input) STR_CONFLICT_KEEP_LOCAL :: str_id where "STR_CONFLICT_KEEP_LOCAL \<equiv> 52"
abbreviation (input) STR_CONFLICT_KEEP_SERVER :: str_id where "STR_CONFLICT_KEEP_SERVER \<equiv> 53"
abbreviation (input) STR_CONFLICT_KEEP_BOTH :: str_id where "STR_CONFLICT_KEEP_BOTH \<equiv> 51"
abbreviation (input) STR_CONFIRM_UPLOAD :: str_id where "STR_CONFIRM_UPLOAD \<equiv> 49"
abbreviation (input) STR_LANG_NAME :: str_id where "STR_LANG_NAME \<equiv> 94"
abbreviation (input) STR_WELCOME_WHAT :: str_id where "STR_WELCOME_WHAT \<equiv> 181"
abbreviation (input) STR_WELCOME_SAFE :: str_id where "STR_WELCOME_SAFE \<equiv> 179"
abbreviation (input) STR_WELCOME_WHEN :: str_id where "STR_WELCOME_WHEN \<equiv> 182"
abbreviation (input) STR_WELCOME_OPT_QR :: str_id where "STR_WELCOME_OPT_QR \<equiv> 176"
abbreviation (input) STR_WELCOME_OPT_CODE :: str_id where "STR_WELCOME_OPT_CODE \<equiv> 172"
abbreviation (input) STR_WELCOME_OPT_LATER :: str_id where "STR_WELCOME_OPT_LATER \<equiv> 174"
abbreviation (input) STR_WELCOME_OPT_QR_HINT :: str_id where "STR_WELCOME_OPT_QR_HINT \<equiv> 177"
abbreviation (input) STR_WELCOME_OPT_CODE_HINT :: str_id where "STR_WELCOME_OPT_CODE_HINT \<equiv> 173"
abbreviation (input) STR_WELCOME_OPT_LATER_HINT :: str_id where "STR_WELCOME_OPT_LATER_HINT \<equiv> 175"
abbreviation (input) STR_BATCH_BACKUP :: str_id where "STR_BATCH_BACKUP \<equiv> 17"
abbreviation (input) STR_BATCH_SYNC :: str_id where "STR_BATCH_SYNC \<equiv> 35"
abbreviation (input) STR_BATCH_BACKUP_HINT :: str_id where "STR_BATCH_BACKUP_HINT \<equiv> 19"
abbreviation (input) STR_BATCH_SYNC_HINT :: str_id where "STR_BATCH_SYNC_HINT \<equiv> 36"
abbreviation (input) STR_BATCH_POLICY_ASK :: str_id where "STR_BATCH_POLICY_ASK \<equiv> 27"
abbreviation (input) STR_BATCH_POLICY_LOCAL :: str_id where "STR_BATCH_POLICY_LOCAL \<equiv> 29"
abbreviation (input) STR_BATCH_POLICY_SERVER :: str_id where "STR_BATCH_POLICY_SERVER \<equiv> 31"
abbreviation (input) STR_BATCH_POLICY_ASK_HINT :: str_id where "STR_BATCH_POLICY_ASK_HINT \<equiv> 28"
abbreviation (input) STR_BATCH_POLICY_LOCAL_HINT :: str_id where "STR_BATCH_POLICY_LOCAL_HINT \<equiv> 30"
abbreviation (input) STR_BATCH_POLICY_SERVER_HINT :: str_id where "STR_BATCH_POLICY_SERVER_HINT \<equiv> 32"

section \<open>The table\<close>

record error_row =
  row_result :: result
  row_code :: bytes
  row_str_id :: str_id
  row_http :: int
  row_retryable :: bool

definition mk_row :: "result \<Rightarrow> bytes \<Rightarrow> str_id \<Rightarrow> int \<Rightarrow> bool \<Rightarrow> error_row" where
  "mk_row r c s h t = \<lparr>row_result = r, row_code = c, row_str_id = s, row_http = h, row_retryable = t\<rparr>"

definition k_errors :: "error_row list" where
  "k_errors = [
    mk_row ERR_INVALID_REQUEST ''invalid_request'' STR_ERR_INVALID_REQUEST 400 False,
    mk_row ERR_INVALID_MANIFEST ''invalid_manifest'' STR_ERR_INVALID_MANIFEST 400 False,
    mk_row ERR_UNSUPPORTED_PLATFORM ''unsupported_platform'' STR_ERR_UNSUPPORTED_PLATFORM 400 False,
    mk_row ERR_UNAUTHORIZED ''unauthorized'' STR_ERR_UNAUTHORIZED 401 False,
    mk_row ERR_DEVICE_REVOKED ''device_revoked'' STR_ERR_DEVICE_REVOKED 401 False,
    mk_row ERR_FORBIDDEN ''forbidden'' STR_ERR_FORBIDDEN 403 False,
    mk_row ERR_NOT_FOUND ''not_found'' STR_ERR_NOT_FOUND 404 False,
    mk_row ERR_VERSION_CONFLICT ''version_conflict'' STR_ERR_VERSION_CONFLICT 409 False,
    mk_row ERR_SHARE_EXPIRED ''share_expired'' STR_ERR_SHARE_EXPIRED 410 False,
    mk_row ERR_PAIRING_EXPIRED ''pairing_expired'' STR_ERR_PAIRING_EXPIRED 410 False,
    mk_row ERR_PAIRING_PENDING ''pairing_pending'' STR_ERR_PAIRING_PENDING 400 True,
    mk_row ERR_SAVE_TOO_LARGE ''save_too_large'' STR_ERR_SAVE_TOO_LARGE 413 False,
    mk_row ERR_CHECKSUM_MISMATCH ''checksum_mismatch'' STR_ERR_CHECKSUM_MISMATCH 422 False,
    mk_row ERR_RATE_LIMITED ''rate_limited'' STR_ERR_RATE_LIMITED 429 True,
    mk_row ERR_INTERNAL_ERROR ''internal_error'' STR_ERR_INTERNAL_ERROR 500 True,
    mk_row ERR_IO_ERROR ''io_error'' STR_ERR_IO_ERROR 0 False,
    mk_row ERR_OUT_OF_MEMORY ''out_of_memory'' STR_ERR_OUT_OF_MEMORY 0 False,
    mk_row ERR_PARSE_ERROR ''parse_error'' STR_ERR_PARSE_ERROR 0 False,
    mk_row ERR_NETWORK_ERROR ''network_error'' STR_ERR_NETWORK_ERROR 0 True,
    mk_row ERR_TIMEOUT ''timeout'' STR_ERR_TIMEOUT 0 True,
    mk_row ERR_BACKEND_ERROR ''backend_error'' STR_ERR_BACKEND_ERROR 0 False,
    mk_row ERR_USER_CANCELLED ''user_cancelled'' STR_ERR_USER_CANCELLED 0 False,
    mk_row ERR_NO_SPACE ''no_space'' STR_ERR_NO_SPACE 0 False,
    mk_row ERR_UNSUPPORTED ''unsupported'' STR_ERR_UNSUPPORTED 0 False,
    mk_row ERR_ARCHIVE_ERROR ''archive_error'' STR_ERR_ARCHIVE_ERROR 0 False,
    mk_row ERR_BUFFER_TOO_SMALL ''buffer_too_small'' STR_ERR_BUFFER_TOO_SMALL 0 False,
    mk_row ERR_EMPTY_SAVE ''empty_save'' STR_ERR_EMPTY_SAVE 0 False,
    mk_row ERR_TLS_ERROR ''tls_error'' STR_ERR_TLS_ERROR 0 False]"

definition find_row :: "result \<Rightarrow> error_row option" where
  "find_row r = find (\<lambda>row. row_result row = r) k_errors"

definition daemoon_result_code :: "result \<Rightarrow> bytes" where
  "daemoon_result_code r =
    (if r = OK then ''ok''
     else case find_row r of Some row \<Rightarrow> row_code row | None \<Rightarrow> ''internal_error'')"

text \<open>
  \<open>code\<close> is the buffer the caller points at (\<open>None\<close> for NULL); a length of 0 asks
  for the C string in it.
\<close>

definition daemoon_result_from_code :: "bytes option \<Rightarrow> nat \<Rightarrow> result" where
  "daemoon_result_from_code code len =
    (case code of None \<Rightarrow> ERR_INTERNAL_ERROR
     | Some c \<Rightarrow>
        (let s = (if len = 0 then cstr c else take len c)
         in case find (\<lambda>row. length (row_code row) = length s \<and> row_code row = s) k_errors of
              Some row \<Rightarrow> row_result row
            | None \<Rightarrow> ERR_INTERNAL_ERROR))"

definition daemoon_result_str_id :: "result \<Rightarrow> str_id" where
  "daemoon_result_str_id r =
    (case find_row r of Some row \<Rightarrow> row_str_id row | None \<Rightarrow> STR_ERR_INTERNAL_ERROR)"

definition daemoon_result_from_http :: "int \<Rightarrow> bytes option \<Rightarrow> nat \<Rightarrow> result" where
  "daemoon_result_from_http status code len =
    (if 200 \<le> status \<and> status < 300 then OK
     else if (case code of None \<Rightarrow> False | Some c \<Rightarrow> cstr c \<noteq> []) then daemoon_result_from_code code len
     else case find (\<lambda>row. row_http row = status) k_errors of
            Some row \<Rightarrow> row_result row
          | None \<Rightarrow> ERR_INTERNAL_ERROR)"

definition daemoon_result_retryable :: "result \<Rightarrow> bool" where
  "daemoon_result_retryable r =
    (case find_row r of Some row \<Rightarrow> row_retryable row | None \<Rightarrow> False)"

lemmas [result_defs] =
  find_row_def daemoon_result_code_def daemoon_result_from_code_def
  daemoon_result_str_id_def daemoon_result_from_http_def daemoon_result_retryable_def

section \<open>Consistency of the table\<close>

lemma all_errors_complete: "r = OK \<or> r \<in> set all_errors"
  by (cases r) (simp_all add: all_errors_def)

lemma rows_are_all_errors: "map row_result k_errors = all_errors"
  by (simp add: k_errors_def all_errors_def mk_row_def)

lemma row_codes_distinct: "distinct (map row_code k_errors)"
  by (simp add: k_errors_def mk_row_def)

lemma row_codes_nul_free: "row \<in> set k_errors \<Longrightarrow> nul_free (row_code row) \<and> row_code row \<noteq> []"
  by (auto simp: k_errors_def mk_row_def nul_free_def)

lemma row_result_not_ok: "row \<in> set k_errors \<Longrightarrow> row_result row \<noteq> OK"
  by (auto simp: k_errors_def mk_row_def)

lemma find_distinct_map:
  "distinct (map f xs) \<Longrightarrow> x \<in> set xs \<Longrightarrow> find (\<lambda>y. f y = f x) xs = Some x"
  by (induction xs) force+

lemma result_of_int_of_result: "result_of_int (int_of_result r) = Some r"
  by (cases r) (simp_all add: result_of_int_def all_errors_def)

lemma int_of_result_ok_iff: "int_of_result r = 0 \<longleftrightarrow> r = OK"
  by (cases r) simp_all

lemma find_row_Some:
  assumes "r \<noteq> OK"
  obtains row where "row \<in> set k_errors" "row_result row = r" "find_row r = Some row"
proof -
  have "r \<in> row_result ` set k_errors"
    using all_errors_complete [of r] assms by (simp flip: rows_are_all_errors)
  then obtain row where row: "row \<in> set k_errors" "row_result row = r" by auto
  have "distinct (map row_result k_errors)"
    by (simp add: rows_are_all_errors all_errors_def)
  with row find_distinct_map [of row_result k_errors row] that show thesis
    by (auto simp: find_row_def)
qed

lemma from_code_found:
  assumes "row \<in> set k_errors"
  shows "daemoon_result_from_code (Some (row_code row)) 0 = row_result row"
proof -
  have "find (\<lambda>r. length (row_code r) = length (row_code row) \<and> row_code r = row_code row) k_errors =
      find (\<lambda>r. row_code r = row_code row) k_errors"
    by (rule arg_cong [where f = "\<lambda>P. find P k_errors"]) auto
  then show ?thesis
    using assms find_distinct_map [OF row_codes_distinct assms] row_codes_nul_free [OF assms]
    by (simp add: daemoon_result_from_code_def)
qed

lemma from_code_not_ok: "daemoon_result_from_code code len \<noteq> OK"
  by (auto simp: daemoon_result_from_code_def Let_def row_result_not_ok
      dest!: find_Some_iff [THEN iffD1] split: option.splits)

section \<open>Property\<close>

text \<open>C30 The wire codes are faithful and fail safe: every failure is read back from its own code and the
  success spelling is no code at all, an unknown code never reads as success, and a response counts as
  a success exactly when its HTTP status is in the 200 range, whatever code its body claims.\<close>
theorem result_codes_faithful:
  "daemoon_result_from_code (Some (daemoon_result_code r)) 0 = (if r = OK then ERR_INTERNAL_ERROR else r) \<and>
   daemoon_result_from_code code len \<noteq> OK \<and>
   (daemoon_result_from_http status code len = OK) = (200 \<le> status \<and> status < 300) \<and>
   result_of_int (int_of_result r) = Some r"
proof (intro conjI)
  show "daemoon_result_from_code (Some (daemoon_result_code r)) 0 = (if r = OK then ERR_INTERNAL_ERROR else r)"
  proof (cases "r = OK")
    case True
    then show ?thesis
      by (simp add: daemoon_result_code_def daemoon_result_from_code_def k_errors_def mk_row_def cstr_Cons)
  next
    case False
    then obtain row where row: "row \<in> set k_errors" "row_result row = r" "find_row r = Some row"
      by (rule find_row_Some)
    with False have "daemoon_result_code r = row_code row" by (simp add: daemoon_result_code_def)
    with False from_code_found [OF row(1)] row(2) show ?thesis by simp
  qed
  have "row_result row \<noteq> OK" if "find (\<lambda>row. row_http row = status) k_errors = Some row" for row
    using that by (auto dest!: find_Some_iff [THEN iffD1] simp: row_result_not_ok)
  then show "(daemoon_result_from_http status code len = OK) = (200 \<le> status \<and> status < 300)"
    by (auto simp: daemoon_result_from_http_def from_code_not_ok split: option.splits)
qed (rule from_code_not_ok, rule result_of_int_of_result)

end
