(* ===== verification/Bits.thy ===== *)
theory Bits
  imports Prelude "HOL-Library.Word"
begin

unbundle bit_operations_syntax

text \<open>
  Masks and shifts on natural numbers as division and remainder. The collection
  \<open>mask_simps\<close> turns the mask tests of the UTF-8 decoder, the hex printers and the
  icon readers into ranges and linear arithmetic.
\<close>

named_theorems mask_simps \<open>masks and shifts as arithmetic\<close>

lemma and_mask_mod: "b AND mask k = (b :: nat) mod 2 ^ k"
  by (simp flip: take_bit_eq_mask take_bit_eq_mod)

lemma and_high_mask: "b AND push_bit m (mask k) = (b :: nat) div 2 ^ m mod 2 ^ k * 2 ^ m"
proof -
  have "b AND push_bit m (mask k) = push_bit m (take_bit k (drop_bit m b))"
    by (auto intro!: bit_eqI simp: bit_simps)
  then show ?thesis by (simp add: push_bit_eq_mult take_bit_eq_mod drop_bit_eq_div)
qed

lemma and_low_masks [mask_simps]:
  "b AND 1 = (b :: nat) mod 2"
  "b AND 7 = b mod 8"
  "b AND 0xf = b mod 16"
  "b AND 0x1f = b mod 32"
  "b AND 0x3f = b mod 64"
  "b AND 0xff = b mod 256"
  using and_mask_mod [of b 1] and_mask_mod [of b 3] and_mask_mod [of b 4] and_mask_mod [of b 5]
    and_mask_mod [of b 6] and_mask_mod [of b 8]
  by (simp_all add: mask_eq_exp_minus_1)

lemma and_c0: "b AND 0xc0 = (b :: nat) div 64 mod 4 * 64"
  using and_high_mask [of b 6 2] by (simp add: push_bit_eq_mult mask_eq_exp_minus_1)

lemma and_e0: "b AND 0xe0 = (b :: nat) div 32 mod 8 * 32"
  using and_high_mask [of b 5 3] by (simp add: push_bit_eq_mult mask_eq_exp_minus_1)

lemma and_f0: "b AND 0xf0 = (b :: nat) div 16 mod 16 * 16"
  using and_high_mask [of b 4 4] by (simp add: push_bit_eq_mult mask_eq_exp_minus_1)

lemma and_f8: "b AND 0xf8 = (b :: nat) div 8 mod 32 * 8"
  using and_high_mask [of b 3 5] by (simp add: push_bit_eq_mult mask_eq_exp_minus_1)

lemma div_eq_range:
  "0 < k \<Longrightarrow> (b :: nat) div k * k = q * k \<longleftrightarrow> k * q \<le> b \<and> b < k * Suc q"
  using dividend_less_times_div [of k b] by (auto intro: div_nat_eqI)

lemma byte_c0 [mask_simps]: "b < 256 \<Longrightarrow> b AND 0xc0 = (0x80 :: nat) \<longleftrightarrow> 128 \<le> b \<and> b < 192"
  using div_eq_range [of 64 b 2] by (simp add: and_c0)

lemma byte_e0 [mask_simps]: "b < 256 \<Longrightarrow> b AND 0xe0 = (0xc0 :: nat) \<longleftrightarrow> 192 \<le> b \<and> b < 224"
  using div_eq_range [of 32 b 6] by (simp add: and_e0)

lemma byte_f0 [mask_simps]: "b < 256 \<Longrightarrow> b AND 0xf0 = (0xe0 :: nat) \<longleftrightarrow> 224 \<le> b \<and> b < 240"
  using div_eq_range [of 16 b 14] by (simp add: and_f0)

lemma byte_f8 [mask_simps]: "b < 256 \<Longrightarrow> b AND 0xf8 = (0xf0 :: nat) \<longleftrightarrow> 240 \<le> b \<and> b < 248"
  using div_eq_range [of 8 b 30] by (simp add: and_f8)

text \<open>A shifted value and one that fits below it do not overlap: OR is addition.\<close>

lemma push_or_low: "(b :: nat) < 2 ^ n \<Longrightarrow> push_bit n a OR b = a * 2 ^ n + b"
proof -
  assume b: "b < 2 ^ n"
  then have "b = take_bit n b" by (simp add: take_bit_nat_eq_self)
  moreover have "push_bit n a OR take_bit n b = push_bit n a + take_bit n b"
    by (rule disjunctive_add [symmetric]) (auto simp: bit_simps)
  ultimately show ?thesis by (simp add: push_bit_eq_mult)
qed

lemma or_high: "(b :: nat) < 2 ^ n \<Longrightarrow> a * 2 ^ n OR b = a * 2 ^ n + b"
  using push_or_low [of b n a] by (simp add: push_bit_eq_mult)

lemma or_tags [mask_simps]:
  "b < 64 \<Longrightarrow> 0x80 OR b = 0x80 + (b :: nat)"
  "b < 32 \<Longrightarrow> 0xc0 OR b = 0xc0 + (b :: nat)"
  "b < 16 \<Longrightarrow> 0xe0 OR b = 0xe0 + (b :: nat)"
  "b < 8 \<Longrightarrow> 0xf0 OR b = 0xf0 + (b :: nat)"
  using or_high [of b 6 2] or_high [of b 5 6] or_high [of b 4 14] or_high [of b 3 30] by simp_all

end
