(* ===== verification/Utf8.thy ===== *)
theory Utf8
  imports Bits
begin

unbundle bit_operations_syntax

text \<open>
  \<open>core/src/util/utf8.c\<close>: decoding, validation, truncation and display width of UTF-8.

  A pointer with a length is the list of the bytes it covers. The model computes with the
  source's masks and shifts on natural numbers; a code point has at most 21 bits, so nothing
  wraps. \<open>utf8_enc\<close> is the specification side, the standard's encoding of a scalar value:
  the decoder accepts exactly its images, so valid text is the concatenation of the encodings
  of a unique list of scalar values.
\<close>

section \<open>The decoder\<close>

text \<open>The branch on the lead byte of \<open>seq_len\<close>: the length it announces and its payload bits.\<close>

definition utf8_lead :: "nat \<Rightarrow> (nat \<times> nat) option" where
  "utf8_lead b =
    (if b < 0x80 then Some (1, b)
     else if b AND 0xe0 = 0xc0 then Some (2, b AND 0x1f)
     else if b AND 0xf0 = 0xe0 then Some (3, b AND 0x0f)
     else if b AND 0xf8 = 0xf0 then Some (4, b AND 0x07)
     else None)"

text \<open>The loop over the continuation bytes.\<close>

fun utf8_conts :: "nat \<Rightarrow> nat \<Rightarrow> bytes \<Rightarrow> nat option" where
  "utf8_conts 0 cp s = Some cp"
| "utf8_conts (Suc k) cp [] = None"
| "utf8_conts (Suc k) cp (c # s) =
    (if u8 c AND 0xc0 \<noteq> 0x80 then None
     else utf8_conts k (push_bit 6 cp OR (u8 c AND 0x3f)) s)"

text \<open>The two rejections at the end of \<open>seq_len\<close>.\<close>

definition utf8_overlong :: "nat \<Rightarrow> nat \<Rightarrow> bool" where
  "utf8_overlong need cp \<longleftrightarrow>
    need = 2 \<and> cp < 0x80 \<or> need = 3 \<and> cp < 0x800 \<or> need = 4 \<and> cp < 0x10000"

definition utf8_out_of_range :: "nat \<Rightarrow> bool" where
  "utf8_out_of_range cp \<longleftrightarrow> cp > 0x10ffff \<or> 0xd800 \<le> cp \<and> cp \<le> 0xdfff"

text \<open>\<open>None\<close> where \<open>seq_len\<close> returns 0, otherwise the length and the code point.\<close>

definition seq_len :: "bytes \<Rightarrow> (nat \<times> nat) option" where
  "seq_len s =
    (case s of [] \<Rightarrow> None
     | b # rest \<Rightarrow>
        (case utf8_lead (u8 b) of None \<Rightarrow> None
         | Some (need, cp0) \<Rightarrow>
            if need > length s then None
            else
              (case utf8_conts (need - 1) cp0 rest of None \<Rightarrow> None
               | Some cp \<Rightarrow>
                  if utf8_overlong need cp then None
                  else if utf8_out_of_range cp then None
                  else Some (need, cp))))"

lemma utf8_lead_bounds: "utf8_lead b = Some (n, cp) \<Longrightarrow> 1 \<le> n \<and> n \<le> 4"
  by (auto simp: utf8_lead_def split: if_splits)

lemma seq_len_bounds:
  "seq_len s = Some (n, cp) \<Longrightarrow> 1 \<le> n \<and> n \<le> 4 \<and> n \<le> length s"
  by (auto simp: seq_len_def split: list.splits option.splits if_splits dest!: utf8_lead_bounds)

lemma seq_len_pos [simp]: "seq_len s = Some (n, cp) \<Longrightarrow> s \<noteq> [] \<and> 0 < n"
  by (auto dest: seq_len_bounds)

section \<open>Operations\<close>

function utf8_valid_loop :: "bytes \<Rightarrow> bool" where
  "utf8_valid_loop s =
    (if s = [] then True
     else case seq_len s of None \<Rightarrow> False | Some (n, _) \<Rightarrow> utf8_valid_loop (drop n s))"
  by pat_completeness auto
termination
  by (relation "measure length") (auto dest: seq_len_pos)

definition daemoon_utf8_valid :: "bytes option \<Rightarrow> bool" where
  "daemoon_utf8_valid s = (case s of None \<Rightarrow> False | Some bs \<Rightarrow> utf8_valid_loop bs)"

text \<open>How far a walk over the text steps: a sequence, or one byte of anything else.\<close>

definition seq_step :: "bytes \<Rightarrow> nat" where
  "seq_step s = (case seq_len s of None \<Rightarrow> 1 | Some (n, _) \<Rightarrow> n)"

lemma seq_step_pos [simp]: "0 < seq_step s"
  by (auto simp: seq_step_def split: option.splits)

lemma seq_step_le: "s \<noteq> [] \<Longrightarrow> seq_step s \<le> length s"
  by (auto simp: seq_step_def Suc_le_eq split: option.splits dest: seq_len_bounds)

function daemoon_utf8_length :: "bytes \<Rightarrow> nat" where
  "daemoon_utf8_length s =
    (if s = [] then 0 else Suc (daemoon_utf8_length (drop (seq_step s) s)))"
  by pat_completeness auto
termination
  by (relation "measure length") auto

definition daemoon_utf8_decode :: "bytes \<Rightarrow> nat \<times> nat" where
  "daemoon_utf8_decode s =
    (if s = [] then (0, 0)
     else case seq_len s of None \<Rightarrow> (1, 0xfffd) | Some (n, cp) \<Rightarrow> (n, cp))"

text \<open>\<open>i\<close> is the offset of \<open>s\<close>, the part not walked yet.\<close>

function utf8_truncate_loop :: "bytes \<Rightarrow> nat \<Rightarrow> nat \<Rightarrow> nat" where
  "utf8_truncate_loop s i max_bytes =
    (if s = [] then i
     else if i + seq_step s > max_bytes then i
     else utf8_truncate_loop (drop (seq_step s) s) (i + seq_step s) max_bytes)"
  by pat_completeness auto
termination
  by (relation "measure (\<lambda>(s, _). length s)") auto

definition daemoon_utf8_truncate :: "bytes \<Rightarrow> nat \<Rightarrow> nat" where
  "daemoon_utf8_truncate s max_bytes =
    (if max_bytes \<ge> length s then length s else utf8_truncate_loop s 0 max_bytes)"

text \<open>The length a byte announces as the lead of a sequence, 0 for none.\<close>

definition utf8_announced :: "nat \<Rightarrow> nat" where
  "utf8_announced b =
    (if b AND 0xe0 = 0xc0 then 2
     else if b AND 0xf0 = 0xe0 then 3
     else if b AND 0xf8 = 0xf0 then 4
     else 0)"

function utf8_trim_loop :: "bytes \<Rightarrow> nat \<Rightarrow> nat" where
  "utf8_trim_loop s i =
    (if s = [] then i
     else case seq_len s of
        Some (n, _) \<Rightarrow> utf8_trim_loop (drop n s) (i + n)
      | None \<Rightarrow>
          (let need = utf8_announced (u8 (hd s))
           in if need > 0 \<and> length s < need then i
              else utf8_trim_loop (drop 1 s) (i + 1)))"
  by pat_completeness auto
termination
  by (relation "measure (\<lambda>(s, _). length s)") (auto dest: seq_len_pos)

definition daemoon_utf8_trim_partial :: "bytes \<Rightarrow> nat" where
  "daemoon_utf8_trim_partial s = utf8_trim_loop s 0"

definition cp_width :: "nat \<Rightarrow> nat" where
  "cp_width cp =
    (if cp = 0 then 0
     else if 0x0300 \<le> cp \<and> cp \<le> 0x036f \<or> cp = 0x200b \<or> cp = 0x200d \<or> 0xfe00 \<le> cp \<and> cp \<le> 0xfe0f
     then 0
     else if 0x1100 \<le> cp \<and> cp \<le> 0x115f \<or> 0x2e80 \<le> cp \<and> cp \<le> 0xa4cf \<or>
        0xac00 \<le> cp \<and> cp \<le> 0xd7a3 \<or> 0xf900 \<le> cp \<and> cp \<le> 0xfaff \<or>
        0xfe30 \<le> cp \<and> cp \<le> 0xfe6f \<or> 0xff00 \<le> cp \<and> cp \<le> 0xff60 \<or>
        0xffe0 \<le> cp \<and> cp \<le> 0xffe6 \<or> 0x1f300 \<le> cp \<and> cp \<le> 0x1f64f \<or>
        0x20000 \<le> cp \<and> cp \<le> 0x3fffd
     then 2
     else 1)"

lemma utf8_decode_pos: "s \<noteq> [] \<Longrightarrow> 0 < fst (daemoon_utf8_decode s)"
  by (auto simp: daemoon_utf8_decode_def split: option.splits)

function utf8_width_loop :: "bytes \<Rightarrow> nat \<Rightarrow> nat" where
  "utf8_width_loop s w =
    (if s = [] then w
     else case daemoon_utf8_decode s of
        (n, cp) \<Rightarrow> if n = 0 then w else utf8_width_loop (drop n s) (w + cp_width cp))"
  by pat_completeness auto
termination
  by (relation "measure (\<lambda>(s, _). length s)") auto

definition daemoon_utf8_width :: "bytes \<Rightarrow> nat" where
  "daemoon_utf8_width s = utf8_width_loop s 0"

declare utf8_valid_loop.simps [simp del] daemoon_utf8_length.simps [simp del]
  utf8_truncate_loop.simps [simp del] utf8_trim_loop.simps [simp del] utf8_width_loop.simps [simp del]

section \<open>Specification: the encoding of a scalar value\<close>

definition scalar :: "nat \<Rightarrow> bool" where
  "scalar cp \<longleftrightarrow> cp \<le> 0x10ffff \<and> \<not> (0xd800 \<le> cp \<and> cp \<le> 0xdfff)"

definition utf8_enc :: "nat \<Rightarrow> bytes" where
  "utf8_enc cp =
    (if cp < 0x80 then [byte cp]
     else if cp < 0x800 then [byte (0xc0 + cp div 64), byte (0x80 + cp mod 64)]
     else if cp < 0x10000 then
       [byte (0xe0 + cp div 4096), byte (0x80 + cp div 64 mod 64), byte (0x80 + cp mod 64)]
     else
       [byte (0xf0 + cp div 262144), byte (0x80 + cp div 4096 mod 64),
        byte (0x80 + cp div 64 mod 64), byte (0x80 + cp mod 64)])"

lemma utf8_lead_arith:
  "b < 256 \<Longrightarrow> utf8_lead b =
    (if b < 128 then Some (1, b)
     else if 192 \<le> b \<and> b < 224 then Some (2, b mod 32)
     else if 224 \<le> b \<and> b < 240 then Some (3, b mod 16)
     else if 240 \<le> b \<and> b < 248 then Some (4, b mod 8)
     else None)"
  by (simp add: utf8_lead_def mask_simps)

lemma utf8_announced_arith:
  "b < 256 \<Longrightarrow> utf8_announced b =
    (if 192 \<le> b \<and> b < 224 then 2 else if 224 \<le> b \<and> b < 240 then 3
     else if 240 \<le> b \<and> b < 248 then 4 else 0)"
  by (simp add: utf8_announced_def mask_simps)

lemma push_or_arith: "push_bit 6 cp OR (b AND 0x3f) = cp * 64 + b mod (64 :: nat)"
  using push_or_low [of "b mod 64" 6 cp] by (simp add: mask_simps)

lemma utf8_conts_Suc:
  "utf8_conts (Suc k) cp (c # s) =
    (if 128 \<le> u8 c \<and> u8 c < 192 then utf8_conts k (cp * 64 + u8 c mod 64) s else None)"
  using push_or_arith [of cp "u8 c"] by (simp add: mask_simps)

declare utf8_conts.simps(3) [simp del]

section \<open>The decoder accepts exactly the encodings\<close>

lemma add_multiple_mod: "(k * m + q) mod m = (q :: nat) mod m"
  by simp

lemma cont_byte_of [simp]:
  "128 \<le> u8 (byte (128 + x mod 64)) \<and> u8 (byte (128 + x mod 64)) < 192"
  "u8 (byte (128 + x mod 64)) mod 64 = x mod 64"
proof -
  have "128 + x mod 64 < 192" by simp
  then have "u8 (byte (128 + x mod 64)) = 128 + x mod 64" by simp
  then show "128 \<le> u8 (byte (128 + x mod 64)) \<and> u8 (byte (128 + x mod 64)) < 192"
    "u8 (byte (128 + x mod 64)) mod 64 = x mod 64"
    using add_multiple_mod [of 2 64 "x mod 64"] by simp_all
qed

lemma lead_bytes:
  "q < 128 \<Longrightarrow> utf8_lead (u8 (byte q)) = Some (1, q)"
  "q < 32 \<Longrightarrow> utf8_lead (u8 (byte (192 + q))) = Some (2, q)"
  "q < 16 \<Longrightarrow> utf8_lead (u8 (byte (224 + q))) = Some (3, q)"
  "q < 8 \<Longrightarrow> utf8_lead (u8 (byte (240 + q))) = Some (4, q)"
  using add_multiple_mod [of 6 32 q] add_multiple_mod [of 14 16 q] add_multiple_mod [of 30 8 q]
  by (simp_all add: utf8_lead_arith)

lemma conts_1:
  "utf8_conts (Suc 0) cp (byte (128 + x mod 64) # s) = Some (cp * 64 + x mod 64)"
  by (simp add: utf8_conts_Suc del: u8_byte)

lemma conts_2:
  "utf8_conts 2 cp (byte (128 + x mod 64) # byte (128 + y mod 64) # s) =
    Some ((cp * 64 + x mod 64) * 64 + y mod 64)"
  by (simp add: numeral_2_eq_2 utf8_conts_Suc del: u8_byte)

lemma conts_3:
  "utf8_conts 3 cp (byte (128 + x mod 64) # byte (128 + y mod 64) # byte (128 + z mod 64) # s) =
    Some (((cp * 64 + x mod 64) * 64 + y mod 64) * 64 + z mod 64)"
  by (simp add: numeral_3_eq_3 utf8_conts_Suc del: u8_byte)

lemma length_utf8_enc:
  "length (utf8_enc cp) = (if cp < 0x80 then 1 else if cp < 0x800 then 2 else if cp < 0x10000 then 3 else 4)"
  by (simp add: utf8_enc_def)

lemma utf8_enc_nonempty [simp]: "utf8_enc cp \<noteq> []"
  by (simp add: utf8_enc_def)

lemma seq_len_enc:
  assumes "scalar cp"
  shows "seq_len (utf8_enc cp @ rest) = Some (length (utf8_enc cp), cp)"
proof -
  have div2: "cp div 4096 = cp div 64 div 64" "cp div 262144 = cp div 64 div 64 div 64"
    by (simp_all add: div_mult2_eq [symmetric])
  consider "cp < 0x80" | "0x80 \<le> cp" "cp < 0x800" | "0x800 \<le> cp" "cp < 0x10000"
    | "0x10000 \<le> cp" "cp < 0x110000"
    using assms by (fastforce simp: scalar_def)
  then show ?thesis
  proof cases
    case 1
    then have "utf8_lead (u8 (byte cp)) = Some (1, cp)" by (simp only: lead_bytes)
    with 1 assms show ?thesis by (simp add: utf8_enc_def seq_len_def utf8_overlong_def utf8_out_of_range_def scalar_def del: u8_byte)
  next
    case 2
    then have "utf8_lead (u8 (byte (192 + cp div 64))) = Some (2, cp div 64)"
      by (intro lead_bytes) simp
    with 2 assms show ?thesis
      by (simp add: utf8_enc_def seq_len_def utf8_overlong_def utf8_out_of_range_def scalar_def conts_1 del: u8_byte)
  next
    case 3
    then have "utf8_lead (u8 (byte (224 + cp div 4096))) = Some (3, cp div 4096)"
      by (intro lead_bytes) simp
    moreover have "(cp div 4096 * 64 + cp div 64 mod 64) * 64 + cp mod 64 = cp"
      unfolding div2 by (simp only: div_mult_mod_eq)
    ultimately show ?thesis using 3 assms
      by (simp add: utf8_enc_def seq_len_def utf8_overlong_def utf8_out_of_range_def scalar_def conts_2 del: u8_byte)
  next
    case 4
    then have "utf8_lead (u8 (byte (240 + cp div 262144))) = Some (4, cp div 262144)"
      by (intro lead_bytes) simp
    moreover have "((cp div 262144 * 64 + cp div 4096 mod 64) * 64 + cp div 64 mod 64) * 64 + cp mod 64 = cp"
      unfolding div2 by (simp only: div_mult_mod_eq)
    ultimately show ?thesis using 4 assms
      by (simp add: utf8_enc_def seq_len_def utf8_overlong_def utf8_out_of_range_def scalar_def conts_3 del: u8_byte)
  qed
qed

text \<open>A continuation byte is determined by its low six bits.\<close>

lemma cont_byte_eq:
  assumes "128 \<le> u8 c" "u8 c < 192"
  shows "c = byte (128 + u8 c mod 64)"
proof -
  have "128 + u8 c mod 64 = u8 c"
    using assms add_multiple_mod [of 2 64 "u8 c - 128"] by simp
  then show ?thesis by (metis byte_u8)
qed

lemma conts_Some_cons:
  "utf8_conts (Suc k) cp s = Some v \<longleftrightarrow>
    (\<exists>x s'. x < 64 \<and> s = byte (128 + x) # s' \<and> utf8_conts k (cp * 64 + x) s' = Some v)"
proof (cases s)
  case Nil
  then show ?thesis by simp
next
  case (Cons c s')
  show ?thesis
  proof
    assume "utf8_conts (Suc k) cp s = Some v"
    then have c: "128 \<le> u8 c" "u8 c < 192" and v: "utf8_conts k (cp * 64 + u8 c mod 64) s' = Some v"
      by (auto simp: Cons utf8_conts_Suc split: if_splits)
    then show "\<exists>x s'. x < 64 \<and> s = byte (128 + x) # s' \<and> utf8_conts k (cp * 64 + x) s' = Some v"
      using cont_byte_eq [OF c] by (intro exI [of _ "u8 c mod 64"] exI [of _ s']) (simp add: Cons)
  next
    assume "\<exists>x s'. x < 64 \<and> s = byte (128 + x) # s' \<and> utf8_conts k (cp * 64 + x) s' = Some v"
    then obtain x s'' where "x < 64" "s = byte (128 + x) # s''" "utf8_conts k (cp * 64 + x) s'' = Some v"
      by blast
    moreover from \<open>x < 64\<close> have "x mod 64 = x" by simp
    ultimately show "utf8_conts (Suc k) cp s = Some v"
      using cont_byte_of [of x] by (simp add: utf8_conts_Suc del: u8_byte)
  qed
qed

lemma base_digit: "y < m \<Longrightarrow> (a * m + y) div m = a \<and> (a * m + y) mod m = (y :: nat)"
  by (cases "m = 0") simp_all

lemma low_bits: "k * m \<le> b \<Longrightarrow> b < k * m + m \<Longrightarrow> k * m + b mod m = (b :: nat)"
  using add_multiple_mod [of k m "b - k * m"] by simp

lemma lead_sound:
  assumes "utf8_lead (u8 b) = Some (n, q)"
  shows "n = 1 \<and> q < 128 \<and> b = byte q \<or> n = 2 \<and> q < 32 \<and> b = byte (192 + q) \<or>
    n = 3 \<and> q < 16 \<and> b = byte (224 + q) \<or> n = 4 \<and> q < 8 \<and> b = byte (240 + q)"
proof -
  have q1: "192 + u8 b mod 32 = u8 b" if "192 \<le> u8 b" "u8 b < 224"
    using low_bits [of 6 32 "u8 b"] that by linarith
  have q2: "224 + u8 b mod 16 = u8 b" if "224 \<le> u8 b" "u8 b < 240"
    using low_bits [of 14 16 "u8 b"] that by linarith
  have q3: "240 + u8 b mod 8 = u8 b" if "240 \<le> u8 b" "u8 b < 248"
    using low_bits [of 30 8 "u8 b"] that by linarith
  have eq: "utf8_lead (u8 b) =
    (if u8 b < 128 then Some (1, u8 b)
     else if 192 \<le> u8 b \<and> u8 b < 224 then Some (2, u8 b mod 32)
     else if 224 \<le> u8 b \<and> u8 b < 240 then Some (3, u8 b mod 16)
     else if 240 \<le> u8 b \<and> u8 b < 248 then Some (4, u8 b mod 8) else None)"
    by (rule utf8_lead_arith) simp
  consider "u8 b < 128" | "192 \<le> u8 b" "u8 b < 224" | "224 \<le> u8 b" "u8 b < 240"
    | "240 \<le> u8 b" "u8 b < 248"
    using assms eq by (auto split: if_splits)
  then show ?thesis
  proof cases
    case 1
    with assms eq have "n = 1 \<and> q = u8 b" by simp
    with 1 show ?thesis by simp
  next
    case 2
    with assms eq have "n = 2 \<and> q = u8 b mod 32" by simp
    with 2 q1 show ?thesis by (metis byte_u8 mod_less_divisor zero_less_numeral)
  next
    case 3
    with assms eq have "n = 3 \<and> q = u8 b mod 16" by simp
    with 3 q2 show ?thesis by (metis byte_u8 mod_less_divisor zero_less_numeral)
  next
    case 4
    with assms eq have "n = 4 \<and> q = u8 b mod 8" by simp
    with 4 q3 show ?thesis by (metis byte_u8 mod_less_divisor zero_less_numeral)
  qed
qed

lemma seq_len_sound:
  assumes "seq_len s = Some (n, cp)"
  shows "scalar cp \<and> n = length (utf8_enc cp) \<and> s = utf8_enc cp @ drop n s"
proof -
  obtain b rest where s: "s = b # rest"
    using assms by (cases s) (simp_all add: seq_len_def)
  obtain need q where lead: "utf8_lead (u8 b) = Some (need, q)"
    using assms by (cases "utf8_lead (u8 b)") (auto simp: seq_len_def s)
  have "\<not> need > length s"
    using assms by (simp add: seq_len_def s lead split: if_splits)
  moreover obtain v where conts: "utf8_conts (need - 1) q rest = Some v"
    using assms by (cases "utf8_conts (need - 1) q rest") (simp_all add: seq_len_def s lead split: if_splits)
  ultimately have long: "\<not> utf8_overlong need cp" and range: "\<not> utf8_out_of_range cp"
    and n: "n = need" and v: "v = cp"
    using assms by (simp_all add: seq_len_def s lead split: if_splits)
  note conts = conts [unfolded v]
  have "scalar cp" using range by (auto simp: scalar_def utf8_out_of_range_def)
  from lead_sound [OF lead] consider
      "need = 1" "q < 128" "b = byte q" | "need = 2" "q < 32" "b = byte (192 + q)"
    | "need = 3" "q < 16" "b = byte (224 + q)" | "need = 4" "q < 8" "b = byte (240 + q)"
    by blast
  then show ?thesis
  proof cases
    case 1
    with conts s n \<open>scalar cp\<close> show ?thesis by (simp add: utf8_enc_def utf8_overlong_def)
  next
    case 2
    with conts obtain x s' where x: "x < 64" "rest = byte (128 + x) # s'" "cp = q * 64 + x"
      by (auto simp: conts_Some_cons)
    have "cp < 0x800" using 2 x by simp
    moreover have "cp div 64 = q" "cp mod 64 = x" using x by simp_all
    ultimately show ?thesis using 2 s n x(2) long \<open>scalar cp\<close> by (simp add: utf8_enc_def utf8_overlong_def)
  next
    case 3
    then have "need - 1 = Suc (Suc 0)" by simp
    with conts obtain x y s' where x: "x < 64" "y < 64" "rest = byte (128 + x) # byte (128 + y) # s'"
        "cp = (q * 64 + x) * 64 + y"
      by (auto simp: conts_Some_cons)
    have "cp < 0x10000" using 3 x by simp
    moreover have "cp div 64 = q * 64 + x" "cp mod 64 = y"
      using base_digit [OF x(2), of "q * 64 + x"] x(4) by simp_all
    moreover from this have "cp div 4096 = q" "cp div 64 mod 64 = x"
      using base_digit [OF x(1), of q] div_mult2_eq [of cp 64 64] by simp_all
    ultimately show ?thesis using 3 s n x(3) long \<open>scalar cp\<close> by (simp add: utf8_enc_def utf8_overlong_def)
  next
    case 4
    then have "need - 1 = Suc (Suc (Suc 0))" by simp
    with conts obtain x y z s' where x: "x < 64" "y < 64" "z < 64"
        "rest = byte (128 + x) # byte (128 + y) # byte (128 + z) # s'"
        "cp = ((q * 64 + x) * 64 + y) * 64 + z"
      by (auto simp: conts_Some_cons)
    have "cp div 64 = (q * 64 + x) * 64 + y" "cp mod 64 = z"
      using base_digit [OF x(3), of "(q * 64 + x) * 64 + y"] x(5) by simp_all
    moreover from this have "cp div 4096 = q * 64 + x" "cp div 64 mod 64 = y"
      using base_digit [OF x(2), of "q * 64 + x"] div_mult2_eq [of cp 64 64] by simp_all
    moreover from this have "cp div 262144 = q" "cp div 4096 mod 64 = x"
      using base_digit [OF x(1), of q] div_mult2_eq [of cp 4096 64] by simp_all
    ultimately show ?thesis using 4 s n x(4) long \<open>scalar cp\<close> by (simp add: utf8_enc_def utf8_overlong_def)
  qed
qed

section \<open>Valid text\<close>

abbreviation utf8_text :: "nat list \<Rightarrow> bytes" where
  "utf8_text cps \<equiv> concat (map utf8_enc cps)"

lemma utf8_valid_text: "list_all scalar cps \<Longrightarrow> utf8_valid_loop (utf8_text cps)"
proof (induction cps)
  case Nil
  then show ?case by (simp add: utf8_valid_loop.simps)
next
  case (Cons cp cps)
  then show ?case
    using seq_len_enc [of cp "utf8_text cps"] by (subst utf8_valid_loop.simps) simp
qed

lemma utf8_valid_loop_text: "utf8_valid_loop s \<Longrightarrow> \<exists>cps. list_all scalar cps \<and> s = utf8_text cps"
proof (induction s rule: utf8_valid_loop.induct)
  case (1 s)
  show ?case
  proof (cases "s = []")
    case True
    then show ?thesis by (intro exI [of _ "[]"]) simp
  next
    case False
    with "1.prems" obtain n cp where sl: "seq_len s = Some (n, cp)" "utf8_valid_loop (drop n s)"
      by (subst (asm) utf8_valid_loop.simps) (auto split: option.splits)
    with "1.IH" [OF False sl(1)] obtain cps where "list_all scalar cps" "drop n s = utf8_text cps"
      by auto
    with seq_len_sound [OF sl(1)] show ?thesis by (intro exI [of _ "cp # cps"]) auto
  qed
qed

lemma utf8_valid_iff:
  "daemoon_utf8_valid (Some s) \<longleftrightarrow> (\<exists>cps. list_all scalar cps \<and> s = utf8_text cps)"
  using utf8_valid_text utf8_valid_loop_text by (auto simp: daemoon_utf8_valid_def)

lemma utf8_enc_inj:
  assumes "scalar a" "scalar b" "utf8_enc a @ r = utf8_enc b @ s"
  shows "a = b \<and> r = s"
  using seq_len_enc [OF assms(1), of r] seq_len_enc [OF assms(2), of s] assms(3) by auto

lemma utf8_text_inj:
  assumes "list_all scalar as" "list_all scalar bs" "utf8_text as = utf8_text bs"
  shows "as = bs"
  using assms by (intro concat_map_inj [of as bs utf8_enc]) (auto simp: list_all_iff dest: utf8_enc_inj)

lemma seq_step_enc: "scalar cp \<Longrightarrow> seq_step (utf8_enc cp @ rest) = length (utf8_enc cp)"
  by (simp add: seq_step_def seq_len_enc)

lemma utf8_length_text: "list_all scalar cps \<Longrightarrow> daemoon_utf8_length (utf8_text cps) = length cps"
proof (induction cps)
  case Nil
  then show ?case by (simp add: daemoon_utf8_length.simps)
next
  case (Cons cp cps)
  then show ?case
    using seq_step_enc [of cp "utf8_text cps"] by (subst daemoon_utf8_length.simps) simp
qed

section \<open>Cutting text\<close>

text \<open>What a cut keeps: the code points that fit whole.\<close>

fun fitting :: "nat \<Rightarrow> nat list \<Rightarrow> nat list" where
  "fitting room [] = []"
| "fitting room (cp # cps) =
    (if length (utf8_enc cp) \<le> room then cp # fitting (room - length (utf8_enc cp)) cps else [])"

lemma fitting_prefix: "\<exists>rest. cps = fitting room cps @ rest"
  by (induction room cps rule: fitting.induct) auto

lemma fitting_length: "length (utf8_text (fitting room cps)) \<le> room"
  by (induction room cps rule: fitting.induct) auto

lemma fitting_all: "length (utf8_text cps) \<le> room \<Longrightarrow> fitting room cps = cps"
  by (induction room cps rule: fitting.induct) auto

lemma fitting_maximal:
  "cps = as @ bs \<Longrightarrow> length (utf8_text as) \<le> room \<Longrightarrow>
    length (utf8_text as) \<le> length (utf8_text (fitting room cps))"
proof (induction room cps arbitrary: as rule: fitting.induct)
  case (1 room)
  then show ?case by simp
next
  case (2 room cp cps)
  then show ?case by (cases as) auto
qed

lemma truncate_loop_text:
  "list_all scalar cps \<Longrightarrow> i \<le> m \<Longrightarrow>
    utf8_truncate_loop (utf8_text cps) i m = i + length (utf8_text (fitting (m - i) cps))"
proof (induction cps arbitrary: i)
  case Nil
  then show ?case by (simp add: utf8_truncate_loop.simps)
next
  case (Cons cp cps)
  let ?n = "length (utf8_enc cp)"
  have step: "seq_step (utf8_text (cp # cps)) = ?n"
    using Cons.prems seq_step_enc [of cp "utf8_text cps"] by simp
  show ?case
  proof (cases "i + ?n \<le> m")
    case True
    then have "utf8_truncate_loop (utf8_text cps) (i + ?n) m =
        i + ?n + length (utf8_text (fitting (m - (i + ?n)) cps))"
      using Cons.prems by (intro Cons.IH) simp_all
    with True step show ?thesis
      by (subst utf8_truncate_loop.simps) (simp add: diff_diff_eq)
  next
    case False
    with Cons.prems have "\<not> ?n \<le> m - i" by simp
    with False step show ?thesis by (subst utf8_truncate_loop.simps) simp
  qed
qed

lemma truncate_text:
  "list_all scalar cps \<Longrightarrow>
    daemoon_utf8_truncate (utf8_text cps) m = length (utf8_text (fitting m cps))"
  by (simp add: daemoon_utf8_truncate_def truncate_loop_text fitting_all)

lemma take_truncate_text:
  assumes "list_all scalar cps"
  shows "take (daemoon_utf8_truncate (utf8_text cps) m) (utf8_text cps) = utf8_text (fitting m cps)"
proof -
  obtain rest where rest: "cps = fitting m cps @ rest" using fitting_prefix by blast
  have "utf8_text cps = utf8_text (fitting m cps) @ utf8_text rest"
    by (subst rest) simp
  then show ?thesis by (metis append_eq_conv_conj truncate_text [OF assms])
qed

lemma truncate_le: "daemoon_utf8_truncate s m \<le> length s"
proof -
  have "i \<le> utf8_truncate_loop s i m \<and> utf8_truncate_loop s i m \<le> i + length s" for i
  proof (induction s i m rule: utf8_truncate_loop.induct)
    case (1 s i m)
    then show ?case
      using seq_step_le [of s] by (subst (1 2) utf8_truncate_loop.simps) auto
  qed
  from this [of 0] show ?thesis by (simp add: daemoon_utf8_truncate_def)
qed

lemma truncate_le_max: "m < length s \<Longrightarrow> daemoon_utf8_truncate s m \<le> m"
proof -
  have "i \<le> m \<Longrightarrow> utf8_truncate_loop s i m \<le> m" for i
  proof (induction s i m rule: utf8_truncate_loop.induct)
    case (1 s i m)
    then show ?case by (subst utf8_truncate_loop.simps) auto
  qed
  then show "m < length s \<Longrightarrow> ?thesis" by (simp add: daemoon_utf8_truncate_def)
qed

lemma announced_lead: "utf8_lead b = Some (n, q) \<Longrightarrow> b < 256 \<Longrightarrow> 2 \<le> n \<Longrightarrow> utf8_announced b = n"
  by (auto simp: utf8_lead_arith utf8_announced_arith split: if_splits)

lemma enc_lead:
  assumes "scalar cp"
  shows "\<exists>q. utf8_lead (u8 (hd (utf8_enc cp))) = Some (length (utf8_enc cp), q)"
proof (cases "utf8_enc cp")
  case Nil
  then show ?thesis by simp
next
  case (Cons b r)
  then show ?thesis
    using seq_len_enc [OF assms, of "[]"]
    by (simp add: seq_len_def split: option.splits if_splits prod.splits)
qed

lemma cut_sequence:
  assumes "scalar cp" "0 < m" "m < length (utf8_enc cp)"
  shows "seq_len (take m (utf8_enc cp)) = None"
    and "utf8_announced (u8 (hd (take m (utf8_enc cp)))) = length (utf8_enc cp)"
proof -
  show "seq_len (take m (utf8_enc cp)) = None"
  proof (cases "seq_len (take m (utf8_enc cp))")
    case (Some nc)
    then obtain n c where "seq_len (take m (utf8_enc cp)) = Some (n, c)" by (cases nc) auto
    from seq_len_sound [OF this] obtain r where "scalar c" "take m (utf8_enc cp) = utf8_enc c @ r"
      by blast
    moreover from this have "utf8_enc cp @ [] = utf8_enc c @ r @ drop m (utf8_enc cp)"
      by (metis append.assoc append_Nil2 append_take_drop_id)
    ultimately have "r @ drop m (utf8_enc cp) = []"
      using utf8_enc_inj [OF assms(1)] by metis
    with assms(3) show ?thesis by simp
  qed
  from enc_lead [OF assms(1)] obtain q
    where "utf8_lead (u8 (hd (utf8_enc cp))) = Some (length (utf8_enc cp), q)" by blast
  moreover from assms have "2 \<le> length (utf8_enc cp)" by simp
  ultimately show "utf8_announced (u8 (hd (take m (utf8_enc cp)))) = length (utf8_enc cp)"
    using announced_lead assms(2) by (simp add: hd_take)
qed

lemma trim_loop_text:
  "list_all scalar cps \<Longrightarrow>
    utf8_trim_loop (take k (utf8_text cps)) i = i + length (utf8_text (fitting k cps))"
proof (induction cps arbitrary: k i)
  case Nil
  then show ?case by (simp add: utf8_trim_loop.simps)
next
  case (Cons cp cps)
  let ?n = "length (utf8_enc cp)"
  let ?s = "take k (utf8_text (cp # cps))"
  have cp: "scalar cp" using Cons.prems by simp
  consider "k = 0" | "0 < k" "k < ?n" | "?n \<le> k" by linarith
  then show ?case
  proof cases
    case 1
    then show ?thesis by (simp add: utf8_trim_loop.simps)
  next
    case 2
    then have s: "?s = take k (utf8_enc cp)" and "?s \<noteq> []" "length ?s = k" by auto
    with cut_sequence [OF cp 2] 2 show ?thesis
      by (subst utf8_trim_loop.simps) simp
  next
    case 3
    then have s: "?s = utf8_enc cp @ take (k - ?n) (utf8_text cps)" by simp
    have "utf8_trim_loop ?s i = utf8_trim_loop (take (k - ?n) (utf8_text cps)) (i + ?n)"
      unfolding s using seq_len_enc [OF cp] by (subst utf8_trim_loop.simps) simp
    also have "\<dots> = i + ?n + length (utf8_text (fitting (k - ?n) cps))"
      using Cons.prems by (intro Cons.IH) simp
    finally show ?thesis using 3 by simp
  qed
qed

lemma trim_text:
  "list_all scalar cps \<Longrightarrow>
    daemoon_utf8_trim_partial (take k (utf8_text cps)) = daemoon_utf8_truncate (utf8_text cps) k"
  by (simp add: daemoon_utf8_trim_partial_def trim_loop_text truncate_text)

lemma trim_loop_le: "utf8_trim_loop s i \<le> i + length s"
proof (induction s i rule: utf8_trim_loop.induct)
  case (1 s i)
  show ?case
  proof (cases "seq_len s")
    case None
    with 1 show ?thesis
      by (subst utf8_trim_loop.simps) (fastforce simp: Let_def Suc_le_eq)
  next
    case (Some nc)
    then obtain n c where nc: "nc = (n, c)" by (cases nc)
    with Some have "n \<le> length s" "s \<noteq> []" by (auto dest: seq_len_bounds)
    with 1 Some nc show ?thesis by (subst utf8_trim_loop.simps) fastforce
  qed
qed

lemma trim_partial_le: "daemoon_utf8_trim_partial s \<le> length s"
  using trim_loop_le [of s 0] by (simp add: daemoon_utf8_trim_partial_def)

lemma width_loop_bound: "utf8_width_loop s w \<le> w + 2 * daemoon_utf8_length s"
proof (induction s w rule: utf8_width_loop.induct)
  case (1 s w)
  show ?case
  proof (cases "s = []")
    case True
    then show ?thesis by (simp add: utf8_width_loop.simps)
  next
    case False
    obtain n cp where d: "daemoon_utf8_decode s = (n, cp)" by (cases "daemoon_utf8_decode s")
    then have "n = seq_step s"
      using False by (auto simp: daemoon_utf8_decode_def seq_step_def split: option.splits)
    moreover have "utf8_width_loop (drop n s) (w + cp_width cp)
        \<le> w + cp_width cp + 2 * daemoon_utf8_length (drop n s)"
      using 1 False d calculation by simp
    moreover have "cp_width cp \<le> 2" by (simp add: cp_width_def)
    ultimately show ?thesis
      using False d by (subst utf8_width_loop.simps, subst daemoon_utf8_length.simps) simp
  qed
qed

lemma text_prefix:
  "list_all scalar as \<Longrightarrow> list_all scalar cps \<Longrightarrow> utf8_text cps = utf8_text as @ r \<Longrightarrow>
    \<exists>bs. cps = as @ bs"
proof (induction as arbitrary: cps)
  case Nil
  then show ?case by simp
next
  case (Cons a as)
  then obtain cp cps' where cps: "cps = cp # cps'"
    by (cases cps) auto
  with Cons.prems have "cp = a \<and> utf8_text cps' = utf8_text as @ r"
    by (intro utf8_enc_inj) auto
  with Cons.IH [of cps'] Cons.prems cps show ?case by auto
qed

section \<open>Properties\<close>

text \<open>C31 UTF-8 validation accepts exactly the concatenations of encodings of Unicode scalar
  values, and the list of scalar values is unique: no overlong form, no surrogate, nothing above
  U+10FFFF, and no text with two readings.\<close>
theorem utf8_valid_unique:
  "daemoon_utf8_valid (Some s) \<longleftrightarrow> (\<exists>!cps. list_all scalar cps \<and> s = utf8_text cps)"
  using utf8_valid_iff utf8_text_inj by metis

text \<open>Cutting valid text to a byte budget never splits a sequence: what is kept is valid, fits
  the budget, and is the longest valid prefix that does.\<close>
lemma utf8_truncate_correct:
  assumes "daemoon_utf8_valid (Some s)"
  shows "daemoon_utf8_valid (Some (take (daemoon_utf8_truncate s m) s)) \<and>
    daemoon_utf8_truncate s m \<le> m \<and>
    (\<forall>k. k \<le> length s \<and> k \<le> m \<and> daemoon_utf8_valid (Some (take k s)) \<longrightarrow>
      k \<le> daemoon_utf8_truncate s m)"
proof -
  from assms obtain cps where cps: "list_all scalar cps" "s = utf8_text cps"
    by (auto simp: utf8_valid_iff)
  have "list_all scalar (fitting m cps)"
    using cps(1) fitting_prefix [of cps m] by (metis list_all_append)
  then have "daemoon_utf8_valid (Some (take (daemoon_utf8_truncate s m) s))"
    using take_truncate_text [OF cps(1)] by (auto simp: utf8_valid_iff cps(2))
  moreover have "daemoon_utf8_truncate s m \<le> m"
    by (simp add: cps(2) truncate_text [OF cps(1)] fitting_length)
  moreover have "k \<le> daemoon_utf8_truncate s m"
    if k: "k \<le> length s" "k \<le> m" "daemoon_utf8_valid (Some (take k s))" for k
  proof -
    from k(3) obtain as where as: "list_all scalar as" "take k s = utf8_text as"
      by (auto simp: utf8_valid_iff)
    from as cps obtain bs where "cps = as @ bs"
      using text_prefix [of as cps "drop k s"] by (metis append_take_drop_id)
    with as k(1,2) have "k \<le> length (utf8_text (fitting m cps))"
      using fitting_maximal [of cps as bs m] by (metis length_take min.absorb2)
    then show ?thesis by (simp add: cps(2) truncate_text [OF cps(1)])
  qed
  ultimately show ?thesis by blast
qed

lemma utf8_truncate_correct_witness:
  "daemoon_utf8_truncate [byte 0x61, byte 0xc3, byte 0xa9] 2 \<le> 2 \<and>
   daemoon_utf8_valid (Some (take (daemoon_utf8_truncate [byte 0x61, byte 0xc3, byte 0xa9] 2)
     [byte 0x61, byte 0xc3, byte 0xa9]))"
proof -
  have "[byte 0x61, byte 0xc3, byte 0xa9] = utf8_text [0x61, 0xe9]"
    by (simp add: utf8_enc_def byte_def)
  then have "daemoon_utf8_valid (Some [byte 0x61, byte 0xc3, byte 0xa9])"
    by (auto simp: utf8_valid_iff scalar_def intro!: exI [of _ "[0x61, 0xe9]"])
  from utf8_truncate_correct [OF this, of 2] show ?thesis by simp
qed

text \<open>Text that was assembled byte by byte and ran out of room is repaired exactly: trimming any
  byte prefix of valid text gives the same length as truncating the whole text to that many bytes,
  so only the one cut sequence is lost.\<close>
lemma utf8_trim_repairs_cut:
  assumes "daemoon_utf8_valid (Some s)"
  shows "daemoon_utf8_trim_partial (take k s) = daemoon_utf8_truncate s k"
  using assms trim_text by (auto simp: utf8_valid_iff)

lemma utf8_trim_repairs_cut_witness:
  "daemoon_utf8_trim_partial (take 2 [byte 0x61, byte 0xc3, byte 0xa9]) =
    daemoon_utf8_truncate [byte 0x61, byte 0xc3, byte 0xa9] 2"
proof (rule utf8_trim_repairs_cut)
  have "[byte 0x61, byte 0xc3, byte 0xa9] = utf8_text [0x61, 0xe9]"
    by (simp add: utf8_enc_def byte_def)
  then show "daemoon_utf8_valid (Some [byte 0x61, byte 0xc3, byte 0xa9])"
    by (auto simp: utf8_valid_iff scalar_def intro!: exI [of _ "[0x61, 0xe9]"])
qed

end
