(* ===== verification/Strbuf.thy ===== *)
theory Strbuf
  imports Result Utf8
begin

unbundle bit_operations_syntax

text \<open>
  \<open>core/src/util/strbuf.c\<close>: bounded string building with sticky overflow, decimal
  printing, JSON and percent escaping, and the bounded copy.

  A \<open>daemoon_strbuf_t\<close> is its capacity, the bytes written so far (their number is the
  field \<open>len\<close>; the terminating NUL sits behind them) and the overflow flag. Everything a
  caller can observe of a buffer that was given the text \<open>S\<close> in any pieces is
  \<open>sb_of cap S\<close>: that is what the locale \<open>append_buffer\<close> promises, and the lemmas in
  \<open>sb_simps\<close> compute every builder of the core to one such term.
\<close>

named_theorems sb_simps \<open>the string builders on \<open>sb_of\<close>\<close>

section \<open>Buffers that keep what fits\<close>

locale append_buffer =
  fixes rep :: "nat \<Rightarrow> bytes \<Rightarrow> 'b"
    and init :: "nat \<Rightarrow> 'b"
    and app :: "'b \<Rightarrow> bytes \<Rightarrow> 'b"
    and content :: "'b \<Rightarrow> bytes"
    and full :: "'b \<Rightarrow> bool"
  assumes init_rep: "init cap = rep cap []"
    and app_rep: "0 < cap \<Longrightarrow> app (rep cap S) bs = rep cap (S @ bs)"
    and content_rep: "content (rep cap S) = take (cap - 1) S"
    and full_rep: "0 < cap \<Longrightarrow> full (rep cap S) \<longleftrightarrow> cap \<le> length S"
begin

lemma foldl_app: "0 < cap \<Longrightarrow> foldl app (rep cap S) bss = rep cap (S @ concat bss)"
  by (induction bss arbitrary: S) (simp_all add: app_rep)

lemma collected:
  "0 < cap \<Longrightarrow> content (foldl app (init cap) bss) = take (cap - 1) (concat bss)"
  by (simp add: init_rep foldl_app content_rep)

lemma overflowed:
  "0 < cap \<Longrightarrow> full (foldl app (init cap) bss) \<longleftrightarrow> cap \<le> length (concat bss)"
  by (simp add: init_rep foldl_app full_rep)

lemma chunking_irrelevant:
  "0 < cap \<Longrightarrow> concat bss = concat css \<Longrightarrow> foldl app (init cap) bss = foldl app (init cap) css"
  by (simp add: init_rep foldl_app)

lemma kept_whole:
  "0 < cap \<Longrightarrow> \<not> full (foldl app (init cap) bss) \<Longrightarrow> content (foldl app (init cap) bss) = concat bss"
  by (simp add: overflowed collected)

end

section \<open>The string buffer\<close>

record strbuf =
  sb_cap :: nat
  sb_buf :: bytes
  sb_overflow :: bool

definition daemoon_strbuf_init :: "nat \<Rightarrow> strbuf" where
  "daemoon_strbuf_init cap = \<lparr>sb_cap = cap, sb_buf = [], sb_overflow = (cap = 0)\<rparr>"

definition daemoon_strbuf_reset :: "strbuf \<Rightarrow> strbuf" where
  "daemoon_strbuf_reset sb = sb\<lparr>sb_buf := [], sb_overflow := (sb_cap sb = 0)\<rparr>"

text \<open>\<open>s\<close> with \<open>n\<close> is the list of the \<open>n\<close> bytes; NULL adds nothing.\<close>

definition daemoon_strbuf_addn :: "strbuf \<Rightarrow> bytes option \<Rightarrow> strbuf" where
  "daemoon_strbuf_addn sb s =
    (case s of None \<Rightarrow> sb
     | Some bs \<Rightarrow>
        if bs = [] then sb
        else if sb_cap sb = 0 then sb\<lparr>sb_overflow := True\<rparr>
        else
          (let room = sb_cap sb - length (sb_buf sb) - 1
           in if length bs > room
              then sb\<lparr>sb_buf := sb_buf sb @ take room bs, sb_overflow := True\<rparr>
              else sb\<lparr>sb_buf := sb_buf sb @ bs\<rparr>))"

definition daemoon_strbuf_add :: "strbuf \<Rightarrow> bytes option \<Rightarrow> strbuf" where
  "daemoon_strbuf_add sb s =
    (case s of None \<Rightarrow> sb | Some bs \<Rightarrow> daemoon_strbuf_addn sb (Some (cstr bs)))"

abbreviation sb_add :: "strbuf \<Rightarrow> bytes \<Rightarrow> strbuf" where
  "sb_add sb s \<equiv> daemoon_strbuf_add sb (Some s)"

definition daemoon_strbuf_addc :: "strbuf \<Rightarrow> char \<Rightarrow> strbuf" where
  "daemoon_strbuf_addc sb c = daemoon_strbuf_addn sb (Some [c])"

text \<open>The \<open>do\<close> loop over \<open>tmp[24]\<close>, filled from its end: \<open>i\<close> is the free space left.\<close>

function add_uint_loop :: "nat \<Rightarrow> nat \<Rightarrow> bytes \<Rightarrow> bytes" where
  "add_uint_loop v i tmp =
    (let tmp' = byte (48 + v mod 10) # tmp; i' = i - 1; v' = v div 10
     in if v' \<noteq> 0 \<and> i' > 0 then add_uint_loop v' i' tmp' else tmp')"
  by pat_completeness auto
termination
  by (relation "measure (\<lambda>(v, i, tmp). i)") auto

declare add_uint_loop.simps [simp del]

definition daemoon_strbuf_add_uint :: "strbuf \<Rightarrow> nat \<Rightarrow> strbuf" where
  "daemoon_strbuf_add_uint sb v = daemoon_strbuf_addn sb (Some (add_uint_loop v 24 []))"

definition daemoon_strbuf_add_int :: "strbuf \<Rightarrow> int \<Rightarrow> strbuf" where
  "daemoon_strbuf_add_int sb v =
    (if v < 0 then daemoon_strbuf_add_uint (daemoon_strbuf_addc sb CHR ''-'') (nat (- (v + 1)) + 1)
     else daemoon_strbuf_add_uint sb (nat v))"

definition add_json_char :: "strbuf \<Rightarrow> char \<Rightarrow> strbuf" where
  "add_json_char sb c =
    (if c = CHR 0x22 then sb_add sb [CHR 0x5c, CHR 0x22]
     else if c = CHR 0x5c then sb_add sb [CHR 0x5c, CHR 0x5c]
     else if c = CHR 0x0a then sb_add sb [CHR 0x5c, CHR ''n'']
     else if c = CHR 0x0d then sb_add sb [CHR 0x5c, CHR ''r'']
     else if c = CHR 0x09 then sb_add sb [CHR 0x5c, CHR ''t'']
     else if c = CHR 0x08 then sb_add sb [CHR 0x5c, CHR ''b'']
     else if c = CHR 0x0c then sb_add sb [CHR 0x5c, CHR ''f'']
     else if u8 c < 0x20 then
       daemoon_strbuf_addc
         (daemoon_strbuf_addc (sb_add sb (CHR 0x5c # ''u00''))
           (''0123456789abcdef'' ! (drop_bit 4 (u8 c) AND 0xf)))
         (''0123456789abcdef'' ! (u8 c AND 0xf))
     else daemoon_strbuf_addc sb c)"

definition daemoon_strbuf_add_json :: "strbuf \<Rightarrow> bytes option \<Rightarrow> strbuf" where
  "daemoon_strbuf_add_json sb s =
    (case s of None \<Rightarrow> sb | Some bs \<Rightarrow> foldl add_json_char sb (cstr bs))"

abbreviation sb_json :: "strbuf \<Rightarrow> bytes \<Rightarrow> strbuf" where
  "sb_json sb s \<equiv> daemoon_strbuf_add_json sb (Some s)"

definition url_unreserved :: "char \<Rightarrow> bool" where
  "url_unreserved c \<longleftrightarrow>
    CHR ''A'' \<le> c \<and> c \<le> CHR ''Z'' \<or> CHR ''a'' \<le> c \<and> c \<le> CHR ''z'' \<or>
    CHR ''0'' \<le> c \<and> c \<le> CHR ''9'' \<or> c = CHR ''-'' \<or> c = CHR ''.'' \<or> c = CHR ''_'' \<or> c = CHR ''~''"

definition add_urlenc_char :: "strbuf \<Rightarrow> char \<Rightarrow> strbuf" where
  "add_urlenc_char sb c =
    (if url_unreserved c then daemoon_strbuf_addc sb c
     else daemoon_strbuf_addc
       (daemoon_strbuf_addc (daemoon_strbuf_addc sb CHR ''%'')
         (''0123456789ABCDEF'' ! (drop_bit 4 (u8 c) AND 0xf)))
       (''0123456789ABCDEF'' ! (u8 c AND 0xf)))"

definition daemoon_strbuf_add_urlenc :: "strbuf \<Rightarrow> bytes option \<Rightarrow> strbuf" where
  "daemoon_strbuf_add_urlenc sb s =
    (case s of None \<Rightarrow> sb | Some bs \<Rightarrow> foldl add_urlenc_char sb (cstr bs))"

definition daemoon_strbuf_result :: "strbuf \<Rightarrow> result" where
  "daemoon_strbuf_result sb = (if sb_overflow sb then ERR_BUFFER_TOO_SMALL else OK)"

text \<open>
  The bounded copy into \<open>dst\<close> (the C string already there, \<open>None\<close> for NULL) of capacity
  \<open>cap\<close>: the result and the C string in \<open>dst\<close> afterwards.
\<close>

definition daemoon_strlcpy :: "bytes option \<Rightarrow> nat \<Rightarrow> bytes option \<Rightarrow> result \<times> bytes option" where
  "daemoon_strlcpy dst cap src =
    (if dst = None \<or> cap = 0 then (ERR_BUFFER_TOO_SMALL, dst)
     else case src of None \<Rightarrow> (OK, Some [])
     | Some s \<Rightarrow>
        (let str = cstr s
         in if length str < cap then (OK, Some str)
            else (ERR_BUFFER_TOO_SMALL, Some (take (daemoon_utf8_truncate str (cap - 1)) str))))"

section \<open>Every builder on the text it was given\<close>

definition sb_of :: "nat \<Rightarrow> bytes \<Rightarrow> strbuf" where
  "sb_of cap S = \<lparr>sb_cap = cap, sb_buf = take (cap - 1) S, sb_overflow = (cap \<le> length S)\<rparr>"

lemma strbuf_init_of [sb_simps]: "daemoon_strbuf_init cap = sb_of cap []"
  by (simp add: daemoon_strbuf_init_def sb_of_def)

lemma strbuf_reset_of [sb_simps]: "daemoon_strbuf_reset (sb_of cap S) = sb_of cap []"
  by (simp add: daemoon_strbuf_reset_def sb_of_def)

lemma strbuf_addn_of [sb_simps]: "daemoon_strbuf_addn (sb_of cap S) (Some bs) = sb_of cap (S @ bs)"
  by (auto simp: daemoon_strbuf_addn_def sb_of_def Let_def min_def)

lemma strbuf_add_of [sb_simps]: "sb_add (sb_of cap S) bs = sb_of cap (S @ cstr bs)"
  by (simp add: daemoon_strbuf_add_def sb_simps)

lemma strbuf_null [sb_simps]:
  "daemoon_strbuf_addn sb None = sb" "daemoon_strbuf_add sb None = sb"
  "daemoon_strbuf_add_json sb None = sb" "daemoon_strbuf_add_urlenc sb None = sb"
  by (simp_all add: daemoon_strbuf_addn_def daemoon_strbuf_add_def daemoon_strbuf_add_json_def
      daemoon_strbuf_add_urlenc_def)

lemma strbuf_addc_of [sb_simps]: "daemoon_strbuf_addc (sb_of cap S) c = sb_of cap (S @ [c])"
  by (simp add: daemoon_strbuf_addc_def sb_simps)

lemma strbuf_result_of [sb_simps]:
  "daemoon_strbuf_result (sb_of cap S) = (if length S < cap then OK else ERR_BUFFER_TOO_SMALL)"
  by (simp add: daemoon_strbuf_result_def sb_of_def)

lemma sb_buf_of [sb_simps]: "sb_buf (sb_of cap S) = take (cap - 1) S"
  by (simp add: sb_of_def)

interpretation strbuf: append_buffer sb_of daemoon_strbuf_init "\<lambda>sb bs. daemoon_strbuf_addn sb (Some bs)"
  sb_buf sb_overflow
  by unfold_locales (simp_all add: sb_simps, simp add: sb_of_def)

subsection \<open>Decimal numbers\<close>

fun dec :: "nat \<Rightarrow> bytes" where
  "dec v = (if v < 10 then [byte (48 + v)] else dec (v div 10) @ [byte (48 + v mod 10)])"

declare dec.simps [simp del]

text \<open>The value of a digit string, as the parsers of the core read it.\<close>

definition dec_val :: "nat \<Rightarrow> bytes \<Rightarrow> nat" where
  "dec_val = foldl (\<lambda>v c. v * 10 + (u8 c - 48))"

definition is_digit :: "char \<Rightarrow> bool" where
  "is_digit c \<longleftrightarrow> CHR ''0'' \<le> c \<and> c \<le> CHR ''9''"

lemma is_digit_iff: "is_digit c \<longleftrightarrow> 48 \<le> u8 c \<and> u8 c \<le> 57"
  by (simp add: is_digit_def u8_def less_eq_char_def)

lemma digit_byte [simp]: "d < 10 \<Longrightarrow> is_digit (byte (48 + d))" "d < 10 \<Longrightarrow> u8 (byte (48 + d)) = 48 + d"
  by (simp_all add: is_digit_iff)

lemma dec_digits: "list_all is_digit (dec v)"
  by (induction v rule: dec.induct) (subst dec.simps, auto simp del: u8_byte)

lemma dec_nonempty [simp]: "dec v \<noteq> []"
  by (subst dec.simps) simp

lemma dec_val_append: "dec_val a (xs @ ys) = dec_val (dec_val a xs) ys"
  by (simp add: dec_val_def)

lemma dec_val_dec: "dec_val 0 (dec v) = v"
proof (induction v rule: dec.induct)
  case (1 v)
  show ?case
  proof (cases "v < 10")
    case True
    then show ?thesis by (subst dec.simps) (simp add: dec_val_def)
  next
    case False
    with "1.IH" have "dec_val 0 (dec (v div 10)) = v div 10" by simp
    moreover have "u8 (byte (48 + v mod 10)) = 48 + v mod 10" by (rule digit_byte) simp
    ultimately show ?thesis using False
      by (subst dec.simps) (simp add: dec_val_append dec_val_def del: u8_byte)
  qed
qed

lemma dec_inj: "dec a = dec b \<Longrightarrow> a = b"
  by (metis dec_val_dec)

lemma digits_nul_free: "list_all is_digit s \<Longrightarrow> nul_free s"
  by (induction s) (auto simp: is_digit_iff u8_def)

lemma dec_nul_free [simp]: "nul_free (dec v)"
  by (rule digits_nul_free [OF dec_digits])

lemma exp10_pred:
  assumes "\<not> (v :: nat) < 10" "v < 10 ^ k"
  obtains j where "k = Suc j" "0 < j" "v div 10 < 10 ^ j"
proof (cases k)
  case 0
  with assms show thesis by simp
next
  case (Suc j)
  with assms have "0 < j" by (cases j) simp_all
  moreover from assms Suc have "v div 10 < 10 ^ j"
    by (simp add: less_mult_imp_div_less mult.commute)
  ultimately show thesis using Suc that by blast
qed

lemma dec_length: "v < 10 ^ k \<Longrightarrow> 0 < k \<Longrightarrow> length (dec v) \<le> k"
proof (induction v arbitrary: k rule: dec.induct)
  case (1 v)
  show ?case
  proof (cases "v < 10")
    case True
    with "1.prems" show ?thesis by (subst dec.simps) simp
  next
    case False
    with "1.prems"(1) obtain j where k: "k = Suc j" "0 < j" "v div 10 < 10 ^ j"
      using exp10_pred by blast
    with "1.IH" False k have "length (dec (v div 10)) \<le> j" by simp
    with False k show ?thesis by (subst dec.simps) simp
  qed
qed

text \<open>The loop prints the decimal form whenever it fits the temporary buffer.\<close>

lemma add_uint_loop_dec: "v < 10 ^ i \<Longrightarrow> 0 < i \<Longrightarrow> add_uint_loop v i tmp = dec v @ tmp"
proof (induction v arbitrary: i tmp rule: dec.induct)
  case (1 v)
  show ?case
  proof (cases "v < 10")
    case True
    then show ?thesis by (subst add_uint_loop.simps, subst dec.simps) simp
  next
    case False
    with "1.prems"(1) obtain j where i: "i = Suc j" "0 < j" "v div 10 < 10 ^ j"
      using exp10_pred by blast
    with "1.IH" [of j] False i
    have "add_uint_loop (v div 10) j (byte (48 + v mod 10) # tmp) = dec (v div 10) @ byte (48 + v mod 10) # tmp"
      by simp
    with False i show ?thesis
      by (subst add_uint_loop.simps, subst dec.simps) (simp add: Let_def div_greater_zero_iff)
  qed
qed

lemma strbuf_add_uint_of [sb_simps]:
  "v < 2 ^ 64 \<Longrightarrow> daemoon_strbuf_add_uint (sb_of cap S) v = sb_of cap (S @ dec v)"
  by (simp add: daemoon_strbuf_add_uint_def sb_simps add_uint_loop_dec)

subsection \<open>JSON string bodies\<close>

definition hex_lower :: "nat \<Rightarrow> char" where
  "hex_lower n = ''0123456789abcdef'' ! (n mod 16)"

definition json_escape :: "char \<Rightarrow> bytes" where
  "json_escape c =
    (if c = CHR 0x22 then [CHR 0x5c, CHR 0x22]
     else if c = CHR 0x5c then [CHR 0x5c, CHR 0x5c]
     else if c = CHR 0x0a then [CHR 0x5c, CHR ''n'']
     else if c = CHR 0x0d then [CHR 0x5c, CHR ''r'']
     else if c = CHR 0x09 then [CHR 0x5c, CHR ''t'']
     else if c = CHR 0x08 then [CHR 0x5c, CHR ''b'']
     else if c = CHR 0x0c then [CHR 0x5c, CHR ''f'']
     else if u8 c < 0x20 then (CHR 0x5c # ''u00'') @ [hex_lower (u8 c div 16), hex_lower (u8 c)]
     else [c])"

abbreviation json_body :: "bytes \<Rightarrow> bytes" where
  "json_body s \<equiv> concat (map json_escape s)"

lemma hex_digit_cases: "n < 16 \<Longrightarrow> n \<in> {0, 1, 2, 3, 4, 5, 6, 7, 8, 9, 10, 11, 12, 13, 14, 15 :: nat}"
  by (simp add: numeral_eq_Suc less_Suc_eq disj_ac)

lemma drop_bit_4: "drop_bit 4 (n :: nat) = n div 16"
  by (simp add: drop_bit_eq_div)

lemma add_json_char_of [sb_simps]: "add_json_char (sb_of cap S) c = sb_of cap (S @ json_escape c)"
  by (simp add: add_json_char_def json_escape_def sb_simps mask_simps drop_bit_4 hex_lower_def cstr_Cons)

lemma strbuf_add_json_of [sb_simps]: "sb_json (sb_of cap S) bs = sb_of cap (S @ json_body (cstr bs))"
proof -
  have "foldl add_json_char (sb_of cap S) xs = sb_of cap (S @ json_body xs)" for xs
    by (induction xs arbitrary: S) (simp_all add: sb_simps)
  then show ?thesis by (simp add: daemoon_strbuf_add_json_def)
qed

lemma length_json_escape: "1 \<le> length (json_escape c) \<and> length (json_escape c) \<le> 6"
  by (simp add: json_escape_def)

lemma length_json_body: "length (json_body s) \<le> 6 * length s"
proof (induction s)
  case (Cons c s)
  then show ?case using length_json_escape [of c] by simp
qed simp

lemma hex_lower_not_nul [simp]: "hex_lower n \<noteq> NUL" "hex_lower n \<noteq> CHR 0x22" "hex_lower n \<noteq> CHR 0x5c"
  using hex_digit_cases [of "n mod 16"] by (auto simp: hex_lower_def)

lemma json_escape_nul_free: "c \<noteq> NUL \<Longrightarrow> nul_free (json_escape c)"
  by (simp add: json_escape_def)

lemma json_body_nul_free [simp]: "nul_free s \<Longrightarrow> nul_free (json_body s)"
  by (induction s) (simp_all add: json_escape_nul_free)

subsection \<open>Percent encoding\<close>

definition url_escape :: "char \<Rightarrow> bytes" where
  "url_escape c =
    (if url_unreserved c then [c]
     else [CHR ''%'', ''0123456789ABCDEF'' ! (u8 c div 16 mod 16), ''0123456789ABCDEF'' ! (u8 c mod 16)])"

lemma add_urlenc_char_of [sb_simps]: "add_urlenc_char (sb_of cap S) c = sb_of cap (S @ url_escape c)"
  by (simp add: add_urlenc_char_def url_escape_def sb_simps mask_simps drop_bit_4)

lemma strbuf_add_urlenc_of [sb_simps]:
  "daemoon_strbuf_add_urlenc (sb_of cap S) (Some bs) = sb_of cap (S @ concat (map url_escape (cstr bs)))"
proof -
  have "foldl add_urlenc_char (sb_of cap S) xs = sb_of cap (S @ concat (map url_escape xs))" for xs
    by (induction xs arbitrary: S) (simp_all add: sb_simps)
  then show ?thesis by (simp add: daemoon_strbuf_add_urlenc_def)
qed

lemma hex_upper_unreserved: "n < 16 \<Longrightarrow> url_unreserved (''0123456789ABCDEF'' ! n)"
  using hex_digit_cases [of n] by (auto simp: url_unreserved_def)

lemma hex_upper_inj:
  assumes "m < 16" "n < 16" "''0123456789ABCDEF'' ! m = ''0123456789ABCDEF'' ! n"
  shows "m = n"
proof -
  have "distinct ''0123456789ABCDEF''" by simp
  with assms show ?thesis using nth_eq_iff_index_eq [of "''0123456789ABCDEF''" m n] by simp
qed

lemma byte_nibbles:
  assumes "u8 x div 16 mod 16 = u8 y div 16 mod 16" "u8 x mod 16 = u8 y mod 16"
  shows "x = y"
proof -
  have "u8 x div 16 < 16" "u8 y div 16 < 16"
    using u8_less [of x] u8_less [of y] by linarith+
  with assms(1) have "u8 x div 16 = u8 y div 16" by simp
  with assms(2) have "u8 x = u8 y" by (metis div_mult_mod_eq)
  then show "x = y" by simp
qed

lemma url_escape_inj:
  assumes "url_escape c @ r = url_escape d @ s"
  shows "c = d \<and> r = s"
proof -
  have percent: "\<not> url_unreserved CHR ''%''" by (simp add: url_unreserved_def)
  consider "url_unreserved c" "url_unreserved d" | "url_unreserved c" "\<not> url_unreserved d"
    | "\<not> url_unreserved c" "url_unreserved d" | "\<not> url_unreserved c" "\<not> url_unreserved d"
    by blast
  then show ?thesis
  proof cases
    case 1
    with assms show ?thesis by (simp add: url_escape_def)
  next
    case 2
    with assms percent show ?thesis by (auto simp: url_escape_def)
  next
    case 3
    with assms percent show ?thesis by (auto simp: url_escape_def)
  next
    case 4
    with assms have "''0123456789ABCDEF'' ! (u8 c div 16 mod 16) = ''0123456789ABCDEF'' ! (u8 d div 16 mod 16)"
      "''0123456789ABCDEF'' ! (u8 c mod 16) = ''0123456789ABCDEF'' ! (u8 d mod 16)" "r = s"
      by (simp_all add: url_escape_def)
    then show ?thesis
      using hex_upper_inj [of "u8 c div 16 mod 16" "u8 d div 16 mod 16"]
        hex_upper_inj [of "u8 c mod 16" "u8 d mod 16"] byte_nibbles [of c d] by simp
  qed
qed

lemma url_escape_nonempty [simp]: "url_escape c \<noteq> []"
  by (simp add: url_escape_def)

section \<open>The bounded copy\<close>

lemma strlcpy_fits:
  "length (cstr s) < cap \<Longrightarrow> daemoon_strlcpy (Some d) cap (Some s) = (OK, Some (cstr s))"
  by (simp add: daemoon_strlcpy_def)

lemma strlcpy_ok_iff:
  "fst (daemoon_strlcpy (Some d) cap (Some s)) = OK \<longleftrightarrow> length (cstr s) < cap"
  by (simp add: daemoon_strlcpy_def Let_def)

section \<open>Properties\<close>

text \<open>A string buffer that is given any pieces of text in any number of appends holds exactly the
  first \<open>cap - 1\<close> bytes of the whole, and reports \<open>buffer_too_small\<close> exactly when
  something was dropped, however the text was cut into pieces.\<close>
lemma strbuf_appends_correct:
  assumes "0 < cap"
  shows "sb_buf (foldl (\<lambda>sb bs. daemoon_strbuf_addn sb (Some bs)) (daemoon_strbuf_init cap) pieces)
        = take (cap - 1) (concat pieces) \<and>
    (daemoon_strbuf_result
      (foldl (\<lambda>sb bs. daemoon_strbuf_addn sb (Some bs)) (daemoon_strbuf_init cap) pieces) = OK
      \<longleftrightarrow> length (concat pieces) < cap)"
  using strbuf.collected [OF assms, of pieces] strbuf.overflowed [OF assms, of pieces]
  by (simp add: daemoon_strbuf_result_def not_le)

lemma strbuf_appends_correct_witness:
  "sb_buf (foldl (\<lambda>sb bs. daemoon_strbuf_addn sb (Some bs)) (daemoon_strbuf_init 4) [''ab'', ''cd'']) = ''abc''"
  using strbuf_appends_correct [of 4 "[''ab'', ''cd'']"] by simp

text \<open>Every 64 bit number is printed in decimal, in full: the 24 byte temporary never runs out, and
  reading the digits back gives the number.\<close>
lemma strbuf_add_uint_decimal:
  assumes "v < 2 ^ 64"
  shows "daemoon_strbuf_add_uint (daemoon_strbuf_init 21) v = sb_of 21 (dec v) \<and>
    daemoon_strbuf_result (daemoon_strbuf_add_uint (daemoon_strbuf_init 21) v) = OK \<and>
    dec_val 0 (dec v) = v"
proof -
  have "length (dec v) \<le> 20" using assms by (intro dec_length) simp_all
  then show ?thesis using assms by (simp add: sb_simps dec_val_dec)
qed

lemma strbuf_add_uint_decimal_witness:
  "daemoon_strbuf_add_uint (daemoon_strbuf_init 21) 18446744073709551615
    = sb_of 21 (dec 18446744073709551615)"
  using strbuf_add_uint_decimal [of 18446744073709551615] by simp

text \<open>Percent encoding is safe and loses nothing: the output holds only unreserved characters and
  percent signs, so it cannot end a path segment or start a query, and two different strings are never
  encoded alike.\<close>
lemma urlenc_safe_and_injective:
  "list_all (\<lambda>c. url_unreserved c \<or> c = CHR ''%'') (concat (map url_escape s)) \<and>
   daemoon_strbuf_add_urlenc (sb_of cap S) (Some s) = sb_of cap (S @ concat (map url_escape (cstr s))) \<and>
   inj (\<lambda>s. concat (map url_escape s))"
proof (intro conjI)
  show "list_all (\<lambda>c. url_unreserved c \<or> c = CHR ''%'') (concat (map url_escape s))"
    by (induction s) (auto simp: url_escape_def hex_upper_unreserved)
  show "inj (\<lambda>s. concat (map url_escape s))"
  proof (rule injI)
    fix x y assume "concat (map url_escape x) = concat (map url_escape y)"
    then show "x = y"
      by (intro concat_map_inj [of x y url_escape] url_escape_inj) simp_all
  qed
qed (simp add: sb_simps)

text \<open>The bounded copy always leaves a terminated string that fits, reports success exactly when the
  whole source fitted, copies it unchanged in that case, and otherwise keeps the longest prefix of
  valid text that ends on a code point boundary.\<close>
lemma strlcpy_correct:
  assumes "0 < cap"
  shows "\<exists>r out. daemoon_strlcpy (Some d) cap (Some s) = (r, Some out) \<and> length out < cap \<and> nul_free out \<and>
    (r = OK \<longleftrightarrow> length (cstr s) < cap) \<and> (r = OK \<longrightarrow> out = cstr s) \<and>
    (r \<noteq> OK \<longrightarrow> r = ERR_BUFFER_TOO_SMALL \<and> out = take (daemoon_utf8_truncate (cstr s) (cap - 1)) (cstr s))"
proof (cases "length (cstr s) < cap")
  case True
  then show ?thesis by (simp add: strlcpy_fits)
next
  case False
  then have "cap - 1 < length (cstr s)" using assms by simp
  from truncate_le_max [OF this] have "daemoon_utf8_truncate (cstr s) (cap - 1) < cap"
    using assms by simp
  with False assms show ?thesis by (simp add: daemoon_strlcpy_def Let_def min_def)
qed

end
