(* ===== verification/Jsmn.thy ===== *)
theory Jsmn
  imports Prelude
begin

text \<open>
  The JSON tokenizer the core links (\<open>vendor/jsmn/jsmn.h\<close>, compiled by
  \<open>core/src/util/jsmn_impl.c\<close> without \<open>JSMN_STRICT\<close> and with
  \<open>JSMN_PARENT_LINKS\<close>).

  The parser walks the text once; the model carries the position \<open>pos\<close> and the text from
  there on. The token array is the list of the tokens allocated so far, so \<open>toknext\<close> is
  its length; \<open>toksuper\<close> is \<open>None\<close> for -1. The walk up the parent links at a closing
  bracket is bounded by the number of tokens: a parent always has a smaller index
  (\<open>jsmn_close_fuel\<close>), so the bound is never what stops it.
\<close>

datatype jsmntype = JSMN_OBJECT | JSMN_ARRAY | JSMN_STRING | JSMN_PRIMITIVE

datatype jsmnerr = JSMN_ERROR_NOMEM | JSMN_ERROR_INVAL | JSMN_ERROR_PART

text \<open>\<open>tk_end\<close> and \<open>tk_parent\<close> are \<open>None\<close> for -1. Every token is given a start.\<close>

record jsmntok =
  tk_type :: jsmntype
  tk_start :: nat
  tk_end :: "nat option"
  tk_size :: nat
  tk_parent :: "nat option"

definition is_hex_char :: "char \<Rightarrow> bool" where
  "is_hex_char c \<longleftrightarrow>
    48 \<le> u8 c \<and> u8 c \<le> 57 \<or> 65 \<le> u8 c \<and> u8 c \<le> 70 \<or> 97 \<le> u8 c \<and> u8 c \<le> 102"

section \<open>Primitives\<close>

definition primitive_delim :: "char \<Rightarrow> bool" where
  "primitive_delim c \<longleftrightarrow>
    c = CHR '':'' \<or> c = CHR 0x09 \<or> c = CHR 0x0d \<or> c = CHR 0x0a \<or> c = CHR '' '' \<or>
    c = CHR '','' \<or> c = CHR '']'' \<or> c = CHR ''}''"

text \<open>The scan of a primitive: its end and the text from there.\<close>

fun primitive_scan :: "nat \<Rightarrow> bytes \<Rightarrow> jsmnerr + nat \<times> bytes" where
  "primitive_scan pos [] = Inr (pos, [])"
| "primitive_scan pos (c # s) =
    (if c = NUL then Inr (pos, c # s)
     else if primitive_delim c then Inr (pos, c # s)
     else if u8 c < 32 \<or> u8 c \<ge> 127 then Inl JSMN_ERROR_INVAL
     else primitive_scan (pos + 1) s)"

section \<open>Strings\<close>

text \<open>Up to \<open>n\<close> hex digits after \<open>\u\<close>; running out of text or meeting NUL ends the loop.\<close>

fun skip_hex :: "nat \<Rightarrow> nat \<Rightarrow> bytes \<Rightarrow> (nat \<times> bytes) option" where
  "skip_hex 0 pos s = Some (pos, s)"
| "skip_hex (Suc n) pos [] = Some (pos, [])"
| "skip_hex (Suc n) pos (c # s) =
    (if c = NUL then Some (pos, c # s)
     else if is_hex_char c then skip_hex n (pos + 1) s
     else None)"

lemma skip_hex_length: "skip_hex n pos s = Some (pos', s') \<Longrightarrow> length s' \<le> length s"
  by (induction n pos s rule: skip_hex.induct) (auto split: if_splits)

definition simple_escape :: "char \<Rightarrow> bool" where
  "simple_escape e \<longleftrightarrow>
    e = CHR 0x22 \<or> e = CHR ''/'' \<or> e = CHR 0x5c \<or> e = CHR ''b'' \<or> e = CHR ''f'' \<or>
    e = CHR ''r'' \<or> e = CHR ''n'' \<or> e = CHR ''t''"

text \<open>The scan after the opening quote: the position of the closing one and the text behind it.\<close>

function (sequential) string_scan :: "nat \<Rightarrow> bytes \<Rightarrow> jsmnerr + nat \<times> bytes" where
  "string_scan pos [] = Inl JSMN_ERROR_PART"
| "string_scan pos (c # s) =
    (if c = NUL then Inl JSMN_ERROR_PART
     else if c = CHR 0x22 then Inr (pos, s)
     else if c = CHR 0x5c \<and> s \<noteq> [] then
       (if simple_escape (hd s) then string_scan (pos + 2) (tl s)
        else if hd s = CHR ''u'' then
          (case skip_hex 4 (pos + 2) (tl s) of None \<Rightarrow> Inl JSMN_ERROR_INVAL
           | Some (pos', s') \<Rightarrow> string_scan pos' s')
        else Inl JSMN_ERROR_INVAL)
     else string_scan (pos + 1) s)"
  by pat_completeness auto
termination
  by (relation "measure (\<lambda>(pos, s). length s)")
     (auto dest!: skip_hex_length simp: less_Suc_eq_le intro: le_trans)

lemma string_scan_length: "string_scan pos s = Inr (pos', s') \<Longrightarrow> length s' < length s"
proof (induction pos s rule: string_scan.induct)
  case (2 pos c s)
  then show ?case
    by (fastforce split: if_splits option.splits dest: skip_hex_length)
qed simp

lemma primitive_scan_length: "primitive_scan pos s = Inr (pos', s') \<Longrightarrow> length s' \<le> length s"
  by (induction pos s rule: primitive_scan.induct) (auto split: if_splits)

section \<open>The token array\<close>

record jsmn_state =
  js_toks :: "jsmntok list"
  js_super :: "nat option"

definition jsmn_new_token :: "jsmntype \<Rightarrow> nat \<Rightarrow> nat option \<Rightarrow> nat option \<Rightarrow> jsmntok" where
  "jsmn_new_token ty st en par =
    \<lparr>tk_type = ty, tk_start = st, tk_end = en, tk_size = 0, tk_parent = par\<rparr>"

definition jsmn_alloc :: "nat \<Rightarrow> jsmntok list \<Rightarrow> jsmntok \<Rightarrow> jsmntok list option" where
  "jsmn_alloc num_tokens toks t = (if length toks \<ge> num_tokens then None else Some (toks @ [t]))"

definition bump_size :: "nat option \<Rightarrow> jsmntok list \<Rightarrow> jsmntok list" where
  "bump_size super toks =
    (case super of None \<Rightarrow> toks
     | Some i \<Rightarrow> toks[i := (toks ! i)\<lparr>tk_size := tk_size (toks ! i) + 1\<rparr>])"

text \<open>The search for the bracket that \<open>}\<close> or \<open>]\<close> closes, from token \<open>i\<close> upwards.\<close>

fun jsmn_close :: "nat \<Rightarrow> jsmntype \<Rightarrow> nat \<Rightarrow> nat \<Rightarrow> jsmn_state \<Rightarrow> jsmnerr + jsmn_state" where
  "jsmn_close 0 ty pos i st = Inl JSMN_ERROR_INVAL"
| "jsmn_close (Suc fuel) ty pos i st =
    (let t = js_toks st ! i
     in if tk_end t = None then
          (if tk_type t \<noteq> ty then Inl JSMN_ERROR_INVAL
           else Inr (st\<lparr>js_toks := (js_toks st)[i := t\<lparr>tk_end := Some (pos + 1)\<rparr>],
                        js_super := tk_parent t\<rparr>))
        else case tk_parent t of
          None \<Rightarrow>
            (if tk_type t \<noteq> ty \<or> js_super st = None then Inl JSMN_ERROR_INVAL else Inr st)
        | Some p \<Rightarrow> jsmn_close fuel ty pos p st)"

section \<open>The main loop\<close>

text \<open>One non-string, non-primitive character of the switch; \<open>None\<close> for the other ones.\<close>

definition jsmn_punct :: "nat \<Rightarrow> nat \<Rightarrow> char \<Rightarrow> jsmn_state \<Rightarrow> (jsmnerr + jsmn_state) option" where
  "jsmn_punct num_tokens pos c st =
    (if c = CHR ''{'' \<or> c = CHR ''['' then
       Some (case jsmn_alloc num_tokens (js_toks st)
               (jsmn_new_token (if c = CHR ''{'' then JSMN_OBJECT else JSMN_ARRAY) pos None (js_super st)) of
         None \<Rightarrow> Inl JSMN_ERROR_NOMEM
       | Some toks \<Rightarrow>
           Inr (st\<lparr>js_toks := bump_size (js_super st) toks, js_super := Some (length toks - 1)\<rparr>))
     else if c = CHR ''}'' \<or> c = CHR '']'' then
       Some (if js_toks st = [] then Inl JSMN_ERROR_INVAL
             else jsmn_close (length (js_toks st)) (if c = CHR ''}'' then JSMN_OBJECT else JSMN_ARRAY)
               pos (length (js_toks st) - 1) st)
     else if c = CHR 0x09 \<or> c = CHR 0x0d \<or> c = CHR 0x0a \<or> c = CHR '' '' then Some (Inr st)
     else if c = CHR '':'' then
       Some (Inr (st\<lparr>js_super := (if js_toks st = [] then None else Some (length (js_toks st) - 1))\<rparr>))
     else if c = CHR '','' then
       Some (Inr (case js_super st of None \<Rightarrow> st
         | Some i \<Rightarrow>
             (if tk_type (js_toks st ! i) \<noteq> JSMN_ARRAY \<and> tk_type (js_toks st ! i) \<noteq> JSMN_OBJECT
              then st\<lparr>js_super := tk_parent (js_toks st ! i)\<rparr> else st)))
     else None)"

text \<open>A finished string or primitive token is filled in and counted by its parent.\<close>

definition jsmn_leaf :: "nat \<Rightarrow> jsmntype \<Rightarrow> nat \<Rightarrow> nat \<Rightarrow> jsmn_state \<Rightarrow> jsmnerr + jsmn_state" where
  "jsmn_leaf num_tokens ty st_pos en_pos st =
    (case jsmn_alloc num_tokens (js_toks st) (jsmn_new_token ty st_pos (Some en_pos) (js_super st)) of
      None \<Rightarrow> Inl JSMN_ERROR_NOMEM
    | Some toks \<Rightarrow> Inr (st\<lparr>js_toks := bump_size (js_super st) toks\<rparr>))"

function (sequential) jsmn_loop :: "nat \<Rightarrow> nat \<Rightarrow> bytes \<Rightarrow> jsmn_state \<Rightarrow> jsmnerr + jsmn_state" where
  "jsmn_loop num_tokens pos [] st = Inr st"
| "jsmn_loop num_tokens pos (c # s) st =
    (if c = NUL then Inr st
     else case jsmn_punct num_tokens pos c st of
       Some (Inl e) \<Rightarrow> Inl e
     | Some (Inr st') \<Rightarrow> jsmn_loop num_tokens (pos + 1) s st'
     | None \<Rightarrow>
        (if c = CHR 0x22 then
           (case string_scan (pos + 1) s of Inl e \<Rightarrow> Inl e
            | Inr (en, s') \<Rightarrow>
               (case jsmn_leaf num_tokens JSMN_STRING (pos + 1) en st of Inl e \<Rightarrow> Inl e
                | Inr st' \<Rightarrow> jsmn_loop num_tokens (en + 1) s' st'))
         else
           (case primitive_scan pos (c # s) of Inl e \<Rightarrow> Inl e
            | Inr (en, s') \<Rightarrow>
               (case jsmn_leaf num_tokens JSMN_PRIMITIVE pos en st of Inl e \<Rightarrow> Inl e
                | Inr st' \<Rightarrow> jsmn_loop num_tokens en s' st'))))"
  by pat_completeness auto
termination
proof (relation "measure (\<lambda>(n, pos, s, st). length s)", goal_cases)
  case 1
  then show ?case by simp
next
  case (2 n pos c s st x y)
  then show ?case by (auto dest: string_scan_length)
next
  case (3 n pos c s st x y)
  then have "\<not> primitive_delim c" by (auto simp: jsmn_punct_def primitive_delim_def split: if_splits)
  with 3 show ?case by (auto split: if_splits dest!: primitive_scan_length)
next
  case 4
  then show ?case by simp
qed

text \<open>
  The whole parse: the final check for brackets left open, then the token count. The source
  counts one per allocated token, so the count is the number of tokens.
\<close>

definition jsmn_parse :: "bytes \<Rightarrow> nat \<Rightarrow> jsmnerr + jsmntok list" where
  "jsmn_parse js num_tokens =
    (case jsmn_loop num_tokens 0 js \<lparr>js_toks = [], js_super = None\<rparr> of
      Inl e \<Rightarrow> Inl e
    | Inr st \<Rightarrow>
        (if list_ex (\<lambda>t. tk_end t = None) (js_toks st) then Inl JSMN_ERROR_PART else Inr (js_toks st)))"


section \<open>Parent links\<close>

definition links_ok :: "jsmntok list \<Rightarrow> bool" where
  "links_ok toks \<longleftrightarrow> (\<forall>i < length toks. \<forall>p. tk_parent (toks ! i) = Some p \<longrightarrow> p < i)"

text \<open>With links that point down, the fuel of \<open>jsmn_close\<close> never runs out.\<close>

lemma jsmn_close_fuel:
  "links_ok (js_toks st) \<Longrightarrow> i < length (js_toks st) \<Longrightarrow> i < fuel \<Longrightarrow> i < fuel' \<Longrightarrow>
    jsmn_close fuel ty pos i st = jsmn_close fuel' ty pos i st"
proof (induction i arbitrary: fuel fuel' rule: less_induct)
  case (less i)
  obtain f f' where f: "fuel = Suc f" "fuel' = Suc f'"
    using less.prems by (cases fuel; cases fuel') auto
  show ?case
  proof (cases "tk_parent (js_toks st ! i)")
    case None
    then show ?thesis by (simp add: f Let_def)
  next
    case (Some p)
    with less.prems have "p < i" by (auto simp: links_ok_def)
    with less.prems f have "jsmn_close f ty pos p st = jsmn_close f' ty pos p st"
      by (intro less.IH) auto
    with Some show ?thesis by (simp add: f Let_def)
  qed
qed

definition jsmn_state_ok :: "jsmn_state \<Rightarrow> bool" where
  "jsmn_state_ok st \<longleftrightarrow> links_ok (js_toks st) \<and>
    (case js_super st of None \<Rightarrow> True | Some i \<Rightarrow> i < length (js_toks st))"

lemma links_ok_append:
  "links_ok toks \<Longrightarrow> (case par of None \<Rightarrow> True | Some i \<Rightarrow> i < length toks) \<Longrightarrow>
    links_ok (toks @ [jsmn_new_token ty a b par])"
  by (auto simp: links_ok_def nth_append jsmn_new_token_def less_Suc_eq split: option.splits)

lemma links_ok_update:
  "links_ok toks \<Longrightarrow> tk_parent t = tk_parent (toks ! i) \<Longrightarrow> links_ok (toks[i := t])"
  by (cases "i < length toks") (auto simp: links_ok_def nth_list_update)

lemma links_ok_bump: "links_ok toks \<Longrightarrow> links_ok (bump_size super toks)"
  by (auto simp: bump_size_def intro: links_ok_update split: option.splits)

lemma length_bump [simp]: "length (bump_size super toks) = length toks"
  by (simp add: bump_size_def split: option.splits)

lemma jsmn_close_ok:
  "jsmn_close fuel ty pos i st = Inr st' \<Longrightarrow> jsmn_state_ok st \<Longrightarrow> i < length (js_toks st) \<Longrightarrow>
    jsmn_state_ok st' \<and> length (js_toks st') = length (js_toks st)"
proof (induction fuel ty pos i st rule: jsmn_close.induct)
  case (1 ty pos i st)
  then show ?case by simp
next
  case (2 fuel ty pos i st)
  show ?case
  proof (cases "tk_parent (js_toks st ! i)")
    case None
    with 2 show ?thesis
      by (auto simp: Let_def jsmn_state_ok_def intro!: links_ok_update split: if_splits)
  next
    case (Some p)
    then have "p < i" using 2 by (auto simp: jsmn_state_ok_def links_ok_def)
    with 2 Some show ?thesis
      by (auto simp: Let_def jsmn_state_ok_def intro!: links_ok_update split: if_splits)
  qed
qed

end
