(* ===== verification/Json_Flat.thy ===== *)
theory Json_Flat
  imports Json
begin

text \<open>
  The text that the core writes, read by the core: a flat JSON object whose members are
  strings, numbers and null. \<open>json_flat\<close> is that text; the tokenizer splits it exactly
  into \<open>flat_toks\<close>, and looking up a key finds the first member of that name. The
  round trips of the manifest and of the sync state are instances of the lemmas
  \<open>flat_get_str\<close>, \<open>flat_get_uint\<close> and \<open>flat_find_None\<close>.
\<close>

section \<open>Flat objects\<close>

datatype jval = JStr bytes | JNum nat | JNull

fun jval_text :: "jval \<Rightarrow> bytes" where
  "jval_text (JStr b) = json_body b"
| "jval_text (JNum v) = dec v"
| "jval_text JNull = ''null''"

fun jval_type :: "jval \<Rightarrow> jsmntype" where
  "jval_type (JStr b) = JSMN_STRING"
| "jval_type _ = JSMN_PRIMITIVE"

text \<open>1 when the text stands between quotes.\<close>

fun jval_quote :: "jval \<Rightarrow> nat" where
  "jval_quote (JStr b) = 1"
| "jval_quote _ = 0"

fun jval_ok :: "jval \<Rightarrow> bool" where
  "jval_ok (JStr b) = nul_free b"
| "jval_ok _ = True"

abbreviation quoted :: "bytes \<Rightarrow> bytes" where
  "quoted s \<equiv> CHR 0x22 # s @ [CHR 0x22]"

definition jval_render :: "jval \<Rightarrow> bytes" where
  "jval_render v = replicate (jval_quote v) (CHR 0x22) @ jval_text v @ replicate (jval_quote v) (CHR 0x22)"

definition plain_key :: "bytes \<Rightarrow> bool" where
  "plain_key k \<longleftrightarrow> nul_free k \<and> json_body k = k"

fun json_members :: "(bytes \<times> jval) list \<Rightarrow> bytes" where
  "json_members [] = []"
| "json_members ((k, v) # ms) =
    CHR 0x22 # k @ CHR 0x22 # CHR '':'' # jval_render v @ (if ms = [] then [] else CHR '','' # json_members ms)"

definition json_flat :: "(bytes \<times> jval) list \<Rightarrow> bytes" where
  "json_flat ms = CHR ''{'' # json_members ms @ ''}''"

fun member_toks :: "nat \<Rightarrow> nat \<Rightarrow> (bytes \<times> jval) list \<Rightarrow> jsmntok list" where
  "member_toks pos idx [] = []"
| "member_toks pos idx ((k, v) # ms) =
    (let vpos = pos + length k + 3 + jval_quote v; vend = vpos + length (jval_text v)
     in \<lparr>tk_type = JSMN_STRING, tk_start = pos + 1, tk_end = Some (pos + 1 + length k), tk_size = 1,
           tk_parent = Some 0\<rparr>
        # \<lparr>tk_type = jval_type v, tk_start = vpos, tk_end = Some vend, tk_size = 0, tk_parent = Some idx\<rparr>
        # member_toks (vend + jval_quote v + 1) (idx + 2) ms)"

definition obj_tok :: "nat option \<Rightarrow> nat \<Rightarrow> jsmntok" where
  "obj_tok en k = \<lparr>tk_type = JSMN_OBJECT, tk_start = 0, tk_end = en, tk_size = k, tk_parent = None\<rparr>"

definition flat_toks :: "(bytes \<times> jval) list \<Rightarrow> jsmntok list" where
  "flat_toks ms = obj_tok (Some (length (json_flat ms))) (length ms) # member_toks 1 1 ms"

section \<open>The tokenizer on flat objects\<close>

lemma punct_quote [simp]: "jsmn_punct n pos CHR 0x22 st = None"
  by (simp add: jsmn_punct_def)

lemma loop_string:
  "nul_free b \<Longrightarrow>
    jsmn_loop n pos (CHR 0x22 # json_body b @ CHR 0x22 # s) st =
    (case jsmn_leaf n JSMN_STRING (pos + 1) (pos + 1 + length (json_body b)) st of Inl e \<Rightarrow> Inl e
     | Inr st' \<Rightarrow> jsmn_loop n (pos + length (json_body b) + 2) s st')"
  by (simp add: string_scan_body split: sum.split)

definition prim_char :: "char \<Rightarrow> bool" where
  "prim_char c \<longleftrightarrow> is_digit c \<or> c \<in> set ''nul''"

definition json_specials :: bytes where
  "json_specials = [NUL, CHR 0x22, CHR ''{'', CHR ''['', CHR ''}'', CHR '']'', CHR 0x09,
    CHR 0x0d, CHR 0x0a, CHR '' '', CHR '':'', CHR '','']"

lemma special_not_prim_char: "list_all (\<lambda>c. \<not> prim_char c) json_specials"
  by (simp add: json_specials_def prim_char_def is_digit_def)

lemma prim_char_not_special: "prim_char c \<Longrightarrow> c \<notin> set json_specials"
  using special_not_prim_char by (auto simp: list_all_iff)

lemma prim_char_facts:
  assumes "prim_char c"
  shows "c \<noteq> NUL" "c \<noteq> CHR 0x22" "\<not> primitive_delim c" "32 \<le> u8 c" "u8 c < 127"
    "jsmn_punct n pos c st = None"
proof -
  note n = prim_char_not_special [OF assms, unfolded json_specials_def, simplified]
  from n show "c \<noteq> NUL" "c \<noteq> CHR 0x22" by simp_all
  from n show "\<not> primitive_delim c" by (simp add: primitive_delim_def)
  from n show "jsmn_punct n pos c st = None" by (simp add: jsmn_punct_def)
  from assms show "32 \<le> u8 c" "u8 c < 127"
    unfolding prim_char_def is_digit_iff by (elim disjE; simp add: u8_def; fastforce)+
qed

lemma primitive_scan_word:
  "list_all prim_char w \<Longrightarrow> primitive_delim c \<Longrightarrow> primitive_scan pos (w @ c # s) = Inr (pos + length w, c # s)"
  by (induction w arbitrary: pos) (auto simp: prim_char_facts not_less not_le)

lemma loop_primitive:
  assumes "list_all prim_char w" "w \<noteq> []" "primitive_delim c"
  shows "jsmn_loop n pos (w @ c # s) st =
    (case jsmn_leaf n JSMN_PRIMITIVE pos (pos + length w) st of Inl e \<Rightarrow> Inl e
     | Inr st' \<Rightarrow> jsmn_loop n (pos + length w) (c # s) st')"
proof -
  obtain a w' where w: "w = a # w'" using assms(2) by (cases w) auto
  then have "primitive_scan pos (a # w' @ c # s) = Inr (pos + length w, c # s)"
    using primitive_scan_word [OF assms(1,3), of pos s] by simp
  with w assms(1) show ?thesis by (simp add: prim_char_facts del: primitive_scan.simps split: sum.split)
qed

declare jsmn_loop.simps(2) [simp del]

lemma loop_value:
  assumes "jval_ok v" "primitive_delim c"
  shows "jsmn_loop n pos (jval_render v @ c # s) st =
    (case jsmn_leaf n (jval_type v) (pos + jval_quote v) (pos + jval_quote v + length (jval_text v)) st of
      Inl e \<Rightarrow> Inl e
    | Inr st' \<Rightarrow> jsmn_loop n (pos + 2 * jval_quote v + length (jval_text v)) (c # s) st')"
proof (cases v)
  case (JStr b)
  with assms show ?thesis
    by (simp add: jval_render_def loop_string add.assoc add.commute split: sum.split)
next
  case (JNum m)
  have "list_all prim_char (dec m)"
    using dec_digits [of m] by (auto simp: list_all_iff prim_char_def)
  with JNum assms show ?thesis by (simp add: jval_render_def loop_primitive split: sum.split)
next
  case JNull
  have "list_all prim_char ''null''" by (simp add: prim_char_def)
  with JNull assms loop_primitive [of "''null''" c n pos s st] show ?thesis
    by (simp add: jval_render_def split: sum.split)
qed

text \<open>One member: its key, the colon and its value, in front of a comma or the closing brace.\<close>

definition member_state :: "jsmntok \<Rightarrow> jsmntok list \<Rightarrow> nat \<Rightarrow> bytes \<Rightarrow> jval \<Rightarrow> nat option \<Rightarrow> jsmn_state" where
  "member_state o1 ts pos k v sp =
    \<lparr>js_toks = o1\<lparr>tk_size := Suc (tk_size o1)\<rparr> # ts @ member_toks pos (Suc (length ts)) [(k, v)], js_super = sp\<rparr>"

lemma loop_key:
  assumes "plain_key k" "Suc (length ts) < n"
  shows "jsmn_loop n pos (CHR 0x22 # k @ CHR 0x22 # s) \<lparr>js_toks = o1 # ts, js_super = Some 0\<rparr> =
    jsmn_loop n (pos + length k + 2) s
      \<lparr>js_toks = o1\<lparr>tk_size := Suc (tk_size o1)\<rparr> # ts @
          [jsmn_new_token JSMN_STRING (pos + 1) (Some (pos + 1 + length k)) (Some 0)],
       js_super = Some 0\<rparr>"
  using assms loop_string [of k n pos s "\<lparr>js_toks = o1 # ts, js_super = Some 0\<rparr>"]
  by (simp add: plain_key_def jsmn_leaf_def jsmn_alloc_def bump_size_def)

lemma loop_colon:
  "toks \<noteq> [] \<Longrightarrow> jsmn_loop n pos (CHR '':'' # s) \<lparr>js_toks = toks, js_super = sp\<rparr> =
    jsmn_loop n (pos + 1) s \<lparr>js_toks = toks, js_super = Some (length toks - 1)\<rparr>"
  by (simp add: jsmn_loop.simps(2) jsmn_punct_def)

lemma nth_snoc_Cons: "Suc (length ts) = i \<Longrightarrow> (a # ts @ b # cs) ! i = b"
  "Suc (length ts) = i \<Longrightarrow> (a # ts @ b # cs)[i := b'] = a # ts @ b' # cs"
  by (auto simp: list_update_append)

lemma loop_member:
  assumes "plain_key k" "jval_ok v" "primitive_delim c" "length ts + 2 < n"
  shows "jsmn_loop n pos (CHR 0x22 # k @ CHR 0x22 # CHR '':'' # jval_render v @ c # s)
      \<lparr>js_toks = o1 # ts, js_super = Some 0\<rparr> =
    jsmn_loop n (pos + length k + 3 + 2 * jval_quote v + length (jval_text v)) (c # s)
      (member_state o1 ts pos k v (Some (Suc (length ts))))"
  using assms
  by (simp add: loop_key loop_colon loop_value jsmn_leaf_def jsmn_alloc_def bump_size_def nth_snoc_Cons
      member_state_def jsmn_new_token_def Let_def numeral_eq_Suc)

lemma loop_comma:
  "jsmn_loop n pos (CHR '','' # s) (member_state o1 ts pos' k v (Some (Suc (length ts)))) =
    jsmn_loop n (pos + 1) s (member_state o1 ts pos' k v (Some 0))"
  by (simp add: jsmn_loop.simps(2) jsmn_punct_def member_state_def Let_def nth_snoc_Cons)

lemma loop_close:
  assumes "tk_end o1 = None" "tk_type o1 = JSMN_OBJECT" "tk_parent o1 = None"
  shows "jsmn_loop n pos ''}'' (member_state o1 ts pos' k v (Some (Suc (length ts)))) =
    Inr \<lparr>js_toks = o1\<lparr>tk_size := Suc (tk_size o1), tk_end := Some (Suc pos)\<rparr> # ts @
            member_toks pos' (Suc (length ts)) [(k, v)],
         js_super = None\<rparr>"
proof -
  have "jsmn_punct n pos CHR ''}'' (member_state o1 ts pos' k v (Some (Suc (length ts)))) =
    Some (Inr \<lparr>js_toks = o1\<lparr>tk_size := Suc (tk_size o1), tk_end := Some (Suc pos)\<rparr> # ts @
            member_toks pos' (Suc (length ts)) [(k, v)],
         js_super = None\<rparr>)"
    using assms
    by (simp add: jsmn_punct_def member_state_def Let_def nth_append numeral_eq_Suc)
  then show ?thesis by (simp add: jsmn_loop.simps)
qed

lemma loop_members:
  assumes "ms \<noteq> []" "list_all (\<lambda>(k, v). plain_key k \<and> jval_ok v) ms"
    and "tk_end o1 = None" "tk_type o1 = JSMN_OBJECT" "tk_parent o1 = None"
    and "length ts + 2 * length ms < n"
  shows "jsmn_loop n pos (json_members ms @ ''}'') \<lparr>js_toks = o1 # ts, js_super = Some 0\<rparr> =
    Inr \<lparr>js_toks = o1\<lparr>tk_size := tk_size o1 + length ms, tk_end := Some (Suc (pos + length (json_members ms)))\<rparr>
            # ts @ member_toks pos (Suc (length ts)) ms,
         js_super = None\<rparr>"
  using assms
proof (induction ms arbitrary: o1 ts pos)
  case Nil
  then show ?case by simp
next
  case (Cons m ms)
  obtain k v where m: "m = (k, v)" by (cases m)
  have delim: "primitive_delim CHR '',''" "primitive_delim CHR ''}''"
    by (simp_all add: primitive_delim_def)
  have len: "length (jval_render v) = 2 * jval_quote v + length (jval_text v)"
    by (simp add: jval_render_def)
  show ?case
  proof (cases "ms = []")
    case True
    with Cons.prems m delim show ?thesis
      by (simp add: loop_member loop_close len add.assoc)
  next
    case False
    let ?o = "o1\<lparr>tk_size := Suc (tk_size o1)\<rparr>"
    let ?pos = "pos + length k + 4 + 2 * jval_quote v + length (jval_text v)"
    let ?ts = "ts @ member_toks pos (Suc (length ts)) [(k, v)]"
    have "jsmn_loop n pos (json_members (m # ms) @ ''}'') \<lparr>js_toks = o1 # ts, js_super = Some 0\<rparr> =
      jsmn_loop n ?pos (json_members ms @ ''}'') \<lparr>js_toks = ?o # ?ts, js_super = Some 0\<rparr>"
      using Cons.prems m delim False
      by (simp add: loop_member loop_comma) (simp add: member_state_def numeral_eq_Suc add.assoc)
    also have "\<dots> = Inr \<lparr>js_toks = ?o\<lparr>tk_size := tk_size ?o + length ms,
          tk_end := Some (Suc (?pos + length (json_members ms)))\<rparr>
            # ?ts @ member_toks ?pos (Suc (length ?ts)) ms, js_super = None\<rparr>"
      using Cons.prems False by (intro Cons.IH) (simp_all add: Let_def)
    finally show ?thesis using m False
      by (simp add: Let_def len algebra_simps)
  qed
qed

text \<open>The whole text: the object token, then two tokens for each member.\<close>

lemma flat_parse:
  assumes "ms \<noteq> []" "list_all (\<lambda>(k, v). plain_key k \<and> jval_ok v) ms" "2 * length ms < n"
  shows "daemoon_json_parse (Some (json_flat ms)) n = Inr (flat_toks ms)"
proof -
  let ?o = "obj_tok None 0"
  have closed: "list_all (\<lambda>t. tk_end t \<noteq> None) (member_toks pos i ms)" for pos i and ms :: "(bytes \<times> jval) list"
    by (induction pos i ms rule: member_toks.induct) (simp_all add: Let_def)
  have "jsmn_loop n 0 (json_flat ms) \<lparr>js_toks = [], js_super = None\<rparr> =
      jsmn_loop n 1 (json_members ms @ ''}'') \<lparr>js_toks = [?o], js_super = Some 0\<rparr>"
    using assms by (simp add: json_flat_def jsmn_loop.simps(2) jsmn_punct_def jsmn_alloc_def bump_size_def
        jsmn_new_token_def obj_tok_def)
  also have "\<dots> = Inr \<lparr>js_toks = flat_toks ms, js_super = None\<rparr>"
    using assms by (subst loop_members) (simp_all add: flat_toks_def obj_tok_def json_flat_def)
  finally show ?thesis
    using closed [of 1 1 ms] assms
    by (simp add: daemoon_json_parse_def jsmn_parse_def flat_toks_def obj_tok_def list_all_iff list_ex_iff)
qed

section \<open>Looking up a member\<close>

lemma member_toks_find:
  assumes "js = pre @ json_members ms @ ''}''" "length pre = pos"
    and "list_all (\<lambda>(k, v). plain_key k) ms" "i > 0"
  shows "case map_of ms key of
      None \<Rightarrow> json_find_loop js 0 key i (member_toks pos i ms) = None
    | Some v \<Rightarrow> \<exists>j. json_find_loop js 0 key i (member_toks pos i ms) = Some (i + j) \<and>
        j < length (member_toks pos i ms) \<and>
        (let t = member_toks pos i ms ! j in tk_type t = jval_type v \<and> tok_text js t = jval_text v \<and>
          (jval_type v = JSMN_PRIMITIVE \<longrightarrow> js ! tk_start t = hd (jval_text v)) \<and>
          the (tk_end t) = tk_start t + length (jval_text v))"
  using assms
proof (induction ms arbitrary: pre pos i)
  case Nil
  then show ?case by simp
next
  case (Cons m ms)
  obtain k v where m: "m = (k, v)" by (cases m)
  let ?vpos = "pos + length k + 3 + jval_quote v"
  let ?tail = "(if ms = [] then [] else CHR '','' # json_members ms) @ ''}''"
  let ?q = "replicate (jval_quote v) (CHR 0x22)"
  have js: "js = (pre @ CHR 0x22 # k @ CHR 0x22 # CHR '':'' # ?q) @ jval_text v @ ?q @ ?tail"
    using Cons.prems m by (simp add: jval_render_def)
  have key_text: "take (length k) (drop (Suc pos) js) = k"
    using Cons.prems m by (auto simp: Suc_diff_le)
  have "length (pre @ CHR 0x22 # k @ CHR 0x22 # CHR '':'' # ?q) = ?vpos"
    using Cons.prems by simp
  with js have val_drop: "drop ?vpos js = jval_text v @ ?q @ ?tail"
    by (metis append_eq_conv_conj)
  then have val_text: "take (length (jval_text v)) (drop ?vpos js) = jval_text v"
    by simp
  have val_hd: "jval_type v = JSMN_PRIMITIVE \<Longrightarrow> js ! ?vpos = hd (jval_text v)"
    using val_drop
    by (cases v) (simp_all, (metis drop_eq_Nil2 append_is_Nil_conv dec_nonempty hd_append2 hd_drop_conv_nth
        list.discI list.sel(1) not_le)+)
  show ?case
  proof (cases "key = k")
    case True
    with m Cons.prems key_text val_text val_hd show ?thesis
      by (auto simp: Let_def tok_eq_def tok_text_def intro!: exI [of _ 1])
  next
    case False
    let ?pos = "?vpos + length (jval_text v) + jval_quote v + 1"
    let ?rest = "json_find_loop js 0 key (i + 2) (member_toks ?pos (i + 2) ms)"
    have step: "json_find_loop js 0 key i (member_toks pos i (m # ms)) = ?rest"
      using False Cons.prems m key_text by (auto simp: Let_def tok_eq_def tok_text_def)
    show ?thesis
    proof (cases "ms = []")
      case True
      with m False step show ?thesis by simp
    next
      case nonempty: False
      have IH: "case map_of ms key of None \<Rightarrow> ?rest = None
        | Some v \<Rightarrow> \<exists>j. ?rest = Some (i + 2 + j) \<and> j < length (member_toks ?pos (i + 2) ms) \<and>
            (let t = member_toks ?pos (i + 2) ms ! j in tk_type t = jval_type v \<and> tok_text js t = jval_text v \<and>
              (jval_type v = JSMN_PRIMITIVE \<longrightarrow> js ! tk_start t = hd (jval_text v)) \<and>
              the (tk_end t) = tk_start t + length (jval_text v))"
        using Cons.prems nonempty js
        by (intro Cons.IH [of "pre @ CHR 0x22 # k @ CHR 0x22 # CHR '':'' # jval_render v @ '',''"])
           (simp_all add: jval_render_def)
      show ?thesis
      proof (cases "map_of ms key")
        case None
        with IH m False step show ?thesis by simp
      next
        case (Some v')
        with IH obtain j where j: "?rest = Some (i + 2 + j)" "j < length (member_toks ?pos (i + 2) ms)"
          and t: "let t = member_toks ?pos (i + 2) ms ! j in tk_type t = jval_type v' \<and> tok_text js t = jval_text v' \<and>
              (jval_type v' = JSMN_PRIMITIVE \<longrightarrow> js ! tk_start t = hd (jval_text v')) \<and>
              the (tk_end t) = tk_start t + length (jval_text v')"
          by auto
        have "member_toks pos i (m # ms) ! Suc (Suc j) = member_toks ?pos (i + 2) ms ! j"
          using m by (simp add: Let_def)
        moreover have "length (member_toks pos i (m # ms)) = 2 + length (member_toks ?pos (i + 2) ms)"
          using m by (simp add: Let_def)
        ultimately show ?thesis
          using Some j t m False step
          by (simp del: member_toks.simps add: exI [of _ "Suc (Suc j)"])
      qed
    qed
  qed
qed

lemma flat_find:
  assumes "list_all (\<lambda>(k, v). plain_key k) ms"
  shows "case map_of ms key of
      None \<Rightarrow> daemoon_json_find (json_flat ms) (flat_toks ms) 0 key = None
    | Some v \<Rightarrow> \<exists>j t. daemoon_json_find (json_flat ms) (flat_toks ms) 0 key = Some j \<and>
        flat_toks ms ! j = t \<and> tk_type t = jval_type v \<and> tok_text (json_flat ms) t = jval_text v \<and>
        (jval_type v = JSMN_PRIMITIVE \<longrightarrow> json_flat ms ! tk_start t = hd (jval_text v)) \<and>
        the (tk_end t) = tk_start t + length (jval_text v)"
proof -
  have find: "daemoon_json_find (json_flat ms) (flat_toks ms) 0 key =
      json_find_loop (json_flat ms) 0 key 1 (member_toks 1 1 ms)"
    by (simp add: daemoon_json_find_def flat_toks_def obj_tok_def)
  show ?thesis
    using member_toks_find [of "json_flat ms" "''{''" ms 1 1 key] assms
    unfolding find
    by (auto simp: json_flat_def flat_toks_def Let_def split: option.splits)
qed

lemma flat_find_None:
  "list_all (\<lambda>(k, v). plain_key k) ms \<Longrightarrow> map_of ms key = None \<Longrightarrow>
    daemoon_json_find (json_flat ms) (flat_toks ms) 0 key = None"
  using flat_find [of ms key] by simp

lemma flat_get_str:
  assumes "list_all (\<lambda>(k, v). plain_key k \<and> jval_ok v) ms" "map_of ms key = Some (JStr b)" "length b < cap"
  shows "daemoon_json_get_str (json_flat ms) (flat_toks ms) 0 key (Some d) cap = (OK, Some b)"
proof -
  have keys: "list_all (\<lambda>(k, v). plain_key k) ms" using assms(1) by (auto simp: list_all_iff)
  have "nul_free b" using assms(1) map_of_SomeD [OF assms(2)] by (auto simp: list_all_iff)
  then show ?thesis
    using flat_find [OF keys, of key] assms(2,3)
    by (auto simp: daemoon_json_get_str_def intro: json_str_body)
qed

lemma flat_get_str_None:
  "list_all (\<lambda>(k, v). plain_key k) ms \<Longrightarrow> map_of ms key = None \<Longrightarrow>
    daemoon_json_get_str (json_flat ms) (flat_toks ms) 0 key out cap = (ERR_PARSE_ERROR, out)"
  by (simp add: daemoon_json_get_str_def flat_find_None)

lemma flat_get_uint:
  assumes "list_all (\<lambda>(k, v). plain_key k) ms" "map_of ms key = Some (JNum v)" "v < 2 ^ 64"
  shows "daemoon_json_get_uint (json_flat ms) (flat_toks ms) 0 key = Inr v"
  using flat_find [OF assms(1), of key] assms(2,3)
  by (auto simp: daemoon_json_get_uint_def intro!: json_uint_dec)

lemma flat_get_uint_None:
  "list_all (\<lambda>(k, v). plain_key k) ms \<Longrightarrow> map_of ms key = None \<Longrightarrow>
    daemoon_json_get_uint (json_flat ms) (flat_toks ms) 0 key = Inl ERR_PARSE_ERROR"
  by (simp add: daemoon_json_get_uint_def flat_find_None)

text \<open>The way \<open>parent_version\<close> is read: by index, null or a number.\<close>

lemma flat_find_num:
  assumes "list_all (\<lambda>(k, v). plain_key k) ms" "map_of ms key = Some (JNum v)" "v < 2 ^ 64"
  obtains j where "daemoon_json_find (json_flat ms) (flat_toks ms) 0 key = Some j"
    "\<not> daemoon_json_is_null (json_flat ms) (Some (flat_toks ms ! j))"
    "daemoon_json_uint (json_flat ms) (Some (flat_toks ms ! j)) = Inr v"
proof -
  have "is_digit (hd (dec v))" using dec_digits [of v] by (cases "dec v") auto
  then have "hd (dec v) \<noteq> CHR ''n''" by (auto simp: is_digit_def)
  moreover from flat_find [OF assms(1), of key] assms(2)
  obtain j where j: "daemoon_json_find (json_flat ms) (flat_toks ms) 0 key = Some j"
    "tk_type (flat_toks ms ! j) = JSMN_PRIMITIVE" "tok_text (json_flat ms) (flat_toks ms ! j) = dec v"
    "json_flat ms ! tk_start (flat_toks ms ! j) = hd (dec v)"
    "the (tk_end (flat_toks ms ! j)) = tk_start (flat_toks ms ! j) + length (dec v)"
    by auto
  moreover from j assms(3) have "daemoon_json_uint (json_flat ms) (Some (flat_toks ms ! j)) = Inr v"
    by (intro json_uint_dec) simp_all
  ultimately show thesis by (intro that [of j]) (simp_all add: daemoon_json_is_null_def)
qed

lemma flat_find_null:
  assumes "list_all (\<lambda>(k, v). plain_key k) ms" "map_of ms key = Some JNull"
  obtains j where "daemoon_json_find (json_flat ms) (flat_toks ms) 0 key = Some j"
    "daemoon_json_is_null (json_flat ms) (Some (flat_toks ms ! j))"
  using flat_find [OF assms(1), of key] assms(2) that
  by (auto simp: daemoon_json_is_null_def)

lemma flat_find_str:
  assumes "list_all (\<lambda>(k, v). plain_key k \<and> jval_ok v) ms" "map_of ms key = Some (JStr b)" "length b < cap"
  obtains j where "daemoon_json_find (json_flat ms) (flat_toks ms) 0 key = Some j"
    "tk_type (flat_toks ms ! j) = JSMN_STRING"
    "daemoon_json_str (json_flat ms) (Some (flat_toks ms ! j)) (Some d) cap = (OK, Some b)"
proof -
  have keys: "list_all (\<lambda>(k, v). plain_key k) ms" using assms(1) by (auto simp: list_all_iff)
  have "nul_free b" using assms(1) map_of_SomeD [OF assms(2)] by (auto simp: list_all_iff)
  with flat_find [OF keys, of key] assms(2,3) that show thesis
    by (auto intro: json_str_body)
qed

section \<open>Properties\<close>

text \<open>C26 Whatever string is escaped by the writer, the reader gets it back: put between quotes as the
  value of a member, it parses, the member is found, and decoding its escapes gives the string
  unchanged, with every quote, backslash and control character in it.\<close>
theorem json_string_roundtrip:
  assumes "nul_free s" and "plain_key k" and "length s < cap"
  shows "\<exists>body toks. sb_json (daemoon_strbuf_init (6 * length s + 1)) s = sb_of (6 * length s + 1) body \<and>
    daemoon_strbuf_result (sb_json (daemoon_strbuf_init (6 * length s + 1)) s) = OK \<and>
    daemoon_json_parse (Some (''{'' @ quoted k @ '':'' @ quoted body @ ''}'')) 8 = Inr toks \<and>
    daemoon_json_get_str (''{'' @ quoted k @ '':'' @ quoted body @ ''}'') toks 0 k (Some []) cap = (OK, Some s)"
proof -
  let ?ms = "[(k, JStr s)]"
  have render: "json_flat ?ms = ''{'' @ quoted k @ '':'' @ quoted (json_body s) @ ''}''"
    by (simp add: json_flat_def jval_render_def)
  have ok: "list_all (\<lambda>(k, v). plain_key k \<and> jval_ok v) ?ms" using assms by simp
  have parse: "daemoon_json_parse (Some (json_flat ?ms)) 8 = Inr (flat_toks ?ms)"
    using ok by (intro flat_parse) simp_all
  have get: "daemoon_json_get_str (json_flat ?ms) (flat_toks ?ms) 0 k (Some []) cap = (OK, Some s)"
    using ok assms by (intro flat_get_str) simp_all
  show ?thesis
    using parse get assms length_json_body [of s] unfolding render
    by (intro exI [of _ "json_body s"] exI [of _ "flat_toks ?ms"]) (simp add: sb_simps)
qed

theorem json_string_roundtrip_witness:
  "\<exists>js toks. daemoon_json_get_str js toks 0 ''a'' (Some []) 4 = (OK, Some [CHR 0x22, CHR 0x01, CHR 0x5c])"
  using json_string_roundtrip [of "[CHR 0x22, CHR 0x01, CHR 0x5c]" "''a''" 4]
  by (auto simp: plain_key_def json_escape_def u8_def)

text \<open>The number reader accepts exactly the non empty digit strings below 2 to the 64 and gives their
  value; a sign, a fraction, or one digit too many is a parse error and never a wrapped value.\<close>
lemma json_uint_exact:
  "daemoon_json_uint w (Some \<lparr>tk_type = JSMN_PRIMITIVE, tk_start = 0, tk_end = Some (length w), tk_size = n,
      tk_parent = p\<rparr>) =
    (if w \<noteq> [] \<and> list_all is_digit w \<and> dec_val 0 w < 2 ^ 64 then Inr (dec_val 0 w) else Inl ERR_PARSE_ERROR)"
  by (auto simp: daemoon_json_uint_def tok_text_def json_uint_loop_iff)

end
