(* ===== verification/Backend.thy ===== *)
theory Backend
  imports Result
begin

text \<open>
  \<open>core/include/daemoon/backend.h\<close> and \<open>core/src/backend.c\<close>: the platform
  interfaces and the helpers on top of them.

  The state behind every interface of an environment is one world \<open>'w\<close>, so the
  \<open>void *ctx\<close> of the source is gone: an entry point is a function of its arguments and
  the world. An optional entry point (a function pointer that may be NULL) is an option; calling
  NULL is a crash, which the model gives no result (\<open>call_fn\<close>). An out parameter is part
  of the result. A pointer that a function only ever receives from the core's own callers (the
  environment, a title, a work area) is the value it points at.

  A backend that calls back is a tree of its calls: a \<open>walk\<close> is one
  \<open>list_entries\<close> with the answers of the callback as branches. A tree is well founded, so
  it ends; that is the assumption that a platform's directory listing ends.
\<close>

section \<open>The spellings that go on the wire\<close>

datatype platform = PLATFORM_UNKNOWN | PLATFORM_3DS | PLATFORM_NX | PLATFORM_NDS

datatype save_type = SAVE_UNKNOWN | SAVE_SAVEDATA | SAVE_EXTDATA | SAVE_NDS

fun daemoon_platform_name :: "platform \<Rightarrow> bytes" where
  "daemoon_platform_name PLATFORM_3DS = ''3ds''"
| "daemoon_platform_name PLATFORM_NX = ''nx''"
| "daemoon_platform_name PLATFORM_NDS = ''nds''"
| "daemoon_platform_name PLATFORM_UNKNOWN = ''unknown''"

definition str_eq_n :: "bytes \<Rightarrow> bytes \<Rightarrow> bool" where
  "str_eq_n s lit \<longleftrightarrow> length s = length lit \<and> s = lit"

text \<open>\<open>s\<close> is the buffer (\<open>None\<close> for NULL); a length of 0 asks for the C string in it.\<close>

definition text_arg :: "bytes \<Rightarrow> nat \<Rightarrow> bytes" where
  "text_arg s len = (if len = 0 then cstr s else take len s)"

definition daemoon_platform_parse :: "bytes option \<Rightarrow> nat \<Rightarrow> platform" where
  "daemoon_platform_parse s len =
    (case s of None \<Rightarrow> PLATFORM_UNKNOWN
     | Some b \<Rightarrow>
        let t = text_arg b len
        in if str_eq_n t ''3ds'' then PLATFORM_3DS
           else if str_eq_n t ''nx'' then PLATFORM_NX
           else if str_eq_n t ''nds'' then PLATFORM_NDS
           else PLATFORM_UNKNOWN)"

fun daemoon_save_type_name :: "save_type \<Rightarrow> bytes" where
  "daemoon_save_type_name SAVE_SAVEDATA = ''savedata''"
| "daemoon_save_type_name SAVE_EXTDATA = ''extdata''"
| "daemoon_save_type_name SAVE_NDS = ''nds''"
| "daemoon_save_type_name SAVE_UNKNOWN = ''unknown''"

definition daemoon_save_type_parse :: "bytes option \<Rightarrow> nat \<Rightarrow> save_type" where
  "daemoon_save_type_parse s len =
    (case s of None \<Rightarrow> SAVE_UNKNOWN
     | Some b \<Rightarrow>
        let t = text_arg b len
        in if str_eq_n t ''savedata'' then SAVE_SAVEDATA
           else if str_eq_n t ''extdata'' then SAVE_EXTDATA
           else if str_eq_n t ''nds'' then SAVE_NDS
           else SAVE_UNKNOWN)"

text \<open>A spelling of an enumeration: every value but the unknown one is read back from its name.\<close>

locale wire_names =
  fixes name :: "'e \<Rightarrow> bytes" and parse :: "bytes \<Rightarrow> 'e" and unknown :: 'e
  assumes name_nul_free: "nul_free (name e)"
    and name_nonempty: "name e \<noteq> []"
    and parse_name: "parse (name e) = e"
    and parse_sound: "parse s \<noteq> unknown \<Longrightarrow> cstr s = name (parse s)"
begin

lemma name_inj: "name a = name b \<longleftrightarrow> a = b"
  by (metis parse_name)

lemma parse_cstr: "parse s \<noteq> unknown \<Longrightarrow> parse (cstr s) = parse s"
  by (metis parse_sound parse_name)

end

lemmas parse_defs = daemoon_platform_parse_def daemoon_save_type_parse_def text_arg_def str_eq_n_def Let_def

interpretation platform: wire_names daemoon_platform_name "\<lambda>s. daemoon_platform_parse (Some s) 0"
  PLATFORM_UNKNOWN
proof
  fix e
  show "nul_free (daemoon_platform_name e)" "daemoon_platform_name e \<noteq> []" by (cases e; simp)+
  show "daemoon_platform_parse (Some (daemoon_platform_name e)) 0 = e"
    by (cases e) (simp_all add: parse_defs)
qed (auto simp: parse_defs split: if_splits)

interpretation save_type: wire_names daemoon_save_type_name "\<lambda>s. daemoon_save_type_parse (Some s) 0"
  SAVE_UNKNOWN
proof
  fix e
  show "nul_free (daemoon_save_type_name e)" "daemoon_save_type_name e \<noteq> []" by (cases e; simp)+
  show "daemoon_save_type_parse (Some (daemoon_save_type_name e)) 0 = e"
    by (cases e) (simp_all add: parse_defs)
qed (auto simp: parse_defs split: if_splits)

section \<open>Data\<close>

text \<open>Buffer sizes: a text field of size \<open>n\<close> holds at most \<open>n - 1\<close> bytes.\<close>

definition TITLE_ID_MAX :: nat where "TITLE_ID_MAX = 33"
definition NAME_MAX :: nat where "NAME_MAX = 128"
definition PATH_MAX :: nat where "PATH_MAX = 256"
definition LABEL_MAX :: nat where "LABEL_MAX = 65"
definition SHA256_HEX :: nat where "SHA256_HEX = 65"

lemmas size_defs = TITLE_ID_MAX_def NAME_MAX_def PATH_MAX_def LABEL_MAX_def SHA256_HEX_def

record title =
  ti_id :: bytes
  ti_name :: bytes
  ti_platform :: platform
  ti_save_type :: save_type
  ti_size_hint :: nat
  ti_has_save :: bool
  ti_secure_value :: bool
  ti_account_bound :: bool

datatype open_mode = OPEN_READ | OPEN_WRITE

record str_ref =
  sr_id :: str_id
  sr_args :: "bytes list"

section \<open>Streams\<close>

record 'w stream =
  st_read :: "(nat \<Rightarrow> 'w \<Rightarrow> (result \<times> bytes) \<times> 'w) option"
  st_write :: "(bytes \<Rightarrow> 'w \<Rightarrow> result \<times> 'w) option"
  st_seek :: "(nat \<Rightarrow> 'w \<Rightarrow> result \<times> 'w) option"
  st_close :: "('w \<Rightarrow> result \<times> 'w) option"
  st_size :: nat

text \<open>A \<open>daemoon_stream_t *\<close>: \<open>None\<close> is NULL.\<close>

type_synonym 'w stream_ptr = "'w stream option"

definition daemoon_stream_read :: "'w stream_ptr \<Rightarrow> nat \<Rightarrow> ('w, result \<times> bytes) prog" where
  "daemoon_stream_read s cap =
    (case s of None \<Rightarrow> return_io (ERR_INVALID_REQUEST, [])
     | Some s \<Rightarrow>
        (case st_read s of None \<Rightarrow> return_io (ERR_INVALID_REQUEST, [])
         | Some read \<Rightarrow> call_io (read cap)))"

definition daemoon_stream_write :: "'w stream_ptr \<Rightarrow> bytes \<Rightarrow> ('w, result) prog" where
  "daemoon_stream_write s buf =
    (case s of None \<Rightarrow> return_io ERR_INVALID_REQUEST
     | Some s \<Rightarrow>
        (case st_write s of None \<Rightarrow> return_io ERR_INVALID_REQUEST
         | Some write \<Rightarrow> if buf = [] then return_io OK else call_io (write buf)))"

definition daemoon_stream_seek :: "'w stream_ptr \<Rightarrow> nat \<Rightarrow> ('w, result) prog" where
  "daemoon_stream_seek s offset =
    (case s of None \<Rightarrow> return_io ERR_UNSUPPORTED
     | Some s \<Rightarrow>
        (case st_seek s of None \<Rightarrow> return_io ERR_UNSUPPORTED
         | Some seek \<Rightarrow> call_io (seek offset)))"

definition daemoon_stream_close :: "'w stream_ptr \<Rightarrow> ('w, result) prog" where
  "daemoon_stream_close s =
    (case s of None \<Rightarrow> return_io OK
     | Some s \<Rightarrow> (case st_close s of None \<Rightarrow> return_io OK | Some close \<Rightarrow> call_io close))"

text \<open>The bytes read so far are \<open>done\<close>; every round adds at least one.\<close>

function read_full_loop :: "'w stream_ptr \<Rightarrow> nat \<Rightarrow> bytes \<Rightarrow> ('w, result \<times> bytes) prog" where
  "read_full_loop s len got w =
    (if length got \<ge> len then Some ((OK, got), w)
     else case daemoon_stream_read s (len - length got) w of None \<Rightarrow> None
       | Some ((r, bs), w') \<Rightarrow>
          if r \<noteq> OK then Some ((r, got), w')
          else if bs = [] then Some ((ERR_IO_ERROR, got), w')
          else read_full_loop s len (got @ bs) w')"
  by pat_completeness auto
termination
  by (relation "measure (\<lambda>(s, len, got, w). len - length got)") (auto intro!: diff_less_mono2)

declare read_full_loop.simps [simp del]

definition daemoon_stream_read_full :: "'w stream_ptr \<Rightarrow> nat \<Rightarrow> ('w, result \<times> bytes) prog" where
  "daemoon_stream_read_full s len = read_full_loop s len []"

text \<open>
  A copy ends only when its source does, so its loop is a partial function: \<open>None\<close> for a
  source that never reports its end. The second component is \<open>*out_copied\<close>.
\<close>

partial_function (option) copy_loop ::
  "'w stream_ptr \<Rightarrow> 'w stream_ptr \<Rightarrow> nat \<Rightarrow> nat \<Rightarrow> 'w \<Rightarrow> ((result \<times> nat) \<times> 'w) option" where
  "copy_loop dst src scratch_len n w =
    Option.bind (daemoon_stream_read src scratch_len w) (\<lambda>((r, bs), w).
      if r \<noteq> OK then Some ((r, 0), w)
      else if bs = [] then Some ((OK, n), w)
      else Option.bind (daemoon_stream_write dst bs w) (\<lambda>(r, w).
        if r \<noteq> OK then Some ((r, 0), w) else copy_loop dst src scratch_len (n + length bs) w))"

definition daemoon_stream_copy ::
  "'w stream_ptr \<Rightarrow> 'w stream_ptr \<Rightarrow> nat option \<Rightarrow> ('w, result \<times> nat) prog" where
  "daemoon_stream_copy dst src scratch =
    (if dst = None \<or> src = None \<or> scratch = None \<or> scratch = Some 0
     then return_io (ERR_INVALID_REQUEST, 0)
     else copy_loop dst src (the scratch) 0)"

section \<open>Interfaces\<close>

type_synonym save_handle = nat

datatype 'w walk =
  WDone result 'w
| WEntry bytes nat "bool \<Rightarrow> 'w walk"

text \<open>The callback of a walk has a state of its own; its answer \<open>True\<close> asks to stop.\<close>

primrec run_walk :: "('u \<Rightarrow> bytes \<Rightarrow> nat \<Rightarrow> bool \<times> 'u) \<Rightarrow> 'w walk \<Rightarrow> 'u \<Rightarrow> (result \<times> 'u) \<times> 'w" where
  "run_walk cb (WDone r w) u = ((r, u), w)"
| "run_walk cb (WEntry path sz k) u =
    (case cb u path sz of (stop, u') \<Rightarrow> run_walk cb (k stop) u')"

record 'w save_backend =
  sv_list_titles :: "('w \<Rightarrow> (result \<times> title list) \<times> 'w) option"
  sv_open_save :: "(title \<Rightarrow> 'w \<Rightarrow> (result \<times> save_handle) \<times> 'w) option"
  sv_open_save_write :: "(title \<Rightarrow> 'w \<Rightarrow> (result \<times> save_handle) \<times> 'w) option"
  sv_list_entries :: "(save_handle \<Rightarrow> 'w \<Rightarrow> 'w walk) option"
  sv_open_file :: "(save_handle \<Rightarrow> bytes \<Rightarrow> open_mode \<Rightarrow> 'w \<Rightarrow> (result \<times> 'w stream_ptr) \<times> 'w) option"
  sv_remove_all :: "(save_handle \<Rightarrow> 'w \<Rightarrow> result \<times> 'w) option"
  sv_commit :: "(save_handle \<Rightarrow> 'w \<Rightarrow> result \<times> 'w) option"
  sv_close_save :: "(save_handle \<Rightarrow> 'w \<Rightarrow> result \<times> 'w) option"
  sv_is_title_running :: "(title \<Rightarrow> 'w \<Rightarrow> (result \<times> int) \<times> 'w) option"
  sv_read_secure_value :: "(title \<Rightarrow> 'w \<Rightarrow> (result \<times> int \<times> nat) \<times> 'w) option"
  sv_write_secure_value :: "(title \<Rightarrow> nat \<Rightarrow> 'w \<Rightarrow> result \<times> 'w) option"
  sv_clear_secure_value :: "(title \<Rightarrow> 'w \<Rightarrow> result \<times> 'w) option"

record http_req =
  rq_method :: bytes
  rq_url :: bytes
  rq_headers :: "(bytes \<times> bytes) list"
  rq_has_body :: bool
  rq_body_len :: int
  rq_timeout_ms :: nat

text \<open>
  One HTTP request as the net backend performs it: it pulls the request body, hands over pieces of
  the response body (with the status it has filled in by then), and ends with the result and the
  response fields.
\<close>

record http_resp =
  rs_status :: int
  rs_sha256 :: bytes
  rs_content_length :: int

datatype 'w exchange =
  XDone result http_resp 'w
| XPull nat 'w "result \<Rightarrow> bytes \<Rightarrow> 'w \<Rightarrow> 'w exchange"
| XBody int bytes 'w "result \<Rightarrow> 'w \<Rightarrow> 'w exchange"

primrec run_exchange ::
  "('u \<Rightarrow> nat \<Rightarrow> ('w, (result \<times> bytes) \<times> 'u) prog) \<Rightarrow> ('u \<Rightarrow> int \<Rightarrow> bytes \<Rightarrow> ('w, result \<times> 'u) prog) \<Rightarrow>
    'w exchange \<Rightarrow> 'u \<Rightarrow> ((result \<times> http_resp \<times> 'u) \<times> 'w) option" where
  "run_exchange pull body (XDone r resp w) u = Some ((r, resp, u), w)"
| "run_exchange pull body (XPull cap w k) u =
    (case pull u cap w of None \<Rightarrow> None
     | Some (((r, bs), u'), w') \<Rightarrow> run_exchange pull body (k r bs w') u')"
| "run_exchange pull body (XBody status bs w k) u =
    (case body u status bs w of None \<Rightarrow> None
     | Some ((r, u'), w') \<Rightarrow> run_exchange pull body (k r w') u')"

record 'w net_backend =
  nt_request :: "(http_req \<Rightarrow> 'w \<Rightarrow> 'w exchange) option"

record 'w ui_backend =
  ui_confirm :: "(str_ref \<Rightarrow> 'w \<Rightarrow> int \<times> 'w) option"
  ui_progress :: "(str_ref \<Rightarrow> int \<Rightarrow> 'w \<Rightarrow> unit \<times> 'w) option"
  ui_choose :: "(str_ref \<Rightarrow> str_ref list \<Rightarrow> 'w \<Rightarrow> int \<times> 'w) option"
  ui_notify :: "(str_ref \<Rightarrow> 'w \<Rightarrow> unit \<times> 'w) option"

record 'w fs_backend =
  fs_open :: "(bytes \<Rightarrow> open_mode \<Rightarrow> 'w \<Rightarrow> (result \<times> 'w stream_ptr) \<times> 'w) option"
  fs_remove :: "(bytes \<Rightarrow> 'w \<Rightarrow> result \<times> 'w) option"
  fs_rename :: "(bytes \<Rightarrow> bytes \<Rightarrow> 'w \<Rightarrow> result \<times> 'w) option"
  fs_mkdir_p :: "(bytes \<Rightarrow> 'w \<Rightarrow> result \<times> 'w) option"
  fs_exists :: "(bytes \<Rightarrow> 'w \<Rightarrow> bool \<times> 'w) option"
  fs_free_space :: "(bytes \<Rightarrow> 'w \<Rightarrow> (result \<times> nat) \<times> 'w) option"

text \<open>\<open>env_scratch\<close> is the length of the scratch buffer, \<open>None\<close> when there is none.\<close>

record 'w env =
  env_save :: "'w save_backend option"
  env_net :: "'w net_backend option"
  env_ui :: "'w ui_backend option"
  env_fs :: "'w fs_backend option"
  env_clock :: "(nat \<Rightarrow> 'w \<Rightarrow> (result \<times> bytes) \<times> 'w) option"
  env_server_url :: "bytes option"
  env_token :: "bytes option"
  env_device_label :: "bytes option"
  env_work_dir :: "bytes option"
  env_scratch :: "nat option"

definition env_scratch_len :: "'w env \<Rightarrow> nat" where
  "env_scratch_len env = (case env_scratch env of None \<Rightarrow> 0 | Some n \<Rightarrow> n)"

text \<open>A call through the field \<open>sel\<close> of an interface.\<close>

definition call_fn :: "'b option \<Rightarrow> ('b \<Rightarrow> 'f option) \<Rightarrow> ('f \<Rightarrow> 'w \<Rightarrow> 'a \<times> 'w) \<Rightarrow> ('w, 'a) prog" where
  "call_fn b sel app =
    (case b of None \<Rightarrow> (\<lambda>_. None)
     | Some b \<Rightarrow> (case sel b of None \<Rightarrow> (\<lambda>_. None) | Some f \<Rightarrow> call_io (app f)))"

definition c_string_empty :: "bytes option \<Rightarrow> bool" where
  "c_string_empty s = (case s of None \<Rightarrow> True | Some b \<Rightarrow> cstr b = [])"

definition daemoon_env_validate :: "'w env option \<Rightarrow> result" where
  "daemoon_env_validate env =
    (case env of None \<Rightarrow> ERR_INVALID_REQUEST
     | Some e \<Rightarrow>
      if env_scratch e = None \<or> the (env_scratch e) < 4096 then ERR_INVALID_REQUEST
      else if env_save e = None \<or> env_fs e = None \<or> env_ui e = None then ERR_INVALID_REQUEST
      else
       (let save = the (env_save e); fs = the (env_fs e); ui = the (env_ui e)
        in if sv_list_titles save = None \<or> sv_open_save save = None \<or>
              sv_open_save_write save = None \<or> sv_list_entries save = None \<or>
              sv_open_file save = None \<or> sv_remove_all save = None \<or>
              sv_commit save = None \<or> sv_close_save save = None
           then ERR_INVALID_REQUEST
           else if fs_open fs = None \<or> fs_rename fs = None \<or> fs_mkdir_p fs = None \<or>
              fs_remove fs = None \<or> fs_exists fs = None
           then ERR_INVALID_REQUEST
           else if ui_confirm ui = None \<or> ui_choose ui = None then ERR_INVALID_REQUEST
           else if c_string_empty (env_work_dir e) then ERR_INVALID_REQUEST
           else if c_string_empty (env_device_label e) then ERR_INVALID_REQUEST
           else OK))"

section \<open>Programs that end\<close>

lemma call_fn_returns: "b = Some x \<Longrightarrow> sel x = Some f \<Longrightarrow> returns (call_fn b sel app) w"
  by (simp add: call_fn_def)

lemma call_fn_Some: "call_fn (Some b) sel app = (case sel b of None \<Rightarrow> (\<lambda>_. None) | Some f \<Rightarrow> call_io (app f))"
  by (simp add: call_fn_def)

lemma stream_ops_return [simp]:
  "returns (daemoon_stream_read s cap) w" "returns (daemoon_stream_write s bs) w"
  "returns (daemoon_stream_seek s off) w" "returns (daemoon_stream_close s) w"
  by (simp_all add: daemoon_stream_read_def daemoon_stream_write_def daemoon_stream_seek_def
      daemoon_stream_close_def split: option.splits)

lemma read_full_returns: "returns (daemoon_stream_read_full s len) w"
proof -
  have "read_full_loop s len got w \<noteq> None" for got
  proof (induction s len got w rule: read_full_loop.induct)
    case (1 s len got w)
    have "daemoon_stream_read s (len - length got) w \<noteq> None"
      using stream_ops_return(1) [of s "len - length got" w] by (simp add: returns_def)
    with 1 show ?case by (subst read_full_loop.simps) (auto split: option.splits)
  qed
  then show ?thesis by (simp add: returns_def daemoon_stream_read_full_def)
qed

section \<open>Concrete instances for the examples\<close>

text \<open>A world of one file read front to back and one file written.\<close>

definition mem_read :: "nat \<Rightarrow> bytes \<times> bytes \<Rightarrow> (result \<times> bytes) \<times> (bytes \<times> bytes)" where
  "mem_read cap w = ((OK, take cap (fst w)), (drop cap (fst w), snd w))"

definition mem_write :: "bytes \<Rightarrow> bytes \<times> bytes \<Rightarrow> result \<times> (bytes \<times> bytes)" where
  "mem_write bs w = (OK, (fst w, snd w @ bs))"

definition mem_source :: "(bytes \<times> bytes) stream" where
  "mem_source = \<lparr>st_read = Some mem_read, st_write = None, st_seek = None, st_close = None, st_size = 0\<rparr>"

definition mem_sink :: "(bytes \<times> bytes) stream" where
  "mem_sink = \<lparr>st_read = None, st_write = Some mem_write, st_seek = None, st_close = None, st_size = 0\<rparr>"

text \<open>Interfaces that have every required entry point and do nothing.\<close>

definition idle_save :: "'w save_backend" where
  "idle_save = \<lparr>sv_list_titles = Some (\<lambda>w. ((OK, []), w)), sv_open_save = Some (\<lambda>t w. ((OK, 0), w)),
    sv_open_save_write = Some (\<lambda>t w. ((OK, 0), w)), sv_list_entries = Some (\<lambda>h w. WDone OK w),
    sv_open_file = Some (\<lambda>h p m w. ((ERR_NOT_FOUND, None), w)), sv_remove_all = Some (\<lambda>h w. (OK, w)),
    sv_commit = Some (\<lambda>h w. (OK, w)), sv_close_save = Some (\<lambda>h w. (OK, w)), sv_is_title_running = None,
    sv_read_secure_value = None, sv_write_secure_value = None, sv_clear_secure_value = None\<rparr>"

definition idle_ui :: "'w ui_backend" where
  "idle_ui = \<lparr>ui_confirm = Some (\<lambda>m w. (0, w)), ui_progress = None, ui_choose = Some (\<lambda>m opts w. (-1, w)),
    ui_notify = None\<rparr>"

definition idle_fs :: "'w fs_backend" where
  "idle_fs = \<lparr>fs_open = Some (\<lambda>p m w. ((ERR_NOT_FOUND, None), w)), fs_remove = Some (\<lambda>p w. (OK, w)),
    fs_rename = Some (\<lambda>p q w. (OK, w)), fs_mkdir_p = Some (\<lambda>p w. (OK, w)), fs_exists = Some (\<lambda>p w. (False, w)),
    fs_free_space = None\<rparr>"

definition idle_env :: "'w env" where
  "idle_env = \<lparr>env_save = Some idle_save, env_net = None, env_ui = Some idle_ui, env_fs = Some idle_fs,
    env_clock = None, env_server_url = None, env_token = None, env_device_label = Some ''label'',
    env_work_dir = Some ''dir'', env_scratch = Some 4096\<rparr>"

section \<open>Properties\<close>

text \<open>The names that go on the wire are unambiguous: every platform and every save type is read back
  from its own name, whether the length is given or found, and a parser gives a known value for
  nothing but that value's name.\<close>
lemma wire_names_roundtrip:
  "daemoon_platform_parse (Some (daemoon_platform_name p)) 0 = p \<and>
   daemoon_platform_parse (Some (daemoon_platform_name p @ junk)) (length (daemoon_platform_name p)) = p \<and>
   daemoon_save_type_parse (Some (daemoon_save_type_name t)) 0 = t \<and>
   daemoon_save_type_parse (Some (daemoon_save_type_name t @ junk)) (length (daemoon_save_type_name t)) = t \<and>
   (daemoon_platform_parse (Some s) 0 = PLATFORM_UNKNOWN \<or>
     cstr s = daemoon_platform_name (daemoon_platform_parse (Some s) 0)) \<and>
   (daemoon_save_type_parse (Some s) 0 = SAVE_UNKNOWN \<or>
     cstr s = daemoon_save_type_name (daemoon_save_type_parse (Some s) 0))"
proof (intro conjI)
  show "daemoon_platform_parse (Some (daemoon_platform_name p @ junk)) (length (daemoon_platform_name p)) = p"
    by (cases p) (simp_all add: parse_defs)
  show "daemoon_save_type_parse (Some (daemoon_save_type_name t @ junk)) (length (daemoon_save_type_name t)) = t"
    by (cases t) (simp_all add: parse_defs)
qed (use platform.parse_name save_type.parse_name platform.parse_sound save_type.parse_sound in auto)

text \<open>C28 A copy from a source that delivers its content in pieces of any size to a sink that accepts
  everything ends, reports the exact number of bytes, and leaves the sink with exactly the source's
  content appended, whatever the scratch buffer's size.\<close>
theorem stream_copy_correct:
  fixes rest sunk :: "'w \<Rightarrow> bytes"
  assumes src: "st_read src = Some rd"
    "\<And>cap w. 0 < cap \<Longrightarrow> \<exists>n w'. rd cap w = ((OK, take n (rest w)), w') \<and> rest w' = drop n (rest w) \<and>
      (rest w \<noteq> [] \<longrightarrow> 0 < n) \<and> sunk w' = sunk w"
    and dst: "st_write dst = Some wr"
    "\<And>bs w. \<exists>w'. wr bs w = (OK, w') \<and> sunk w' = sunk w @ bs \<and> rest w' = rest w"
    and buf: "0 < scratch_len"
  shows "\<exists>w'. daemoon_stream_copy (Some dst) (Some src) (Some scratch_len) w = Some ((OK, length (rest w)), w') \<and>
    sunk w' = sunk w @ rest w \<and> rest w' = []"
proof -
  have loop: "\<exists>w'. copy_loop (Some dst) (Some src) scratch_len k w = Some ((OK, k + length (rest w)), w') \<and>
    sunk w' = sunk w @ rest w \<and> rest w' = []" for k
  proof (induction "length (rest w)" arbitrary: w k rule: less_induct)
    case less
    obtain n w1 where rd: "rd scratch_len w = ((OK, take n (rest w)), w1)" "rest w1 = drop n (rest w)"
      "rest w \<noteq> [] \<longrightarrow> 0 < n" "sunk w1 = sunk w"
      using src(2) [OF buf, of w] by blast
    then have read: "daemoon_stream_read (Some src) scratch_len w = Some ((OK, take n (rest w)), w1)"
      by (simp add: daemoon_stream_read_def src(1) call_io_def)
    show ?case
    proof (cases "rest w = []")
      case True
      with rd read show ?thesis by (subst copy_loop.simps) simp
    next
      case False
      obtain w2 where wr: "wr (take n (rest w)) w1 = (OK, w2)" "sunk w2 = sunk w1 @ take n (rest w)" "rest w2 = rest w1"
        using dst(2) by blast
      have "length (rest w2) < length (rest w)" using False rd wr by simp
      from less [OF this, of "k + length (take n (rest w))"] rd wr obtain w3 where
        "copy_loop (Some dst) (Some src) scratch_len (k + length (take n (rest w))) w2 =
          Some ((OK, k + length (take n (rest w)) + length (drop n (rest w))), w3)"
        "sunk w3 = sunk w @ take n (rest w) @ drop n (rest w)" "rest w3 = []"
        by auto
      with False rd wr read dst(1) show ?thesis
        by (subst copy_loop.simps) (simp add: daemoon_stream_write_def call_io_def)
    qed
  qed
  show ?thesis using loop [of 0] buf by (simp add: daemoon_stream_copy_def)
qed

theorem stream_copy_correct_witness:
  "\<exists>w'. daemoon_stream_copy (Some mem_sink) (Some mem_source) (Some 2) (''abc'', ''x'') = Some ((OK, 3), w') \<and>
    snd w' = ''xabc''"
proof -
  have "\<exists>n w'. mem_read cap w = ((OK, take n (fst w)), w') \<and> fst w' = drop n (fst w) \<and>
      (fst w \<noteq> [] \<longrightarrow> 0 < n) \<and> snd w' = snd w" if "0 < cap" for cap w
    using that by (intro exI [of _ cap]) (simp add: mem_read_def)
  moreover have "\<exists>w'. mem_write bs w = (OK, w') \<and> snd w' = snd w @ bs \<and> fst w' = fst w" for bs w
    by (simp add: mem_write_def)
  ultimately have "\<exists>w'. daemoon_stream_copy (Some mem_sink) (Some mem_source) (Some 2) (''abc'', ''x'') =
      Some ((OK, length (fst (''abc'', ''x''))), w') \<and>
      snd w' = snd (''abc'', ''x'') @ fst (''abc'', ''x'') \<and> fst w' = []"
    by (intro stream_copy_correct [where rd = mem_read and wr = mem_write])
       (simp_all add: mem_source_def mem_sink_def)
  then show ?thesis by (auto simp: numeral_3_eq_3)
qed



end
