(* ===== verification/Sha256.thy ===== *)
theory Sha256
  imports Bits
begin

unbundle bit_operations_syntax

text \<open>
  \<open>core/src/util/sha256.c\<close>: the streaming digest every freshness decision rests on.

  The context keeps its 32 and 64 bit words at their width, so additions wrap as in C. The
  bytes waiting in \<open>block\<close> are the list \<open>sha_block\<close> (\<open>blocklen\<close> is its length); what
  C leaves behind in the array from earlier blocks is always overwritten before it is read.
  \<open>sha_of m\<close> is the context after the message \<open>m\<close>, in whatever pieces it came: the locale
  \<open>incremental_hash\<close> states that contract, and \<open>sha256_spec\<close> is the padded, one shot
  digest of FIPS 180-4.
\<close>

section \<open>A hash fed in pieces\<close>

locale incremental_hash =
  fixes rep :: "bytes \<Rightarrow> 'c"
    and init :: "'c"
    and update :: "'c \<Rightarrow> bytes \<Rightarrow> 'c"
    and final :: "'c \<Rightarrow> 'd"
    and spec :: "bytes \<Rightarrow> 'd"
  assumes init_rep: "init = rep []"
    and update_rep: "update (rep m) d = rep (m @ d)"
    and final_rep: "final (rep m) = spec m"
begin

lemma foldl_update: "foldl update (rep m) ds = rep (m @ concat ds)"
  by (induction ds arbitrary: m) (simp_all add: update_rep)

lemma streamed: "final (foldl update init ds) = spec (concat ds)"
  by (simp add: init_rep foldl_update final_rep)

end

section \<open>The compression function\<close>

type_synonym u32 = "32 word"

definition k_round :: "u32 list" where
  "k_round =
    [0x428A2F98, 0x71374491, 0xB5C0FBCF, 0xE9B5DBA5, 0x3956C25B, 0x59F111F1,
     0x923F82A4, 0xAB1C5ED5, 0xD807AA98, 0x12835B01, 0x243185BE, 0x550C7DC3,
     0x72BE5D74, 0x80DEB1FE, 0x9BDC06A7, 0xC19BF174, 0xE49B69C1, 0xEFBE4786,
     0x0FC19DC6, 0x240CA1CC, 0x2DE92C6F, 0x4A7484AA, 0x5CB0A9DC, 0x76F988DA,
     0x983E5152, 0xA831C66D, 0xB00327C8, 0xBF597FC7, 0xC6E00BF3, 0xD5A79147,
     0x06CA6351, 0x14292967, 0x27B70A85, 0x2E1B2138, 0x4D2C6DFC, 0x53380D13,
     0x650A7354, 0x766A0ABB, 0x81C2C92E, 0x92722C85, 0xA2BFE8A1, 0xA81A664B,
     0xC24B8B70, 0xC76C51A3, 0xD192E819, 0xD6990624, 0xF40E3585, 0x106AA070,
     0x19A4C116, 0x1E376C08, 0x2748774C, 0x34B0BCB5, 0x391C0CB3, 0x4ED8AA4A,
     0x5B9CCA4F, 0x682E6FF3, 0x748F82EE, 0x78A5636F, 0x84C87814, 0x8CC70208,
     0x90BEFFFA, 0xA4506CEB, 0xBEF9A3F7, 0xC67178F2]"

definition ROTR :: "u32 \<Rightarrow> nat \<Rightarrow> u32" where
  "ROTR x n = drop_bit n x OR push_bit (32 - n) x"

definition CH :: "u32 \<Rightarrow> u32 \<Rightarrow> u32 \<Rightarrow> u32" where
  "CH x y z = (x AND y) XOR (NOT x AND z)"

definition MAJ :: "u32 \<Rightarrow> u32 \<Rightarrow> u32 \<Rightarrow> u32" where
  "MAJ x y z = (x AND y) XOR (x AND z) XOR (y AND z)"

definition BSIG0 :: "u32 \<Rightarrow> u32" where "BSIG0 x = ROTR x 2 XOR ROTR x 13 XOR ROTR x 22"
definition BSIG1 :: "u32 \<Rightarrow> u32" where "BSIG1 x = ROTR x 6 XOR ROTR x 11 XOR ROTR x 25"
definition SSIG0 :: "u32 \<Rightarrow> u32" where "SSIG0 x = ROTR x 7 XOR ROTR x 18 XOR drop_bit 3 x"
definition SSIG1 :: "u32 \<Rightarrow> u32" where "SSIG1 x = ROTR x 17 XOR ROTR x 19 XOR drop_bit 10 x"

definition sha_word :: "bytes \<Rightarrow> nat \<Rightarrow> u32" where
  "sha_word block i =
    push_bit 24 (of_nat (u8 (block ! (i * 4)))) OR push_bit 16 (of_nat (u8 (block ! (i * 4 + 1)))) OR
    push_bit 8 (of_nat (u8 (block ! (i * 4 + 2)))) OR of_nat (u8 (block ! (i * 4 + 3)))"

definition sha_schedule :: "bytes \<Rightarrow> u32 list" where
  "sha_schedule block =
    foldl (\<lambda>w i. w @ [SSIG1 (w ! (i - 2)) + w ! (i - 7) + SSIG0 (w ! (i - 15)) + w ! (i - 16)])
      (map (sha_word block) [0..<16]) [16..<64]"

text \<open>The working variables \<open>a, b, cc, d, e, f, g, h\<close>.\<close>

type_synonym sha_vars = "u32 \<times> u32 \<times> u32 \<times> u32 \<times> u32 \<times> u32 \<times> u32 \<times> u32"

fun sha_round :: "sha_vars \<Rightarrow> u32 \<Rightarrow> u32 \<Rightarrow> sha_vars" where
  "sha_round (a, b, cc, d, e, f, g, h) k w =
    (let t1 = h + BSIG1 e + CH e f g + k + w; t2 = BSIG0 a + MAJ a b cc
     in (t1 + t2, a, b, cc, d + t1, e, f, g))"

fun sha256_compress :: "sha_vars \<Rightarrow> bytes \<Rightarrow> sha_vars" where
  "sha256_compress (s0, s1, s2, s3, s4, s5, s6, s7) block =
    (let w = sha_schedule block;
         (a, b, cc, d, e, f, g, h) =
           foldl (\<lambda>v i. sha_round v (k_round ! i) (w ! i)) (s0, s1, s2, s3, s4, s5, s6, s7) [0..<64]
     in (s0 + a, s1 + b, s2 + cc, s3 + d, s4 + e, s5 + f, s6 + g, s7 + h))"

section \<open>The streaming interface\<close>

record sha256 =
  sha_state :: sha_vars
  sha_bitlen :: "64 word"
  sha_block :: bytes

definition sha_init_vars :: sha_vars where
  "sha_init_vars =
    (0x6a09e667, 0xbb67ae85, 0x3c6ef372, 0xa54ff53a, 0x510e527f, 0x9b05688c, 0x1f83d9ab, 0x5be0cd19)"

definition daemoon_sha256_init :: sha256 where
  "daemoon_sha256_init = \<lparr>sha_state = sha_init_vars, sha_bitlen = 0, sha_block = []\<rparr>"

text \<open>The \<open>while (len >= 64)\<close> loop, then what is left goes into the block.\<close>

function sha256_update_loop :: "sha256 \<Rightarrow> bytes \<Rightarrow> sha256" where
  "sha256_update_loop c p =
    (if 64 \<le> length p then
       sha256_update_loop
         (c\<lparr>sha_state := sha256_compress (sha_state c) (take 64 p), sha_bitlen := sha_bitlen c + 512\<rparr>)
         (drop 64 p)
     else if p \<noteq> [] then c\<lparr>sha_block := p\<rparr> else c)"
  by pat_completeness auto
termination
  by (relation "measure (\<lambda>(c, p). length p)") auto

declare sha256_update_loop.simps [simp del]

definition daemoon_sha256_update :: "sha256 \<Rightarrow> bytes \<Rightarrow> sha256" where
  "daemoon_sha256_update c data =
    (if data = [] then c
     else if sha_block c \<noteq> [] then
       (let need = 64 - length (sha_block c);
            tk = min (length data) need;
            block = sha_block c @ take tk data
        in if length block = 64 then
             sha256_update_loop
               (c\<lparr>sha_state := sha256_compress (sha_state c) block,
                  sha_bitlen := sha_bitlen c + 512, sha_block := []\<rparr>)
               (drop tk data)
           else sha256_update_loop (c\<lparr>sha_block := block\<rparr>) (drop tk data))
     else sha256_update_loop c data)"

definition sha_be64 :: "64 word \<Rightarrow> bytes" where
  "sha_be64 nbits = map (\<lambda>i. byte (unat (drop_bit (56 - i * 8) nbits AND 0xff))) [0..<8]"

definition sha_out_word :: "u32 \<Rightarrow> bytes" where
  "sha_out_word s =
    [byte (unat (drop_bit 24 s AND 0xff)), byte (unat (drop_bit 16 s AND 0xff)),
     byte (unat (drop_bit 8 s AND 0xff)), byte (unat (s AND 0xff))]"

fun sha_out :: "sha_vars \<Rightarrow> bytes" where
  "sha_out (a, b, c, d, e, f, g, h) = concat (map sha_out_word [a, b, c, d, e, f, g, h])"

definition daemoon_sha256_final :: "sha256 \<Rightarrow> bytes" where
  "daemoon_sha256_final c =
    (let nbits = sha_bitlen c + of_nat (length (sha_block c)) * 8;
         block = sha_block c @ [byte 0x80];
         (state, block) =
           (if length block > 56
            then (sha256_compress (sha_state c) (block @ replicate (64 - length block) (byte 0)), [])
            else (sha_state c, block));
         block = block @ replicate (56 - length block) (byte 0) @ sha_be64 nbits
     in sha_out (sha256_compress state block))"

definition daemoon_sha256_hex :: "bytes \<Rightarrow> bytes" where
  "daemoon_sha256_hex digest =
    concat (map (\<lambda>c. [''0123456789abcdef'' ! (drop_bit 4 (u8 c) AND 0xf),
                      ''0123456789abcdef'' ! (u8 c AND 0xf)]) digest)"

definition daemoon_sha256_buf :: "bytes \<Rightarrow> bytes" where
  "daemoon_sha256_buf data =
    daemoon_sha256_hex (daemoon_sha256_final (daemoon_sha256_update daemoon_sha256_init data))"

text \<open>
  The compare loop on the C strings behind the pointers: an early NUL answers 0, the
  differences are collected without an early exit, and both strings must end after 64.
\<close>

fun hex_equal_loop :: "nat \<Rightarrow> nat \<Rightarrow> bytes \<Rightarrow> bytes \<Rightarrow> bool" where
  "hex_equal_loop 0 diff a b = (diff = 0 \<and> a = [] \<and> b = [])"
| "hex_equal_loop (Suc k) diff (x # a) (y # b) = hex_equal_loop k (diff OR (u8 x XOR u8 y)) a b"
| "hex_equal_loop (Suc k) diff a b = False"

definition daemoon_sha256_hex_equal :: "bytes option \<Rightarrow> bytes option \<Rightarrow> bool" where
  "daemoon_sha256_hex_equal a b =
    (case (a, b) of (Some a, Some b) \<Rightarrow> hex_equal_loop 64 0 (cstr a) (cstr b) | _ \<Rightarrow> False)"

section \<open>The specification\<close>

function blocks64 :: "bytes \<Rightarrow> bytes list" where
  "blocks64 m = (if 64 \<le> length m then take 64 m # blocks64 (drop 64 m) else [])"
  by pat_completeness auto
termination
  by (relation "measure length") auto

declare blocks64.simps [simp del]

definition sha_rest :: "bytes \<Rightarrow> bytes" where
  "sha_rest m = drop (64 * (length m div 64)) m"

text \<open>FIPS 180-4, 5.1.1: a one bit, zeros up to 56 modulo 64 bytes, the bit length.\<close>

definition sha_pad :: "bytes \<Rightarrow> bytes" where
  "sha_pad m = byte 0x80 # replicate ((119 - length m mod 64) mod 64) (byte 0) @
    sha_be64 (of_nat (8 * length m))"

definition sha256_spec :: "bytes \<Rightarrow> bytes" where
  "sha256_spec m = sha_out (foldl sha256_compress sha_init_vars (blocks64 (m @ sha_pad m)))"

definition sha_of :: "bytes \<Rightarrow> sha256" where
  "sha_of m =
    \<lparr>sha_state = foldl sha256_compress sha_init_vars (blocks64 m),
     sha_bitlen = of_nat (512 * (length m div 64)),
     sha_block = sha_rest m\<rparr>"

section \<open>Streaming equals the specification\<close>

lemma sha_rest_rec: "sha_rest m = (if 64 \<le> length m then sha_rest (drop 64 m) else m)"
proof (cases "64 \<le> length m")
  case True
  then have "length m div 64 = Suc ((length m - 64) div 64)" by (simp add: le_div_geq)
  with True show ?thesis by (simp add: sha_rest_def add.commute)
qed (simp add: sha_rest_def)

lemma sha_rest_length [simp]: "length (sha_rest m) = length m mod 64"
  by (simp add: sha_rest_def minus_mult_div_eq_mod)

lemma sha_rest_short: "length m < 64 \<Longrightarrow> sha_rest m = m"
  by (subst sha_rest_rec) simp

lemma blocks64_short: "length m < 64 \<Longrightarrow> blocks64 m = []"
  by (subst blocks64.simps) simp

lemma blocks64_append: "blocks64 (m @ d) = blocks64 m @ blocks64 (sha_rest m @ d)"
proof (induction m rule: blocks64.induct)
  case (1 m)
  show ?case
  proof (cases "64 \<le> length m")
    case True
    with "1.IH" show ?thesis
      by (subst (1 2) blocks64.simps) (simp add: sha_rest_rec [of m])
  next
    case False
    then show ?thesis by (simp add: blocks64_short sha_rest_short)
  qed
qed

lemma sha_rest_append: "sha_rest (m @ d) = sha_rest (sha_rest m @ d)"
proof (induction m rule: blocks64.induct)
  case (1 m)
  show ?case
  proof (cases "64 \<le> length m")
    case True
    with "1.IH" show ?thesis
      by (subst (1 3) sha_rest_rec) simp
  next
    case False
    then show ?thesis by (simp add: sha_rest_short)
  qed
qed

lemma update_loop_blocks:
  "sha_block c = [] \<Longrightarrow> sha256_update_loop c p =
    c\<lparr>sha_state := foldl sha256_compress (sha_state c) (blocks64 p),
      sha_bitlen := sha_bitlen c + of_nat (512 * (length p div 64)), sha_block := sha_rest p\<rparr>"
proof (induction c p rule: sha256_update_loop.induct)
  case (1 c p)
  show ?case
  proof (cases "64 \<le> length p")
    case True
    let ?c = "c\<lparr>sha_state := sha256_compress (sha_state c) (take 64 p), sha_bitlen := sha_bitlen c + 512\<rparr>"
    have "length p div 64 = Suc ((length p - 64) div 64)"
      using True by (simp add: le_div_geq)
    moreover have "sha256_update_loop c p = sha256_update_loop ?c (drop 64 p)"
      using True by (subst sha256_update_loop.simps) simp
    ultimately show ?thesis
      using "1.IH" True "1.prems"
      by (subst blocks64.simps) (simp add: sha_rest_rec [of p] algebra_simps)
  next
    case False
    then show ?thesis
      using "1.prems" by (subst sha256_update_loop.simps) (auto simp: blocks64_short sha_rest_short)
  qed
qed

lemma update_loop_full:
  "sha_block c \<noteq> [] \<Longrightarrow> p = [] \<Longrightarrow> sha256_update_loop c p = c"
  by (subst sha256_update_loop.simps) simp

lemma sha_of_append:
  "sha_of (m @ d) =
    \<lparr>sha_state = foldl sha256_compress (sha_state (sha_of m)) (blocks64 (sha_rest m @ d)),
     sha_bitlen = sha_bitlen (sha_of m) + of_nat (512 * (length (sha_rest m @ d) div 64)),
     sha_block = sha_rest (sha_rest m @ d)\<rparr>"
proof -
  have "length (m @ d) div 64 = ((length m mod 64 + length d) + length m div 64 * 64) div 64"
    by simp
  also have "\<dots> = length m div 64 + (length m mod 64 + length d) div 64"
    by (rule div_mult_self1) simp
  finally have "length (m @ d) div 64 = length m div 64 + length (sha_rest m @ d) div 64"
    by (simp only: length_append sha_rest_length)
  then have bits: "(of_nat (512 * (length (m @ d) div 64)) :: 64 word) =
      of_nat (512 * (length m div 64)) + of_nat (512 * (length (sha_rest m @ d) div 64))"
    by (simp only: distrib_left of_nat_add)
  show ?thesis
    by (simp only: sha_of_def blocks64_append [of m d] foldl_append sha_rest_append [of m d] bits sha256.select_convs)
qed

lemma sha_of_append_short:
  assumes "length (sha_rest m @ d) < 64"
  shows "sha_of (m @ d) = (sha_of m)\<lparr>sha_block := sha_rest m @ d\<rparr>"
  using assms by (simp add: sha_of_append blocks64_short sha_rest_short)

lemma sha256_all_fields:
  "c\<lparr>sha_state := a, sha_bitlen := b, sha_block := d\<rparr> = \<lparr>sha_state = a, sha_bitlen = b, sha_block = d\<rparr>"
  by (cases c) simp

lemma sha_update_of: "daemoon_sha256_update (sha_of m) d = sha_of (m @ d)"
proof -
  let ?r = "sha_rest m"
  have block: "sha_block (sha_of m) = ?r" by (simp add: sha_of_def)
  have r: "length ?r < 64" by simp
  consider "d = []" | "d \<noteq> []" "?r = []" | "d \<noteq> []" "?r \<noteq> []" "length ?r + length d < 64"
    | "d \<noteq> []" "?r \<noteq> []" "64 \<le> length ?r + length d"
    by linarith
  then show ?thesis
  proof cases
    case 1
    then show ?thesis by (simp add: daemoon_sha256_update_def)
  next
    case 2
    then show ?thesis
      by (simp add: daemoon_sha256_update_def block update_loop_blocks sha_of_append)
  next
    case 3
    then show ?thesis
      using sha_of_append_short [of m d]
      by (simp add: daemoon_sha256_update_def block Let_def min_def update_loop_full)
  next
    case 4
    let ?n = "64 - length m mod 64"
    have n: "?n \<le> length d" "length (?r @ take ?n d) = 64" using 4 r by simp_all
    then have blocks: "blocks64 (?r @ d) = (?r @ take ?n d) # blocks64 (drop ?n d)"
      using 4 by (subst blocks64.simps) simp
    have rest: "sha_rest (?r @ d) = sha_rest (drop ?n d)"
      using n 4 by (subst sha_rest_rec) simp
    have len: "length (?r @ d) div 64 = Suc (length (drop ?n d) div 64)"
      using n 4 by (simp add: le_div_geq add.commute)
    have "daemoon_sha256_update (sha_of m) d =
        sha256_update_loop
          ((sha_of m)\<lparr>sha_state := sha256_compress (sha_state (sha_of m)) (?r @ take ?n d),
            sha_bitlen := sha_bitlen (sha_of m) + 512, sha_block := []\<rparr>) (drop ?n d)"
      using 4 n by (simp add: daemoon_sha256_update_def block Let_def min_absorb2)
    also have "\<dots> = sha_of (m @ d)"
      by (simp only: update_loop_blocks sha_of_append blocks rest len sha256_all_fields
          sha256.simps foldl.simps) (simp add: sha256_all_fields algebra_simps)
    finally show ?thesis .
  qed
qed

lemma sha_be64_length [simp]: "length (sha_be64 n) = 8"
  by (simp add: sha_be64_def)

lemma blocks64_one: "length a = 64 \<Longrightarrow> blocks64 a = [a]"
  by (subst blocks64.simps) (simp add: blocks64_short)

lemma blocks64_two: "length a = 64 \<Longrightarrow> length b = 64 \<Longrightarrow> blocks64 (a @ b) = [a, b]"
  by (subst blocks64.simps) (simp add: blocks64_one)

lemma pad_zeros: "x \<le> 55 \<Longrightarrow> (119 - x) mod 64 = 55 - (x :: nat)"
proof -
  assume "x \<le> 55"
  then have "119 - x = 64 + (55 - x)" by simp
  then have "(119 - x) mod 64 = (64 + (55 - x)) mod 64" by (rule arg_cong)
  also have "\<dots> = (55 - x) mod 64" by (rule mod_add_self1)
  finally show ?thesis by simp
qed

lemma sha_final_of: "daemoon_sha256_final (sha_of m) = sha256_spec m"
proof -
  let ?r = "sha_rest m"
  let ?b = "?r @ [byte 0x80]"
  have "512 * (length m div 64) + length m mod 64 * 8 = 8 * length m"
    using div_mult_mod_eq [of "length m" 64] by linarith
  then have nbits: "sha_bitlen (sha_of m) + of_nat (length ?r) * 8 = of_nat (8 * length m)"
    by (simp add: sha_of_def flip: of_nat_mult of_nat_add)
       (metis of_nat_add of_nat_mult of_nat_numeral)
  show ?thesis
  proof (cases "length ?b > 56")
    case True
    let ?b1 = "?b @ replicate (64 - length ?b) (byte 0)"
    let ?b2 = "replicate 56 (byte 0) @ sha_be64 (of_nat (8 * length m))"
    have "length m mod 64 \<le> 63" using mod_less_divisor [of 64 "length m"] by linarith
    then have "(119 - length m mod 64) mod 64 = (63 - length m mod 64) + 56"
      using True by simp
    then have "replicate ((119 - length m mod 64) mod 64) (byte 0) =
        replicate (63 - length m mod 64) (byte 0) @ replicate 56 (byte 0)"
      by (simp only: replicate_add)
    then have "?r @ sha_pad m = ?b1 @ ?b2" by (simp add: sha_pad_def)
    moreover have "length ?b1 = 64" "length ?b2 = 64" using True by simp_all
    ultimately have "blocks64 (?r @ sha_pad m) = [?b1, ?b2]"
      by (simp only: blocks64_two)
    with True nbits show ?thesis
      by (simp add: daemoon_sha256_final_def sha256_spec_def blocks64_append [of m "sha_pad m"] Let_def sha_of_def)
  next
    case False
    let ?b1 = "?b @ replicate (56 - length ?b) (byte 0) @ sha_be64 (of_nat (8 * length m))"
    from False have "(119 - length m mod 64) mod 64 = 55 - length m mod 64"
      by (intro pad_zeros) simp
    then have "?r @ sha_pad m = ?b1" by (simp add: sha_pad_def)
    moreover have "length ?b1 = 64" using False by simp
    ultimately have "blocks64 (?r @ sha_pad m) = [?b1]"
      by (simp only: blocks64_one)
    with False nbits show ?thesis
      by (simp add: daemoon_sha256_final_def sha256_spec_def blocks64_append [of m "sha_pad m"] Let_def sha_of_def)
  qed
qed

lemma sha_init_of: "daemoon_sha256_init = sha_of []"
  by (simp add: daemoon_sha256_init_def sha_of_def blocks64_short sha_rest_short)

interpretation sha: incremental_hash sha_of daemoon_sha256_init daemoon_sha256_update
  daemoon_sha256_final sha256_spec
  by unfold_locales (rule sha_init_of sha_update_of sha_final_of)+

section \<open>Hex digests and their comparison\<close>

lemma sha_out_length [simp]: "length (sha_out v) = 32"
  by (cases v rule: sha_out.cases) (simp add: sha_out_word_def)

lemma sha256_spec_length [simp]: "length (sha256_spec m) = 32"
  by (simp add: sha256_spec_def)

definition lower_hex_char :: "char \<Rightarrow> bool" where
  "lower_hex_char c \<longleftrightarrow> CHR ''0'' \<le> c \<and> c \<le> CHR ''9'' \<or> CHR ''a'' \<le> c \<and> c \<le> CHR ''f''"

lemma hex_digit_lower: "n < 16 \<Longrightarrow> lower_hex_char (''0123456789abcdef'' ! n)"
proof -
  assume "n < 16"
  then have "''0123456789abcdef'' ! n \<in> set ''0123456789abcdef''" by (intro nth_mem) simp
  moreover have "list_all lower_hex_char ''0123456789abcdef''" by (simp add: lower_hex_char_def)
  ultimately show ?thesis by (simp only: list_all_iff)
qed

lemma lower_hex_not_nul [simp]: "lower_hex_char c \<Longrightarrow> c \<noteq> NUL"
  by (auto simp: lower_hex_char_def less_eq_char_def)

lemma lower_hex_nul_free: "list_all lower_hex_char s \<Longrightarrow> nul_free s"
  by (induction s) auto

lemma nibble_less: "drop_bit 4 (u8 c) AND 0xf < 16" "u8 c AND 0xf < 16"
  by (simp_all add: mask_simps)

lemma length_hex: "length (daemoon_sha256_hex d) = 2 * length d"
  by (induction d) (simp_all add: daemoon_sha256_hex_def)

lemma hex_lower_chars: "list_all lower_hex_char (daemoon_sha256_hex d)"
  by (induction d) (simp_all add: daemoon_sha256_hex_def hex_digit_lower nibble_less)

lemma hex_digit_inj:
  "m < 16 \<Longrightarrow> n < 16 \<Longrightarrow> ''0123456789abcdef'' ! m = ''0123456789abcdef'' ! n \<Longrightarrow> m = n"
proof -
  assume h: "m < 16" "n < 16" "''0123456789abcdef'' ! m = ''0123456789abcdef'' ! n"
  have "distinct ''0123456789abcdef''" by simp
  with h show ?thesis using nth_eq_iff_index_eq [of "''0123456789abcdef''" m n] by simp
qed

lemma byte_hex_inj:
  assumes "''0123456789abcdef'' ! (drop_bit 4 (u8 x) AND 0xf) = ''0123456789abcdef'' ! (drop_bit 4 (u8 y) AND 0xf)"
    and "''0123456789abcdef'' ! (u8 x AND 0xf) = ''0123456789abcdef'' ! (u8 y AND 0xf)"
  shows "x = y"
proof -
  have "drop_bit 4 (u8 x) AND 0xf = drop_bit 4 (u8 y) AND 0xf" "u8 x AND 0xf = u8 y AND 0xf"
    using assms hex_digit_inj nibble_less by blast+
  then have h: "u8 x div 16 mod 16 = u8 y div 16 mod 16" "u8 x mod 16 = u8 y mod 16"
    by (simp_all add: mask_simps drop_bit_eq_div)
  have "u8 x div 16 < 16" "u8 y div 16 < 16"
    using u8_less [of x] u8_less [of y] by linarith+
  with h(1) have "u8 x div 16 = u8 y div 16" by simp
  with h(2) have "u8 x = u8 y" by (metis div_mult_mod_eq)
  then show ?thesis by simp
qed

lemma hex_inj: "daemoon_sha256_hex a = daemoon_sha256_hex b \<Longrightarrow> a = b"
proof (induction a arbitrary: b)
  case Nil
  then show ?case by (cases b) (simp_all add: daemoon_sha256_hex_def)
next
  case (Cons x a)
  then obtain y b' where b: "b = y # b'"
    by (cases b) (simp_all add: daemoon_sha256_hex_def)
  with Cons.prems have "x = y" "daemoon_sha256_hex a = daemoon_sha256_hex b'"
    using byte_hex_inj [of x y] by (simp_all add: daemoon_sha256_hex_def)
  with Cons.IH b show ?case by simp
qed

lemma nat_xor_eq_0: "(a :: nat) XOR b = 0 \<longleftrightarrow> a = b"
proof
  assume h: "a XOR b = 0"
  show "a = b"
  proof (rule bit_eqI)
    fix n
    have "\<not> bit (a XOR b) n" using h by simp
    then show "bit a n = bit b n" by (simp add: bit_xor_iff)
  qed
qed (auto intro!: bit_eqI simp: bit_simps)

lemma nat_or_eq_0: "(a :: nat) OR b = 0 \<longleftrightarrow> a = 0 \<and> b = 0"
  by (metis or_eq_0_iff)

lemma hex_equal_loop_iff:
  "hex_equal_loop k diff a b \<longleftrightarrow> diff = 0 \<and> length a = k \<and> a = b"
proof (induction k diff a b rule: hex_equal_loop.induct)
  case (2 k diff x a y b)
  then show ?case by (auto simp: nat_or_eq_0 nat_xor_eq_0)
qed auto

lemma hex_equal_iff:
  "daemoon_sha256_hex_equal (Some a) (Some b) \<longleftrightarrow> length (cstr a) = 64 \<and> cstr a = cstr b"
  by (simp add: daemoon_sha256_hex_equal_def hex_equal_loop_iff)

text \<open>The digest of a message as the core prints it.\<close>

definition sha256_text :: "bytes \<Rightarrow> bytes" where
  "sha256_text m = daemoon_sha256_hex (sha256_spec m)"

lemma sha256_text_simps [simp]:
  "length (sha256_text m) = 64" "list_all lower_hex_char (sha256_text m)" "nul_free (sha256_text m)"
  by (simp_all add: sha256_text_def length_hex hex_lower_chars lower_hex_nul_free)

section \<open>Properties\<close>

text \<open>C27 However a message is cut into updates, the streamed digest is the FIPS 180-4 digest of the
  whole message: padding, length field and compression order come out the same for every split.\<close>
theorem sha256_streaming_correct:
  "daemoon_sha256_final (foldl daemoon_sha256_update daemoon_sha256_init pieces) = sha256_spec (concat pieces)"
  by (rule sha.streamed)

text \<open>The digest comparison accepts exactly two equal strings of 64 characters, and it accepts the hex
  forms of two digests exactly when the digests are equal.\<close>
lemma sha256_hex_equal_correct:
  "daemoon_sha256_hex_equal (Some a) (Some b) = (length (cstr a) = 64 \<and> cstr a = cstr b) \<and>
   daemoon_sha256_hex_equal None y = False \<and> daemoon_sha256_hex_equal x None = False \<and>
   daemoon_sha256_hex_equal (Some (daemoon_sha256_hex (sha256_spec m))) (Some (daemoon_sha256_hex (sha256_spec n)))
     = (sha256_spec m = sha256_spec n)"
proof -
  have "daemoon_sha256_hex_equal (Some (daemoon_sha256_hex (sha256_spec m))) (Some (daemoon_sha256_hex (sha256_spec n)))
     = (sha256_spec m = sha256_spec n)"
    using sha256_text_simps [of m] sha256_text_simps [of n] hex_inj
    by (auto simp: hex_equal_iff sha256_text_def)
  then show ?thesis by (simp add: hex_equal_iff) (simp add: daemoon_sha256_hex_equal_def split: option.splits)
qed

end
