(* ===== verification/Manifest.thy ===== *)
theory Manifest
  imports Json_Flat Backend Sha256
begin

text \<open>
  \<open>core/src/manifest.c\<close>: the metadata record of a save package, its check, its parser
  and its writer.

  A text field of the C record is the C string in it. \<open>manifest_wf\<close> says that the fields
  hold what the C types can hold (text that fits the array, unsigned integers of their width).
  The writer produces exactly \<open>json_flat\<close> of the member list \<open>mf_members\<close>, so the round
  trip is the lookup lemmas of theory Json_Flat.
\<close>

definition MANIFEST_FORMAT_VERSION :: int where "MANIFEST_FORMAT_VERSION = 1"
definition MANIFEST_MAX_BYTES :: nat where "MANIFEST_MAX_BYTES = 2048"
definition MANIFEST_MAX_TOKENS :: nat where "MANIFEST_MAX_TOKENS = 64"
definition TIMESTAMP_MAX :: nat where "TIMESTAMP_MAX = 32"
definition TIMESTAMP_NONE :: bytes where "TIMESTAMP_NONE = ''1970-01-01T00:00:00Z''"
definition VERSION_NONE :: nat where "VERSION_NONE = 0"

record manifest =
  mf_format_version :: int
  mf_platform :: platform
  mf_title_id :: bytes
  mf_save_type :: save_type
  mf_version :: nat
  mf_parent_version :: nat
  mf_sha256 :: bytes
  mf_size :: nat
  mf_device_label :: bytes
  mf_title_name :: bytes
  mf_has_secure_value :: bool
  mf_secure_value :: nat
  mf_created_at :: bytes

definition daemoon_manifest_has_date :: "bytes option \<Rightarrow> bool" where
  "daemoon_manifest_has_date created_at =
    (case created_at of None \<Rightarrow> False | Some c \<Rightarrow> cstr c \<noteq> [] \<and> cstr c \<noteq> TIMESTAMP_NONE)"

definition daemoon_manifest_init :: manifest where
  "daemoon_manifest_init =
    \<lparr>mf_format_version = MANIFEST_FORMAT_VERSION, mf_platform = PLATFORM_UNKNOWN, mf_title_id = [],
     mf_save_type = SAVE_UNKNOWN, mf_version = VERSION_NONE, mf_parent_version = VERSION_NONE,
     mf_sha256 = [], mf_size = 0, mf_device_label = [], mf_title_name = [], mf_has_secure_value = False,
     mf_secure_value = 0, mf_created_at = []\<rparr>"

text \<open>A short string meets its NUL among the first 64 bytes, which is no digit.\<close>

definition is_lower_hex64 :: "bytes \<Rightarrow> bool" where
  "is_lower_hex64 s \<longleftrightarrow>
    length s = 64 \<and>
    list_all (\<lambda>c. CHR ''0'' \<le> c \<and> c \<le> CHR ''9'' \<or> CHR ''a'' \<le> c \<and> c \<le> CHR ''f'') s"

definition is_valid_title_id :: "bytes \<Rightarrow> bool" where
  "is_valid_title_id s \<longleftrightarrow>
    \<not> (length s < 4 \<or> length s > TITLE_ID_MAX - 1) \<and>
    list_all (\<lambda>c. CHR ''0'' \<le> c \<and> c \<le> CHR ''9'' \<or> CHR ''A'' \<le> c \<and> c \<le> CHR ''Z'' \<or>
      c = CHR ''_'' \<or> c = CHR ''-'') s"

definition daemoon_manifest_validate :: "manifest \<Rightarrow> result" where
  "daemoon_manifest_validate m =
    (if mf_format_version m \<noteq> MANIFEST_FORMAT_VERSION then ERR_INVALID_MANIFEST
     else if mf_platform m = PLATFORM_UNKNOWN \<or> mf_save_type m = SAVE_UNKNOWN then ERR_INVALID_MANIFEST
     else if \<not> is_valid_title_id (mf_title_id m) then ERR_INVALID_MANIFEST
     else if \<not> is_lower_hex64 (mf_sha256 m) then ERR_INVALID_MANIFEST
     else if mf_device_label m = [] \<or> \<not> daemoon_utf8_valid (Some (mf_device_label m)) then ERR_INVALID_MANIFEST
     else if mf_version m \<noteq> VERSION_NONE \<and> mf_parent_version m \<ge> mf_version m then ERR_INVALID_MANIFEST
     else OK)"

section \<open>Parsing\<close>

text \<open>A text read with \<open>DAEMOON_TRY\<close> into an empty buffer of the given size.\<close>

definition get_str_try :: "bytes \<Rightarrow> jsmntok list \<Rightarrow> nat \<Rightarrow> bytes \<Rightarrow> nat \<Rightarrow> result + bytes" where
  "get_str_try js toks obj key cap =
    (case daemoon_json_get_str js toks obj key (Some []) cap of
      (r, out) \<Rightarrow> if r \<noteq> OK then Inl r else Inr (the out))"

text \<open>The same with the result ignored: what the buffer holds afterwards.\<close>

definition get_str_void :: "bytes \<Rightarrow> jsmntok list \<Rightarrow> nat \<Rightarrow> bytes \<Rightarrow> nat \<Rightarrow> bytes" where
  "get_str_void js toks obj key cap = the (snd (daemoon_json_get_str js toks obj key (Some []) cap))"

definition parse_parent_version :: "bytes \<Rightarrow> jsmntok list \<Rightarrow> result + nat" where
  "parse_parent_version js toks =
    (case daemoon_json_find js toks 0 ''parent_version'' of
      None \<Rightarrow> Inr VERSION_NONE
    | Some i \<Rightarrow>
        if daemoon_json_is_null js (Some (toks ! i)) then Inr VERSION_NONE
        else bind_sum (daemoon_json_uint js (Some (toks ! i)))
          (\<lambda>n. if n > 0xffffffff then Inl ERR_INVALID_MANIFEST else Inr n))"

definition parse_created_at :: "bytes \<Rightarrow> jsmntok list \<Rightarrow> bytes" where
  "parse_created_at js toks =
    (case daemoon_json_find js toks 0 ''created_at'' of
      None \<Rightarrow> []
    | Some i \<Rightarrow>
        if tk_type (toks ! i) = JSMN_STRING
        then the (snd (daemoon_json_str js (Some (toks ! i)) (Some []) TIMESTAMP_MAX))
        else [])"

text \<open>The body of \<open>daemoon_manifest_parse\<close> once the text is tokenized.\<close>

definition manifest_from_toks :: "bytes \<Rightarrow> jsmntok list \<Rightarrow> result + manifest" where
  "manifest_from_toks js toks =
    (if tk_type (toks ! 0) \<noteq> JSMN_OBJECT then Inl ERR_INVALID_MANIFEST
     else
      bind_sum (daemoon_json_get_uint js toks 0 ''format_version'') (\<lambda>fv.
      if fv > 0x7fffffff then Inl ERR_INVALID_MANIFEST
      else if int fv \<noteq> MANIFEST_FORMAT_VERSION then Inl ERR_INVALID_MANIFEST
      else
      bind_sum (get_str_try js toks 0 ''platform'' 64) (\<lambda>platform.
      bind_sum (get_str_try js toks 0 ''save_type'' 64) (\<lambda>save_type.
      bind_sum (get_str_try js toks 0 ''title_id'' TITLE_ID_MAX) (\<lambda>title_id.
      bind_sum (get_str_try js toks 0 ''sha256'' SHA256_HEX) (\<lambda>sha.
      bind_sum (get_str_try js toks 0 ''device_label'' LABEL_MAX) (\<lambda>label.
      let title_name = get_str_void js toks 0 ''title_name'' NAME_MAX;
          sv = daemoon_json_get_uint js toks 0 ''secure_value''
      in
      bind_sum (daemoon_json_get_uint js toks 0 ''version'') (\<lambda>version.
      if version > 0xffffffff then Inl ERR_INVALID_MANIFEST
      else
      bind_sum (daemoon_json_get_uint js toks 0 ''size'') (\<lambda>sz.
      bind_sum (parse_parent_version js toks) (\<lambda>parent.
      let m = daemoon_manifest_init
            \<lparr>mf_format_version := int fv,
             mf_platform := daemoon_platform_parse (Some platform) 0,
             mf_save_type := daemoon_save_type_parse (Some save_type) 0,
             mf_title_id := title_id, mf_sha256 := sha, mf_device_label := label,
             mf_title_name := title_name,
             mf_has_secure_value := (case sv of Inl _ \<Rightarrow> False | Inr _ \<Rightarrow> True),
             mf_secure_value := (case sv of Inl _ \<Rightarrow> 0 | Inr v \<Rightarrow> v),
             mf_version := version, mf_size := sz, mf_parent_version := parent,
             mf_created_at := parse_created_at js toks\<rparr>;
          r = daemoon_manifest_validate m
      in if r \<noteq> OK then Inl r else Inr m))))))))))"

text \<open>\<open>json\<close> is the buffer; a length of 0 asks for the C string in it.\<close>

definition daemoon_manifest_parse :: "bytes \<Rightarrow> nat \<Rightarrow> result + manifest" where
  "daemoon_manifest_parse json len =
    (let js = text_arg json len
     in if length js > MANIFEST_MAX_BYTES then Inl ERR_INVALID_MANIFEST
        else bind_sum (daemoon_json_parse (Some js) MANIFEST_MAX_TOKENS) (manifest_from_toks js))"

section \<open>Writing\<close>

definition manifest_sb :: "manifest \<Rightarrow> nat \<Rightarrow> strbuf" where
  "manifest_sb m buflen =
    (let sb = daemoon_strbuf_init buflen;
         sb = sb_add sb ''{\"format_version\":'';
         sb = daemoon_strbuf_add_uint sb (nat (mf_format_version m mod 2 ^ 64));
         sb = sb_add sb '',\"platform\":\"'';
         sb = sb_json sb (daemoon_platform_name (mf_platform m));
         sb = sb_add sb ''\",\"title_id\":\"'';
         sb = sb_json sb (mf_title_id m);
         sb = sb_add sb ''\",\"save_type\":\"'';
         sb = sb_json sb (daemoon_save_type_name (mf_save_type m));
         sb = sb_add sb ''\",\"version\":'';
         sb = daemoon_strbuf_add_uint sb (mf_version m);
         sb = sb_add sb '',\"parent_version\":'';
         sb = (if mf_parent_version m = VERSION_NONE then sb_add sb ''null''
               else daemoon_strbuf_add_uint sb (mf_parent_version m));
         sb = sb_add sb '',\"sha256\":\"'';
         sb = sb_json sb (mf_sha256 m);
         sb = sb_add sb ''\",\"size\":'';
         sb = daemoon_strbuf_add_uint sb (mf_size m);
         sb = sb_add sb '',\"device_label\":\"'';
         sb = sb_json sb (mf_device_label m);
         sb = sb_add sb ''\",\"created_at\":\"'';
         sb = sb_json sb (mf_created_at m);
         sb = (if mf_title_name m \<noteq> [] then sb_json (sb_add sb ''\",\"title_name\":\"'') (mf_title_name m) else sb);
         sb = sb_add sb ''\"'';
         sb = (if mf_has_secure_value m
               then daemoon_strbuf_add_uint (sb_add sb '',\"secure_value\":'') (mf_secure_value m) else sb)
     in sb_add sb ''}'')"

text \<open>The text written, whose length is \<open>*out_len\<close>.\<close>

definition daemoon_manifest_write :: "manifest \<Rightarrow> nat \<Rightarrow> result + bytes" where
  "daemoon_manifest_write m buflen =
    (let r = daemoon_manifest_validate m
     in if r \<noteq> OK then Inl r
        else
         (let sb = manifest_sb m buflen; r = daemoon_strbuf_result sb
          in if r \<noteq> OK then Inl r else Inr (sb_buf sb)))"

section \<open>The written text as a flat object\<close>

definition mf_members :: "manifest \<Rightarrow> (bytes \<times> jval) list" where
  "mf_members m =
    [(''format_version'', JNum (nat (mf_format_version m))),
     (''platform'', JStr (daemoon_platform_name (mf_platform m))),
     (''title_id'', JStr (mf_title_id m)),
     (''save_type'', JStr (daemoon_save_type_name (mf_save_type m))),
     (''version'', JNum (mf_version m)),
     (''parent_version'', if mf_parent_version m = VERSION_NONE then JNull else JNum (mf_parent_version m)),
     (''sha256'', JStr (mf_sha256 m)),
     (''size'', JNum (mf_size m)),
     (''device_label'', JStr (mf_device_label m)),
     (''created_at'', JStr (mf_created_at m))] @
    (if mf_title_name m \<noteq> [] then [(''title_name'', JStr (mf_title_name m))] else []) @
    (if mf_has_secure_value m then [(''secure_value'', JNum (mf_secure_value m))] else [])"

definition text_fits :: "bytes \<Rightarrow> nat \<Rightarrow> bool" where
  "text_fits s cap \<longleftrightarrow> nul_free s \<and> length s < cap"

definition manifest_wf :: "manifest \<Rightarrow> bool" where
  "manifest_wf m \<longleftrightarrow>
    text_fits (mf_title_id m) TITLE_ID_MAX \<and> text_fits (mf_sha256 m) SHA256_HEX \<and>
    text_fits (mf_device_label m) LABEL_MAX \<and> text_fits (mf_title_name m) NAME_MAX \<and>
    text_fits (mf_created_at m) TIMESTAMP_MAX \<and>
    mf_version m < 2 ^ 32 \<and> mf_parent_version m < 2 ^ 32 \<and> mf_size m < 2 ^ 64 \<and>
    mf_secure_value m < 2 ^ 64 \<and> (\<not> mf_has_secure_value m \<longrightarrow> mf_secure_value m = 0)"

lemma plain_keyI:
  "list_all (\<lambda>c. 32 \<le> u8 c \<and> c \<noteq> CHR 0x22 \<and> c \<noteq> CHR 0x5c) k \<Longrightarrow> plain_key k"
proof (induction k)
  case (Cons c k)
  then have "c \<noteq> NUL" "json_escape c = [c]" by (auto simp: json_escape_def u8_def)
  with Cons show ?case by (simp add: plain_key_def)
qed (simp add: plain_key_def)

lemma manifest_keys_plain [simp]:
  "plain_key ''format_version''" "plain_key ''platform''" "plain_key ''title_id''" "plain_key ''save_type''"
  "plain_key ''version''" "plain_key ''parent_version''" "plain_key ''sha256''" "plain_key ''size''"
  "plain_key ''device_label''" "plain_key ''created_at''" "plain_key ''title_name''" "plain_key ''secure_value''"
  by (rule plain_keyI, simp add: u8_def)+

lemma validate_ok:
  assumes "daemoon_manifest_validate m = OK"
  shows "mf_format_version m = 1" "mf_platform m \<noteq> PLATFORM_UNKNOWN" "mf_save_type m \<noteq> SAVE_UNKNOWN"
    "is_valid_title_id (mf_title_id m)" "is_lower_hex64 (mf_sha256 m)" "mf_device_label m \<noteq> []"
    "utf8_valid_loop (mf_device_label m)"
    "mf_version m = VERSION_NONE \<or> mf_parent_version m < mf_version m"
  using assms
  by (auto simp: daemoon_manifest_validate_def MANIFEST_FORMAT_VERSION_def daemoon_utf8_valid_def
      split: if_splits)

lemma members_ok:
  "manifest_wf m \<Longrightarrow> list_all (\<lambda>(k, v). plain_key k \<and> jval_ok v) (mf_members m)"
  by (simp add: mf_members_def manifest_wf_def text_fits_def platform.name_nul_free save_type.name_nul_free)

lemma members_keys: "list_all (\<lambda>(k, v). plain_key k) (mf_members m)"
  by (simp add: mf_members_def)

lemma cstr_literal: "list_all (\<lambda>c. c \<noteq> NUL) s \<Longrightarrow> cstr s = s"
  by (rule cstr_nul_free) (auto simp: nul_free_def list_all_iff)

lemma manifest_sb_text:
  assumes "daemoon_manifest_validate m = OK" "manifest_wf m"
  shows "manifest_sb m cap = sb_of cap (json_flat (mf_members m))"
  using assms validate_ok [OF assms(1)]
  by (simp add: manifest_sb_def sb_simps Let_def manifest_wf_def text_fits_def cstr_literal
      platform.name_nul_free save_type.name_nul_free json_flat_def mf_members_def jval_render_def VERSION_NONE_def)

section \<open>The text always fits\<close>

lemma hex64_plain:
  assumes "is_lower_hex64 s"
  shows "json_body s = s" "length s = 64"
proof -
  have "32 \<le> u8 c \<and> c \<noteq> CHR 0x22 \<and> c \<noteq> CHR 0x5c"
    if "CHR ''0'' \<le> c \<and> c \<le> CHR ''9'' \<or> CHR ''a'' \<le> c \<and> c \<le> CHR ''f''" for c
    using that by (auto simp: less_eq_char_def u8_def)
  with assms have "list_all (\<lambda>c. 32 \<le> u8 c \<and> c \<noteq> CHR 0x22 \<and> c \<noteq> CHR 0x5c) s"
    by (auto simp: is_lower_hex64_def list_all_iff)
  then show "json_body s = s" using plain_keyI by (simp add: plain_key_def)
  show "length s = 64" using assms by (simp add: is_lower_hex64_def)
qed

definition jval_bound :: "jval \<Rightarrow> nat" where
  "jval_bound v = length (jval_text v) + 2 * jval_quote v"

lemma length_json_flat: "length (json_flat ms) \<le> 2 + sum_list (map (\<lambda>(k, v). length k + 4 + jval_bound v) ms)"
proof -
  have "length (json_members ms) \<le> sum_list (map (\<lambda>(k, v). length k + 4 + jval_bound v) ms)"
    by (induction ms rule: json_members.induct) (auto simp: jval_bound_def jval_render_def)
  then show ?thesis by (simp add: json_flat_def)
qed

lemma string_bound: "length s < n \<Longrightarrow> jval_bound (JStr s) \<le> 6 * (n - 1) + 2"
  using length_json_body [of s] by (simp add: jval_bound_def)

lemma number_bound: "v < 10 ^ k \<Longrightarrow> 0 < k \<Longrightarrow> jval_bound (JNum v) \<le> k"
  using dec_length [of v k] by (simp add: jval_bound_def)

lemma manifest_text_fits:
  assumes "daemoon_manifest_validate m = OK" "manifest_wf m"
  shows "length (json_flat (mf_members m)) < MANIFEST_MAX_BYTES"
proof -
  note v = validate_ok [OF assms(1)]
  have strings:
    "jval_bound (JStr (daemoon_platform_name (mf_platform m))) \<le> 6 * 7 + 2"
    "jval_bound (JStr (daemoon_save_type_name (mf_save_type m))) \<le> 6 * 8 + 2"
    "jval_bound (JStr (mf_title_id m)) \<le> 6 * 32 + 2"
    "jval_bound (JStr (mf_device_label m)) \<le> 6 * 64 + 2"
    "jval_bound (JStr (mf_title_name m)) \<le> 6 * 127 + 2"
    "jval_bound (JStr (mf_created_at m)) \<le> 6 * 31 + 2"
    using string_bound [of "daemoon_platform_name (mf_platform m)" 8]
      string_bound [of "daemoon_save_type_name (mf_save_type m)" 9]
      string_bound [of "mf_title_id m" TITLE_ID_MAX] string_bound [of "mf_device_label m" LABEL_MAX]
      string_bound [of "mf_title_name m" NAME_MAX] string_bound [of "mf_created_at m" TIMESTAMP_MAX] assms(2)
    by (cases "mf_platform m"; cases "mf_save_type m";
        simp add: manifest_wf_def text_fits_def size_defs TIMESTAMP_MAX_def)+
  have sha: "jval_bound (JStr (mf_sha256 m)) = 66"
    using hex64_plain [OF v(5)] by (simp add: jval_bound_def)
  have numbers: "jval_bound (JNum (nat (mf_format_version m))) \<le> 1"
    "jval_bound (JNum (mf_version m)) \<le> 10" "jval_bound (JNum (mf_parent_version m)) \<le> 10"
    "jval_bound (JNum (mf_size m)) \<le> 20" "jval_bound (JNum (mf_secure_value m)) \<le> 20"
    using number_bound [of "nat (mf_format_version m)" 1] number_bound [of "mf_version m" 10]
      number_bound [of "mf_parent_version m" 10] number_bound [of "mf_size m" 20]
      number_bound [of "mf_secure_value m" 20] v(1) assms(2)
    by (simp_all add: manifest_wf_def)
  have parent: "jval_bound (if mf_parent_version m = VERSION_NONE then JNull else JNum (mf_parent_version m)) \<le> 10"
    using numbers by (simp add: jval_bound_def)
  have "length (json_flat (mf_members m)) \<le>
      2 + sum_list (map (\<lambda>(k, v). length k + 4 + jval_bound v) (mf_members m))"
    by (rule length_json_flat)
  also have "\<dots> \<le> 2040"
    using strings sha numbers parent unfolding mf_members_def
    by (simp add: jval_bound_def split del: if_split) (auto simp: jval_bound_def)
  finally show ?thesis by (simp add: MANIFEST_MAX_BYTES_def)
qed

lemma manifest_write_text:
  assumes "daemoon_manifest_validate m = OK" "manifest_wf m"
  shows "daemoon_manifest_write m MANIFEST_MAX_BYTES = Inr (json_flat (mf_members m))"
  using assms manifest_text_fits [OF assms]
  by (simp add: daemoon_manifest_write_def Let_def manifest_sb_text sb_simps)

section \<open>What the parser returns\<close>

lemma get_str_try_fits: "get_str_try js toks obj key cap = Inr s \<Longrightarrow> 0 < cap \<Longrightarrow> text_fits s cap"
  using json_get_str_out [of cap "[]" js toks obj key]
  by (auto simp: get_str_try_def text_fits_def split: prod.splits if_splits)

lemma get_str_void_fits: "0 < cap \<Longrightarrow> text_fits (get_str_void js toks obj key cap) cap"
  using json_get_str_out [of cap "[]" js toks obj key] by (auto simp: get_str_void_def text_fits_def)

lemma parse_created_at_fits: "text_fits (parse_created_at js toks) TIMESTAMP_MAX"
proof -
  have "\<exists>out. snd (daemoon_json_str js (Some t) (Some []) TIMESTAMP_MAX) = Some out \<and> nul_free out \<and>
      length out < TIMESTAMP_MAX" for t
    by (rule json_str_out) (simp_all add: TIMESTAMP_MAX_def)
  then have "text_fits (the (snd (daemoon_json_str js (Some t) (Some []) TIMESTAMP_MAX))) TIMESTAMP_MAX" for t
    by (metis option.sel text_fits_def)
  then show ?thesis
    by (simp add: parse_created_at_def split: option.split) (simp add: text_fits_def TIMESTAMP_MAX_def)
qed

lemma parse_parent_version_less: "parse_parent_version js toks = Inr n \<Longrightarrow> n < 2 ^ 32"
  by (auto simp: parse_parent_version_def VERSION_NONE_def bind_sum_Inr_iff split: option.splits if_splits)

lemma manifest_from_toks_sound:
  assumes "manifest_from_toks js toks = Inr m"
  shows "daemoon_manifest_validate m = OK" "manifest_wf m"
proof -
  show "daemoon_manifest_validate m = OK"
    using assms by (clarsimp simp: manifest_from_toks_def bind_sum_Inr_iff Let_def split: if_splits)
  show "manifest_wf m"
    using assms get_str_void_fits [of NAME_MAX js toks 0 "''title_name''"] parse_created_at_fits [of js toks]
    by (clarsimp simp: manifest_from_toks_def bind_sum_Inr_iff Let_def manifest_wf_def size_defs
          daemoon_manifest_init_def split: if_splits dest!: get_str_try_fits parse_parent_version_less)
       (auto dest: json_get_uint_less get_str_try_fits split: sum.split)
qed

section \<open>Reading back what was written\<close>

lemma manifest_lookup:
  assumes "manifest_wf m"
  shows "map_of (mf_members m) ''format_version'' = Some (JNum (nat (mf_format_version m)))"
    "map_of (mf_members m) ''platform'' = Some (JStr (daemoon_platform_name (mf_platform m)))"
    "map_of (mf_members m) ''title_id'' = Some (JStr (mf_title_id m))"
    "map_of (mf_members m) ''save_type'' = Some (JStr (daemoon_save_type_name (mf_save_type m)))"
    "map_of (mf_members m) ''version'' = Some (JNum (mf_version m))"
    "map_of (mf_members m) ''parent_version'' =
      Some (if mf_parent_version m = VERSION_NONE then JNull else JNum (mf_parent_version m))"
    "map_of (mf_members m) ''sha256'' = Some (JStr (mf_sha256 m))"
    "map_of (mf_members m) ''size'' = Some (JNum (mf_size m))"
    "map_of (mf_members m) ''device_label'' = Some (JStr (mf_device_label m))"
    "map_of (mf_members m) ''created_at'' = Some (JStr (mf_created_at m))"
    "map_of (mf_members m) ''title_name'' =
      (if mf_title_name m \<noteq> [] then Some (JStr (mf_title_name m)) else None)"
    "map_of (mf_members m) ''secure_value'' =
      (if mf_has_secure_value m then Some (JNum (mf_secure_value m)) else None)"
  by (simp_all add: mf_members_def)

lemma get_str_try_flat:
  "list_all (\<lambda>(k, v). plain_key k \<and> jval_ok v) ms \<Longrightarrow> map_of ms key = Some (JStr b) \<Longrightarrow> length b < cap \<Longrightarrow>
    get_str_try (json_flat ms) (flat_toks ms) 0 key cap = Inr b"
  by (simp add: get_str_try_def flat_get_str)

lemma manifest_roundtrip_toks:
  assumes "daemoon_manifest_validate m = OK" "manifest_wf m"
  shows "manifest_from_toks (json_flat (mf_members m)) (flat_toks (mf_members m)) = Inr m"
proof -
  let ?js = "json_flat (mf_members m)" and ?toks = "flat_toks (mf_members m)"
  note v = validate_ok [OF assms(1)]
  note ok = members_ok [OF assms(2)]
  note look = manifest_lookup [OF assms(2)]
  have names: "length (daemoon_platform_name (mf_platform m)) < 64"
    "length (daemoon_save_type_name (mf_save_type m)) < 64"
    by (cases "mf_platform m"; simp) (cases "mf_save_type m"; simp)
  have strs: "get_str_try ?js ?toks 0 ''platform'' 64 = Inr (daemoon_platform_name (mf_platform m))"
    "get_str_try ?js ?toks 0 ''save_type'' 64 = Inr (daemoon_save_type_name (mf_save_type m))"
    "get_str_try ?js ?toks 0 ''title_id'' TITLE_ID_MAX = Inr (mf_title_id m)"
    "get_str_try ?js ?toks 0 ''sha256'' SHA256_HEX = Inr (mf_sha256 m)"
    "get_str_try ?js ?toks 0 ''device_label'' LABEL_MAX = Inr (mf_device_label m)"
    using look names assms(2) by (auto intro!: get_str_try_flat [OF ok] simp: manifest_wf_def text_fits_def)
  have name: "get_str_void ?js ?toks 0 ''title_name'' NAME_MAX = mf_title_name m"
    using look(11) assms(2)
    by (cases "mf_title_name m = []")
       (simp_all add: get_str_void_def flat_get_str [OF ok] flat_get_str_None [OF members_keys] manifest_wf_def text_fits_def)
  have nums: "daemoon_json_get_uint ?js ?toks 0 ''format_version'' = Inr (nat (mf_format_version m))"
    "daemoon_json_get_uint ?js ?toks 0 ''version'' = Inr (mf_version m)"
    "daemoon_json_get_uint ?js ?toks 0 ''size'' = Inr (mf_size m)"
    using look assms(2) v(1) by (auto intro!: flat_get_uint [OF members_keys] simp: manifest_wf_def)
  have sv: "daemoon_json_get_uint ?js ?toks 0 ''secure_value'' =
      (if mf_has_secure_value m then Inr (mf_secure_value m) else Inl ERR_PARSE_ERROR)"
    using look(12) assms(2)
    by (simp add: flat_get_uint [OF members_keys] flat_get_uint_None [OF members_keys] manifest_wf_def)
  have parent: "parse_parent_version ?js ?toks = Inr (mf_parent_version m)"
  proof (cases "mf_parent_version m = VERSION_NONE")
    case True
    with look(6) have "map_of (mf_members m) ''parent_version'' = Some JNull" by simp
    then obtain j where "daemoon_json_find ?js ?toks 0 ''parent_version'' = Some j"
      "daemoon_json_is_null ?js (Some (?toks ! j))"
      by (rule flat_find_null [OF members_keys])
    with True show ?thesis by (simp add: parse_parent_version_def)
  next
    case False
    with look(6) have "map_of (mf_members m) ''parent_version'' = Some (JNum (mf_parent_version m))" by simp
    moreover have "mf_parent_version m < 2 ^ 64" using assms(2) by (simp add: manifest_wf_def)
    ultimately obtain j where "daemoon_json_find ?js ?toks 0 ''parent_version'' = Some j"
      "\<not> daemoon_json_is_null ?js (Some (?toks ! j))"
      "daemoon_json_uint ?js (Some (?toks ! j)) = Inr (mf_parent_version m)"
      by (rule flat_find_num [OF members_keys])
    with assms(2) show ?thesis by (simp add: parse_parent_version_def manifest_wf_def)
  qed
  obtain j where "daemoon_json_find ?js ?toks 0 ''created_at'' = Some j" "tk_type (?toks ! j) = JSMN_STRING"
    "daemoon_json_str ?js (Some (?toks ! j)) (Some []) TIMESTAMP_MAX = (OK, Some (mf_created_at m))"
    using flat_find_str [OF ok look(10), of TIMESTAMP_MAX "[]"] assms(2) by (auto simp: manifest_wf_def text_fits_def)
  then have created: "parse_created_at ?js ?toks = mf_created_at m"
    by (simp add: parse_created_at_def)
  have obj: "tk_type (?toks ! 0) = JSMN_OBJECT" by (simp add: flat_toks_def obj_tok_def)
  have rebuilt: "daemoon_manifest_init
            \<lparr>mf_format_version := 1, mf_platform := mf_platform m, mf_save_type := mf_save_type m,
             mf_title_id := mf_title_id m, mf_sha256 := mf_sha256 m, mf_device_label := mf_device_label m,
             mf_title_name := mf_title_name m, mf_has_secure_value := h, mf_secure_value := sv, mf_version := mf_version m, mf_size := mf_size m,
             mf_parent_version := mf_parent_version m, mf_created_at := mf_created_at m\<rparr> = m"
    if "h = mf_has_secure_value m" "sv = mf_secure_value m" for h sv
    using v(1) that by (cases m) (simp add: daemoon_manifest_init_def)
  show ?thesis
    using assms v(1)
    by (cases "mf_has_secure_value m")
       (simp_all add: rebuilt manifest_from_toks_def obj strs name nums sv parent created Let_def MANIFEST_FORMAT_VERSION_def
        platform.parse_name save_type.parse_name manifest_wf_def)
qed

lemma members_count: "2 * length (mf_members m) < MANIFEST_MAX_TOKENS"
  by (simp add: mf_members_def MANIFEST_MAX_TOKENS_def)

lemma manifest_roundtrip:
  assumes "daemoon_manifest_validate m = OK" "manifest_wf m"
  shows "daemoon_manifest_parse (json_flat (mf_members m)) (length (json_flat (mf_members m))) = Inr m"
proof -
  have "mf_members m \<noteq> []" by (simp add: mf_members_def)
  then have "daemoon_json_parse (Some (json_flat (mf_members m))) MANIFEST_MAX_TOKENS = Inr (flat_toks (mf_members m))"
    using members_ok [OF assms(2)] members_count by (rule flat_parse)
  moreover have "json_flat (mf_members m) \<noteq> []" by (simp add: json_flat_def)
  ultimately show ?thesis
    using manifest_text_fits [OF assms] manifest_roundtrip_toks [OF assms]
    by (simp add: daemoon_manifest_parse_def text_arg_def Let_def)
qed

section \<open>Properties\<close>

text \<open>C24 A manifest that passes its own check can always be stored and is stored without loss: writing it
  never runs out of the 2048 byte buffer, the text is shorter than the limit the parser enforces, and
  parsing it gives the same manifest back, every field of it, whatever the device label, the title
  name and the optional fields hold.\<close>
theorem manifest_write_parse:
  assumes "daemoon_manifest_validate m = OK" and "manifest_wf m"
  shows "\<exists>t. daemoon_manifest_write m MANIFEST_MAX_BYTES = Inr t \<and> length t < MANIFEST_MAX_BYTES \<and>
    daemoon_manifest_parse t (length t) = Inr m"
  using manifest_write_text [OF assms] manifest_text_fits [OF assms] manifest_roundtrip [OF assms] by blast

text \<open>C25 The parser lets nothing through that the check would refuse: whatever bytes it is given, a
  manifest it returns has the known format version, a known platform and save type, a plausible title
  id, a digest of 64 lower case hex digits, a label that is valid text, a parent older than its
  version, and every field within its C type.\<close>
theorem manifest_parse_sound:
  assumes "daemoon_manifest_parse json len = Inr m"
  shows "daemoon_manifest_validate m = OK \<and> manifest_wf m \<and>
    mf_format_version m = 1 \<and> mf_platform m \<noteq> PLATFORM_UNKNOWN \<and> mf_save_type m \<noteq> SAVE_UNKNOWN \<and>
    is_lower_hex64 (mf_sha256 m) \<and> (mf_version m = VERSION_NONE \<or> mf_parent_version m < mf_version m)"
proof -
  from assms obtain js toks where "manifest_from_toks js toks = Inr m"
    by (auto simp: daemoon_manifest_parse_def Let_def bind_sum_Inr_iff split: if_splits)
  note sound = manifest_from_toks_sound [OF this]
  from sound validate_ok [OF sound(1)] show ?thesis by blast
qed

definition sample_manifest :: manifest where
  "sample_manifest = daemoon_manifest_init
    \<lparr>mf_platform := PLATFORM_3DS, mf_save_type := SAVE_SAVEDATA, mf_title_id := ''0004000000055D00'',
     mf_version := 2, mf_parent_version := 1, mf_sha256 := replicate 64 CHR ''a'', mf_size := 7,
     mf_device_label := ''my \"3DS\"'', mf_has_secure_value := True\<rparr>"

lemma sample_manifest_ok: "daemoon_manifest_validate sample_manifest = OK" "manifest_wf sample_manifest"
proof -
  have "utf8_valid_loop ''my \"3DS\"''"
    by (simp add: utf8_valid_loop.simps seq_len_def utf8_lead_def utf8_overlong_def utf8_out_of_range_def u8_def)
  then show "daemoon_manifest_validate sample_manifest = OK"
    by (simp add: daemoon_manifest_validate_def sample_manifest_def daemoon_manifest_init_def
        is_valid_title_id_def is_lower_hex64_def size_defs daemoon_utf8_valid_def VERSION_NONE_def list_all_iff)
  show "manifest_wf sample_manifest"
    by (simp add: manifest_wf_def sample_manifest_def daemoon_manifest_init_def text_fits_def size_defs
        TIMESTAMP_MAX_def VERSION_NONE_def) (simp add: nul_free_def)
qed

theorem manifest_write_parse_witness:
  "\<exists>t. daemoon_manifest_write sample_manifest MANIFEST_MAX_BYTES = Inr t \<and>
    daemoon_manifest_parse t (length t) = Inr sample_manifest"
  using manifest_write_parse [OF sample_manifest_ok] by blast

theorem manifest_parse_sound_witness:
  "mf_platform sample_manifest \<noteq> PLATFORM_UNKNOWN \<and> is_lower_hex64 (mf_sha256 sample_manifest)"
  using manifest_parse_sound [OF manifest_roundtrip [OF sample_manifest_ok]] by blast

end
