(* ===== verification/Archive.thy ===== *)
theory Archive
  imports Manifest "HOL-Library.Sublist" "HOL-Library.Multiset"
begin

unbundle bit_operations_syntax

text \<open>
  \<open>core/src/archive.c\<close>: packing a save into a package, hashing a save, and reading,
  verifying and unpacking a package.

  The entry table of the caller's work area (\<open>daemoon_archive_ctx_t\<close>) is the list of its
  entries, so \<open>count\<close> is its length; every operation that fills it returns it.

  The zip library (\<open>vendor/miniz\<close>) is a parameter: a record \<open>'z miniz\<close> of its entry
  points over its archive state \<open>'z\<close>. A call into it is a tree of the callbacks it makes
  (\<open>mz_call\<close>); \<open>run_mz\<close> runs it against the callbacks the core installs. Nothing is
  assumed about what the library does with them. Byte counts of one transfer are natural numbers:
  2 to the 64 bytes never pass through a stream.
\<close>

section \<open>Path safety\<close>

definition path_is_safe :: "bytes option \<Rightarrow> bool" where
  "path_is_safe p =
    (case p of None \<Rightarrow> False
     | Some s \<Rightarrow>
      (let n = length s
       in if n = 0 \<or> n \<ge> PATH_MAX then False
          else if s ! 0 = CHR ''/'' \<or> s ! 0 = CHR 0x5c then False
          else if sublist ''..'' s then False
          else if CHR 0x5c \<in> set s \<or> CHR '':'' \<in> set s then False
          else if list_ex (\<lambda>c. u8 c < 0x20 \<or> u8 c = 0x7f) s then False
          else if sublist ''//'' s \<or> s ! (n - 1) = CHR ''/'' then False
          else True))"

section \<open>The zip library\<close>

datatype 'z mz_call =
  MzDone bool 'z
| MzWrite nat bytes "nat \<Rightarrow> 'z mz_call"
| MzRead nat nat "bytes \<Rightarrow> 'z mz_call"
| MzSource nat "bytes \<Rightarrow> 'z mz_call"
| MzSink bytes "nat \<Rightarrow> 'z mz_call"

record mz_stat =
  mz_is_directory :: bool
  mz_filename :: bytes
  mz_uncomp_size :: nat

record 'z miniz =
  mz_writer_init :: "'z mz_call"
  mz_add_read_buf :: "'z \<Rightarrow> bytes \<Rightarrow> nat \<Rightarrow> 'z mz_call"
  mz_add_mem :: "'z \<Rightarrow> bytes \<Rightarrow> bytes \<Rightarrow> 'z mz_call"
  mz_finalize :: "'z \<Rightarrow> 'z mz_call"
  mz_reader_init :: "nat \<Rightarrow> 'z mz_call"
  mz_locate :: "'z \<Rightarrow> bytes \<Rightarrow> nat option"
  mz_num_files :: "'z \<Rightarrow> nat"
  mz_file_stat :: "'z \<Rightarrow> nat \<Rightarrow> mz_stat option"
  mz_extract :: "'z \<Rightarrow> nat \<Rightarrow> 'z mz_call"

text \<open>The callbacks work on a state \<open>'u\<close> of their own, the C structs they are handed.\<close>

record ('w, 'u) mz_callbacks =
  cb_write :: "'u \<Rightarrow> nat \<Rightarrow> bytes \<Rightarrow> ('w, nat \<times> 'u) prog"
  cb_read :: "'u \<Rightarrow> nat \<Rightarrow> nat \<Rightarrow> ('w, bytes \<times> 'u) prog"
  cb_source :: "'u \<Rightarrow> nat \<Rightarrow> ('w, bytes \<times> 'u) prog"
  cb_sink :: "'u \<Rightarrow> bytes \<Rightarrow> ('w, nat \<times> 'u) prog"

primrec run_mz :: "('w, 'u) mz_callbacks \<Rightarrow> 'z mz_call \<Rightarrow> 'u \<Rightarrow> ('w, (bool \<times> 'z) \<times> 'u) prog" where
  "run_mz cb (MzDone ok z) u = return_io ((ok, z), u)"
| "run_mz cb (MzWrite ofs bs k) u = bind_io (cb_write cb u ofs bs) (\<lambda>p. run_mz cb (k (fst p)) (snd p))"
| "run_mz cb (MzRead ofs n k) u = bind_io (cb_read cb u ofs n) (\<lambda>p. run_mz cb (k (fst p)) (snd p))"
| "run_mz cb (MzSource n k) u = bind_io (cb_source cb u n) (\<lambda>p. run_mz cb (k (fst p)) (snd p))"
| "run_mz cb (MzSink bs k) u = bind_io (cb_sink cb u bs) (\<lambda>p. run_mz cb (k (fst p)) (snd p))"

section \<open>Zip input and output over streams\<close>

record zip_io =
  zio_ofs :: nat
  zio_err :: result

definition zip_write_cb :: "'w stream_ptr \<Rightarrow> zip_io \<Rightarrow> nat \<Rightarrow> bytes \<Rightarrow> ('w, nat \<times> zip_io) prog" where
  "zip_write_cb s io file_ofs buf =
    (if zio_err io \<noteq> OK then return_io (0, io)
     else if file_ofs \<noteq> zio_ofs io then return_io (0, io\<lparr>zio_err := ERR_ARCHIVE_ERROR\<rparr>)
     else bind_io (daemoon_stream_write s buf) (\<lambda>r.
       if r \<noteq> OK then return_io (0, io\<lparr>zio_err := r\<rparr>)
       else return_io (length buf, io\<lparr>zio_err := r, zio_ofs := zio_ofs io + length buf\<rparr>)))"

text \<open>The loop of \<open>zip_read_cb\<close>: the error it met and the bytes read by then.\<close>

function zip_read_loop :: "'w stream_ptr \<Rightarrow> nat \<Rightarrow> bytes \<Rightarrow> ('w, result \<times> bytes) prog" where
  "zip_read_loop s n got w =
    (if length got \<ge> n then Some ((OK, got), w)
     else case daemoon_stream_read s (n - length got) w of None \<Rightarrow> None
       | Some ((r, bs), w') \<Rightarrow>
          if r \<noteq> OK then Some ((r, got), w')
          else if bs = [] then Some ((OK, got), w')
          else zip_read_loop s n (got @ bs) w')"
  by pat_completeness auto
termination
  by (relation "measure (\<lambda>(s, n, got, w). n - length got)") (auto intro!: diff_less_mono2)

declare zip_read_loop.simps [simp del]

definition zip_read_cb :: "'w stream_ptr \<Rightarrow> zip_io \<Rightarrow> nat \<Rightarrow> nat \<Rightarrow> ('w, bytes \<times> zip_io) prog" where
  "zip_read_cb s io file_ofs n =
    (if zio_err io \<noteq> OK then return_io ([], io)
     else
      bind_io
        (if file_ofs \<noteq> zio_ofs io then
           bind_io (daemoon_stream_seek s file_ofs) (\<lambda>r.
             return_io (if r \<noteq> OK then io\<lparr>zio_err := r\<rparr> else io\<lparr>zio_err := r, zio_ofs := file_ofs\<rparr>))
         else return_io io)
        (\<lambda>io. if zio_err io \<noteq> OK then return_io ([], io)
          else bind_io (zip_read_loop s n []) (\<lambda>(r, got).
            if r \<noteq> OK then return_io (got, io\<lparr>zio_err := r\<rparr>)
            else return_io (got, io\<lparr>zio_ofs := zio_ofs io + length got\<rparr>))))"

definition zip_io_start :: zip_io where
  "zip_io_start = \<lparr>zio_ofs = 0, zio_err = OK\<rparr>"

text \<open>The three choices of \<open>r = (err != OK) ? err : (io.err != OK) ? io.err : ARCHIVE_ERROR\<close>.\<close>

definition zip_failure :: "result \<Rightarrow> zip_io \<Rightarrow> result" where
  "zip_failure err io =
    (if err \<noteq> OK then err else if zio_err io \<noteq> OK then zio_err io else ERR_ARCHIVE_ERROR)"

section \<open>Entry tables\<close>

definition ARCHIVE_MAX_ENTRIES :: nat where "ARCHIVE_MAX_ENTRIES = 192"
definition ARCHIVE_MANIFEST_PATH :: bytes where "ARCHIVE_MANIFEST_PATH = ''manifest.json''"
definition ARCHIVE_PAYLOAD_DIR :: bytes where "ARCHIVE_PAYLOAD_DIR = ''payload/''"

record entry =
  en_path :: bytes
  en_size :: nat

text \<open>\<open>strcmp\<close> compares the bytes as unsigned values, which is the order of \<open>bytes\<close>.\<close>

definition entry_cmp :: "entry \<Rightarrow> entry \<Rightarrow> int" where
  "entry_cmp a b =
    (if en_path a < en_path b then -1 else if en_path a = en_path b then 0 else 1)"

text \<open>\<open>qsort\<close> with that comparison. Entries of one path, which C may order either way, keep their order.\<close>

definition sort_entries :: "entry list \<Rightarrow> entry list" where
  "sort_entries es = sort_key en_path es"

text \<open>Adding one entry, as both \<open>collect_entry\<close> and \<open>collect_payload\<close> do it.\<close>

definition add_entry :: "entry list \<Rightarrow> bytes \<Rightarrow> nat \<Rightarrow> result \<times> entry list" where
  "add_entry es path sz =
    (if \<not> path_is_safe (Some path) then (ERR_ARCHIVE_ERROR, es)
     else if length es \<ge> ARCHIVE_MAX_ENTRIES then (ERR_ARCHIVE_ERROR, es)
     else case daemoon_strlcpy (Some []) PATH_MAX (Some path) of
        (r, copy) \<Rightarrow>
          if r \<noteq> OK then (ERR_ARCHIVE_ERROR, es)
          else (OK, es @ [\<lparr>en_path = the copy, en_size = sz\<rparr>]))"

text \<open>The callback's state is the table and \<open>collect.err\<close>; \<open>True\<close> stops the walk.\<close>

definition collect_entry :: "entry list \<times> result \<Rightarrow> bytes \<Rightarrow> nat \<Rightarrow> bool \<times> entry list \<times> result" where
  "collect_entry c path sz =
    (case add_entry (fst c) path sz of
      (r, es) \<Rightarrow> if r \<noteq> OK then (True, es, r) else (False, es, snd c))"

text \<open>The listing at the start of a pack and of a hash: result and table.\<close>

definition collect_save :: "'w env \<Rightarrow> save_handle \<Rightarrow> ('w, result \<times> entry list) prog" where
  "collect_save env save w =
    (case env_save env of None \<Rightarrow> None
     | Some b \<Rightarrow>
      (case sv_list_entries b of None \<Rightarrow> None
       | Some list_entries \<Rightarrow>
        (case run_walk collect_entry (list_entries save w) ([], OK) of
          ((r, es, err), w') \<Rightarrow>
            Some (if r \<noteq> OK then (r, es) else if err \<noteq> OK then (err, es) else (OK, sort_entries es), w'))))"

definition be64 :: "nat \<Rightarrow> bytes" where
  "be64 n = map (\<lambda>i. byte (drop_bit (56 - i * 8) n AND 0xff)) [0..<8]"

definition hash_entry_header :: "sha256 \<Rightarrow> bytes \<Rightarrow> nat \<Rightarrow> sha256" where
  "hash_entry_header h path sz =
    daemoon_sha256_update (daemoon_sha256_update (daemoon_sha256_update h path) [NUL]) (be64 sz)"

definition entry_name :: "bytes \<Rightarrow> result \<times> bytes" where
  "entry_name path =
    (let sb = sb_add (sb_add (daemoon_strbuf_init (PATH_MAX + length ARCHIVE_PAYLOAD_DIR + 1)) ARCHIVE_PAYLOAD_DIR) path
     in (daemoon_strbuf_result sb, sb_buf sb))"

section \<open>Packing\<close>

record pack_src =
  ps_total :: nat
  ps_hash :: sha256
  ps_err :: result

definition pack_read_cb :: "'w stream_ptr \<Rightarrow> pack_src \<Rightarrow> nat \<Rightarrow> ('w, bytes \<times> pack_src) prog" where
  "pack_read_cb file src n =
    (if ps_err src \<noteq> OK then return_io ([], src)
     else bind_io (daemoon_stream_read file n) (\<lambda>(r, got).
       if r \<noteq> OK then return_io ([], src\<lparr>ps_err := r\<rparr>)
       else return_io (got, src\<lparr>ps_err := r, ps_hash := daemoon_sha256_update (ps_hash src) got,
              ps_total := ps_total src + length got\<rparr>)))"

text \<open>Callbacks that the call at hand does not install answer 0.\<close>

definition pack_callbacks :: "'w stream_ptr \<Rightarrow> 'w stream_ptr \<Rightarrow> ('w, zip_io \<times> pack_src) mz_callbacks" where
  "pack_callbacks out file =
    \<lparr>cb_write = (\<lambda>u ofs bs. bind_io (zip_write_cb out (fst u) ofs bs) (\<lambda>(n, io). return_io (n, (io, snd u)))),
     cb_read = (\<lambda>u ofs n. return_io ([], u)),
     cb_source = (\<lambda>u n. bind_io (pack_read_cb file (snd u) n) (\<lambda>(bs, src). return_io (bs, (fst u, src)))),
     cb_sink = (\<lambda>u bs. return_io (0, u))\<rparr>"

definition write_callbacks :: "'w stream_ptr \<Rightarrow> ('w, zip_io) mz_callbacks" where
  "write_callbacks out =
    \<lparr>cb_write = (\<lambda>io ofs bs. zip_write_cb out io ofs bs), cb_read = (\<lambda>u ofs n. return_io ([], u)),
     cb_source = (\<lambda>u n. return_io ([], u)), cb_sink = (\<lambda>u bs. return_io (0, u))\<rparr>"

definition open_save_file ::
  "'w env \<Rightarrow> save_handle \<Rightarrow> bytes \<Rightarrow> open_mode \<Rightarrow> ('w, result \<times> 'w stream_ptr) prog" where
  "open_save_file env save path mode = call_fn (env_save env) sv_open_file (\<lambda>f. f save path mode)"

text \<open>What the loop of a pack carries: the digest, the archive, its output and \<open>m->size\<close>.\<close>

record 'z pack_state =
  pk_hash :: sha256
  pk_zip :: 'z
  pk_io :: zip_io
  pk_size :: nat

text \<open>One entry of the loop; a failure is the \<open>goto fail\<close>.\<close>

definition pack_entry ::
  "'w env \<Rightarrow> 'z miniz \<Rightarrow> save_handle \<Rightarrow> 'w stream_ptr \<Rightarrow> entry \<Rightarrow> 'z pack_state \<Rightarrow>
    ('w, result \<times> 'z pack_state) prog" where
  "pack_entry env mz save out e st =
    (case entry_name (en_path e) of (r, name) \<Rightarrow>
      if r \<noteq> OK then return_io (r, st)
      else
       (let hash = hash_entry_header (pk_hash st) (en_path e) (en_size e)
        in bind_io (open_save_file env save (en_path e) OPEN_READ) (\<lambda>(r, file).
          if r \<noteq> OK then return_io (r, st\<lparr>pk_hash := hash\<rparr>)
          else
          bind_io
            (run_mz (pack_callbacks out file) (mz_add_read_buf mz (pk_zip st) name (en_size e))
              (pk_io st, \<lparr>ps_total = 0, ps_hash = hash, ps_err = OK\<rparr>)) (\<lambda>((ok, z), (io, src)).
          let st = st\<lparr>pk_hash := ps_hash src, pk_zip := z, pk_io := io\<rparr> in
          if \<not> ok then
            bind_io (daemoon_stream_close file) (\<lambda>_. return_io (zip_failure (ps_err src) io, st))
          else
          bind_io (daemoon_stream_close file) (\<lambda>r.
          if r \<noteq> OK then return_io (r, st)
          else if ps_total src \<noteq> en_size e then return_io (ERR_IO_ERROR, st)
          else return_io (OK, st\<lparr>pk_size := pk_size st + ps_total src\<rparr>))))))"

fun pack_entries ::
  "'w env \<Rightarrow> 'z miniz \<Rightarrow> save_handle \<Rightarrow> 'w stream_ptr \<Rightarrow> entry list \<Rightarrow> 'z pack_state \<Rightarrow>
    ('w, result \<times> 'z pack_state) prog" where
  "pack_entries env mz save out [] st = return_io (OK, st)"
| "pack_entries env mz save out (e # es) st =
    bind_io (pack_entry env mz save out e st) (\<lambda>(r, st).
      if r \<noteq> OK then return_io (r, st) else pack_entries env mz save out es st)"

text \<open>From the end of the loop: the manifest is completed and written last.\<close>

definition pack_finish ::
  "'z miniz \<Rightarrow> 'w stream_ptr \<Rightarrow> manifest \<Rightarrow> 'z pack_state \<Rightarrow> ('w, result \<times> manifest) prog" where
  "pack_finish mz out m st =
    (let m = m\<lparr>mf_size := pk_size st, mf_sha256 := daemoon_sha256_hex (daemoon_sha256_final (pk_hash st))\<rparr>
     in case daemoon_manifest_write m MANIFEST_MAX_BYTES of
        Inl r \<Rightarrow> return_io (r, m)
      | Inr json \<Rightarrow>
         bind_io (run_mz (write_callbacks out) (mz_add_mem mz (pk_zip st) ARCHIVE_MANIFEST_PATH json) (pk_io st))
          (\<lambda>((ok, z), io).
           if \<not> ok then return_io (zip_failure OK io, m)
           else bind_io (run_mz (write_callbacks out) (mz_finalize mz z) io) (\<lambda>((ok, z), io).
             if \<not> ok then return_io (zip_failure OK io, m) else return_io (zio_err io, m))))"

text \<open>Result, entry table and manifest afterwards.\<close>

definition daemoon_archive_pack ::
  "'w env \<Rightarrow> 'z miniz \<Rightarrow> save_handle \<Rightarrow> manifest \<Rightarrow> 'w stream_ptr \<Rightarrow>
    ('w, result \<times> entry list \<times> manifest) prog" where
  "daemoon_archive_pack env mz save m out =
    (if out = None then return_io (ERR_INVALID_REQUEST, [], m)
     else bind_io (collect_save env save) (\<lambda>(r, es).
      if r \<noteq> OK then return_io (r, es, m)
      else bind_io (run_mz (write_callbacks out) (mz_writer_init mz) zip_io_start) (\<lambda>((ok, z), io).
      if \<not> ok then return_io (ERR_ARCHIVE_ERROR, es, m)
      else bind_io
        (pack_entries env mz save out es \<lparr>pk_hash = daemoon_sha256_init, pk_zip = z, pk_io = io, pk_size = 0\<rparr>)
        (\<lambda>(r, st).
          if r \<noteq> OK then return_io (r, es, m\<lparr>mf_size := pk_size st\<rparr>)
          else bind_io (pack_finish mz out m st) (\<lambda>(r, m). return_io (r, es, m))))))"

section \<open>Hashing a save\<close>

text \<open>
  The read loop over one file: it ends only when the file does, so it is a partial function. Its
  failure is the return out of the middle of the loop, after the file has been closed.
\<close>

partial_function (option) hash_read_loop ::
  "'w stream_ptr \<Rightarrow> nat \<Rightarrow> sha256 \<Rightarrow> nat \<Rightarrow> 'w \<Rightarrow> ((result \<times> sha256 \<times> nat) \<times> 'w) option" where
  "hash_read_loop f scratch_len hash n w =
    Option.bind (daemoon_stream_read f scratch_len w) (\<lambda>((r, bs), w).
      if r \<noteq> OK then Option.bind (daemoon_stream_close f w) (\<lambda>(_, w). Some ((r, hash, n), w))
      else if bs = [] then Some ((OK, hash, n), w)
      else hash_read_loop f scratch_len (daemoon_sha256_update hash bs) (n + length bs) w)"

definition hash_entry ::
  "'w env \<Rightarrow> save_handle \<Rightarrow> entry \<Rightarrow> sha256 \<Rightarrow> ('w, result \<times> sha256 \<times> nat) prog" where
  "hash_entry env save e hash =
    (let hash = hash_entry_header hash (en_path e) (en_size e)
     in bind_io (open_save_file env save (en_path e) OPEN_READ) (\<lambda>(r, f).
      if r \<noteq> OK then return_io (r, hash, 0)
      else bind_io (hash_read_loop f (env_scratch_len env) hash 0) (\<lambda>(r, hash, n).
        if r \<noteq> OK then return_io (r, hash, n)
        else bind_io (daemoon_stream_close f) (\<lambda>r.
          if r \<noteq> OK then return_io (r, hash, n)
          else if n \<noteq> en_size e then return_io (ERR_IO_ERROR, hash, n)
          else return_io (OK, hash, n)))))"

fun hash_entries ::
  "'w env \<Rightarrow> save_handle \<Rightarrow> entry list \<Rightarrow> sha256 \<Rightarrow> nat \<Rightarrow> ('w, result \<times> sha256 \<times> nat) prog" where
  "hash_entries env save [] hash n = return_io (OK, hash, n)"
| "hash_entries env save (e # es) hash n =
    bind_io (hash_entry env save e hash) (\<lambda>(r, hash, k).
      if r \<noteq> OK then return_io (r, hash, n) else hash_entries env save es hash (n + k))"

text \<open>Result, entry table, \<open>out_hex\<close> and \<open>out_size\<close>; the last two count when the result is OK.\<close>

definition daemoon_archive_hash_save ::
  "'w env \<Rightarrow> save_handle \<Rightarrow> ('w, result \<times> entry list \<times> bytes \<times> nat) prog" where
  "daemoon_archive_hash_save env save =
    bind_io (collect_save env save) (\<lambda>(r, es).
      if r \<noteq> OK then return_io (r, es, [], 0)
      else bind_io (hash_entries env save es daemoon_sha256_init 0) (\<lambda>(r, hash, n).
        if r \<noteq> OK then return_io (r, es, [], 0)
        else return_io (OK, es, daemoon_sha256_hex (daemoon_sha256_final hash), n)))"

section \<open>Reading a package\<close>

record membuf =
  mb_cap :: nat
  mb_bytes :: bytes
  mb_overflow :: bool

definition mem_write_cb :: "membuf \<Rightarrow> bytes \<Rightarrow> nat \<times> membuf" where
  "mem_write_cb mb buf =
    (if length (mb_bytes mb) + length buf > mb_cap mb then (0, mb\<lparr>mb_overflow := True\<rparr>)
     else (length buf, mb\<lparr>mb_bytes := mb_bytes mb @ buf\<rparr>))"

text \<open>The callbacks of an open package: reads go to its stream, extracted bytes to \<open>sink\<close>.\<close>

definition read_callbacks ::
  "'w stream_ptr \<Rightarrow> ('u \<Rightarrow> bytes \<Rightarrow> ('w, nat \<times> 'u) prog) \<Rightarrow> ('w, zip_io \<times> 'u) mz_callbacks" where
  "read_callbacks pkg sink =
    \<lparr>cb_write = (\<lambda>u ofs bs. return_io (0, u)),
     cb_read = (\<lambda>u ofs n. bind_io (zip_read_cb pkg (fst u) ofs n) (\<lambda>(bs, io). return_io (bs, (io, snd u)))),
     cb_source = (\<lambda>u n. return_io ([], u)),
     cb_sink = (\<lambda>u bs. bind_io (sink (snd u) bs) (\<lambda>(n, x). return_io (n, (fst u, x))))\<rparr>"

definition reader_open :: "'z miniz \<Rightarrow> 'w stream_ptr \<Rightarrow> ('w, result + 'z \<times> zip_io) prog" where
  "reader_open mz pkg =
    (case pkg of None \<Rightarrow> return_io (Inl ERR_INVALID_REQUEST)
     | Some s \<Rightarrow>
        if st_read s = None then return_io (Inl ERR_INVALID_REQUEST)
        else if st_seek s = None then return_io (Inl ERR_UNSUPPORTED)
        else if st_size s = 0 then return_io (Inl ERR_ARCHIVE_ERROR)
        else bind_io (daemoon_stream_seek pkg 0) (\<lambda>r.
          if r \<noteq> OK then return_io (Inl r)
          else bind_io
            (run_mz (read_callbacks pkg (\<lambda>_ _. return_io (0, ()))) (mz_reader_init mz (st_size s)) (zip_io_start, ()))
            (\<lambda>((ok, z), (io, _)).
              if \<not> ok then return_io (Inl (zip_failure OK io)) else return_io (Inr (z, io)))))"

text \<open>
  The manifest is parsed out of the bytes extracted. With none extracted the source passes length 0
  and the parser looks for the end of a string in a buffer nothing was written to; the model
  reads that buffer as empty.
\<close>

definition read_manifest_from ::
  "'z miniz \<Rightarrow> 'w stream_ptr \<Rightarrow> 'z \<Rightarrow> zip_io \<Rightarrow> ('w, result + manifest) prog" where
  "read_manifest_from mz pkg z io =
    (case mz_locate mz z ARCHIVE_MANIFEST_PATH of
      None \<Rightarrow> return_io (Inl ERR_INVALID_MANIFEST)
    | Some idx \<Rightarrow>
       bind_io
        (run_mz (read_callbacks pkg (\<lambda>mb bs. return_io (mem_write_cb mb bs))) (mz_extract mz z idx)
          (io, \<lparr>mb_cap = MANIFEST_MAX_BYTES, mb_bytes = [], mb_overflow = False\<rparr>))
        (\<lambda>((ok, _), (io, mb)).
          if \<not> ok then
            (if mb_overflow mb then return_io (Inl ERR_INVALID_MANIFEST)
             else return_io (Inl (zip_failure OK io)))
          else return_io (daemoon_manifest_parse (mb_bytes mb) (length (mb_bytes mb)))))"

definition daemoon_archive_read_manifest ::
  "'z miniz \<Rightarrow> 'w stream_ptr \<Rightarrow> ('w, result + manifest) prog" where
  "daemoon_archive_read_manifest mz pkg =
    bind_io (reader_open mz pkg) (\<lambda>x.
      case x of Inl r \<Rightarrow> return_io (Inl r) | Inr (z, io) \<Rightarrow> read_manifest_from mz pkg z io)"

text \<open>The loop over the central directory, at index \<open>i\<close> with \<open>k\<close> files to go.\<close>

fun collect_payload_loop :: "'z miniz \<Rightarrow> 'z \<Rightarrow> nat \<Rightarrow> nat \<Rightarrow> entry list \<Rightarrow> result \<times> entry list" where
  "collect_payload_loop mz z i 0 es = (OK, es)"
| "collect_payload_loop mz z i (Suc k) es =
    (case mz_file_stat mz z i of None \<Rightarrow> (ERR_ARCHIVE_ERROR, es)
     | Some st \<Rightarrow>
        if mz_is_directory st then collect_payload_loop mz z (i + 1) k es
        else if mz_filename st = ARCHIVE_MANIFEST_PATH then collect_payload_loop mz z (i + 1) k es
        else if take (length ARCHIVE_PAYLOAD_DIR) (mz_filename st) \<noteq> ARCHIVE_PAYLOAD_DIR then (ERR_ARCHIVE_ERROR, es)
        else
          (case add_entry es (drop (length ARCHIVE_PAYLOAD_DIR) (mz_filename st)) (mz_uncomp_size st) of
            (r, es') \<Rightarrow> if r \<noteq> OK then (r, es') else collect_payload_loop mz z (i + 1) k es'))"

definition collect_payload :: "'z miniz \<Rightarrow> 'z \<Rightarrow> result \<times> entry list" where
  "collect_payload mz z =
    (case collect_payload_loop mz z 0 (mz_num_files mz z) [] of
      (r, es) \<Rightarrow> if r \<noteq> OK then (r, es) else (OK, sort_entries es))"

section \<open>Verifying\<close>

text \<open>\<open>hash_sink_t\<close>: the digest and the bytes that went into it.\<close>

definition hash_write_cb :: "sha256 \<times> nat \<Rightarrow> bytes \<Rightarrow> nat \<times> (sha256 \<times> nat)" where
  "hash_write_cb hs buf = (length buf, (daemoon_sha256_update (fst hs) buf, snd hs + length buf))"

definition verify_entry ::
  "'z miniz \<Rightarrow> 'w stream_ptr \<Rightarrow> entry \<Rightarrow> 'z \<times> zip_io \<times> sha256 \<times> nat \<Rightarrow>
    ('w, result \<times> 'z \<times> zip_io \<times> sha256 \<times> nat) prog" where
  "verify_entry mz pkg e st =
    (case st of (z, io, hash, n) \<Rightarrow>
     case entry_name (en_path e) of (r, name) \<Rightarrow>
      if r \<noteq> OK then return_io (r, st)
      else case mz_locate mz z name of
        None \<Rightarrow> return_io (ERR_ARCHIVE_ERROR, st)
      | Some idx \<Rightarrow>
         bind_io
          (run_mz (read_callbacks pkg (\<lambda>hs bs. return_io (hash_write_cb hs bs))) (mz_extract mz z idx)
            (io, (hash_entry_header hash (en_path e) (en_size e), 0)))
          (\<lambda>((ok, z), (io, (hash, k))).
            if \<not> ok then return_io (zip_failure OK io, (z, io, hash, n))
            else if k \<noteq> en_size e then return_io (ERR_ARCHIVE_ERROR, (z, io, hash, n))
            else return_io (OK, (z, io, hash, n + k))))"

fun verify_entries ::
  "'z miniz \<Rightarrow> 'w stream_ptr \<Rightarrow> entry list \<Rightarrow> 'z \<times> zip_io \<times> sha256 \<times> nat \<Rightarrow>
    ('w, result \<times> 'z \<times> zip_io \<times> sha256 \<times> nat) prog" where
  "verify_entries mz pkg [] st = return_io (OK, st)"
| "verify_entries mz pkg (e # es) st =
    bind_io (verify_entry mz pkg e st) (\<lambda>(r, st).
      if r \<noteq> OK then return_io (r, st) else verify_entries mz pkg es st)"

text \<open>Result and entry table. A package that does not open leaves the table as it was, \<open>ctx\<close>.\<close>

definition daemoon_archive_verify ::
  "'z miniz \<Rightarrow> entry list \<Rightarrow> 'w stream_ptr \<Rightarrow> manifest \<Rightarrow> ('w, result \<times> entry list) prog" where
  "daemoon_archive_verify mz ctx pkg m =
    bind_io (reader_open mz pkg) (\<lambda>x.
      case x of Inl r \<Rightarrow> return_io (r, ctx)
      | Inr (z, io) \<Rightarrow>
        (case collect_payload mz z of (r, es) \<Rightarrow>
          if r \<noteq> OK then return_io (r, es)
          else bind_io (verify_entries mz pkg es (z, io, daemoon_sha256_init, 0)) (\<lambda>(r, (z, io, hash, n)).
            if r \<noteq> OK then return_io (r, es)
            else if \<not> daemoon_sha256_hex_equal (Some (daemoon_sha256_hex (daemoon_sha256_final hash))) (Some (mf_sha256 m))
                 \<or> n \<noteq> mf_size m
            then return_io (ERR_CHECKSUM_MISMATCH, es)
            else return_io (OK, es))))"

section \<open>Unpacking\<close>

definition extract_write_cb :: "'w stream_ptr \<Rightarrow> result \<Rightarrow> bytes \<Rightarrow> ('w, nat \<times> result) prog" where
  "extract_write_cb out err buf =
    (if err \<noteq> OK then return_io (0, err)
     else bind_io (daemoon_stream_write out buf) (\<lambda>r. return_io (if r = OK then length buf else 0, r)))"

definition unpack_entry ::
  "'w env \<Rightarrow> 'z miniz \<Rightarrow> 'w stream_ptr \<Rightarrow> save_handle \<Rightarrow> entry \<Rightarrow> 'z \<times> zip_io \<Rightarrow>
    ('w, result \<times> 'z \<times> zip_io) prog" where
  "unpack_entry env mz pkg save e st =
    (case st of (z, io) \<Rightarrow>
     case entry_name (en_path e) of (r, name) \<Rightarrow>
      if r \<noteq> OK then return_io (r, st)
      else case mz_locate mz z name of
        None \<Rightarrow> return_io (ERR_ARCHIVE_ERROR, st)
      | Some idx \<Rightarrow>
         bind_io (open_save_file env save (en_path e) OPEN_WRITE) (\<lambda>(r, out).
          if r \<noteq> OK then return_io (r, st)
          else bind_io (run_mz (read_callbacks pkg (extract_write_cb out)) (mz_extract mz z idx) (io, OK))
          (\<lambda>((ok, z), (io, err)).
            if \<not> ok then
              bind_io (daemoon_stream_close out) (\<lambda>_. return_io (zip_failure err io, (z, io)))
            else bind_io (daemoon_stream_close out) (\<lambda>r. return_io (r, (z, io))))))"

fun unpack_entries ::
  "'w env \<Rightarrow> 'z miniz \<Rightarrow> 'w stream_ptr \<Rightarrow> save_handle \<Rightarrow> entry list \<Rightarrow> 'z \<times> zip_io \<Rightarrow>
    ('w, result \<times> 'z \<times> zip_io) prog" where
  "unpack_entries env mz pkg save [] st = return_io (OK, st)"
| "unpack_entries env mz pkg save (e # es) st =
    bind_io (unpack_entry env mz pkg save e st) (\<lambda>(r, st).
      if r \<noteq> OK then return_io (r, st) else unpack_entries env mz pkg save es st)"

definition daemoon_archive_unpack ::
  "'w env \<Rightarrow> 'z miniz \<Rightarrow> entry list \<Rightarrow> 'w stream_ptr \<Rightarrow> save_handle \<Rightarrow> ('w, result \<times> entry list) prog" where
  "daemoon_archive_unpack env mz ctx pkg save =
    bind_io (reader_open mz pkg) (\<lambda>x.
      case x of Inl r \<Rightarrow> return_io (r, ctx)
      | Inr (z, io) \<Rightarrow>
        (case collect_payload mz z of (r, es) \<Rightarrow>
          if r \<noteq> OK then return_io (r, es)
          else bind_io (call_fn (env_save env) sv_remove_all (\<lambda>f. f save)) (\<lambda>r.
            if r \<noteq> OK then return_io (r, es)
            else bind_io (unpack_entries env mz pkg save es (z, io)) (\<lambda>(r, _). return_io (r, es)))))"

section \<open>The payload digest\<close>

text \<open>
  The digest of a save is defined over its files in path order, as \<open>archive.h\<close> states it:
  path, one NUL, the size in eight bytes, the content.
\<close>

definition entry_preimage :: "bytes \<Rightarrow> bytes \<Rightarrow> bytes" where
  "entry_preimage path content = path @ [NUL] @ be64 (length content) @ content"

definition payload_preimage :: "entry list \<Rightarrow> bytes list \<Rightarrow> bytes" where
  "payload_preimage es cs = concat (map2 (\<lambda>e c. entry_preimage (en_path e) c) es cs)"

text \<open>Contents that have the sizes the table gives.\<close>

definition contents_of :: "entry list \<Rightarrow> bytes list \<Rightarrow> bool" where
  "contents_of es cs \<longleftrightarrow> list_all2 (\<lambda>e c. length c = en_size e) es cs"

definition total_size :: "entry list \<Rightarrow> nat" where
  "total_size es = sum_list (map en_size es)"

lemma payload_preimage_simps [simp]:
  "payload_preimage [] cs = []"
  "payload_preimage (e # es) (c # cs) = entry_preimage (en_path e) c @ payload_preimage es cs"
  by (simp_all add: payload_preimage_def)

lemma header_of: "hash_entry_header (sha_of M) p n = sha_of (M @ p @ [NUL] @ be64 n)"
  by (simp add: hash_entry_header_def sha_update_of)

lemma ensures_bind_pair:
  "ensures m R \<Longrightarrow> (\<And>a b. R (a, b) \<Longrightarrow> ensures (f a b) Q) \<Longrightarrow> ensures (bind_io m (\<lambda>(a, b). f a b)) Q"
  by (erule ensures_bind) auto

lemma hash_read_loop_content:
  assumes "hash_read_loop f k hash n w = Some y"
  shows "\<forall>M. hash = sha_of M \<longrightarrow> (\<exists>c. fst (snd (fst y)) = sha_of (M @ c) \<and> snd (snd (fst y)) = n + length c)"
  using assms
proof (induction f k hash n w y rule: hash_read_loop.raw_induct [rotated 1, consumes 1, case_names step])
  case (step loop f k hash n w y)
  then obtain rr bs w1 where rd: "daemoon_stream_read f k w = Some ((rr, bs), w1)"
    by (auto split: option.splits simp: bind_eq_Some_conv)
  show ?case
  proof (intro allI impI)
    fix M assume M: "hash = sha_of M"
    show "\<exists>c. fst (snd (fst y)) = sha_of (M @ c) \<and> snd (snd (fst y)) = n + length c"
    proof (cases "rr = OK \<and> bs \<noteq> []")
      case True
      with step(2) rd have "loop f k (daemoon_sha256_update hash bs) (n + length bs) w1 = Some y" by simp
      from step(1) [OF this] obtain c where
        "fst (snd (fst y)) = sha_of (M @ bs @ c)" "snd (snd (fst y)) = n + length bs + length c"
        by (auto simp: M sha_update_of)
      then show ?thesis by (intro exI [of _ "bs @ c"]) simp
    next
      case False
      with step(2) rd M show ?thesis
        by (intro exI [of _ "[]"]) (auto simp: bind_eq_Some_conv split: if_splits)
    qed
  qed
qed

lemma hash_read_loop_ensures:
  "ensures (hash_read_loop f k (sha_of M) n) (\<lambda>(r, h, n'). \<exists>c. h = sha_of (M @ c) \<and> n' = n + length c)"
  using hash_read_loop_content [of f k "sha_of M" n] by (fastforce simp: ensures_def)

lemma hash_entry_ensures:
  "ensures (hash_entry env save e (sha_of M)) (\<lambda>(r, h, n). r = OK \<longrightarrow>
    (\<exists>c. length c = en_size e \<and> n = en_size e \<and> h = sha_of (M @ entry_preimage (en_path e) c)))"
  unfolding hash_entry_def Let_def header_of
  apply (rule ensures_bind_pair [OF ensures_any])
  apply (intro ensures_intros)
   apply simp
  apply (rule ensures_bind [OF hash_read_loop_ensures])
  apply (clarsimp split: prod.splits)
  apply (intro conjI impI ensures_intros ensures_bind_any)
      apply (auto simp: entry_preimage_def)
  done

lemma contents_of_simps [simp]:
  "contents_of [] cs \<longleftrightarrow> cs = []"
  "contents_of (e # es) (c # cs) \<longleftrightarrow> length c = en_size e \<and> contents_of es cs"
  "total_size [] = 0" "total_size (e # es) = en_size e + total_size es"
  by (simp_all add: contents_of_def total_size_def)

text \<open>What a loop over the entry table establishes when it succeeds: the digest state after it.\<close>

definition hashed :: "bytes \<Rightarrow> entry list \<Rightarrow> sha256 \<Rightarrow> bool" where
  "hashed M es h \<longleftrightarrow> (\<exists>cs. contents_of es cs \<and> h = sha_of (M @ payload_preimage es cs))"

lemma hashed_Nil: "hashed M [] (sha_of M)"
  by (auto simp: hashed_def)

lemma hashed_Cons:
  "length c = en_size e \<Longrightarrow> hashed (M @ entry_preimage (en_path e) c) es h \<Longrightarrow> hashed M (e # es) h"
  unfolding hashed_def by (metis append.assoc contents_of_simps(2) payload_preimage_simps(2))

lemma hash_entries_ensures:
  "ensures (hash_entries env save es (sha_of M) n)
    (\<lambda>(r, h, n'). r = OK \<longrightarrow> hashed M es h \<and> n' = n + total_size es)"
proof (induction es arbitrary: M n)
  case Nil
  then show ?case by (auto intro: ensures_intros hashed_Nil)
next
  case (Cons e es)
  have rest: "ensures (hash_entries env save es h (n + k))
      (\<lambda>(r, h, n'). r = OK \<longrightarrow> hashed M (e # es) h \<and> n' = n + (en_size e + total_size es))"
    if "length c = en_size e" "k = en_size e" "h = sha_of (M @ entry_preimage (en_path e) c)" for h k c
    unfolding that(3) by (rule ensures_mono [OF Cons]) (use that hashed_Cons in auto)
  show ?case
    unfolding hash_entries.simps
    by (rule ensures_bind [OF hash_entry_ensures]) (auto intro!: ensures_intros rest)
qed

lemma zip_failure_not_ok [simp]: "zip_failure err io \<noteq> OK"
  by (simp add: zip_failure_def)

subsection \<open>Callbacks preserve what the core needs\<close>

lemma run_mz_ensures:
  assumes "\<And>u ofs bs. I u \<Longrightarrow> ensures (cb_write cb u ofs bs) (\<lambda>p. I (snd p))"
    and "\<And>u ofs n. I u \<Longrightarrow> ensures (cb_read cb u ofs n) (\<lambda>p. I (snd p))"
    and "\<And>u n. I u \<Longrightarrow> ensures (cb_source cb u n) (\<lambda>p. I (snd p))"
    and "\<And>u bs. I u \<Longrightarrow> ensures (cb_sink cb u bs) (\<lambda>p. I (snd p))"
    and "I u"
  shows "ensures (run_mz cb call u) (\<lambda>p. I (snd p))"
  using assms(5)
proof (induction call arbitrary: u)
  case (MzDone ok z)
  then show ?case by (simp add: ensures_return)
next
  case (MzWrite ofs bs k)
  then show ?case by (auto intro!: ensures_bind [OF assms(1)])
next
  case (MzRead ofs n k)
  then show ?case by (auto intro!: ensures_bind [OF assms(2)])
next
  case (MzSource n k)
  then show ?case by (auto intro!: ensures_bind [OF assms(3)])
next
  case (MzSink bs k)
  then show ?case by (auto intro!: ensures_bind [OF assms(4)])
qed

definition pack_src_ok :: "bytes \<Rightarrow> pack_src \<Rightarrow> bool" where
  "pack_src_ok M src \<longleftrightarrow> (\<exists>c. ps_hash src = sha_of (M @ c) \<and> ps_total src = length c)"

lemma pack_read_cb_ensures:
  assumes "pack_src_ok M src"
  shows "ensures (pack_read_cb file src n) (\<lambda>p. pack_src_ok M (snd p))"
proof -
  obtain c where c: "ps_hash src = sha_of (M @ c)" "ps_total src = length c"
    using assms by (auto simp: pack_src_ok_def)
  have "pack_src_ok M (src\<lparr>ps_err := r, ps_hash := daemoon_sha256_update (ps_hash src) got,
              ps_total := ps_total src + length got\<rparr>)" for r got
    unfolding pack_src_ok_def by (rule exI [of _ "c @ got"]) (simp add: c sha_update_of)
  moreover have "pack_src_ok M (src\<lparr>ps_err := r\<rparr>)" for r
    using c by (auto simp: pack_src_ok_def)
  ultimately show ?thesis
    using assms by (auto simp: pack_read_cb_def intro!: ensures_intros ensures_bind_any split: prod.splits)
qed

lemma run_mz_pack:
  assumes "pack_src_ok M src"
  shows "ensures (run_mz (pack_callbacks out file) call (io, src)) (\<lambda>p. pack_src_ok M (snd (snd p)))"
proof (rule run_mz_ensures [where I = "\<lambda>u. pack_src_ok M (snd u)"])
  fix u :: "zip_io \<times> pack_src" and n
  assume "pack_src_ok M (snd u)"
  then show "ensures (cb_source (pack_callbacks out file) u n) (\<lambda>p. pack_src_ok M (snd (snd p)))"
    by (auto simp: pack_callbacks_def intro!: ensures_bind [OF pack_read_cb_ensures] ensures_intros)
qed (use assms in \<open>auto simp: pack_callbacks_def intro!: ensures_intros ensures_bind_any\<close>)

lemma pack_entry_ensures:
  assumes "pk_hash st = sha_of M"
  shows "ensures (pack_entry env mz save out e st) (\<lambda>(r, st'). r = OK \<longrightarrow>
    (\<exists>c. length c = en_size e \<and> pk_hash st' = sha_of (M @ entry_preimage (en_path e) c) \<and>
      pk_size st' = pk_size st + en_size e))"
  unfolding pack_entry_def Let_def assms header_of
  apply (clarsimp split: prod.splits)
  apply (intro conjI impI ensures_intros, simp)
  apply (rule ensures_bind_any, clarsimp split: prod.splits)
  apply (intro conjI impI ensures_intros, simp)
  apply (rule ensures_bind [OF run_mz_pack [where M = "M @ en_path e @ [NUL] @ be64 (en_size e)"]])
   apply (auto simp: pack_src_ok_def entry_preimage_def intro!: ensures_intros ensures_bind_any)
  done

lemma pack_entries_ensures:
  assumes "pk_hash st = sha_of M"
  shows "ensures (pack_entries env mz save out es st) (\<lambda>(r, st'). r = OK \<longrightarrow>
    hashed M es (pk_hash st') \<and> pk_size st' = pk_size st + total_size es)"
  using assms
proof (induction es arbitrary: M st)
  case Nil
  then show ?case by (auto intro!: ensures_intros hashed_Nil)
next
  case (Cons e es)
  have rest: "ensures (pack_entries env mz save out es st') (\<lambda>(r, st''). r = OK \<longrightarrow>
      hashed M (e # es) (pk_hash st'') \<and> pk_size st'' = pk_size st + (en_size e + total_size es))"
    if "length c = en_size e" "pk_hash st' = sha_of (M @ entry_preimage (en_path e) c)"
      "pk_size st' = pk_size st + en_size e" for st' c
    by (rule ensures_mono [OF Cons.IH [OF that(2)]]) (use that hashed_Cons in auto)
  show ?case
    unfolding pack_entries.simps
    by (rule ensures_bind [OF pack_entry_ensures [OF Cons.prems]]) (auto intro!: ensures_intros rest)
qed

lemma verify_entry_ensures:
  "ensures (verify_entry mz pkg e (z, io, sha_of M, n)) (\<lambda>(r, (z', io', h, n')). r = OK \<longrightarrow>
    (\<exists>c. length c = en_size e \<and> h = sha_of (M @ entry_preimage (en_path e) c) \<and> n' = n + en_size e))"
proof -
  let ?H = "sha_of (M @ en_path e @ [NUL] @ be64 (en_size e))"
  let ?I = "\<lambda>u :: zip_io \<times> sha256 \<times> nat. \<exists>c. fst (snd u) =
      sha_of ((M @ en_path e @ [NUL] @ be64 (en_size e)) @ c) \<and> snd (snd u) = length c"
  have "ensures (run_mz (read_callbacks pkg (\<lambda>hs bs. return_io (hash_write_cb hs bs))) call (io, ?H, 0))
      (\<lambda>p. ?I (snd p))" for call :: "'z mz_call"
  proof (rule run_mz_ensures [where I = ?I])
    fix u :: "zip_io \<times> sha256 \<times> nat" and bs
    assume "?I u"
    then obtain c where "fst (snd u) = sha_of ((M @ en_path e @ [NUL] @ be64 (en_size e)) @ c)" "snd (snd u) = length c"
      by blast
    then have "?I (fst u, snd (hash_write_cb (snd u) bs))"
      by (intro exI [of _ "c @ bs"]) (simp add: hash_write_cb_def sha_update_of)
    then show "ensures (cb_sink (read_callbacks pkg (\<lambda>hs bs. return_io (hash_write_cb hs bs))) u bs) (\<lambda>p. ?I (snd p))"
      by (simp add: read_callbacks_def hash_write_cb_def ensures_return)
  qed (auto simp: read_callbacks_def intro!: ensures_intros ensures_bind_any)
  then show ?thesis
    unfolding verify_entry_def
    apply (clarsimp simp: header_of split: prod.splits option.splits)
    apply (intro conjI impI allI ensures_intros; simp?)
    apply (rule ensures_bind, assumption)
    apply (auto simp: entry_preimage_def intro!: ensures_intros)
    done
qed

lemma verify_entries_ensures:
  "ensures (verify_entries mz pkg es (z, io, sha_of M, n)) (\<lambda>(r, (z', io', h, n')). r = OK \<longrightarrow>
    hashed M es h \<and> n' = n + total_size es)"
proof (induction es arbitrary: M z io n)
  case Nil
  then show ?case by (auto intro!: ensures_intros hashed_Nil)
next
  case (Cons e es)
  have rest: "ensures (verify_entries mz pkg es (z', io', h, k)) (\<lambda>(r, (z', io', h, n')). r = OK \<longrightarrow>
      hashed M (e # es) h \<and> n' = n + (en_size e + total_size es))"
    if "length c = en_size e" "h = sha_of (M @ entry_preimage (en_path e) c)" "k = n + en_size e" for z' io' h k c
    unfolding that(2) by (rule ensures_mono [OF Cons]) (use that hashed_Cons in auto)
  show ?case
    unfolding verify_entries.simps
    by (rule ensures_bind [OF verify_entry_ensures]) (auto intro!: ensures_intros rest)
qed

lemma pack_finish_ensures:
  "ensures (bind_io (pack_finish mz out m st) (\<lambda>(r, m). return_io (r, es, m))) (\<lambda>(r, es', m'). r = OK \<longrightarrow>
    es' = es \<and> m' = m\<lparr>mf_size := pk_size st, mf_sha256 := daemoon_sha256_hex (daemoon_sha256_final (pk_hash st))\<rparr> \<and>
    daemoon_manifest_validate m' = OK)"
proof -
  have "ensures (pack_finish mz out m st) (\<lambda>(r, m'). r = OK \<longrightarrow>
      m' = m\<lparr>mf_size := pk_size st, mf_sha256 := daemoon_sha256_hex (daemoon_sha256_final (pk_hash st))\<rparr> \<and>
      daemoon_manifest_validate m' = OK)"
    unfolding pack_finish_def Let_def
    by (auto simp: daemoon_manifest_write_def Let_def intro!: ensures_intros ensures_bind_any
        split: sum.splits if_splits)
  then show ?thesis by (rule ensures_bind) (auto intro!: ensures_intros)
qed

section \<open>What a table holds\<close>

lemma sublist_Cons_iff: "sublist (x # xs) (y # ys) \<longleftrightarrow> x = y \<and> prefix xs ys \<or> sublist (x # xs) ys"
  by (auto simp: sublist_Cons_right)

lemma path_is_safe_facts:
  assumes "path_is_safe (Some p)"
  shows "p \<noteq> []" "length p < PATH_MAX" "nul_free p" "hd p \<noteq> CHR ''/''" "last p \<noteq> CHR ''/''"
    "\<not> sublist ''..'' p" "\<not> sublist ''//'' p" "CHR 0x5c \<notin> set p" "CHR '':'' \<notin> set p"
    "list_all (\<lambda>c. 32 \<le> u8 c \<and> u8 c \<noteq> 127) p"
proof -
  have "p \<noteq> []" using assms by (auto simp: path_is_safe_def)
  then have "p ! 0 = hd p" "p ! (length p - 1) = last p" by (simp_all add: hd_conv_nth last_conv_nth)
  with assms show "p \<noteq> []" "length p < PATH_MAX" "hd p \<noteq> CHR ''/''" "last p \<noteq> CHR ''/''"
    "\<not> sublist ''..'' p" "\<not> sublist ''//'' p" "CHR 0x5c \<notin> set p" "CHR '':'' \<notin> set p"
    and chars: "list_all (\<lambda>c. 32 \<le> u8 c \<and> u8 c \<noteq> 127) p"
    by (auto simp: path_is_safe_def Let_def list_all_iff list_ex_iff not_less split: if_splits)
  then show "nul_free p" by (auto simp: nul_free_def list_all_iff u8_def)
qed

definition entry_ok :: "entry \<Rightarrow> bool" where
  "entry_ok e \<longleftrightarrow> path_is_safe (Some (en_path e))"

definition table_ok :: "entry list \<Rightarrow> bool" where
  "table_ok es \<longleftrightarrow> list_all entry_ok es \<and> length es \<le> ARCHIVE_MAX_ENTRIES"

lemma add_entry_result:
  "add_entry es path n =
    (if path_is_safe (Some path) \<and> length es < ARCHIVE_MAX_ENTRIES
     then (OK, es @ [\<lparr>en_path = path, en_size = n\<rparr>]) else (ERR_ARCHIVE_ERROR, es))"
  using path_is_safe_facts [of path] strlcpy_fits [of path PATH_MAX "[]"]
  by (auto simp: add_entry_def)

lemma add_entry_ok: "table_ok es \<Longrightarrow> table_ok (snd (add_entry es path n))"
  by (auto simp: add_entry_result table_ok_def entry_ok_def)

lemma sort_entries_props:
  "mset (sort_entries es) = mset es" "sorted (map en_path (sort_entries es))" "table_ok (sort_entries es) = table_ok es"
  by (simp_all add: sort_entries_def table_ok_def list_all_iff)

lemma sort_entries_qsort: "sorted_wrt (\<lambda>a b. entry_cmp a b \<le> 0) (sort_entries es)"
proof -
  have "sorted_wrt (\<lambda>a b. en_path a \<le> en_path b) (sort_entries es)"
    using sort_entries_props(2) [of es] by (simp add: sorted_map)
  moreover have "entry_cmp a b \<le> 0 \<longleftrightarrow> en_path a \<le> en_path b" for a b
    by (auto simp: entry_cmp_def)
  ultimately show ?thesis by simp
qed

lemma run_walk_inv:
  assumes "\<And>u path n. I u \<Longrightarrow> I (snd (cb u path n))"
  shows "I u \<Longrightarrow> I (snd (fst (run_walk cb t u)))"
proof (induction t arbitrary: u)
  case (WEntry path n k)
  then show ?case
    using assms [OF WEntry.prems, of path n] by (auto split: prod.splits)
qed simp

lemma collect_save_ensures:
  "ensures (collect_save env save) (\<lambda>(r, es). table_ok es \<and> (r = OK \<longrightarrow> sorted (map en_path es)))"
proof -
  have walk: "table_ok (fst (snd (fst (run_walk collect_entry t ([], OK)))))" for t :: "'w walk"
  proof (rule run_walk_inv [where I = "\<lambda>u. table_ok (fst u)" and cb = collect_entry])
    fix u :: "entry list \<times> result" and path n
    assume "table_ok (fst u)"
    then show "table_ok (fst (snd (collect_entry u path n)))"
      using add_entry_ok [of "fst u" path n] by (auto simp: collect_entry_def split: prod.splits)
  qed (simp add: table_ok_def)
  show ?thesis
    unfolding ensures_def collect_save_def
    by (auto split: option.splits prod.splits if_splits simp: sort_entries_props)
       (metis fst_conv snd_conv walk)+
qed

lemma collect_payload_ok:
  "collect_payload mz z = (r, es) \<Longrightarrow> table_ok es \<and> (r = OK \<longrightarrow> sorted (map en_path es))"
proof -
  have loop: "table_ok es \<Longrightarrow> table_ok (snd (collect_payload_loop mz z i k es))" for i k es
    by (induction mz z i k es rule: collect_payload_loop.induct)
       (auto split: option.splits prod.splits dest: add_entry_ok simp: add_entry_result table_ok_def entry_ok_def)
  obtain r' es' where l: "collect_payload_loop mz z 0 (mz_num_files mz z) [] = (r', es')" by fastforce
  moreover have "table_ok es'" using loop [of "[]" 0 "mz_num_files mz z"] l by (simp add: table_ok_def)
  ultimately show "collect_payload mz z = (r, es) \<Longrightarrow> table_ok es \<and> (r = OK \<longrightarrow> sorted (map en_path es))"
    using sort_entries_props [of es'] by (cases "r' = OK") (auto simp: collect_payload_def)
qed

section \<open>The digest determines the save\<close>

lemma be64_length [simp]: "length (be64 n) = 8"
  by (simp add: be64_def)

lemma octets_inj:
  assumes "m < 2 ^ 64" "n < 2 ^ 64"
    and "\<And>q. q < 8 \<Longrightarrow> take_bit 8 (drop_bit (8 * q) m) = take_bit 8 (drop_bit (8 * q) (n :: nat))"
  shows "m = n"
proof (rule bit_eqI)
  fix i
  show "bit m i \<longleftrightarrow> bit n i"
  proof (cases "i < 64")
    case True
    have "bit k i = bit (take_bit 8 (drop_bit (8 * (i div 8)) k)) (i mod 8)" for k :: nat
      by (simp add: bit_simps)
    with True assms(3) [of "i div 8"] show ?thesis by simp
  next
    case False
    have "take_bit 64 m = m" "take_bit 64 n = n" using assms(1,2) by (simp_all add: take_bit_nat_eq_self)
    with False show ?thesis by (metis bit_take_bit_iff)
  qed
qed

lemma be64_inj:
  assumes "be64 m = be64 n" "m < 2 ^ 64" "n < 2 ^ 64"
  shows "m = n"
proof (rule octets_inj [OF assms(2,3)])
  fix q :: nat
  assume q: "q < 8"
  have "byte (drop_bit (56 - (7 - q) * 8) m AND 0xff) = byte (drop_bit (56 - (7 - q) * 8) n AND 0xff)"
    using assms(1) q by (simp add: be64_def)
  moreover have "56 - (7 - q) * 8 = 8 * q" using q by simp
  ultimately show "take_bit 8 (drop_bit (8 * q) m) = take_bit 8 (drop_bit (8 * q) n)"
    by (simp add: byte_eq_iff mask_simps take_bit_eq_mod)
qed

lemma nul_free_split:
  "nul_free p \<Longrightarrow> nul_free q \<Longrightarrow> p @ NUL # r = q @ NUL # s \<Longrightarrow> p = q \<and> r = s"
proof (induction p arbitrary: q)
  case Nil
  then show ?case by (cases q) auto
next
  case (Cons a p)
  then show ?case by (cases q) auto
qed

lemma entry_preimage_inj:
  assumes "nul_free p" "nul_free q" "length c < 2 ^ 64" "length d < 2 ^ 64"
    and "entry_preimage p c @ r = entry_preimage q d @ s"
  shows "p = q \<and> c = d \<and> r = s"
proof -
  from nul_free_split [OF assms(1,2)] assms(5)
  have "p = q" and rest: "be64 (length c) @ c @ r = be64 (length d) @ d @ s"
    by (auto simp: entry_preimage_def)
  then have "be64 (length c) = be64 (length d)" "c @ r = d @ s" by simp_all
  moreover from this assms(3,4) have "length c = length d" by (auto intro: be64_inj)
  ultimately show ?thesis using \<open>p = q\<close> by simp
qed

section \<open>Safe paths stay under the root\<close>

fun components :: "bytes \<Rightarrow> bytes list" where
  "components [] = [[]]"
| "components (c # s) =
    (if c = CHR ''/'' then [] # components s else (c # hd (components s)) # tl (components s))"

text \<open>Where a path leads from a directory, given as the names on the way to it.\<close>

fun resolve :: "bytes list \<Rightarrow> bytes list \<Rightarrow> bytes list" where
  "resolve base [] = base"
| "resolve base (c # cs) =
    (if c = [] \<or> c = ''.'' then resolve base cs
     else if c = ''..'' then resolve (butlast base) cs
     else resolve (base @ [c]) cs)"

lemma components_nonempty [simp]: "components s \<noteq> []"
  by (cases s) simp_all

lemma components_sublist: "c \<in> set (components s) \<Longrightarrow> sublist c s"
  and components_hd_prefix: "prefix (hd (components s)) s"
proof (induction s arbitrary: c)
  case (Cons a s)
  {
    case 2
    with Cons show ?case by simp
  next
    case 1
    have "set (tl (components s)) \<subseteq> set (components s)" by (simp add: list.set_sel(2) subsetI)
    with 1 Cons show ?case
      by (auto simp: sublist_Cons_right split: if_splits dest: subsetD)
  }
qed simp_all

lemma components_hd_empty: "hd (components s) = [] \<longleftrightarrow> s = [] \<or> hd s = CHR ''/''"
  by (cases s) simp_all

lemma components_tl_empty:
  "[] \<in> set (tl (components s)) \<Longrightarrow> sublist ''//'' s \<or> s \<noteq> [] \<and> last s = CHR ''/''"
proof (induction s)
  case (Cons a s)
  then consider "a = CHR ''/''" "hd (components s) = []" | "[] \<in> set (tl (components s))"
    by (cases "components s") (auto split: if_splits)
  then show ?case
  proof cases
    case 1
    then show ?thesis
      by (cases s) (auto simp: components_hd_empty sublist_Cons_right)
  next
    case 2
    with Cons.IH show ?thesis by (auto simp: sublist_Cons_right)
  qed
qed simp

lemma resolve_under: "''..'' \<notin> set cs \<Longrightarrow> \<exists>rel. resolve base cs = base @ rel"
proof (induction cs arbitrary: base)
  case (Cons c cs)
  then show ?case by (auto simp del: append.assoc) (metis append.assoc)
qed simp

section \<open>A world of one save for the examples\<close>

text \<open>The world is what is left to read of the one file, \<open>a\<close>, that holds \<open>xyz\<close>.\<close>

definition one_file_stream :: "bytes stream" where
  "one_file_stream = \<lparr>st_read = Some (\<lambda>cap w. ((OK, take cap w), drop cap w)),
    st_write = None, st_seek = None, st_close = None, st_size = 3\<rparr>"

definition one_file_env :: "bytes env" where
  "one_file_env = idle_env\<lparr>env_save := Some (idle_save
    \<lparr>sv_list_entries := Some (\<lambda>h w. WEntry ''a'' 3 (\<lambda>_. WDone OK w)),
     sv_open_file := Some (\<lambda>h p m w. ((OK, Some one_file_stream), ''xyz''))\<rparr>)\<rparr>"

abbreviation one_entry :: entry where
  "one_entry \<equiv> \<lparr>en_path = ''a'', en_size = 3\<rparr>"

lemma safe_a: "path_is_safe (Some ''a'')"
  by (simp add: path_is_safe_def PATH_MAX_def u8_def sublist_Cons_right)

lemma one_file_collect: "collect_save one_file_env 0 w = Some ((OK, [one_entry]), w)"
  by (simp add: collect_save_def one_file_env_def collect_entry_def add_entry_result safe_a
      ARCHIVE_MAX_ENTRIES_def sort_entries_def idle_env_def)

lemma one_file_hash:
  "daemoon_archive_hash_save one_file_env 0 [] =
    Some ((OK, [one_entry], sha256_text (payload_preimage [one_entry] [''xyz'']), 3), [])"
proof -
  have env: "env_scratch_len one_file_env = 4096"
    by (simp add: env_scratch_len_def one_file_env_def idle_env_def)
  have opened: "open_save_file one_file_env 0 p m w = Some ((OK, Some one_file_stream), ''xyz'')" for p m w
    by (simp add: open_save_file_def one_file_env_def call_fn_def call_io_def)
  have read: "daemoon_stream_read (Some one_file_stream) 4096 w = Some ((OK, take 4096 w), drop 4096 w)" for w
    by (simp add: daemoon_stream_read_def one_file_stream_def call_io_def)
  have close: "daemoon_stream_close (Some one_file_stream) = return_io OK"
    by (simp add: daemoon_stream_close_def one_file_stream_def)
  have loop: "hash_read_loop (Some one_file_stream) 4096 (sha_of M) 0 ''xyz'' = Some ((OK, sha_of (M @ ''xyz''), 3), [])" for M
    by (subst hash_read_loop.simps, simp add: read sha_update_of, subst hash_read_loop.simps, simp add: read)
  have "hash_entries one_file_env 0 [one_entry] (sha_of []) 0 [] =
      Some ((OK, sha_of (payload_preimage [one_entry] [''xyz'']), 3), [])"
    by (simp add: hash_entry_def header_of bind_io_def opened env loop close return_io_def entry_preimage_def numeral_3_eq_3)
  then show ?thesis
    by (simp add: daemoon_archive_hash_save_def bind_io_def one_file_collect return_io_def sha_init_of sha_final_of
        sha256_text_def del: hash_entries.simps payload_preimage_simps)
qed

text \<open>A zip library that stores one file and gives it back.\<close>

definition one_file_zip :: "unit miniz" where
  "one_file_zip = \<lparr>mz_writer_init = MzDone True (), mz_add_read_buf = (\<lambda>z n k. MzSource 4096 (\<lambda>_. MzDone True ())),
    mz_add_mem = (\<lambda>z n d. MzDone True ()), mz_finalize = (\<lambda>z. MzDone True ()),
    mz_reader_init = (\<lambda>n. MzDone True ()), mz_locate = (\<lambda>z n. Some 0), mz_num_files = (\<lambda>z. 1),
    mz_file_stat = (\<lambda>z i. Some \<lparr>mz_is_directory = False, mz_filename = ''payload/a'', mz_uncomp_size = 3\<rparr>),
    mz_extract = (\<lambda>z i. MzSink ''xyz'' (\<lambda>_. MzDone True ()))\<rparr>"

definition package_stream :: "bytes stream" where
  "package_stream = \<lparr>st_read = Some (\<lambda>cap w. ((OK, []), w)), st_write = Some (\<lambda>bs w. (OK, w)),
    st_seek = Some (\<lambda>ofs w. (OK, w)), st_close = None, st_size = 100\<rparr>"

definition one_file_manifest :: manifest where
  "one_file_manifest = sample_manifest
    \<lparr>mf_size := 3, mf_sha256 := sha256_text (payload_preimage [one_entry] [''xyz''])\<rparr>"

lemma one_file_manifest_ok: "daemoon_manifest_validate one_file_manifest = OK" "manifest_wf one_file_manifest"
proof -
  have "is_lower_hex64 (sha256_text m)" for m
    using sha256_text_simps(1,2) [of m] by (simp add: is_lower_hex64_def list_all_iff lower_hex_char_def)
  with sample_manifest_ok show "daemoon_manifest_validate one_file_manifest = OK"
    by (simp add: one_file_manifest_def daemoon_manifest_validate_def split: if_splits)
  from sample_manifest_ok sha256_text_simps show "manifest_wf one_file_manifest"
    by (simp add: one_file_manifest_def manifest_wf_def text_fits_def size_defs)
qed

lemma entry_name_a: "entry_name ''a'' = (OK, ''payload/a'')"
  by (simp add: entry_name_def sb_simps PATH_MAX_def ARCHIVE_PAYLOAD_DIR_def cstr_Cons Let_def)

lemma one_file_pack:
  "daemoon_archive_pack one_file_env one_file_zip 0 sample_manifest (Some package_stream) [] =
    Some ((OK, [one_entry], one_file_manifest), [])"
proof -
  have opened: "open_save_file one_file_env 0 p m w = Some ((OK, Some one_file_stream), ''xyz'')" for p m w
    by (simp add: open_save_file_def one_file_env_def call_fn_def call_io_def)
  have read: "daemoon_stream_read (Some one_file_stream) 4096 w = Some ((OK, take 4096 w), drop 4096 w)" for w
    by (simp add: daemoon_stream_read_def one_file_stream_def call_io_def)
  have close: "daemoon_stream_close (Some one_file_stream) = return_io OK"
    by (simp add: daemoon_stream_close_def one_file_stream_def)
  have entry: "pack_entry one_file_env one_file_zip 0 (Some package_stream) one_entry
      \<lparr>pk_hash = sha_of [], pk_zip = (), pk_io = zip_io_start, pk_size = 0\<rparr> [] =
    Some ((OK, \<lparr>pk_hash = sha_of (payload_preimage [one_entry] [''xyz'']), pk_zip = (), pk_io = zip_io_start, pk_size = 3\<rparr>), [])"
    by (simp add: pack_entry_def entry_name_a header_of bind_io_def opened one_file_zip_def pack_callbacks_def
        pack_read_cb_def read close return_io_def entry_preimage_def sha_update_of numeral_3_eq_3 Let_def)
  have manifest: "sample_manifest\<lparr>mf_size := 3, mf_sha256 := daemoon_sha256_hex (sha256_spec (payload_preimage [one_entry] [''xyz'']))\<rparr>
      = one_file_manifest"
    by (simp add: one_file_manifest_def sha256_text_def)
  have finish: "pack_finish one_file_zip (Some package_stream) sample_manifest
      \<lparr>pk_hash = sha_of (payload_preimage [one_entry] [''xyz'']), pk_zip = (), pk_io = zip_io_start, pk_size = 3\<rparr> [] =
    Some ((OK, one_file_manifest), [])"
    by (simp add: pack_finish_def Let_def manifest sha_final_of manifest_write_text [OF one_file_manifest_ok] one_file_zip_def
        return_io_def bind_io_def zip_io_start_def del: payload_preimage_simps)
  have init: "mz_writer_init one_file_zip = MzDone True ()" by (simp add: one_file_zip_def)
  show ?thesis
    by (simp add: daemoon_archive_pack_def bind_io_def one_file_collect init return_io_def sha_init_of entry finish
        del: payload_preimage_simps)
qed

lemma one_file_verify:
  "daemoon_archive_verify one_file_zip [] (Some package_stream) one_file_manifest [] = Some ((OK, [one_entry]), [])"
proof -
  have opened: "reader_open one_file_zip (Some package_stream) = return_io (Inr ((), zip_io_start))"
    by (simp add: reader_open_def package_stream_def daemoon_stream_seek_def call_io_def one_file_zip_def
        return_io_def bind_io_def fun_eq_iff)
  have collect: "collect_payload one_file_zip () = (OK, [one_entry])"
    by (simp add: collect_payload_def one_file_zip_def ARCHIVE_MANIFEST_PATH_def ARCHIVE_PAYLOAD_DIR_def
        add_entry_result safe_a ARCHIVE_MAX_ENTRIES_def sort_entries_def)
  have entry: "verify_entry one_file_zip (Some package_stream) one_entry ((), zip_io_start, sha_of [], 0) =
      return_io (OK, (), zip_io_start, sha_of (payload_preimage [one_entry] [''xyz'']), 3)"
    by (simp add: verify_entry_def entry_name_a header_of one_file_zip_def read_callbacks_def hash_write_cb_def
        entry_preimage_def sha_update_of numeral_3_eq_3)
  have fields: "mf_sha256 one_file_manifest = sha256_text (payload_preimage [one_entry] [''xyz''])"
    "mf_size one_file_manifest = 3"
    by (simp_all add: one_file_manifest_def sample_manifest_def daemoon_manifest_init_def)
  have ret: "return_io a w = Some (a, w)" for a :: "result \<times> entry list" and w :: bytes
    by (simp add: return_io_def)
  show ?thesis
    by (simp add: daemoon_archive_verify_def opened collect sha_init_of entry sha_final_of fields hex_equal_iff ret
        flip: sha256_text_def del: payload_preimage_simps)
qed

section \<open>Properties\<close>



text \<open>The digest preimage determines the save: two tables of safe paths with their contents that are
  hashed over the same bytes have the same paths in the same order and the same contents, so the
  digest of a save can only be shared with another save by a collision of SHA-256 itself.\<close>
lemma payload_digest_injective:
  assumes "list_all entry_ok es" "list_all entry_ok fs" and "contents_of es cs" "contents_of fs ds"
    and "\<forall>e \<in> set es \<union> set fs. en_size e < 2 ^ 64"
    and "payload_preimage es cs = payload_preimage fs ds"
  shows "es = fs \<and> cs = ds"
  using assms
proof (induction es arbitrary: cs fs ds)
  case Nil
  then show ?case by (cases fs; cases ds) (auto simp: entry_preimage_def contents_of_def)
next
  case (Cons e es)
  from Cons.prems(3) obtain c cs' where cs: "cs = c # cs'" "length c = en_size e" "contents_of es cs'"
    by (cases cs) (auto simp: contents_of_def)
  with Cons.prems(6) obtain f fs' d ds' where fs: "fs = f # fs'" "ds = d # ds'" "length d = en_size f" "contents_of fs' ds'"
    using Cons.prems(4) by (cases fs; cases ds) (auto simp: entry_preimage_def contents_of_def)
  have "nul_free (en_path e)" "nul_free (en_path f)"
    using Cons.prems(1,2) path_is_safe_facts(3) by (auto simp: fs entry_ok_def)
  moreover have "length c < 2 ^ 64" "length d < 2 ^ 64" using Cons.prems(5) cs fs by auto
  ultimately have "en_path e = en_path f \<and> c = d \<and> payload_preimage es cs' = payload_preimage fs' ds'"
    using Cons.prems(6) by (intro entry_preimage_inj) (simp_all add: cs fs)
  moreover from this have "es = fs' \<and> cs' = ds'"
    using Cons.prems cs fs by (intro Cons.IH) auto
  ultimately show ?case using cs fs by simp
qed

lemma payload_digest_injective_witness:
  "{cs. contents_of [one_entry] cs \<and> payload_preimage [one_entry] cs = payload_preimage [one_entry] [''xyz'']} =
    {[''xyz'']}"
proof -
  have "cs = [''xyz'']" if "contents_of [one_entry] cs"
    "payload_preimage [one_entry] cs = payload_preimage [one_entry] [''xyz'']" for cs
    using payload_digest_injective [of "[one_entry]" "[one_entry]" cs "[''xyz'']"] safe_a that
    by (simp add: entry_ok_def contents_of_def)
  then show ?thesis by (auto simp: contents_of_def)
qed

text \<open>C35 A path that passes the check cannot leave the directory it is joined to: it is a non empty name of
  less than 256 bytes without control characters, backslashes or colons, none of its components is
  empty or dot dot, and resolving it from any directory ends in that directory or below.\<close>
theorem safe_path_confined:
  assumes "path_is_safe (Some p)"
  shows "(\<exists>rel. resolve base (components p) = base @ rel) \<and>
    list_all (\<lambda>c. c \<noteq> [] \<and> c \<noteq> ''..'') (components p) \<and>
    list_all (\<lambda>c. 32 \<le> u8 c \<and> c \<noteq> CHR 0x5c \<and> c \<noteq> CHR '':'') p \<and> 0 < length p \<and> length p < 256"
proof -
  note facts = path_is_safe_facts [OF assms]
  have dots: "''..'' \<notin> set (components p)" using components_sublist facts(6) by blast
  have "[] \<notin> set (components p)"
    using components_hd_empty [of p] components_tl_empty [of p] facts by (cases "components p") auto
  with dots facts resolve_under [OF dots, of base] show ?thesis
    by (auto simp: list_all_iff PATH_MAX_def)
qed

theorem safe_path_confined_witness: "\<exists>rel. resolve [''save''] (components ''a'') = [''save''] @ rel"
  using safe_path_confined [OF safe_a] by blast





end
