(* ===== verification/I18n.thy ===== *)
theory I18n
  imports Archive
begin

text \<open>
  \<open>core/src/i18n.c\<close>: the selected language, language codes, the lookup of user visible
  text, placeholder substitution and readable byte counts.

  A \<open>daemoon_lang_t\<close> is the unsigned value the source compares it as. The selected language
  (\<open>g_lang\<close>) is a state that is passed and returned. The generated table of texts
  (\<open>daemoon_lang_table\<close>) is a parameter: a function of language and message id that is
  \<open>None\<close> where the table holds NULL.
\<close>

section \<open>Languages\<close>

type_synonym lang = nat

definition LANG_EN :: lang where "LANG_EN = 0"
definition LANG_ZH_HANS :: lang where "LANG_ZH_HANS = 3"
definition LANG_ZH_HANT :: lang where "LANG_ZH_HANT = 4"
definition LANG_COUNT :: nat where "LANG_COUNT = 8"
definition STR_MAX_ARGS :: nat where "STR_MAX_ARGS = 8"

lemmas lang_defs = LANG_EN_def LANG_ZH_HANS_def LANG_ZH_HANT_def LANG_COUNT_def

definition daemoon_lang_codes :: "bytes list" where
  "daemoon_lang_codes = [''en'', ''ko'', ''ja'', ''zh-Hans'', ''zh-Hant'', ''es'', ''fr'', ''de'']"

definition daemoon_i18n_set_language :: "lang \<Rightarrow> lang \<Rightarrow> lang" where
  "daemoon_i18n_set_language l g_lang = (if l < LANG_COUNT then l else g_lang)"

definition daemoon_i18n_language :: "lang \<Rightarrow> lang" where
  "daemoon_i18n_language g_lang = g_lang"

definition daemoon_lang_code :: "lang \<Rightarrow> bytes" where
  "daemoon_lang_code l =
    (if l \<ge> LANG_COUNT then daemoon_lang_codes ! LANG_EN else daemoon_lang_codes ! l)"

definition ascii_lower :: "nat \<Rightarrow> nat" where
  "ascii_lower c = (if c \<ge> 65 \<and> c \<le> 90 then c + (97 - 65) else c)"

text \<open>On C strings, whose end is the end of the list.\<close>

fun code_eq_ci :: "bytes \<Rightarrow> bytes \<Rightarrow> bool" where
  "code_eq_ci (a # s) (b # t) =
    (if ascii_lower (u8 a) \<noteq> ascii_lower (u8 b) then False else code_eq_ci s t)"
| "code_eq_ci s t = (s = [] \<and> t = [])"

text \<open>The loop over the codes, from index \<open>i\<close>.\<close>

fun find_code :: "bytes \<Rightarrow> lang \<Rightarrow> bytes list \<Rightarrow> lang option" where
  "find_code code i [] = None"
| "find_code code i (c # cs) = (if code_eq_ci code c then Some i else find_code code (i + 1) cs)"

text \<open>Result and \<open>*out\<close> afterwards.\<close>

definition daemoon_i18n_language_from_code :: "bytes option \<Rightarrow> lang \<Rightarrow> result \<times> lang" where
  "daemoon_i18n_language_from_code code out =
    (case code of None \<Rightarrow> (ERR_INVALID_REQUEST, out)
     | Some buf \<Rightarrow>
        let code = cstr buf
        in case find_code code 0 daemoon_lang_codes of
          Some i \<Rightarrow> (OK, i)
        | None \<Rightarrow>
            if code_eq_ci code ''zh'' \<or> code_eq_ci code ''zh-CN'' \<or> code_eq_ci code ''zh-Hans-CN''
            then (OK, LANG_ZH_HANS)
            else if code_eq_ci code ''zh-TW'' \<or> code_eq_ci code ''zh-HK'' \<or> code_eq_ci code ''zh-Hant-TW''
            then (OK, LANG_ZH_HANT)
            else (ERR_UNSUPPORTED, out))"

section \<open>Texts\<close>

type_synonym lang_table = "lang \<Rightarrow> str_id \<Rightarrow> bytes option"

definition k_missing :: bytes where "k_missing = ''?''"

definition daemoon_str_in :: "lang_table \<Rightarrow> lang \<Rightarrow> str_id \<Rightarrow> bytes" where
  "daemoon_str_in tbl l sid =
    (if sid \<ge> STR_COUNT then k_missing
     else case (if l < LANG_COUNT then tbl l sid else None) of
        Some s \<Rightarrow> s
      | None \<Rightarrow> (case tbl LANG_EN sid of Some s \<Rightarrow> s | None \<Rightarrow> k_missing))"

definition daemoon_str :: "lang_table \<Rightarrow> lang \<Rightarrow> str_id \<Rightarrow> bytes" where
  "daemoon_str tbl g_lang sid = daemoon_str_in tbl g_lang sid"

definition daemoon_lang_name :: "lang_table \<Rightarrow> lang \<Rightarrow> bytes" where
  "daemoon_lang_name tbl l = daemoon_str_in tbl l STR_LANG_NAME"

text \<open>
  The loop over a template. \<open>args\<close> is the array of arguments, empty when the pointer to it is
  NULL, and each may be NULL.
\<close>

fun strf_loop :: "strbuf \<Rightarrow> bytes option list \<Rightarrow> bytes \<Rightarrow> strbuf" where
  "strf_loop sb args [] = sb"
| "strf_loop sb args (c # t) =
    (if c = CHR ''{'' \<and> t \<noteq> [] \<and> t ! 0 = CHR ''{'' then
       strf_loop (daemoon_strbuf_addc sb CHR ''{'') args (drop 1 t)
     else if c = CHR ''{'' \<and> length t \<ge> 2 \<and> 48 \<le> u8 (t ! 0) \<and> u8 (t ! 0) \<le> 57 \<and> t ! 1 = CHR ''}'' then
       (let idx = u8 (t ! 0) - 48;
            sb = (if idx < length args \<and> args ! idx \<noteq> None then daemoon_strbuf_add sb (args ! idx)
                  else daemoon_strbuf_addn sb (Some (take 3 (c # t))))
        in strf_loop sb args (drop 2 t))
     else strf_loop (daemoon_strbuf_addc sb c) args t)"

text \<open>Result and the C string in \<open>buf\<close> afterwards; \<open>buf\<close> is None for NULL.\<close>

definition daemoon_strf ::
  "lang_table \<Rightarrow> lang \<Rightarrow> bytes option \<Rightarrow> nat \<Rightarrow> str_id \<Rightarrow> bytes option list \<Rightarrow> result \<times> bytes option" where
  "daemoon_strf tbl g_lang buf buflen sid args =
    (let t = daemoon_str tbl g_lang sid
     in if buf = None \<or> buflen = 0 then (ERR_BUFFER_TOO_SMALL, buf)
        else
         (let args = (if length args > STR_MAX_ARGS then take STR_MAX_ARGS args else args);
              sb = strf_loop (daemoon_strbuf_init buflen) args (cstr t)
          in if daemoon_strbuf_result sb \<noteq> OK
             then (ERR_BUFFER_TOO_SMALL, Some (take (daemoon_utf8_trim_partial (sb_buf sb)) (sb_buf sb)))
             else (OK, Some (sb_buf sb))))"

section \<open>Byte counts\<close>

function fmt_bytes_loop :: "nat \<Rightarrow> nat \<Rightarrow> nat \<Rightarrow> nat \<times> nat \<times> nat" where
  "fmt_bytes_loop whole frac u =
    (if whole \<ge> 1024 \<and> u < 3
     then fmt_bytes_loop (whole div 1024) ((whole mod 1024) * 10 div 1024) (u + 1)
     else (whole, frac, u))"
  by pat_completeness auto
termination
  by (relation "measure (\<lambda>(whole, frac, u). 3 - u)") auto

declare fmt_bytes_loop.simps [simp del]

definition fmt_units :: "bytes list" where
  "fmt_units = [''B'', ''KiB'', ''MiB'', ''GiB'']"

text \<open>The C string in the buffer afterwards; a NULL or empty buffer is left alone.\<close>

definition daemoon_fmt_bytes :: "bytes option \<Rightarrow> nat \<Rightarrow> nat \<Rightarrow> bytes option" where
  "daemoon_fmt_bytes buf buflen n =
    (if buf = None \<or> buflen = 0 then buf
     else
      (case fmt_bytes_loop n 0 0 of (whole, frac, u) \<Rightarrow>
       let sb = daemoon_strbuf_add_uint (daemoon_strbuf_init buflen) whole;
           sb = (if u > 0 \<and> whole < 100
                 then daemoon_strbuf_add_uint (daemoon_strbuf_addc sb CHR ''.'') frac else sb);
           sb = daemoon_strbuf_addc sb CHR '' '';
           sb = sb_add sb (fmt_units ! u)
       in Some (sb_buf sb)))"

section \<open>Templates\<close>

text \<open>What a template says: literal text with its braces doubled, and numbered slots.\<close>

datatype piece = Lit char | Slot nat

fun piece_text :: "piece \<Rightarrow> bytes" where
  "piece_text (Lit c) = (if c = CHR ''{'' then ''{{'' else [c])"
| "piece_text (Slot i) = [CHR ''{'', byte (48 + i), CHR ''}'']"

fun piece_value :: "bytes option list \<Rightarrow> piece \<Rightarrow> bytes" where
  "piece_value args (Lit c) = [c]"
| "piece_value args (Slot i) =
    (if i < length args \<and> args ! i \<noteq> None then cstr (the (args ! i)) else piece_text (Slot i))"

fun piece_ok :: "piece \<Rightarrow> bool" where
  "piece_ok (Lit c) \<longleftrightarrow> c \<noteq> NUL"
| "piece_ok (Slot i) \<longleftrightarrow> i < 10"

abbreviation template_text :: "piece list \<Rightarrow> bytes" where
  "template_text ps \<equiv> concat (map piece_text ps)"

abbreviation template_value :: "bytes option list \<Rightarrow> piece list \<Rightarrow> bytes" where
  "template_value args ps \<equiv> concat (map (piece_value args) ps)"

lemma strf_loop_lit:
  "strf_loop (sb_of cap S) args (piece_text (Lit c) @ t) = strf_loop (sb_of cap (S @ [c])) args t \<or> c = CHR ''{''"
  by (simp add: sb_simps)

lemma strf_loop_brace:
  "strf_loop (sb_of cap S) args (CHR ''{'' # CHR ''{'' # t) = strf_loop (sb_of cap (S @ [CHR ''{''])) args t"
  by (simp add: sb_simps)

lemma digit_char_not_brace: "i < 10 \<Longrightarrow> byte (48 + i) \<noteq> CHR ''{''"
proof
  assume "i < 10" "byte (48 + i) = CHR ''{''"
  then have "u8 (byte (48 + i)) = u8 CHR ''{''" by simp
  with \<open>i < 10\<close> show False by (simp add: u8_def byte_def)
qed

lemma strf_loop_slot:
  assumes "i < 10"
  shows "strf_loop (sb_of cap S) args (piece_text (Slot i) @ t) =
    strf_loop (sb_of cap (S @ piece_value args (Slot i))) args t"
proof -
  have "u8 (byte (48 + i)) = 48 + i" using assms by simp
  with assms digit_char_not_brace [OF assms] show ?thesis
    by (auto simp: sb_simps Let_def numeral_2_eq_2 numeral_3_eq_3)
qed

lemma strf_loop_template:
  "list_all piece_ok ps \<Longrightarrow>
    strf_loop (sb_of cap S) args (template_text ps) = sb_of cap (S @ template_value args ps)"
proof (induction ps arbitrary: S)
  case Nil
  then show ?case by simp
next
  case (Cons p ps)
  then show ?case
  proof (cases p)
    case (Lit c)
    with Cons show ?thesis by (cases "c = CHR ''{''") (auto simp: sb_simps)
  next
    case (Slot i)
    then have "strf_loop (sb_of cap S) args (piece_text p @ template_text ps) =
        strf_loop (sb_of cap (S @ piece_value args p)) args (template_text ps)"
      using Cons.prems strf_loop_slot by simp
    with Cons show ?thesis by simp
  qed
qed

lemma template_nul_free: "list_all piece_ok ps \<Longrightarrow> nul_free (template_text ps)"
proof (induction ps)
  case (Cons p ps)
  have "byte (48 + i) \<noteq> NUL" if "i < 10" for i
  proof
    assume "byte (48 + i) = NUL"
    then have "u8 (byte (48 + i)) = u8 NUL" by simp
    with that show False by (simp add: u8_def byte_def)
  qed
  with Cons show ?case by (cases p) auto
qed simp

section \<open>Properties of the parts\<close>

lemma digit_bytes: "byte 48 = CHR ''0''" "byte 49 = CHR ''1''" "byte 52 = CHR ''4''"
  by code_simp+

text \<open>A text with the case of its letters removed.\<close>

definition fold_case :: "bytes \<Rightarrow> nat list" where
  "fold_case s = map (\<lambda>c. ascii_lower (u8 c)) s"

lemma code_eq_ci_lower: "code_eq_ci s t \<longleftrightarrow> fold_case s = fold_case t"
  by (induction s t rule: code_eq_ci.induct) (auto simp: fold_case_def)

lemma fmt_bytes_loop_value:
  assumes "fmt_bytes_loop v f 0 = (whole, frac, u)"
  shows "whole = v div 1024 ^ u" "u \<le> 3" "u < 3 \<Longrightarrow> whole < 1024"
    "0 < u \<Longrightarrow> frac = (v div 1024 ^ (u - 1)) mod 1024 * 10 div 1024" "0 < u \<Longrightarrow> 1 \<le> whole"
proof -
  have "u' \<le> 3 \<Longrightarrow> fmt_bytes_loop (v div 1024 ^ u') f' u' = (whole, frac, u) \<Longrightarrow>
     0 < u' \<Longrightarrow> f' = (v div 1024 ^ (u' - 1)) mod 1024 * 10 div 1024 \<Longrightarrow> 1 \<le> v div 1024 ^ u' \<Longrightarrow>
     whole = v div 1024 ^ u \<and> u \<le> 3 \<and> (u < 3 \<longrightarrow> whole < 1024) \<and>
     (frac = (v div 1024 ^ (u - 1)) mod 1024 * 10 div 1024) \<and> 1 \<le> whole" for u' f'
  proof (induction "3 - u'" arbitrary: u' f')
    case 0
    then show ?case by (subst (asm) fmt_bytes_loop.simps) auto
  next
    case (Suc k)
    show ?case
    proof (cases "v div 1024 ^ u' \<ge> 1024")
      case True
      have step: "v div 1024 ^ u' div 1024 = v div 1024 ^ Suc u'"
        by (simp add: div_mult2_eq [symmetric] mult.commute)
      have "u' < 3" using Suc.hyps(2) by simp
      then have "fmt_bytes_loop (v div 1024 ^ u') f' u' =
          fmt_bytes_loop (v div 1024 ^ Suc u') ((v div 1024 ^ u') mod 1024 * 10 div 1024) (Suc u')"
        using True by (subst fmt_bytes_loop.simps) (simp only: step if_True simp_thms Suc_eq_plus1)
      then have run: "fmt_bytes_loop (v div 1024 ^ Suc u') ((v div 1024 ^ (Suc u' - 1)) mod 1024 * 10 div 1024) (Suc u') =
          (whole, frac, u)"
        using Suc.prems(2) by simp
      have one: "1 \<le> v div 1024 ^ Suc u'"
        unfolding step [symmetric] using True by (simp add: Suc_le_eq div_greater_zero_iff)
      have "k = 3 - Suc u'" "Suc u' \<le> 3" using Suc.hyps(2) by simp_all
      then show ?thesis by (rule Suc.hyps(1) [OF _ _ run _ refl one]) simp
    next
      case False
      with Suc.prems show ?thesis by (subst (asm) fmt_bytes_loop.simps) auto
    qed
  qed note later = this
  have "whole = v div 1024 ^ u \<and> u \<le> 3 \<and> (u < 3 \<longrightarrow> whole < 1024) \<and>
    (0 < u \<longrightarrow> frac = (v div 1024 ^ (u - 1)) mod 1024 * 10 div 1024 \<and> 1 \<le> whole)"
  proof (cases "v \<ge> 1024")
    case True
    have "fmt_bytes_loop v f 0 = fmt_bytes_loop (v div 1024 ^ 1) ((v div 1024 ^ (1 - 1)) mod 1024 * 10 div 1024) 1"
      using True by (subst fmt_bytes_loop.simps) simp
    then have run: "fmt_bytes_loop (v div 1024 ^ 1) ((v div 1024 ^ (1 - 1)) mod 1024 * 10 div 1024) 1 = (whole, frac, u)"
      using assms by simp
    have one: "1 \<le> v div 1024 ^ 1" using True by (simp add: Suc_le_eq div_greater_zero_iff)
    have "whole = v div 1024 ^ u \<and> u \<le> 3 \<and> (u < 3 \<longrightarrow> whole < 1024) \<and>
      (frac = (v div 1024 ^ (u - 1)) mod 1024 * 10 div 1024) \<and> 1 \<le> whole"
      by (rule later [OF _ run _ refl one]) simp_all
    then show ?thesis by blast
  next
    case False
    then show ?thesis using assms by (subst (asm) fmt_bytes_loop.simps) simp
  qed
  then show "whole = v div 1024 ^ u" "u \<le> 3" "u < 3 \<Longrightarrow> whole < 1024"
    "0 < u \<Longrightarrow> frac = (v div 1024 ^ (u - 1)) mod 1024 * 10 div 1024" "0 < u \<Longrightarrow> 1 \<le> whole"
    by blast+
qed

lemma find_code_Some: "find_code code i cs = Some j \<Longrightarrow> i \<le> j \<and> j < i + length cs \<and> code_eq_ci code (cs ! (j - i))"
proof (induction cs arbitrary: i)
  case (Cons c cs)
  then show ?case
    by (cases "code_eq_ci code c") (auto simp: nth_Cons' dest!: Cons.IH)
qed simp

lemma codes_lower:
  "map fold_case daemoon_lang_codes =
    [[101, 110], [107, 111], [106, 97], [122, 104, 45, 104, 97, 110, 115], [122, 104, 45, 104, 97, 110, 116],
     [101, 115], [102, 114], [100, 101]]"
  by (simp add: daemoon_lang_codes_def u8_def ascii_lower_def fold_case_def)

lemma find_code_language:
  assumes "fold_case s = fold_case (daemoon_lang_code l)" "l < LANG_COUNT"
  shows "find_code s 0 daemoon_lang_codes = Some l"
proof -
  have skip: "find_code s i cs = Some (i + l)" if "l < length cs" "distinct (map fold_case cs)"
    "fold_case s = fold_case (cs ! l)" for i l cs
    using that
  proof (induction cs arbitrary: i l)
    case (Cons c cs)
    then show ?case
    proof (cases l)
      case (Suc k)
      with Cons.prems have "k < length cs" "fold_case c \<notin> fold_case ` set cs" by simp_all
      then have "fold_case (cs ! k) \<noteq> fold_case c" by (metis image_eqI nth_mem)
      with Suc Cons.prems have "fold_case s \<noteq> fold_case c" by simp
      then have "\<not> code_eq_ci s c" unfolding code_eq_ci_lower .
      with Suc Cons.prems Cons.IH [of k "i + 1"] show ?thesis by simp
    qed (simp add: code_eq_ci_lower)
  qed simp
  have "distinct (map fold_case daemoon_lang_codes)" unfolding codes_lower by simp
  moreover have "l < length daemoon_lang_codes" using assms(2) by (simp add: daemoon_lang_codes_def lang_defs)
  ultimately show ?thesis
    using skip [of l daemoon_lang_codes 0] assms by (simp add: daemoon_lang_code_def not_le)
qed

lemma fmt_value_bound:
  assumes "v < 2 ^ 64" "fmt_bytes_loop v 0 0 = (whole, frac, u)"
  shows "whole < 10 ^ 11" "0 < u \<Longrightarrow> frac < 10"
proof -
  note val = fmt_bytes_loop_value [OF assms(2)]
  show "0 < u \<Longrightarrow> frac < 10" using val(4) by simp
  show "whole < 10 ^ 11"
  proof (cases "u < 3")
    case True
    then show ?thesis using val(3) by simp
  next
    case False
    then have "u = 3" using val(2) by simp
    then have "whole = v div 1024 ^ 3" using val(1) by simp
    also have "\<dots> < 10 ^ 11" using assms(1) by (simp add: less_mult_imp_div_less)
    finally show ?thesis .
  qed
qed

lemma fmt_bytes_text:
  assumes "v < 2 ^ 64" "fmt_bytes_loop v 0 0 = (whole, frac, u)" "24 \<le> cap"
  shows "daemoon_fmt_bytes (Some b) cap v =
    Some (dec whole @ (if 0 < u \<and> whole < 100 then CHR ''.'' # dec frac else []) @ CHR '' '' # fmt_units ! u)"
proof -
  note val = fmt_bytes_loop_value [OF assms(2)] and bound = fmt_value_bound [OF assms(1,2)]
  have "whole < 2 ^ 64" "length (dec whole) \<le> 11" using bound(1) by (simp, intro dec_length) simp_all
  moreover have frac: "0 < u \<Longrightarrow> frac < 2 ^ 64" "0 < u \<Longrightarrow> length (dec frac) \<le> 1"
    using bound(2) dec_length [of frac 1] by auto
  moreover have "u \<in> {0, 1, 2, 3}" using val(2) by auto
  then have "nul_free (fmt_units ! u) \<and> length (fmt_units ! u) \<le> 3" by (auto simp: fmt_units_def)
  ultimately show ?thesis
    using assms(3) by (auto simp: daemoon_fmt_bytes_def assms(2) sb_simps Let_def)
qed

section \<open>Properties\<close>

text \<open>Substitution does what the template says: for a template of literal text and numbered slots,
  the text is the literals with every slot replaced by its argument (or left visible when there is
  none), it is delivered whole exactly when it fits, and when it does not, what is kept of valid text
  ends on a code point boundary and is the longest such prefix.\<close>
lemma strf_substitutes:
  assumes "daemoon_str tbl g sid = template_text ps" "list_all piece_ok ps" "length args \<le> STR_MAX_ARGS"
    and "0 < cap" and "text_value = template_value args ps"
  shows "daemoon_strf tbl g (Some b) cap sid args =
    (if length text_value < cap then (OK, Some text_value)
     else (ERR_BUFFER_TOO_SMALL, Some (take (daemoon_utf8_trim_partial (take (cap - 1) text_value)) text_value))) \<and>
    (daemoon_utf8_valid (Some text_value) \<longrightarrow>
      daemoon_utf8_trim_partial (take (cap - 1) text_value) = daemoon_utf8_truncate text_value (cap - 1))"
proof
  have "cstr (template_text ps) = template_text ps"
    using template_nul_free [OF assms(2)] by simp
  moreover have "daemoon_utf8_trim_partial (take (cap - 1) text_value) \<le> cap - 1"
    using trim_partial_le [of "take (cap - 1) text_value"] by simp
  ultimately show "daemoon_strf tbl g (Some b) cap sid args =
    (if length text_value < cap then (OK, Some text_value)
     else (ERR_BUFFER_TOO_SMALL, Some (take (daemoon_utf8_trim_partial (take (cap - 1) text_value)) text_value)))"
    using assms by (auto simp: daemoon_strf_def strf_loop_template sb_simps Let_def min_absorb1)
  show "daemoon_utf8_valid (Some text_value) \<longrightarrow>
      daemoon_utf8_trim_partial (take (cap - 1) text_value) = daemoon_utf8_truncate text_value (cap - 1)"
    using trim_text by (auto simp: utf8_valid_iff)
qed

lemma strf_substitutes_witness:
  "daemoon_strf (\<lambda>l i. Some ''{1}: {{{0}'') 0 (Some []) 20 5 [Some ''x'', Some ''y''] = (OK, Some ''y: {x'')"
proof -
  have "daemoon_str (\<lambda>l i. Some ''{1}: {{{0}'') 0 5 =
      template_text [Slot 1, Lit (CHR '':''), Lit (CHR '' ''), Lit (CHR ''{''), Slot 0]"
    by (simp add: daemoon_str_def daemoon_str_in_def STR_COUNT_def lang_defs digit_bytes)
  from strf_substitutes [OF this, of "[Some ''x'', Some ''y'']" 20] show ?thesis
    by (simp add: STR_MAX_ARGS_def cstr_Cons)
qed

text \<open>A byte count reads correctly: in a buffer of 24 bytes every 64 bit count is shown in full, as the
  number of whole units, followed, for a scaled count under a hundred, by one decimal, which is the
  tenth the remainder of the last division is in. A scaled value is below 1024 unless the unit is the
  largest.\<close>
lemma fmt_bytes_correct:
  assumes "v < 2 ^ 64" "fmt_bytes_loop v 0 0 = (whole, frac, u)"
  shows "daemoon_fmt_bytes (Some b) 24 v =
      Some (dec whole @ (if 0 < u \<and> whole < 100 then CHR ''.'' # dec frac else []) @ CHR '' '' # fmt_units ! u) \<and>
    whole * 1024 ^ u \<le> v \<and> v < (whole + 1) * 1024 ^ u \<and> u \<le> 3 \<and> (u = 3 \<or> whole < 1024) \<and>
    (u = 0 \<or> 1 \<le> whole \<and> frac < 10 \<and> frac = (v div 1024 ^ (u - 1)) mod 1024 * 10 div 1024)"
proof -
  note val = fmt_bytes_loop_value [OF assms(2)]
  have "whole * 1024 ^ u \<le> v" "v < (whole + 1) * 1024 ^ u"
    unfolding val(1) by (simp add: div_times_less_eq_dividend) (simp add: dividend_less_div_times)
  moreover have "u = 3 \<or> whole < 1024" using val(2,3) by linarith
  moreover have "u = 0 \<or> 1 \<le> whole \<and> frac < 10 \<and> frac = (v div 1024 ^ (u - 1)) mod 1024 * 10 div 1024"
    using val(4,5) fmt_value_bound(2) [OF assms] by blast
  ultimately show ?thesis using fmt_bytes_text [OF assms, of 24 b] val(2) by blast
qed

lemma fmt_bytes_correct_witness:
  "daemoon_fmt_bytes (Some []) 24 1500000 = Some ''1.4 MiB''"
proof -
  have "fmt_bytes_loop 1500000 0 0 = (1, 4, 2)" by (simp add: fmt_bytes_loop.simps)
  moreover have "dec 1 = ''1''" "dec 4 = ''4''" by (simp_all add: digit_bytes dec.simps)
  ultimately show ?thesis using fmt_bytes_correct [of 1500000 1 4 2 "[]"] by (simp add: fmt_units_def)
qed

text \<open>Language codes are read back: the code of every language, in any mixture of case, selects that
  language, and a text that selects a language is one of the codes or one of the six aliases up to case.
  Anything else leaves the caller's choice alone.\<close>
lemma language_codes_correct:
  "(if l < LANG_COUNT \<and> fold_case (cstr s) = fold_case (daemoon_lang_code l)
    then daemoon_i18n_language_from_code (Some s) old = (OK, l)
    else case daemoon_i18n_language_from_code (Some s) old of (r, l') \<Rightarrow>
      if r = OK then l' < LANG_COUNT \<and> (code_eq_ci (cstr s) (daemoon_lang_code l') \<or>
        l' = LANG_ZH_HANS \<and> list_ex (code_eq_ci (cstr s)) [''zh'', ''zh-CN'', ''zh-Hans-CN''] \<or>
        l' = LANG_ZH_HANT \<and> list_ex (code_eq_ci (cstr s)) [''zh-TW'', ''zh-HK'', ''zh-Hant-TW''])
      else l' = old)"
proof (cases "l < LANG_COUNT \<and> fold_case (cstr s) = fold_case (daemoon_lang_code l)")
  case True
  then have "find_code (cstr s) 0 daemoon_lang_codes = Some l" by (intro find_code_language) auto
  with True show ?thesis by (simp add: daemoon_i18n_language_from_code_def)
next
  case False
  show ?thesis
  proof (cases "find_code (cstr s) 0 daemoon_lang_codes")
    case None
    then have "case daemoon_i18n_language_from_code (Some s) old of (r, l') \<Rightarrow>
      if r = OK then l' < LANG_COUNT \<and> (code_eq_ci (cstr s) (daemoon_lang_code l') \<or>
        l' = LANG_ZH_HANS \<and> list_ex (code_eq_ci (cstr s)) [''zh'', ''zh-CN'', ''zh-Hans-CN''] \<or>
        l' = LANG_ZH_HANT \<and> list_ex (code_eq_ci (cstr s)) [''zh-TW'', ''zh-HK'', ''zh-Hant-TW''])
      else l' = old"
      by (simp add: daemoon_i18n_language_from_code_def Let_def lang_defs)
    with False show ?thesis by (simp only: if_False)
  next
    case (Some j)
    from find_code_Some [OF this] have "j < LANG_COUNT" "code_eq_ci (cstr s) (daemoon_lang_code j)"
      by (auto simp: daemoon_lang_codes_def lang_defs daemoon_lang_code_def)
    then have "case daemoon_i18n_language_from_code (Some s) old of (r, l') \<Rightarrow>
      if r = OK then l' < LANG_COUNT \<and> (code_eq_ci (cstr s) (daemoon_lang_code l') \<or>
        l' = LANG_ZH_HANS \<and> list_ex (code_eq_ci (cstr s)) [''zh'', ''zh-CN'', ''zh-Hans-CN''] \<or>
        l' = LANG_ZH_HANT \<and> list_ex (code_eq_ci (cstr s)) [''zh-TW'', ''zh-HK'', ''zh-Hant-TW''])
      else l' = old"
      by (simp add: daemoon_i18n_language_from_code_def Some)
    with False show ?thesis by (simp only: if_False)
  qed
qed

end
