(* ===== verification/Api.thy ===== *)
theory Api
  imports Archive
begin

text \<open>
  \<open>core/src/api.c\<close> and \<open>api.h\<close>: the client side of the server's HTTP interface.

  A response body is routed piece by piece (\<open>api_body_write\<close>) into the caller's sink or into
  a small buffer, by the status the net backend has filled in by then. A request is the net backend's
  exchange run against the body source and that routing (\<open>run_request\<close>); calling through a net
  backend that is not there is a crash, as everywhere. The callback contexts of the source
  (\<open>body_ctx\<close> of request and response) are the two halves of the state an exchange works on.
\<close>

section \<open>Sizes\<close>

definition API_ERRBUF_MAX :: nat where "API_ERRBUF_MAX = 512"
definition API_JSONBUF_MAX :: nat where "API_JSONBUF_MAX = 1024"
definition API_URL_MAX :: nat where "API_URL_MAX = 512"
definition API_TOKENS :: nat where "API_TOKENS = 64"
definition TOKEN_MAX :: nat where "TOKEN_MAX = 129"
definition SERVER_URL_MAX :: nat where "SERVER_URL_MAX = 256"
definition DEFAULT_TIMEOUT_MS :: nat where "DEFAULT_TIMEOUT_MS = 30000"
definition RETRY_CEILING :: nat where "RETRY_CEILING = 3"
definition PAIR_TAG :: bytes where "PAIR_TAG = ''DAEMOON''"
definition PAIR_FORMAT :: nat where "PAIR_FORMAT = 1"
definition PAIR_CODE_MAX :: nat where "PAIR_CODE_MAX = 16"

lemmas api_sizes = API_ERRBUF_MAX_def API_JSONBUF_MAX_def API_URL_MAX_def API_TOKENS_def TOKEN_MAX_def
  SERVER_URL_MAX_def DEFAULT_TIMEOUT_MS_def RETRY_CEILING_def PAIR_TAG_def PAIR_FORMAT_def PAIR_CODE_MAX_def

record remote_meta =
  rm_exists :: bool
  rm_latest_version :: nat
  rm_parent_version :: nat
  rm_sha256 :: bytes
  rm_size :: nat
  rm_device_label :: bytes
  rm_received_at :: bytes

record conflict =
  cf_server_version :: nat
  cf_parent_version :: nat
  cf_server_size :: nat
  cf_server_device_label :: bytes
  cf_server_received_at :: bytes

text \<open>What \<open>memset\<close> to zero leaves of the two.\<close>

definition no_meta :: remote_meta where
  "no_meta = \<lparr>rm_exists = False, rm_latest_version = 0, rm_parent_version = 0, rm_sha256 = [], rm_size = 0,
    rm_device_label = [], rm_received_at = []\<rparr>"

definition no_conflict :: conflict where
  "no_conflict = \<lparr>cf_server_version = 0, cf_parent_version = 0, cf_server_size = 0,
    cf_server_device_label = [], cf_server_received_at = []\<rparr>"

section \<open>Small buffers\<close>

record api_membuf =
  am_cap :: nat
  am_buf :: bytes
  am_truncated :: bool

definition membuf_init :: "nat \<Rightarrow> api_membuf" where
  "membuf_init cap = \<lparr>am_cap = cap, am_buf = [], am_truncated = False\<rparr>"

definition membuf_append :: "api_membuf \<Rightarrow> bytes \<Rightarrow> result \<times> api_membuf" where
  "membuf_append mb buf =
    (if am_cap mb = 0 then (OK, mb\<lparr>am_truncated := True\<rparr>)
     else
      (let room = am_cap mb - length (am_buf mb) - 1
       in if length buf > room
          then (OK, mb\<lparr>am_buf := am_buf mb @ take room buf, am_truncated := True\<rparr>)
          else (OK, mb\<lparr>am_buf := am_buf mb @ buf\<rparr>)))"

record 'w api_sink =
  sk_sink :: "'w stream_ptr"
  sk_ok_body :: api_membuf
  sk_err_body :: api_membuf
  sk_err :: result

definition status_ok :: "int \<Rightarrow> bool" where
  "status_ok status \<longleftrightarrow> status \<ge> 200 \<and> status < 300"

definition api_body_write :: "'w api_sink \<Rightarrow> int \<Rightarrow> bytes \<Rightarrow> ('w, result \<times> 'w api_sink) prog" where
  "api_body_write s status buf =
    (if sk_err s \<noteq> OK then return_io (sk_err s, s)
     else if status = 0 then return_io (ERR_BACKEND_ERROR, s\<lparr>sk_err := ERR_BACKEND_ERROR\<rparr>)
     else if status_ok status then
       (if sk_sink s \<noteq> None then
          bind_io (daemoon_stream_write (sk_sink s) buf) (\<lambda>r. return_io (r, s\<lparr>sk_err := r\<rparr>))
        else (case membuf_append (sk_ok_body s) buf of (r, mb) \<Rightarrow> return_io (r, s\<lparr>sk_ok_body := mb\<rparr>)))
     else (case membuf_append (sk_err_body s) buf of (r, mb) \<Rightarrow> return_io (r, s\<lparr>sk_err_body := mb\<rparr>)))"

section \<open>Request setup\<close>

definition build_base :: "'w env \<Rightarrow> nat \<Rightarrow> result + strbuf" where
  "build_base env cap =
    (if c_string_empty (env_server_url env) then Inl ERR_INVALID_REQUEST
     else Inr (daemoon_strbuf_add (daemoon_strbuf_init cap) (env_server_url env)))"

definition add_platform_query :: "strbuf \<Rightarrow> platform \<Rightarrow> bool \<Rightarrow> strbuf" where
  "add_platform_query sb p first =
    (let sb = daemoon_strbuf_addc sb (if first then CHR ''?'' else CHR ''&'');
         sb = sb_add sb ''platform=''
     in daemoon_strbuf_add_urlenc sb (Some (daemoon_platform_name p)))"

definition headers_init :: "'w env \<Rightarrow> bytes option \<Rightarrow> (bytes \<times> bytes) list" where
  "headers_init env content_type =
    [(''Accept'', ''application/json'')] @
    (case content_type of None \<Rightarrow> [] | Some t \<Rightarrow> [(''Content-Type'', t)]) @
    (if c_string_empty (env_token env) then []
     else
      (let sb = daemoon_strbuf_add (sb_add (daemoon_strbuf_init (16 + TOKEN_MAX)) ''Bearer '') (env_token env)
       in if daemoon_strbuf_result sb = OK then [(''Authorization'', sb_buf sb)] else []))"

text \<open>
  A request body source is a function of its context \<open>'b\<close>; \<open>None\<close> is a request without
  one, whose pull would be a call through NULL.
\<close>

type_synonym ('w, 'b) body_read = "('b \<Rightarrow> nat \<Rightarrow> ('w, (result \<times> bytes) \<times> 'b) prog) option"

definition pull_body :: "('w, 'b) body_read \<Rightarrow> 'b \<times> 'w api_sink \<Rightarrow> nat \<Rightarrow> ('w, (result \<times> bytes) \<times> 'b \<times> 'w api_sink) prog" where
  "pull_body body u cap =
    (case body of None \<Rightarrow> (\<lambda>_. None)
     | Some read \<Rightarrow> bind_io (read (fst u) cap) (\<lambda>(rb, b). return_io (rb, (b, snd u))))"

definition push_body :: "'b \<times> 'w api_sink \<Rightarrow> int \<Rightarrow> bytes \<Rightarrow> ('w, result \<times> 'b \<times> 'w api_sink) prog" where
  "push_body u status buf =
    bind_io (api_body_write (snd u) status buf) (\<lambda>(r, s). return_io (r, (fst u, s)))"

definition run_request ::
  "'w env \<Rightarrow> http_req \<Rightarrow> ('w, 'b) body_read \<Rightarrow> 'b \<times> 'w api_sink \<Rightarrow> ('w, result \<times> http_resp \<times> 'b \<times> 'w api_sink) prog" where
  "run_request env req body u =
    (case env_net env of None \<Rightarrow> (\<lambda>_. None)
     | Some net \<Rightarrow>
        (case nt_request net of None \<Rightarrow> (\<lambda>_. None)
         | Some request \<Rightarrow> (\<lambda>w. run_exchange (pull_body body) push_body (request req w) u)))"

definition resp_zero :: http_resp where
  "resp_zero = \<lparr>rs_status = 0, rs_sha256 = [], rs_content_length = -1\<rparr>"

definition sink_reset :: "'w api_sink \<Rightarrow> 'w api_sink" where
  "sink_reset s = s\<lparr>sk_err := OK, sk_ok_body := membuf_init (am_cap (sk_ok_body s)),
    sk_err_body := membuf_init (am_cap (sk_err_body s))\<rparr>"

text \<open>
  The loop of \<open>api_do\<close> with \<open>n\<close> attempts left; \<open>r\<close> is the result so far. The C
  returns straight out of the loop when a failure is not retryable and returns the last failure after
  it, which is the same value.
\<close>

fun api_do_loop ::
  "'w env \<Rightarrow> http_req \<Rightarrow> ('w, 'b) body_read \<Rightarrow> nat \<Rightarrow> result \<Rightarrow> http_resp \<Rightarrow> 'b \<times> 'w api_sink \<Rightarrow>
    ('w, result \<times> http_resp \<times> 'b \<times> 'w api_sink) prog" where
  "api_do_loop env req body 0 r resp u = return_io (r, resp, u)"
| "api_do_loop env req body (Suc n) r resp u =
    bind_io (run_request env req body (fst u, sink_reset (snd u))) (\<lambda>(r, resp, u).
      if r = OK then return_io (OK, resp, u)
      else if \<not> daemoon_result_retryable r then return_io (r, resp, u)
      else api_do_loop env req body n r resp u)"

definition max_attempts :: "('w, 'b) body_read \<Rightarrow> nat" where
  "max_attempts body = (if body = None then RETRY_CEILING else 1)"

definition net_available :: "'w env \<Rightarrow> bool" where
  "net_available env \<longleftrightarrow> (case env_net env of None \<Rightarrow> False | Some net \<Rightarrow> nt_request net \<noteq> None)"

definition api_do ::
  "'w env \<Rightarrow> http_req \<Rightarrow> ('w, 'b) body_read \<Rightarrow> 'b \<Rightarrow> 'w api_sink \<Rightarrow> ('w, result \<times> http_resp \<times> 'w api_sink) prog" where
  "api_do env req body b sink =
    (if \<not> net_available env then return_io (ERR_UNSUPPORTED, resp_zero, sink)
     else bind_io (api_do_loop env req body (max_attempts body) ERR_NETWORK_ERROR resp_zero (b, sink))
      (\<lambda>(r, resp, _, sink).
        if r \<noteq> OK then return_io (r, resp, sink)
        else if sk_err sink \<noteq> OK then return_io (sk_err sink, resp, sink)
        else return_io (OK, resp, sink)))"

section \<open>Response bodies\<close>

text \<open>A 64 bit number assigned to a 32 bit field.\<close>

definition to_uint :: "nat \<Rightarrow> nat" where
  "to_uint n = n mod 2 ^ 32"

definition conflict_from_detail :: "bytes \<Rightarrow> jsmntok list \<Rightarrow> nat \<Rightarrow> conflict" where
  "conflict_from_detail js toks detail =
    \<lparr>cf_server_version = (case daemoon_json_get_uint js toks detail ''server_version'' of
        Inr n \<Rightarrow> to_uint n | Inl _ \<Rightarrow> 0),
     cf_parent_version = (case daemoon_json_get_uint js toks detail ''parent_version'' of
        Inr n \<Rightarrow> to_uint n | Inl _ \<Rightarrow> 0),
     cf_server_size = (case daemoon_json_get_uint js toks detail ''server_size'' of Inr n \<Rightarrow> n | Inl _ \<Rightarrow> 0),
     cf_server_device_label = get_str_void js toks detail ''server_device_label'' LABEL_MAX,
     cf_server_received_at = get_str_void js toks detail ''server_received_at'' TIMESTAMP_MAX\<rparr>"

text \<open>\<open>body\<close> holds the \<open>len\<close> bytes; result and \<open>*out_conflict\<close> afterwards.\<close>

definition daemoon_api_parse_error :: "bytes option \<Rightarrow> int \<Rightarrow> conflict option \<Rightarrow> result \<times> conflict option" where
  "daemoon_api_parse_error body status out_conflict =
    (case body of None \<Rightarrow> (daemoon_result_from_http status None 0, out_conflict)
     | Some js \<Rightarrow>
      if js = [] then (daemoon_result_from_http status None 0, out_conflict)
      else case daemoon_json_parse (Some js) API_TOKENS of
        Inl _ \<Rightarrow> (daemoon_result_from_http status None 0, out_conflict)
      | Inr toks \<Rightarrow>
        (case daemoon_json_find js toks 0 ''error'' of
          None \<Rightarrow> (daemoon_result_from_http status None 0, out_conflict)
        | Some err_obj \<Rightarrow>
          if tk_type (toks ! err_obj) \<noteq> JSMN_OBJECT then (daemoon_result_from_http status None 0, out_conflict)
          else case daemoon_json_find js toks err_obj ''code'' of
            None \<Rightarrow> (daemoon_result_from_http status None 0, out_conflict)
          | Some code_tok \<Rightarrow>
            (case daemoon_json_str js (Some (toks ! code_tok)) (Some []) 64 of
              (r, code) \<Rightarrow>
                if r \<noteq> OK then (daemoon_result_from_http status None 0, out_conflict)
                else
                  (daemoon_result_from_http status code 0,
                   case out_conflict of None \<Rightarrow> None
                   | Some c \<Rightarrow>
                      (case daemoon_json_find js toks err_obj ''detail'' of
                        Some detail \<Rightarrow>
                          if tk_type (toks ! detail) = JSMN_OBJECT
                          then Some (conflict_from_detail js toks detail) else Some c
                      | None \<Rightarrow> Some c)))))"

definition parse_version_meta :: "bytes \<Rightarrow> result + remote_meta" where
  "parse_version_meta js =
    bind_sum (daemoon_json_parse (Some js) API_TOKENS) (\<lambda>toks.
      if tk_type (toks ! 0) \<noteq> JSMN_OBJECT then Inl ERR_PARSE_ERROR
      else
      bind_sum (daemoon_json_get_uint js toks 0 ''version'') (\<lambda>version.
      let parent =
        (case daemoon_json_find js toks 0 ''parent_version'' of None \<Rightarrow> 0
         | Some idx \<Rightarrow>
            if daemoon_json_is_null js (Some (toks ! idx)) then 0
            else (case daemoon_json_uint js (Some (toks ! idx)) of Inr n \<Rightarrow> to_uint n | Inl _ \<Rightarrow> 0))
      in
      bind_sum (get_str_try js toks 0 ''sha256'' SHA256_HEX) (\<lambda>sha.
      bind_sum (daemoon_json_get_uint js toks 0 ''size'') (\<lambda>sz.
      Inr \<lparr>rm_exists = True, rm_latest_version = to_uint version, rm_parent_version = parent,
           rm_sha256 = sha, rm_size = sz,
           rm_device_label = get_str_void js toks 0 ''device_label'' LABEL_MAX,
           rm_received_at = get_str_void js toks 0 ''received_at'' TIMESTAMP_MAX\<rparr>))))"

section \<open>Calls\<close>

definition mk_req :: "bytes \<Rightarrow> bytes \<Rightarrow> (bytes \<times> bytes) list \<Rightarrow> bool \<Rightarrow> int \<Rightarrow> http_req" where
  "mk_req method url headers has_body body_len =
    \<lparr>rq_method = method, rq_url = url, rq_headers = headers, rq_has_body = has_body,
     rq_body_len = body_len, rq_timeout_ms = DEFAULT_TIMEOUT_MS\<rparr>"

definition mk_sink :: "'w stream_ptr \<Rightarrow> nat \<Rightarrow> 'w api_sink" where
  "mk_sink s ok_cap =
    \<lparr>sk_sink = s, sk_ok_body = membuf_init ok_cap, sk_err_body = membuf_init API_ERRBUF_MAX, sk_err = OK\<rparr>"

abbreviation err_body_of :: "'w api_sink \<Rightarrow> bytes option" where
  "err_body_of sink \<equiv> Some (am_buf (sk_err_body sink))"

definition no_body :: "('w, unit) body_read" where
  "no_body = None"

definition latest_url :: "'w env \<Rightarrow> platform \<Rightarrow> bytes \<Rightarrow> result + strbuf" where
  "latest_url env platform title_id =
    bind_sum (build_base env API_URL_MAX) (\<lambda>sb.
      let sb = sb_add sb ''/v1/titles/'';
          sb = daemoon_strbuf_add_urlenc sb (Some title_id);
          sb = sb_add sb ''/latest'';
          sb = add_platform_query sb platform True
      in if daemoon_strbuf_result sb \<noteq> OK then Inl (daemoon_strbuf_result sb) else Inr sb)"

definition daemoon_api_get_latest :: "'w env \<Rightarrow> platform \<Rightarrow> bytes \<Rightarrow> ('w, result + remote_meta) prog" where
  "daemoon_api_get_latest env platform title_id =
    (case latest_url env platform title_id of Inl r \<Rightarrow> return_io (Inl r)
     | Inr sb \<Rightarrow>
        bind_io
          (api_do env (mk_req ''GET'' (sb_buf sb) (headers_init env None) False (-1)) no_body ()
            (mk_sink None API_JSONBUF_MAX)) (\<lambda>(r, resp, sink).
          if r \<noteq> OK then return_io (Inl r)
          else if rs_status resp = 404 then return_io (Inr no_meta)
          else if \<not> status_ok (rs_status resp)
          then return_io (Inl (fst (daemoon_api_parse_error (err_body_of sink) (rs_status resp) None)))
          else if am_truncated (sk_ok_body sink) then return_io (Inl ERR_PARSE_ERROR)
          else return_io (parse_version_meta (am_buf (sk_ok_body sink)))))"

definition download_url :: "'w env \<Rightarrow> platform \<Rightarrow> bytes \<Rightarrow> nat \<Rightarrow> result + strbuf" where
  "download_url env platform title_id version =
    bind_sum (build_base env API_URL_MAX) (\<lambda>sb.
      let sb = sb_add sb ''/v1/titles/'';
          sb = daemoon_strbuf_add_urlenc sb (Some title_id);
          sb = sb_add sb ''/blob/'';
          sb = daemoon_strbuf_add_uint sb version;
          sb = add_platform_query sb platform True
      in if daemoon_strbuf_result sb \<noteq> OK then Inl (daemoon_strbuf_result sb) else Inr sb)"

text \<open>Result and \<open>out_sha256\<close> afterwards (\<open>None\<close> for NULL).\<close>

definition daemoon_api_download ::
  "'w env \<Rightarrow> platform \<Rightarrow> bytes \<Rightarrow> nat \<Rightarrow> 'w stream_ptr \<Rightarrow> bytes option \<Rightarrow> nat \<Rightarrow> ('w, result \<times> bytes option) prog" where
  "daemoon_api_download env platform title_id version sink_stream out_sha256 sha_len =
    (if sink_stream = None \<or> version = 0 then return_io (ERR_INVALID_REQUEST, out_sha256)
     else case download_url env platform title_id version of Inl r \<Rightarrow> return_io (r, out_sha256)
     | Inr sb \<Rightarrow>
        bind_io
          (run_request env (mk_req ''GET'' (sb_buf sb) (headers_init env None) False (-1)) no_body
            ((), mk_sink sink_stream 0)) (\<lambda>(r, resp, _, sink).
          if r \<noteq> OK then return_io (r, out_sha256)
          else if sk_err sink \<noteq> OK then return_io (sk_err sink, out_sha256)
          else if \<not> status_ok (rs_status resp)
          then return_io (fst (daemoon_api_parse_error (err_body_of sink) (rs_status resp) None), out_sha256)
          else if out_sha256 \<noteq> None \<and> sha_len > 0
          then return_io (OK, snd (daemoon_strlcpy out_sha256 sha_len (Some (rs_sha256 resp))))
          else return_io (OK, out_sha256)))"

definition stream_body_read :: "'w stream_ptr \<Rightarrow> nat \<Rightarrow> ('w, (result \<times> bytes) \<times> 'w stream_ptr) prog" where
  "stream_body_read s cap = bind_io (daemoon_stream_read s cap) (\<lambda>rb. return_io (rb, s))"

definition upload_url :: "'w env \<Rightarrow> manifest \<Rightarrow> result + strbuf" where
  "upload_url env m =
    bind_sum (build_base env API_URL_MAX) (\<lambda>sb.
      let sb = sb_add sb ''/v1/titles/'';
          sb = daemoon_strbuf_add_urlenc sb (Some (mf_title_id m));
          sb = sb_add sb ''/blob?parent_version='';
          sb = daemoon_strbuf_add_uint sb (mf_parent_version m);
          sb = add_platform_query sb (mf_platform m) False
      in if daemoon_strbuf_result sb \<noteq> OK then Inl (daemoon_strbuf_result sb) else Inr sb)"

text \<open>The conversion of \<open>unsigned long long\<close> to \<open>long long\<close>.\<close>

definition to_llong :: "nat \<Rightarrow> int" where
  "to_llong n = (if n < 2 ^ 63 then int n else int n - 2 ^ 64)"

text \<open>The version issued, and \<open>*conflict\<close> afterwards.\<close>

definition daemoon_api_upload ::
  "'w env \<Rightarrow> manifest \<Rightarrow> 'w stream_ptr \<Rightarrow> nat \<Rightarrow> conflict option \<Rightarrow> ('w, (result + remote_meta) \<times> conflict option) prog" where
  "daemoon_api_upload env m body body_len conflict =
    (if body = None then return_io (Inl ERR_INVALID_REQUEST, conflict)
     else case upload_url env m of Inl r \<Rightarrow> return_io (Inl r, conflict)
     | Inr sb \<Rightarrow>
        bind_io
          (api_do env (mk_req ''POST'' (sb_buf sb) (headers_init env (Some ''application/zip'')) True (to_llong body_len))
            (Some stream_body_read) body (mk_sink None API_JSONBUF_MAX)) (\<lambda>(r, resp, sink).
          if r \<noteq> OK then return_io (Inl r, conflict)
          else if \<not> status_ok (rs_status resp)
          then (case daemoon_api_parse_error (err_body_of sink) (rs_status resp) conflict of
             (r, conflict) \<Rightarrow> return_io (Inl r, conflict))
          else if am_truncated (sk_ok_body sink) then return_io (Inl ERR_PARSE_ERROR, conflict)
          else return_io (parse_version_meta (am_buf (sk_ok_body sink)), conflict)))"


record api_const_body =
  cb_data :: bytes
  cb_pos :: nat

definition const_body_read :: "api_const_body \<Rightarrow> nat \<Rightarrow> ('w, (result \<times> bytes) \<times> api_const_body) prog" where
  "const_body_read b cap =
    (let n = length (cb_data b) - cb_pos b;
         n = (if n > cap then cap else n)
     in return_io ((OK, take n (drop (cb_pos b) (cb_data b))), b\<lparr>cb_pos := cb_pos b + n\<rparr>))"

text \<open>A string argument that may be NULL and a length-checked buffer: \<open>add_json\<close> of it.\<close>

definition pair_reqbody :: "bytes option \<Rightarrow> bytes option \<Rightarrow> bytes option \<Rightarrow> platform \<Rightarrow> strbuf" where
  "pair_reqbody grant code label platform =
    (let sb = daemoon_strbuf_init 512;
         sb = sb_add sb ''{\"grant\":\"'';
         sb = daemoon_strbuf_add_json sb grant;
         sb = sb_add sb ''\",\"code\":\"'';
         sb = daemoon_strbuf_add_json sb code;
         sb = sb_add sb ''\",\"label\":\"'';
         sb = daemoon_strbuf_add_json sb label;
         sb = sb_add sb ''\",\"platform\":\"'';
         sb = sb_json sb (daemoon_platform_name platform)
     in sb_add sb ''\"}'')"

definition pair_url :: "'w env \<Rightarrow> result + strbuf" where
  "pair_url env =
    bind_sum (build_base env API_URL_MAX) (\<lambda>sb.
      let sb = sb_add sb ''/v1/devices/pair''
      in if daemoon_strbuf_result sb \<noteq> OK then Inl (daemoon_strbuf_result sb) else Inr sb)"

text \<open>Result, \<open>out_token\<close> and \<open>out_device_id\<close> afterwards (\<open>None\<close> for NULL).\<close>

definition daemoon_api_pair ::
  "'w env \<Rightarrow> bytes option \<Rightarrow> bytes option \<Rightarrow> bytes option \<Rightarrow> platform \<Rightarrow> bytes option \<Rightarrow> nat \<Rightarrow>
    bytes option \<Rightarrow> nat \<Rightarrow> ('w, result \<times> bytes option \<times> bytes option) prog" where
  "daemoon_api_pair env grant code label platform out_token token_len out_device_id device_id_len =
    (if grant = None \<or> code = None \<or> label = None \<or> out_token = None
     then return_io (ERR_INVALID_REQUEST, out_token, out_device_id)
     else case pair_url env of Inl r \<Rightarrow> return_io (r, out_token, out_device_id)
     | Inr sb \<Rightarrow>
       (let body = pair_reqbody grant code label platform; rb = daemoon_strbuf_result body in
        if rb \<noteq> OK then return_io (rb, out_token, out_device_id)
        else
        bind_io
          (api_do env (mk_req ''POST'' (sb_buf sb) (headers_init env (Some ''application/json'')) True
              (int (length (sb_buf body))))
            (Some const_body_read) \<lparr>cb_data = sb_buf body, cb_pos = 0\<rparr> (mk_sink None API_JSONBUF_MAX)) (\<lambda>(r, resp, sink).
          if r \<noteq> OK then return_io (r, out_token, out_device_id)
          else if \<not> status_ok (rs_status resp)
          then return_io (fst (daemoon_api_parse_error (err_body_of sink) (rs_status resp) None), out_token, out_device_id)
          else
           (let js = am_buf (sk_ok_body sink) in
            case daemoon_json_parse (Some js) API_TOKENS of Inl r \<Rightarrow> return_io (r, out_token, out_device_id)
            | Inr toks \<Rightarrow>
               (case daemoon_json_get_str js toks 0 ''token'' out_token token_len of
                 (r, out_token) \<Rightarrow>
                  if r \<noteq> OK then return_io (r, out_token, out_device_id)
                  else if out_device_id \<noteq> None \<and> device_id_len > 0
                  then return_io (OK, out_token, snd (daemoon_json_get_str js toks 0 ''device_id'' out_device_id device_id_len))
                  else return_io (OK, out_token, out_device_id))))))"

section \<open>The pairing code\<close>

record pair_payload =
  pp_server :: bytes
  pp_code :: bytes

text \<open>\<open>memchr\<close> for a bar: its position.\<close>

definition memchr_bar :: "bytes \<Rightarrow> nat option" where
  "memchr_bar s =
    (let n = length (takeWhile (\<lambda>c. c \<noteq> CHR ''|'') s) in if n < length s then Some n else None)"

text \<open>The version loop: \<open>None\<close> for its two \<open>return DAEMOON_ERR_PARSE_ERROR\<close>.\<close>

fun pair_version_loop :: "nat \<Rightarrow> bytes \<Rightarrow> nat option" where
  "pair_version_loop v [] = Some v"
| "pair_version_loop v (c # s) =
    (if u8 c < 48 \<or> u8 c > 57 then None
     else let v = v * 10 + (u8 c - 48) in if v > 999 then None else pair_version_loop v s)"

definition strip_line_end :: "bytes \<Rightarrow> bytes" where
  "strip_line_end s = rev (dropWhile (\<lambda>c. c = CHR 0x0a \<or> c = CHR 0x0d \<or> c = NUL) (rev s))"

text \<open>The \<open>len\<close> bytes at \<open>text\<close>; result and \<open>*out\<close> afterwards.\<close>

definition daemoon_pair_parse :: "bytes option \<Rightarrow> pair_payload \<Rightarrow> result \<times> pair_payload" where
  "daemoon_pair_parse input out =
    (case input of None \<Rightarrow> (ERR_INVALID_REQUEST, out)
     | Some s \<Rightarrow>
      (let out = \<lparr>pp_server = [], pp_code = []\<rparr>; tag = PAIR_TAG @ ''|'' in
       if length s < length tag + 1 \<or> take (length tag) s \<noteq> tag then (ERR_PARSE_ERROR, out)
       else
        (let p = drop (length tag) s in
         case memchr_bar p of None \<Rightarrow> (ERR_PARSE_ERROR, out)
         | Some bar \<Rightarrow>
           if bar = 0 then (ERR_PARSE_ERROR, out)
           else case pair_version_loop 0 (take bar p) of None \<Rightarrow> (ERR_PARSE_ERROR, out)
           | Some version \<Rightarrow>
             if version \<noteq> PAIR_FORMAT then (ERR_UNSUPPORTED, out)
             else
              (let p = drop (bar + 1) p in
               case memchr_bar p of None \<Rightarrow> (ERR_PARSE_ERROR, out)
               | Some n \<Rightarrow>
                 if n = 0 then (ERR_PARSE_ERROR, out)
                 else if n \<ge> SERVER_URL_MAX then (ERR_BUFFER_TOO_SMALL, out)
                 else
                  (let out = out\<lparr>pp_server := cstr (take n p)\<rparr> in
                   if take 7 (pp_server out) \<noteq> ''http://'' \<and> take 8 (pp_server out) \<noteq> ''https://''
                   then (ERR_PARSE_ERROR, out)
                   else
                    (let p = strip_line_end (drop (n + 1) p) in
                     if p = [] \<or> length p \<ge> PAIR_CODE_MAX then (ERR_PARSE_ERROR, out)
                     else if CHR ''|'' \<in> set p then (ERR_PARSE_ERROR, out)
                     else (OK, out\<lparr>pp_code := cstr p\<rparr>)))))))"

section \<open>Revocation\<close>

definition revoke_url :: "'w env \<Rightarrow> bytes \<Rightarrow> result + strbuf" where
  "revoke_url env device_id =
    bind_sum (build_base env API_URL_MAX) (\<lambda>sb.
      let sb = sb_add sb ''/v1/devices/'';
          sb = daemoon_strbuf_add_urlenc sb (Some device_id)
      in if daemoon_strbuf_result sb \<noteq> OK then Inl (daemoon_strbuf_result sb) else Inr sb)"

definition daemoon_api_revoke_device :: "'w env \<Rightarrow> bytes option \<Rightarrow> bytes option \<Rightarrow> ('w, result) prog" where
  "daemoon_api_revoke_device env token device_id =
    (if c_string_empty token \<or> c_string_empty device_id then return_io ERR_INVALID_REQUEST
     else case revoke_url env (the device_id) of Inl r \<Rightarrow> return_io r
     | Inr sb \<Rightarrow>
       (let as_old = env\<lparr>env_token := token\<rparr> in
        bind_io
          (api_do as_old (mk_req ''DELETE'' (sb_buf sb) (headers_init as_old None) False (-1)) no_body ()
            (mk_sink None 16)) (\<lambda>(r, resp, sink).
          if r \<noteq> OK then return_io r
          else if rs_status resp = 404 then return_io OK
          else if \<not> status_ok (rs_status resp)
          then return_io (fst (daemoon_api_parse_error (err_body_of sink) (rs_status resp) None))
          else return_io OK)))"


section \<open>The small buffers keep what fits\<close>

definition membuf_of :: "nat \<Rightarrow> bytes \<Rightarrow> api_membuf" where
  "membuf_of cap S = \<lparr>am_cap = cap, am_buf = take (cap - 1) S, am_truncated = (0 < cap \<and> cap \<le> length S)\<rparr>"

lemma membuf_append_of: "0 < cap \<Longrightarrow> membuf_append (membuf_of cap S) bs = (OK, membuf_of cap (S @ bs))"
  by (auto simp: membuf_append_def membuf_of_def Let_def min_def)

lemma membuf_init_of: "membuf_init cap = membuf_of cap []"
  by (auto simp: membuf_init_def membuf_of_def)

interpretation membuf: append_buffer membuf_of membuf_init "\<lambda>mb bs. snd (membuf_append mb bs)" am_buf am_truncated
  by unfold_locales (simp_all add: membuf_init_of membuf_append_of, simp_all add: membuf_of_def)

lemma am_cap_of [simp]: "am_cap (membuf_of cap S) = cap"
  by (simp add: membuf_of_def)

section \<open>Results\<close>

lemma from_http_ok_iff: "daemoon_result_from_http status code len = OK \<longleftrightarrow> status_ok status"
proof -
  have "row_result row \<noteq> OK" if "find (\<lambda>row. row_http row = status) k_errors = Some row" for row
    using that by (auto dest!: find_Some_iff [THEN iffD1] simp: row_result_not_ok)
  then show ?thesis
    by (auto simp: daemoon_result_from_http_def status_ok_def from_code_not_ok split: option.splits)
qed

lemma parse_error_not_ok: "\<not> status_ok status \<Longrightarrow> fst (daemoon_api_parse_error body status c) \<noteq> OK"
  by (auto simp: daemoon_api_parse_error_def from_http_ok_iff split: option.splits sum.splits prod.splits)

definition meta_wf :: "remote_meta \<Rightarrow> bool" where
  "meta_wf m \<longleftrightarrow> rm_latest_version m < 2 ^ 32 \<and> rm_parent_version m < 2 ^ 32 \<and> rm_size m < 2 ^ 64 \<and>
    text_fits (rm_sha256 m) SHA256_HEX \<and> text_fits (rm_device_label m) LABEL_MAX \<and>
    text_fits (rm_received_at m) TIMESTAMP_MAX"

lemma no_meta_wf: "meta_wf no_meta"
  by (simp add: meta_wf_def no_meta_def text_fits_def size_defs TIMESTAMP_MAX_def)

lemma get_str_try_not_ok: "get_str_try js toks obj key cap = Inl r \<Longrightarrow> r \<noteq> OK"
  by (auto simp: get_str_try_def split: prod.splits if_splits)

lemma json_uint_not_ok: "daemoon_json_uint js t = Inl r \<Longrightarrow> r \<noteq> OK"
  by (auto simp: daemoon_json_uint_def split: option.splits if_splits)

lemma json_get_uint_not_ok: "daemoon_json_get_uint js toks obj key = Inl r \<Longrightarrow> r \<noteq> OK"
  by (auto simp: daemoon_json_get_uint_def dest: json_uint_not_ok split: option.splits)

lemma json_parse_not_ok: "daemoon_json_parse js n = Inl r \<Longrightarrow> r \<noteq> OK"
  by (auto simp: daemoon_json_parse_def split: option.splits if_splits sum.splits jsmnerr.splits)

lemma parse_version_meta_wf: "parse_version_meta js = Inr m \<Longrightarrow> meta_wf m \<and> rm_exists m"
  by (auto simp: parse_version_meta_def bind_sum_Inr_iff meta_wf_def to_uint_def Let_def size_defs TIMESTAMP_MAX_def
      dest: json_get_uint_less get_str_try_fits intro!: get_str_void_fits split: if_splits option.splits sum.splits)

lemma parse_version_meta_not_ok: "parse_version_meta js = Inl r \<Longrightarrow> r \<noteq> OK"
  by (auto simp: parse_version_meta_def bind_sum_Inl_iff Let_def
      dest: json_get_uint_not_ok get_str_try_not_ok json_parse_not_ok split: if_splits)

text \<open>What a call that answers with the state of a title may return.\<close>

definition meta_answer :: "result + remote_meta \<Rightarrow> bool" where
  "meta_answer x \<longleftrightarrow> (case x of Inl r \<Rightarrow> r \<noteq> OK | Inr m \<Rightarrow> meta_wf m)"

lemma meta_answer_simps [simp]:
  "meta_answer (Inl r) \<longleftrightarrow> r \<noteq> OK" "meta_answer (Inr m) \<longleftrightarrow> meta_wf m"
  by (simp_all add: meta_answer_def)

lemma parse_version_meta_answer: "meta_answer (parse_version_meta js)"
  by (cases "parse_version_meta js") (auto dest: parse_version_meta_wf parse_version_meta_not_ok)

lemma build_base_not_ok: "build_base env cap = Inl r \<Longrightarrow> r \<noteq> OK"
  by (auto simp: build_base_def split: if_splits)

lemma latest_url_not_ok: "latest_url env p t = Inl r \<Longrightarrow> r \<noteq> OK"
  by (auto simp: latest_url_def bind_sum_Inl_iff Let_def dest: build_base_not_ok split: if_splits)

lemma upload_url_not_ok: "upload_url env m = Inl r \<Longrightarrow> r \<noteq> OK"
  by (auto simp: upload_url_def bind_sum_Inl_iff Let_def dest: build_base_not_ok split: if_splits)

lemma get_latest_ensures: "ensures (daemoon_api_get_latest env p t) meta_answer"
  unfolding daemoon_api_get_latest_def
  by (auto simp: parse_error_not_ok no_meta_wf parse_version_meta_answer dest: latest_url_not_ok
      intro!: ensures_intros ensures_bind_any split: sum.split prod.split)

lemma upload_ensures: "ensures (daemoon_api_upload env m body n c) (\<lambda>x. meta_answer (fst x))"
  unfolding daemoon_api_upload_def
  apply (auto simp: parse_version_meta_answer dest: upload_url_not_ok
      intro!: ensures_intros ensures_bind_any split: sum.split prod.split)
  using parse_error_not_ok by (metis fst_conv)

section \<open>Every call ends\<close>

text \<open>A net backend that asks for a request body only where there is one.\<close>

primrec pulls_nothing :: "'w exchange \<Rightarrow> bool" where
  "pulls_nothing (XDone r resp w) \<longleftrightarrow> True"
| "pulls_nothing (XPull cap w k) \<longleftrightarrow> False"
| "pulls_nothing (XBody status bs w k) \<longleftrightarrow> (\<forall>r w'. pulls_nothing (k r w'))"

definition net_honest :: "'w env \<Rightarrow> bool" where
  "net_honest env \<longleftrightarrow> (\<forall>net request req w. env_net env = Some net \<longrightarrow> nt_request net = Some request \<longrightarrow>
    \<not> rq_has_body req \<longrightarrow> pulls_nothing (request req w))"

lemma push_body_returns: "push_body u status bs w \<noteq> None"
proof -
  have "returns (api_body_write s status bs) w" for s
    by (auto simp: api_body_write_def intro!: returns_bind_io split: prod.split)
  then show ?thesis
    by (auto simp: push_body_def bind_io_def returns_def return_io_def split: option.splits)
qed

lemma run_exchange_returns:
  assumes "pulls_nothing x \<or> (\<forall>u cap w. pull u cap w \<noteq> None)"
  shows "run_exchange pull push_body x u \<noteq> None"
  using assms
proof (induction x arbitrary: u)
  case (XDone r resp w)
  then show ?case by simp
next
  case (XPull cap w k)
  then have total: "\<forall>u cap w. pull u cap w \<noteq> None" by auto
  then have "pull u cap w \<noteq> None" by blast
  then obtain r bs u' w' where "pull u cap w = Some (((r, bs), u'), w')" by (metis option.exhaust surj_pair)
  moreover have "run_exchange pull push_body (k r bs w') u' \<noteq> None"
    using total by (intro XPull.IH [of "k r" "k r bs"]) auto
  ultimately show ?case by simp
next
  case (XBody status bs w k)
  obtain r u' w' where "push_body u status bs w = Some ((r, u'), w')"
    using push_body_returns [of u status bs w] by auto
  moreover have "run_exchange pull push_body (k r w') u' \<noteq> None"
    using XBody.prems by (intro XBody.IH [of "k r"]) auto
  ultimately show ?case by simp
qed

lemma run_request_returns:
  assumes "net_available env" "net_honest env"
    and "case body of None \<Rightarrow> \<not> rq_has_body req | Some read \<Rightarrow> \<forall>b cap w. read b cap w \<noteq> None"
  shows "returns (run_request env req body u) w"
proof -
  obtain net request where net: "env_net env = Some net" "nt_request net = Some request"
    using assms(1) by (auto simp: net_available_def split: option.splits)
  have "pulls_nothing (request req w) \<or> (\<forall>u cap w. pull_body body u cap w \<noteq> None)"
  proof (cases body)
    case None
    with assms(2,3) net show ?thesis by (auto simp: net_honest_def)
  next
    case (Some read)
    with assms(3) show ?thesis
      by (auto simp: pull_body_def bind_io_def return_io_def split: option.split)
  qed
  with run_exchange_returns [OF this] show ?thesis by (simp add: run_request_def returns_def net)
qed

lemma api_do_loop_returns:
  assumes "net_available env" "net_honest env"
    and "case body of None \<Rightarrow> \<not> rq_has_body req | Some read \<Rightarrow> \<forall>b cap w. read b cap w \<noteq> None"
  shows "returns (api_do_loop env req body n r resp u) w"
proof (induction n arbitrary: r resp u w)
  case (Suc n)
  then show ?case by (auto intro!: returns_bind_io run_request_returns [OF assms])
qed simp

lemma api_do_returns:
  assumes "net_honest env"
    and "case body of None \<Rightarrow> \<not> rq_has_body req | Some read \<Rightarrow> \<forall>b cap w. read b cap w \<noteq> None"
  shows "returns (api_do env req body b sink) w"
  using assms by (auto simp: api_do_def intro!: returns_bind_io api_do_loop_returns)

lemma stream_body_read_returns: "stream_body_read s cap w \<noteq> None"
  using stream_ops_return(1) [of s cap w]
  by (auto simp: stream_body_read_def bind_io_def returns_def return_io_def split: option.splits)

lemma get_latest_returns: "net_honest env \<Longrightarrow> returns (daemoon_api_get_latest env p t) w"
  by (auto simp: daemoon_api_get_latest_def mk_req_def no_body_def intro!: returns_bind_io api_do_returns
      split: sum.split)

lemma download_returns:
  "net_honest env \<Longrightarrow> net_available env \<Longrightarrow> returns (daemoon_api_download env p t v s out n) w"
  by (auto simp: daemoon_api_download_def mk_req_def no_body_def intro!: returns_bind_io run_request_returns
      split: sum.split)

lemma upload_returns: "net_honest env \<Longrightarrow> returns (daemoon_api_upload env m body n c) w"
  by (auto simp: daemoon_api_upload_def stream_body_read_returns intro!: returns_bind_io api_do_returns
      split: sum.split prod.split)

lemma const_body_read_returns: "const_body_read b cap w \<noteq> None"
  by (simp add: const_body_read_def return_io_def Let_def)

lemma pair_returns: "net_honest env \<Longrightarrow> returns (daemoon_api_pair env g c l p t n d k) w"
  by (auto simp: daemoon_api_pair_def Let_def const_body_read_returns
      intro!: returns_bind_io api_do_returns split: sum.split prod.split)

lemma revoke_returns: "net_honest env \<Longrightarrow> returns (daemoon_api_revoke_device env t d) w"
  by (auto simp: daemoon_api_revoke_device_def Let_def mk_req_def no_body_def net_honest_def
      intro!: returns_bind_io api_do_returns split: sum.split)


section \<open>Retries\<close>

lemma wp_api_do_loop:
  fixes count :: "'w \<Rightarrow> nat"
  assumes "\<And>u w. wp (run_request env req body u) (\<lambda>_ w'. count w' \<le> count w + 1) w"
  shows "wp (api_do_loop env req body n r resp u) (\<lambda>_ w'. count w' \<le> count w + n) w"
proof (induction n arbitrary: r resp u w)
  case 0
  then show ?case by (simp add: wp_simps)
next
  case (Suc n)
  have next': "wp (api_do_loop env req body n r resp u) (\<lambda>_ w''. count w'' \<le> Suc (count w + n)) w'"
    if "count w' \<le> Suc (count w)" for r resp u w'
    by (rule wp_mono [OF Suc]) (use that in simp)
  show ?case
    by (simp add: wp_simps, rule wp_mono [OF assms [of "(fst u, sink_reset (snd u))" w]])
       (auto simp: wp_simps split: prod.split intro!: next')
qed

lemma wp_api_do:
  fixes count :: "'w \<Rightarrow> nat"
  assumes "\<And>u w. wp (run_request env req body u) (\<lambda>_ w'. count w' \<le> count w + 1) w"
  shows "wp (api_do env req body b sink) (\<lambda>_ w'. count w' \<le> count w + max_attempts body) w"
  unfolding api_do_def
  by (auto simp: wp_simps split: prod.split intro!: wp_mono [OF wp_api_do_loop [OF assms]])

section \<open>Addresses\<close>

lemma platform_name_unreserved: "list_all url_unreserved (daemoon_platform_name p)"
  by (cases p) (simp_all add: url_unreserved_def)

lemma url_escape_unreserved: "list_all url_unreserved s \<Longrightarrow> concat (map url_escape s) = s"
  by (induction s) (auto simp: url_escape_def)

lemma add_platform_query_of [sb_simps]:
  "add_platform_query (sb_of cap S) p first =
    sb_of cap (S @ (if first then CHR ''?'' else CHR ''&'') # ''platform='' @ daemoon_platform_name p)"
  using url_escape_unreserved [OF platform_name_unreserved] platform.name_nul_free
  by (simp add: add_platform_query_def sb_simps Let_def)

definition url_segment :: "bytes \<Rightarrow> bytes" where
  "url_segment s = concat (map url_escape (cstr s))"

lemma url_segment_chars: "list_all (\<lambda>c. url_unreserved c \<or> c = CHR ''%'') (url_segment s)"
proof -
  have "list_all (\<lambda>c. url_unreserved c \<or> c = CHR ''%'') (concat (map url_escape t))" for t
    by (induction t) (auto simp: url_escape_def hex_upper_unreserved)
  then show ?thesis by (simp add: url_segment_def)
qed

lemma url_segment_no_slash: "CHR ''/'' \<notin> set (url_segment s)"
  using url_segment_chars [of s] by (auto simp: list_all_iff url_unreserved_def)

lemma url_segment_inj: "url_segment s = url_segment t \<Longrightarrow> cstr s = cstr t"
  unfolding url_segment_def by (intro concat_map_inj [of "cstr s" "cstr t" url_escape] url_escape_inj) simp_all

lemma delim_split:
  assumes "c \<notin> set as" "c \<notin> set bs" "as @ c # r = bs @ c # s"
  shows "as = bs \<and> r = s"
  using assms by (induction as arbitrary: bs) (auto simp: Cons_eq_append_conv append_eq_Cons_conv)

lemma segment_delim:
  "as @ CHR ''/'' # r = bs @ CHR ''/'' # s \<Longrightarrow> CHR ''/'' \<notin> set as \<Longrightarrow> CHR ''/'' \<notin> set bs \<Longrightarrow>
    as = bs \<and> r = s"
  by (rule delim_split)

definition base_url :: "'w env \<Rightarrow> bytes" where
  "base_url env = cstr (the (env_server_url env))"

lemma build_base_text:
  "build_base env cap = (if c_string_empty (env_server_url env) then Inl ERR_INVALID_REQUEST else Inr (sb_of cap (base_url env)))"
  by (auto simp: build_base_def c_string_empty_def base_url_def sb_simps split: option.split)

lemma latest_url_text:
  "latest_url env p t = Inr sb \<Longrightarrow>
    sb_buf sb = base_url env @ ''/v1/titles/'' @ url_segment t @ ''/latest?platform='' @ daemoon_platform_name p"
  by (auto simp: latest_url_def build_base_text url_segment_def sb_simps Let_def split: if_splits)

lemma download_url_text:
  "v < 2 ^ 32 \<Longrightarrow> download_url env p t v = Inr sb \<Longrightarrow>
    sb_buf sb = base_url env @ ''/v1/titles/'' @ url_segment t @ ''/blob/'' @ dec v @ ''?platform='' @ daemoon_platform_name p"
  by (auto simp: download_url_def build_base_text url_segment_def sb_simps Let_def split: if_splits)

lemma upload_url_text:
  "mf_parent_version m < 2 ^ 32 \<Longrightarrow> upload_url env m = Inr sb \<Longrightarrow>
    sb_buf sb = base_url env @ ''/v1/titles/'' @ url_segment (mf_title_id m) @ ''/blob?parent_version='' @
      dec (mf_parent_version m) @ ''&platform='' @ daemoon_platform_name (mf_platform m)"
  by (auto simp: upload_url_def build_base_text url_segment_def sb_simps Let_def split: if_splits)


section \<open>The pairing code, read back\<close>

lemma memchr_bar_Some:
  "memchr_bar s = Some n \<longleftrightarrow> (\<exists>a b. s = a @ CHR ''|'' # b \<and> CHR ''|'' \<notin> set a \<and> n = length a)"
proof
  assume n: "memchr_bar s = Some n"
  have "CHR ''|'' \<in> set s"
  proof (rule ccontr)
    assume "CHR ''|'' \<notin> set s"
    then have "takeWhile (\<lambda>c. c \<noteq> CHR ''|'') s = s" by (auto simp: takeWhile_eq_all_conv)
    with n show False by (simp add: memchr_bar_def)
  qed
  then obtain a b where s: "s = a @ CHR ''|'' # b" "CHR ''|'' \<notin> set a" by (auto dest: split_list_first)
  then have "takeWhile (\<lambda>c. c \<noteq> CHR ''|'') s = a"
    by (auto simp: takeWhile_append takeWhile_eq_all_conv)
  with n s show "\<exists>a b. s = a @ CHR ''|'' # b \<and> CHR ''|'' \<notin> set a \<and> n = length a"
    by (auto simp: memchr_bar_def Let_def split: if_splits)
next
  assume "\<exists>a b. s = a @ CHR ''|'' # b \<and> CHR ''|'' \<notin> set a \<and> n = length a"
  then obtain a b where s: "s = a @ CHR ''|'' # b" "CHR ''|'' \<notin> set a" "n = length a" by blast
  then have "takeWhile (\<lambda>c. c \<noteq> CHR ''|'') s = a"
    by (auto simp: takeWhile_append takeWhile_eq_all_conv)
  with s show "memchr_bar s = Some n" by (simp add: memchr_bar_def)
qed

lemma memchr_bar_split: "CHR ''|'' \<notin> set a \<Longrightarrow> memchr_bar (a @ CHR ''|'' # b) = Some (length a)"
  by (auto simp: memchr_bar_Some)

lemma pair_version_loop_Some: "pair_version_loop v s = Some n \<Longrightarrow> list_all is_digit s \<and> n = dec_val v s"
  by (induction v s rule: pair_version_loop.induct)
     (auto simp: is_digit_iff dec_val_def Let_def split: if_splits)

definition line_end :: "char \<Rightarrow> bool" where
  "line_end c \<longleftrightarrow> c = CHR 0x0a \<or> c = CHR 0x0d \<or> c = NUL"

lemma strip_line_end_split: "\<exists>e. s = strip_line_end s @ e \<and> list_all line_end e"
proof -
  have "rev s = takeWhile line_end (rev s) @ dropWhile line_end (rev s)" by simp
  then have "s = rev (dropWhile line_end (rev s)) @ rev (takeWhile line_end (rev s))"
    by (metis rev_append rev_rev_ident)
  then show ?thesis
    by (intro exI [of _ "rev (takeWhile line_end (rev s))"])
       (auto simp: strip_line_end_def line_end_def [abs_def] list_all_iff dest: set_takeWhileD)
qed

lemma strip_line_end_id: "s \<noteq> [] \<Longrightarrow> \<not> line_end (last s) \<Longrightarrow> list_all line_end e \<Longrightarrow> strip_line_end (s @ e) = s"
proof -
  assume s: "s \<noteq> []" "\<not> line_end (last s)" and e: "list_all line_end e"
  have "dropWhile line_end (rev e @ rev s) = dropWhile line_end (rev s)"
    by (rule dropWhile_append2) (use e in \<open>auto simp: list_all_iff\<close>)
  also have "\<dots> = rev s" using s by (cases s rule: rev_cases) auto
  finally show ?thesis by (simp add: strip_line_end_def line_end_def [abs_def])
qed


lemma pair_version_loop_digits:
  "list_all is_digit s \<Longrightarrow> dec_val v s \<le> 999 \<Longrightarrow> pair_version_loop v s = Some (dec_val v s)"
proof (induction s arbitrary: v)
  case (Cons c s)
  have "dec_val v (c # s) = dec_val (v * 10 + (u8 c - 48)) s" by (simp add: dec_val_def)
  moreover have "v * 10 + (u8 c - 48) \<le> 999"
    using dec_val_ge [of "v * 10 + (u8 c - 48)" s] Cons.prems(2) calculation by simp
  ultimately show ?case using Cons by (simp add: Let_def is_digit_iff)
qed (simp add: dec_val_def)

text \<open>The parts of a pairing code as \<open>api.h\<close> documents it, and what may follow it.\<close>

definition pair_parts :: "bytes \<Rightarrow> bytes \<Rightarrow> bytes \<Rightarrow> bytes \<Rightarrow> bool" where
  "pair_parts ver server code rest \<longleftrightarrow>
    ver \<noteq> [] \<and> list_all is_digit ver \<and> dec_val 0 ver = PAIR_FORMAT \<and>
    CHR ''|'' \<notin> set server \<and> length server < SERVER_URL_MAX \<and>
    (take 7 (cstr server) = ''http://'' \<or> take 8 (cstr server) = ''https://'') \<and>
    CHR ''|'' \<notin> set code \<and> code \<noteq> [] \<and> length code < PAIR_CODE_MAX \<and> \<not> line_end (last code) \<and>
    list_all line_end rest"

lemma digits_no_bar: "list_all is_digit s \<Longrightarrow> CHR ''|'' \<notin> set s"
  by (auto simp: list_all_iff is_digit_iff u8_def)

lemma pair_parse_parts:
  assumes "pair_parts ver server code rest"
  shows "daemoon_pair_parse (Some (''DAEMOON|'' @ ver @ ''|'' @ server @ ''|'' @ code @ rest)) out =
    (OK, \<lparr>pp_server = cstr server, pp_code = cstr code\<rparr>)"
proof -
  note parts = assms [unfolded pair_parts_def]
  have "pair_version_loop 0 ver = Some PAIR_FORMAT"
    using pair_version_loop_digits [of ver 0] parts by (simp add: PAIR_FORMAT_def)
  moreover have "memchr_bar (ver @ ''|'' @ server @ ''|'' @ code @ rest) = Some (length ver)"
    "memchr_bar (server @ ''|'' @ code @ rest) = Some (length server)"
    using memchr_bar_split digits_no_bar parts by simp_all
  moreover have "strip_line_end (code @ rest) = code" using strip_line_end_id parts by blast
  moreover have "server \<noteq> []" using parts by auto
  ultimately show ?thesis using parts by (auto simp: daemoon_pair_parse_def PAIR_TAG_def Let_def)
qed

lemma strip_line_end_last: "strip_line_end s \<noteq> [] \<Longrightarrow> \<not> line_end (last (strip_line_end s))"
  using hd_dropWhile [of line_end "rev s"]
  by (auto simp: strip_line_end_def line_end_def [abs_def] last_rev)

lemma pair_parse_sound:
  assumes "daemoon_pair_parse (Some s) out = (OK, p)"
  shows "\<exists>ver server code rest. s = ''DAEMOON|'' @ ver @ ''|'' @ server @ ''|'' @ code @ rest \<and>
    pair_parts ver server code rest \<and> p = \<lparr>pp_server = cstr server, pp_code = cstr code\<rparr>"
proof -
  define q where "q = drop (length (PAIR_TAG @ ''|'')) s"
  have "take (length (PAIR_TAG @ ''|'')) s = PAIR_TAG @ ''|''"
    using assms by (auto simp: daemoon_pair_parse_def Let_def split: if_splits)
  then have tag: "s = PAIR_TAG @ ''|'' @ q"
    unfolding q_def by (metis append.assoc append_take_drop_id)
  note step = assms [unfolded daemoon_pair_parse_def option.case Let_def, folded q_def]
  obtain bar where bar: "memchr_bar q = Some bar" "bar \<noteq> 0"
    using step by (auto split: if_splits option.splits)
  then obtain ver q2 where ver: "q = ver @ CHR ''|'' # q2" "bar = length ver" by (auto simp: memchr_bar_Some)
  with step bar have v: "pair_version_loop 0 ver = Some PAIR_FORMAT"
    by (auto split: if_splits option.splits)
  obtain n where n: "memchr_bar q2 = Some n"
    using step bar ver v by (auto split: if_splits option.splits)
  then obtain server q3 where server: "q2 = server @ CHR ''|'' # q3" "n = length server" "CHR ''|'' \<notin> set server"
    by (auto simp: memchr_bar_Some)
  obtain rest where rest: "q3 = strip_line_end q3 @ rest" "list_all line_end rest"
    using strip_line_end_split by blast
  have res: "length server < SERVER_URL_MAX"
    "take 7 (cstr server) = ''http://'' \<or> take 8 (cstr server) = ''https://''"
    "strip_line_end q3 \<noteq> []" "length (strip_line_end q3) < PAIR_CODE_MAX" "CHR ''|'' \<notin> set (strip_line_end q3)"
    "p = \<lparr>pp_server = cstr server, pp_code = cstr (strip_line_end q3)\<rparr>"
    using step bar ver v n server by (auto split: if_splits)
  have "pair_parts ver server (strip_line_end q3) rest"
    using res rest(2) server(3) bar ver(2) pair_version_loop_Some [OF v] strip_line_end_last [OF res(3)]
    by (auto simp: pair_parts_def)
  moreover have "s = ''DAEMOON|'' @ ver @ ''|'' @ server @ ''|'' @ strip_line_end q3 @ rest"
    using tag ver server rest(1) by (simp add: PAIR_TAG_def)
  ultimately show ?thesis using res(6) by blast
qed

section \<open>Routing\<close>

text \<open>A net backend that hands over these pieces, whatever the answers, and then ends.\<close>

primrec exchange_of :: "(int \<times> bytes) list \<Rightarrow> result \<Rightarrow> http_resp \<Rightarrow> 'w \<Rightarrow> 'w exchange" where
  "exchange_of [] r resp w = XDone r resp w"
| "exchange_of (p # ps) r resp w = XBody (fst p) (snd p) w (\<lambda>_ w'. exchange_of ps r resp w')"

lemma exchange_refused:
  "sk_err s \<noteq> OK \<Longrightarrow>
    run_exchange pull push_body (exchange_of ps r resp w) (x, s) = Some ((r, resp, x, s), w)"
  by (induction ps arbitrary: w)
     (simp_all add: push_body_def api_body_write_def bind_io_def return_io_def)

definition pieces_where :: "(int \<Rightarrow> bool) \<Rightarrow> (int \<times> bytes) list \<Rightarrow> bytes" where
  "pieces_where Q ps = concat (map snd (filter (\<lambda>p. Q (fst p)) ps))"

lemma pieces_where_simps [simp]:
  "pieces_where Q [] = []"
  "pieces_where Q (p # ps) = (if Q (fst p) then snd p @ pieces_where Q ps else pieces_where Q ps)"
  by (simp_all add: pieces_where_def)

lemma exchange_routed:
  fixes sunk :: "'w \<Rightarrow> bytes" and ps :: "(int \<times> bytes) list"
  defines "before \<equiv> \<lambda>ps. takeWhile (\<lambda>p. fst p \<noteq> 0) ps"
  assumes dst: "st_write dst = Some wr"
    "\<And>bs w. \<exists>w'. wr bs w = (OK, w') \<and> sunk w' = sunk w @ bs"
    and s: "sk_sink s = Some dst" "sk_err s = OK" "sk_err_body s = membuf_of API_ERRBUF_MAX E"
  shows "\<exists>s' w'. run_exchange pull push_body (exchange_of ps r resp w) (x, s) = Some ((r, resp, x, s'), w') \<and>
    sunk w' = sunk w @ pieces_where status_ok (before ps) \<and>
    sk_err_body s' = membuf_of API_ERRBUF_MAX (E @ pieces_where (\<lambda>st. \<not> status_ok st) (before ps)) \<and>
    sk_err s' = (if before ps = ps then OK else ERR_BACKEND_ERROR)"
  using s
proof (induction ps arbitrary: s E w)
  case Nil
  then show ?case by (simp add: before_def)
next
  case (Cons p ps)
  obtain status bs where p: "p = (status, bs)" by (cases p)
  consider "status = 0" | "status \<noteq> 0" "status_ok status" | "status \<noteq> 0" "\<not> status_ok status" by blast
  then show ?case
  proof cases
    case 1
    then have "push_body (x, s) status bs w = Some ((ERR_BACKEND_ERROR, x, s\<lparr>sk_err := ERR_BACKEND_ERROR\<rparr>), w)"
      using Cons.prems by (simp add: push_body_def api_body_write_def bind_io_def return_io_def)
    with 1 Cons.prems show ?thesis by (simp add: p before_def exchange_refused)
  next
    case 2
    obtain w1 where w1: "daemoon_stream_write (Some dst) bs w = Some (OK, w1)" "sunk w1 = sunk w @ bs"
      using dst(2) [of bs w] by (cases "bs = []") (auto simp: daemoon_stream_write_def dst(1) call_io_def return_io_def)
    then have "push_body (x, s) status bs w = Some ((OK, x, s\<lparr>sk_err := OK\<rparr>), w1)"
      using Cons.prems 2 by (simp add: push_body_def api_body_write_def bind_io_def return_io_def)
    with Cons.IH [of "s\<lparr>sk_err := OK\<rparr>" E w1] Cons.prems 2 w1(2) show ?thesis
      by (auto simp: p before_def)
  next
    case 3
    let ?s = "s\<lparr>sk_err_body := membuf_of API_ERRBUF_MAX (E @ bs)\<rparr>"
    have "push_body (x, s) status bs w = Some ((OK, x, ?s), w)"
      using Cons.prems 3 membuf_append_of [of API_ERRBUF_MAX E bs]
      by (simp add: push_body_def api_body_write_def bind_io_def return_io_def API_ERRBUF_MAX_def)
    with Cons.IH [of ?s "E @ bs" w] Cons.prems 3 show ?thesis by (auto simp: p before_def)
  qed
qed


section \<open>Properties\<close>

text \<open>C36 A response body is routed by its status, piece by piece: only pieces of a success status reach
  the file a download is written to, in order and complete, pieces of any other status fill the small
  error buffer as far as it goes, and from a piece that comes before its status is known, nothing goes
  anywhere and the transfer is an error.\<close>
theorem response_body_routed:
  fixes sunk :: "'w \<Rightarrow> bytes" and ps :: "(int \<times> bytes) list"
  assumes "st_write dst = Some wr" "\<And>bs w. \<exists>w'. wr bs w = (OK, w') \<and> sunk w' = sunk w @ bs"
    and "before = takeWhile (\<lambda>p. fst p \<noteq> 0) ps"
  shows "\<exists>s w'. run_exchange pull push_body (exchange_of ps r resp w) (x, mk_sink (Some dst) n) = Some ((r, resp, x, s), w') \<and>
    sunk w' = sunk w @ pieces_where status_ok before \<and>
    am_buf (sk_err_body s) = take 511 (pieces_where (\<lambda>st. \<not> status_ok st) before) \<and>
    sk_err s = (if before = ps then OK else ERR_BACKEND_ERROR)"
proof -
  have "sk_err_body (mk_sink (Some dst) n) = membuf_of API_ERRBUF_MAX []"
    by (simp add: mk_sink_def membuf_init_of)
  from exchange_routed [where sunk = sunk, OF assms(1,2) _ _ this, where ps = ps and pull = pull and r = r and resp = resp
      and w = w and x = x] show ?thesis
    by (auto simp: mk_sink_def assms(3) membuf_of_def API_ERRBUF_MAX_def simp del: takeWhile_eq_all_conv)
qed

definition mixed_pieces :: "(int \<times> bytes) list" where
  "mixed_pieces = [(200, ''ab''), (404, ''no''), (206, ''c''), (0, ''x''), (200, ''d'')]"

theorem response_body_routed_witness:
  "\<exists>s w'. run_exchange (pull_body no_body) push_body (exchange_of mixed_pieces OK resp_zero ([], []))
      ((), mk_sink (Some mem_sink) 0) = Some ((OK, resp_zero, (), s), w') \<and> snd w' = ''abc'' \<and>
    am_buf (sk_err_body s) = ''no'' \<and> sk_err s = ERR_BACKEND_ERROR"
proof -
  have wr: "\<exists>w'. mem_write bs w = (OK, w') \<and> snd w' = snd w @ bs" for bs w
    by (simp add: mem_write_def)
  have sink: "st_write mem_sink = Some mem_write" by (simp add: mem_sink_def)
  have pieces: "takeWhile (\<lambda>p. fst p \<noteq> 0) mixed_pieces \<noteq> mixed_pieces"
    "pieces_where status_ok (takeWhile (\<lambda>p. fst p \<noteq> 0) mixed_pieces) = ''abc''"
    "pieces_where (\<lambda>st. \<not> status_ok st) (takeWhile (\<lambda>p. fst p \<noteq> 0) mixed_pieces) = ''no''"
    by (simp_all add: mixed_pieces_def status_ok_def)
  show ?thesis
    using response_body_routed [where sunk = snd, OF sink wr refl, where ps = mixed_pieces
        and pull = "pull_body no_body" and r = OK and resp = resp_zero and w = "([], [])" and x = "()" and n = 0] pieces
    by (simp del: takeWhile_eq_all_conv)
qed

text \<open>C37 Requests are bounded: whatever the net backend answers, a request without a body is sent at most
  three times and one with a body, an upload or a pairing, at most once, where the counter is anything
  that a single request raises by one at most.\<close>
theorem api_do_attempts_bounded:
  fixes count :: "'w \<Rightarrow> nat"
  assumes "\<And>u w. wp (run_request env req body u) (\<lambda>_ w'. count w' \<le> count w + 1) w"
    and "api_do env req body b sink w = Some ((r, resp, sink'), w')"
  shows "count w' \<le> count w + (if body = None then 3 else 1)"
  using wpD [OF wp_api_do [OF assms(1)] assms(2)] by (simp add: max_attempts_def RETRY_CEILING_def split: if_splits)

text \<open>A net backend that counts its requests and times out.\<close>

definition timeout_net :: "nat net_backend" where
  "timeout_net = \<lparr>nt_request = Some (\<lambda>req w. XDone ERR_TIMEOUT resp_zero (w + 1))\<rparr>"

definition timeout_env :: "nat env" where
  "timeout_env = idle_env\<lparr>env_net := Some timeout_net\<rparr>"

lemma timeout_request: "run_request timeout_env req body u w = Some ((ERR_TIMEOUT, resp_zero, u), w + 1)"
  by (simp add: run_request_def timeout_env_def timeout_net_def)

theorem api_do_attempts_bounded_witness:
  "\<exists>s. api_do timeout_env (mk_req ''GET'' [] [] False (-1)) no_body () (mk_sink None 4) 7 = Some ((ERR_TIMEOUT, resp_zero, s), 10) \<and>
    (10 :: nat) \<le> 7 + 3"
proof -
  have "daemoon_result_retryable ERR_TIMEOUT"
    by (simp add: daemoon_result_retryable_def find_row_def k_errors_def mk_row_def)
  then have "\<exists>s. api_do timeout_env (mk_req ''GET'' [] [] False (-1)) no_body () (mk_sink None 4) 7 =
      Some ((ERR_TIMEOUT, resp_zero, s), 10)"
    by (simp add: api_do_def net_available_def timeout_request max_attempts_def no_body_def RETRY_CEILING_def
        bind_io_def return_io_def numeral_3_eq_3 timeout_env_def timeout_net_def run_request_def)
  then obtain s where s: "api_do timeout_env (mk_req ''GET'' [] [] False (-1)) no_body () (mk_sink None 4) 7 =
      Some ((ERR_TIMEOUT, resp_zero, s), 10)" by blast
  have "wp (run_request timeout_env req body u) (\<lambda>_ w'. id w' \<le> id w + 1) w" for req u w and body :: "(nat, unit) body_read"
    by (simp add: wp_def timeout_request)
  from api_do_attempts_bounded [OF this s] s show ?thesis by (auto simp: no_body_def)
qed




text \<open>C40 A pairing code is accepted exactly when it is written as documented, and read back as it was
  written: the tag, a version that is one, a server without a bar that names http or https, a code of
  1 to 15 bytes without a bar, and nothing behind it but line ends.\<close>
theorem pair_parse_exact:
  "daemoon_pair_parse (Some s) out = (OK, p) \<longleftrightarrow>
    (\<exists>ver server code rest. s = ''DAEMOON|'' @ ver @ ''|'' @ server @ ''|'' @ code @ rest \<and>
      pair_parts ver server code rest \<and> p = \<lparr>pp_server = cstr server, pp_code = cstr code\<rparr>)"
  by (metis pair_parse_parts pair_parse_sound)

text \<open>The address of a request determines the title and its platform: two requests for the newest
  version, or for a version's package, made against one server, have the same address only if they name
  the same title on the same platform, and the same version.\<close>
lemma addresses_distinct:
  assumes "latest_url env p t = Inr sb" "latest_url env q u = Inr sb'"
    and "download_url env p t v = Inr db" "download_url env q u v' = Inr db'" "v < 2 ^ 32" "v' < 2 ^ 32"
  shows "(sb_buf sb = sb_buf sb' \<longleftrightarrow> cstr t = cstr u \<and> p = q) \<and>
    (sb_buf db = sb_buf db' \<longleftrightarrow> cstr t = cstr u \<and> p = q \<and> v = v')"
proof
  note delim = segment_delim [OF _ url_segment_no_slash url_segment_no_slash]
  show "sb_buf sb = sb_buf sb' \<longleftrightarrow> cstr t = cstr u \<and> p = q"
  proof
    assume "sb_buf sb = sb_buf sb'"
    then have "url_segment t @ CHR ''/'' # ''latest?platform='' @ daemoon_platform_name p =
        url_segment u @ CHR ''/'' # ''latest?platform='' @ daemoon_platform_name q"
      using assms(1,2) by (simp add: latest_url_text)
    from delim [OF this] have "url_segment t = url_segment u" "daemoon_platform_name p = daemoon_platform_name q"
      by simp_all
    then show "cstr t = cstr u \<and> p = q" using url_segment_inj platform.name_inj by blast
  qed (use assms(1,2) in \<open>simp add: latest_url_text url_segment_def\<close>)
  show "sb_buf db = sb_buf db' \<longleftrightarrow> cstr t = cstr u \<and> p = q \<and> v = v'"
  proof
    assume "sb_buf db = sb_buf db'"
    then have "url_segment t @ CHR ''/'' # ''blob/'' @ dec v @ ''?platform='' @ daemoon_platform_name p =
        url_segment u @ CHR ''/'' # ''blob/'' @ dec v' @ ''?platform='' @ daemoon_platform_name q"
      using assms(3-6) by (simp add: download_url_text)
    from delim [OF this] have same: "url_segment t = url_segment u"
      and rest: "dec v @ CHR ''?'' # ''platform='' @ daemoon_platform_name p =
        dec v' @ CHR ''?'' # ''platform='' @ daemoon_platform_name q"
      by simp_all
    have "CHR ''?'' \<notin> set (dec n)" for n
      using dec_digits [of n] by (auto simp: list_all_iff is_digit_iff u8_def)
    from delim_split [OF this this rest] have "dec v = dec v'" "p = q"
      by (simp_all add: platform.name_inj)
    with same show "cstr t = cstr u \<and> p = q \<and> v = v'"
      using url_segment_inj dec_inj by blast
  qed (use assms(3-6) in \<open>simp add: download_url_text url_segment_def\<close>)
qed

lemma addresses_distinct_witness:
  "\<exists>sb sb'. latest_url (idle_env\<lparr>env_server_url := Some ''http://s''\<rparr> :: unit env) PLATFORM_3DS ''a/b'' = Inr sb \<and>
    latest_url (idle_env\<lparr>env_server_url := Some ''http://s''\<rparr> :: unit env) PLATFORM_3DS ''a'' = Inr sb' \<and>
    sb_buf sb \<noteq> sb_buf sb'"
proof -
  let ?env = "idle_env\<lparr>env_server_url := Some ''http://s''\<rparr> :: unit env"
  have urls: "\<exists>sb. latest_url ?env PLATFORM_3DS t = Inr sb" "\<exists>sb. download_url ?env PLATFORM_3DS t 1 = Inr sb"
    if "length t \<le> 3" "nul_free t" for t
  proof -
    have "length (concat (map url_escape t)) \<le> 9"
    proof -
      have "length (concat (map url_escape s)) \<le> 3 * length s" for s
        by (induction s) (auto simp: url_escape_def)
      from this [of t] that(1) show ?thesis by simp
    qed
    moreover have "length (dec 1) \<le> 1" by (rule dec_length) simp_all
    ultimately show "\<exists>sb. latest_url ?env PLATFORM_3DS t = Inr sb" "\<exists>sb. download_url ?env PLATFORM_3DS t 1 = Inr sb"
      using that(2)
      by (auto simp: latest_url_def download_url_def build_base_text base_url_def c_string_empty_def sb_simps Let_def
          cstr_Cons API_URL_MAX_def idle_env_def)
  qed
  obtain sb where sb: "latest_url ?env PLATFORM_3DS ''a/b'' = Inr sb" using urls(1) [of "''a/b''"] by auto
  obtain sb' where sb': "latest_url ?env PLATFORM_3DS ''a'' = Inr sb'" using urls(1) [of "''a''"] by auto
  obtain db where db: "download_url ?env PLATFORM_3DS ''a/b'' 1 = Inr db" using urls(2) [of "''a/b''"] by auto
  obtain db' where db': "download_url ?env PLATFORM_3DS ''a'' 1 = Inr db'" using urls(2) [of "''a''"] by auto
  have "sb_buf sb \<noteq> sb_buf sb'"
    using addresses_distinct [OF sb sb' db db'] by (simp add: cstr_Cons)
  with sb sb' show ?thesis by blast
qed

end
