(* ===== verification/Sync.thy ===== *)
theory Sync
  imports I18n Api
begin

text \<open>
  \<open>core/src/sync.c\<close> and \<open>sync.h\<close>: what to do with a title, and doing it.

  The decision (\<open>daemoon_sync_decide\<close>) is a pure function. The rest are programs over the
  platform interfaces, the zip library (\<open>mz\<close>) and the server calls. The caller's work area
  (\<open>actx\<close>) is filled by every operation before it is read, so it is not passed along: the
  archive operations return the table they filled. Paths are returned by the builders that fill the
  caller's buffers. A buffer an operation fills only on success is part of a sum.
\<close>

section \<open>Data\<close>

definition SYNC_STATE_MAX_BYTES :: nat where "SYNC_STATE_MAX_BYTES = 512"
definition SYNC_STATE_TOKENS :: nat where "SYNC_STATE_TOKENS = 32"
definition SYNC_PATH_MAX :: nat where "SYNC_PATH_MAX = PATH_MAX * 2"
definition k_epoch :: bytes where "k_epoch = TIMESTAMP_NONE"

datatype sync_action = SYNC_NONE | SYNC_UPLOAD | SYNC_DOWNLOAD | SYNC_CONFLICT

fun daemoon_sync_action_name :: "sync_action \<Rightarrow> bytes" where
  "daemoon_sync_action_name SYNC_UPLOAD = ''upload''"
| "daemoon_sync_action_name SYNC_DOWNLOAD = ''download''"
| "daemoon_sync_action_name SYNC_CONFLICT = ''conflict''"
| "daemoon_sync_action_name SYNC_NONE = ''none''"

fun daemoon_sync_action_str :: "sync_action \<Rightarrow> str_id" where
  "daemoon_sync_action_str SYNC_UPLOAD = STR_SYNC_ACTION_UPLOAD"
| "daemoon_sync_action_str SYNC_DOWNLOAD = STR_SYNC_ACTION_DOWNLOAD"
| "daemoon_sync_action_str SYNC_CONFLICT = STR_SYNC_ACTION_CONFLICT"
| "daemoon_sync_action_str SYNC_NONE = STR_SYNC_ACTION_NONE"

record local_state =
  lo_has_save :: bool
  lo_sha256 :: bytes
  lo_size :: nat
  lo_base_version :: nat
  lo_base_sha256 :: bytes

definition no_local :: local_state where
  "no_local = \<lparr>lo_has_save = False, lo_sha256 = [], lo_size = 0, lo_base_version = 0, lo_base_sha256 = []\<rparr>"

record sync_stats =
  ss_uploaded :: nat
  ss_downloaded :: nat
  ss_skipped :: nat
  ss_conflicts :: nat
  ss_failed :: nat

datatype conflict_policy = POLICY_ASK | POLICY_KEEP_LOCAL | POLICY_KEEP_SERVER | POLICY_DEFER

record sync_opts =
  so_conflict :: conflict_policy
  so_upload_confirmed :: bool
  so_restore_confirmed :: bool

definition CONFLICT_KEEP_LOCAL :: int where "CONFLICT_KEEP_LOCAL = 0"
definition CONFLICT_KEEP_SERVER :: int where "CONFLICT_KEEP_SERVER = 1"
definition CONFLICT_DEFER :: int where "CONFLICT_DEFER = 2"

text \<open>An \<open>unsigned\<close> counter counted up.\<close>

definition bump :: "nat \<Rightarrow> nat" where
  "bump n = to_uint (n + 1)"

section \<open>The decision\<close>

definition daemoon_sync_local_dirty :: "local_state option \<Rightarrow> bool" where
  "daemoon_sync_local_dirty local =
    (case local of None \<Rightarrow> False
     | Some l \<Rightarrow>
        if \<not> lo_has_save l then False
        else if lo_base_version l = VERSION_NONE \<or> c_string_empty (Some (lo_base_sha256 l)) then True
        else \<not> daemoon_sha256_hex_equal (Some (lo_sha256 l)) (Some (lo_base_sha256 l)))"

definition daemoon_sync_decide :: "local_state option \<Rightarrow> remote_meta option \<Rightarrow> sync_action" where
  "daemoon_sync_decide local remote =
    (case (local, remote) of
      (Some l, Some m) \<Rightarrow>
        if \<not> lo_has_save l then (if rm_exists m then SYNC_DOWNLOAD else SYNC_NONE)
        else if \<not> rm_exists m then SYNC_UPLOAD
        else if daemoon_sha256_hex_equal (Some (lo_sha256 l)) (Some (rm_sha256 m)) then SYNC_NONE
        else
         (let dirty = daemoon_sync_local_dirty local
          in if lo_base_version l = rm_latest_version m then (if dirty then SYNC_UPLOAD else SYNC_CONFLICT)
             else if lo_base_version l < rm_latest_version m then (if dirty then SYNC_CONFLICT else SYNC_DOWNLOAD)
             else SYNC_CONFLICT)
    | _ \<Rightarrow> SYNC_NONE)"

section \<open>Paths\<close>

definition sb_finish :: "strbuf \<Rightarrow> result + bytes" where
  "sb_finish sb = (if daemoon_strbuf_result sb \<noteq> OK then Inl (daemoon_strbuf_result sb) else Inr (sb_buf sb))"

definition join_path :: "nat \<Rightarrow> bytes option \<Rightarrow> bytes option \<Rightarrow> bytes option \<Rightarrow> result + bytes" where
  "join_path cap a b c =
    (let sb = daemoon_strbuf_init cap;
         sb = daemoon_strbuf_add sb a;
         sb = (if b \<noteq> None then daemoon_strbuf_add (daemoon_strbuf_addc sb CHR ''/'') b else sb);
         sb = (if c \<noteq> None then daemoon_strbuf_add (daemoon_strbuf_addc sb CHR ''/'') c else sb)
     in sb_finish sb)"

definition title_key :: "nat \<Rightarrow> platform \<Rightarrow> bytes \<Rightarrow> result + bytes" where
  "title_key cap platform title_id =
    (let sb = daemoon_strbuf_init cap;
         sb = sb_add sb (daemoon_platform_name platform);
         sb = daemoon_strbuf_addc sb CHR ''_'';
         sb = sb_add sb title_id
     in sb_finish sb)"

text \<open>A text and a suffix, as the leaf names and the temporary names are built.\<close>

definition with_suffix :: "nat \<Rightarrow> bytes \<Rightarrow> bytes \<Rightarrow> result + bytes" where
  "with_suffix cap a ext = sb_finish (sb_add (sb_add (daemoon_strbuf_init cap) a) ext)"

definition state_path :: "'w env \<Rightarrow> platform \<Rightarrow> bytes \<Rightarrow> nat \<Rightarrow> result + bytes" where
  "state_path env platform title_id cap =
    bind_sum (title_key (TITLE_ID_MAX + 16) platform title_id) (\<lambda>key.
    bind_sum (with_suffix (TITLE_ID_MAX + 24) key ''.json'') (\<lambda>leaf.
    join_path cap (env_work_dir env) (Some ''state'') (Some leaf)))"

section \<open>The file system behind the interface\<close>

definition fs_open_file :: "'w env \<Rightarrow> bytes \<Rightarrow> open_mode \<Rightarrow> ('w, result \<times> 'w stream_ptr) prog" where
  "fs_open_file env path mode = call_fn (env_fs env) fs_open (\<lambda>f. f path mode)"

definition fs_remove_file :: "'w env \<Rightarrow> bytes \<Rightarrow> ('w, result) prog" where
  "fs_remove_file env path = call_fn (env_fs env) fs_remove (\<lambda>f. f path)"

definition fs_rename_file :: "'w env \<Rightarrow> bytes \<Rightarrow> bytes \<Rightarrow> ('w, result) prog" where
  "fs_rename_file env a b = call_fn (env_fs env) fs_rename (\<lambda>f. f a b)"

definition fs_make_dir :: "'w env \<Rightarrow> bytes \<Rightarrow> ('w, result) prog" where
  "fs_make_dir env path = call_fn (env_fs env) fs_mkdir_p (\<lambda>f. f path)"

definition fs_file_exists :: "'w env \<Rightarrow> bytes \<Rightarrow> ('w, bool) prog" where
  "fs_file_exists env path = call_fn (env_fs env) fs_exists (\<lambda>f. f path)"

text \<open>The \<open>remove\<close> and return of a failed operation on a temporary file.\<close>

definition discard :: "'w env \<Rightarrow> bytes \<Rightarrow> result \<Rightarrow> ('w, result) prog" where
  "discard env path r = bind_io (fs_remove_file env path) (\<lambda>_. return_io r)"

section \<open>The state file\<close>

text \<open>The read loop of \<open>daemoon_sync_state_load\<close>: the bytes, or a failure after the file was closed.\<close>

function state_read_loop :: "'w stream_ptr \<Rightarrow> bytes \<Rightarrow> ('w, result \<times> bytes) prog" where
  "state_read_loop f json w =
    (case daemoon_stream_read f (SYNC_STATE_MAX_BYTES - 1 - length json) w of None \<Rightarrow> None
     | Some ((r, got), w) \<Rightarrow>
        if r \<noteq> OK then bind_io (daemoon_stream_close f) (\<lambda>_. return_io (r, json)) w
        else if got = [] then Some ((OK, json), w)
        else if length (json @ got) \<ge> SYNC_STATE_MAX_BYTES - 1
        then bind_io (daemoon_stream_close f) (\<lambda>_. return_io (ERR_PARSE_ERROR, json @ got)) w
        else state_read_loop f (json @ got) w)"
  by pat_completeness auto
termination
  by (relation "measure (\<lambda>(f, json, w). SYNC_STATE_MAX_BYTES - length json)")
     (auto simp: SYNC_STATE_MAX_BYTES_def intro!: diff_less_mono2)

declare state_read_loop.simps [simp del]

text \<open>What the two lookups write into the state.\<close>

definition state_from_toks :: "bytes \<Rightarrow> jsmntok list \<Rightarrow> local_state \<Rightarrow> local_state" where
  "state_from_toks js toks out =
    (let out = (case daemoon_json_get_uint js toks 0 ''base_version'' of
          Inr n \<Rightarrow> if n \<le> 0xffffffff then out\<lparr>lo_base_version := n\<rparr> else out
        | Inl _ \<Rightarrow> out)
     in out\<lparr>lo_base_sha256 :=
          the (snd (daemoon_json_get_str js toks 0 ''base_sha256'' (Some (lo_base_sha256 out)) SHA256_HEX))\<rparr>)"

text \<open>Result and \<open>*out\<close> afterwards.\<close>

definition daemoon_sync_state_load ::
  "'w env \<Rightarrow> platform \<Rightarrow> bytes \<Rightarrow> local_state \<Rightarrow> ('w, result \<times> local_state) prog" where
  "daemoon_sync_state_load env platform title_id out =
    (let out = out\<lparr>lo_base_version := VERSION_NONE, lo_base_sha256 := []\<rparr> in
     case state_path env platform title_id SYNC_PATH_MAX of Inl r \<Rightarrow> return_io (r, out)
     | Inr path \<Rightarrow>
        bind_io (fs_file_exists env path) (\<lambda>there.
        if \<not> there then return_io (OK, out)
        else bind_io (fs_open_file env path OPEN_READ) (\<lambda>(r, f).
        if r \<noteq> OK then return_io (r, out)
        else bind_io (state_read_loop f []) (\<lambda>(r, json).
        if r \<noteq> OK then return_io (r, out)
        else bind_io (daemoon_stream_close f) (\<lambda>r.
        if r \<noteq> OK then return_io (r, out)
        else case daemoon_json_parse (Some json) SYNC_STATE_TOKENS of
          Inl r \<Rightarrow> return_io (r, out)
        | Inr toks \<Rightarrow> return_io (OK, state_from_toks json toks out))))))"

definition state_json :: "platform \<Rightarrow> bytes \<Rightarrow> local_state \<Rightarrow> strbuf" where
  "state_json platform title_id st =
    (let sb = daemoon_strbuf_init SYNC_STATE_MAX_BYTES;
         sb = sb_add sb ''{\"format_version\":1,\"platform\":\"'';
         sb = sb_json sb (daemoon_platform_name platform);
         sb = sb_add sb ''\",\"title_id\":\"'';
         sb = sb_json sb title_id;
         sb = sb_add sb ''\",\"base_version\":'';
         sb = daemoon_strbuf_add_uint sb (lo_base_version st);
         sb = sb_add sb '',\"base_sha256\":\"'';
         sb = sb_json sb (lo_base_sha256 st)
     in sb_add sb ''\"}'')"

text \<open>A file written under a temporary name and then renamed.\<close>

definition write_then_rename :: "'w env \<Rightarrow> bytes \<Rightarrow> bytes \<Rightarrow> bytes \<Rightarrow> ('w, result) prog" where
  "write_then_rename env tmp path json =
    bind_io (fs_open_file env tmp OPEN_WRITE) (\<lambda>(r, f).
      if r \<noteq> OK then return_io r
      else bind_io (daemoon_stream_write f json) (\<lambda>r.
      if r \<noteq> OK then bind_io (daemoon_stream_close f) (\<lambda>_. discard env tmp r)
      else bind_io (daemoon_stream_close f) (\<lambda>r.
      if r \<noteq> OK then discard env tmp r
      else bind_io (fs_rename_file env tmp path) (\<lambda>r.
      if r \<noteq> OK then discard env tmp r else return_io OK))))"

definition daemoon_sync_state_save ::
  "'w env \<Rightarrow> platform \<Rightarrow> bytes \<Rightarrow> local_state \<Rightarrow> ('w, result) prog" where
  "daemoon_sync_state_save env platform title_id st =
    (case join_path SYNC_PATH_MAX (env_work_dir env) (Some ''state'') None of Inl r \<Rightarrow> return_io r
     | Inr dir \<Rightarrow>
        TRY (fs_make_dir env dir)
          (case state_path env platform title_id SYNC_PATH_MAX of Inl r \<Rightarrow> return_io r
           | Inr path \<Rightarrow>
             (case with_suffix SYNC_PATH_MAX path ''.tmp'' of Inl r \<Rightarrow> return_io r
              | Inr tmp \<Rightarrow>
                (case sb_finish (state_json platform title_id st) of Inl r \<Rightarrow> return_io r
                 | Inr json \<Rightarrow> write_then_rename env tmp path json))))"


section \<open>Looking at this console\<close>

definition open_save :: "'w env \<Rightarrow> title \<Rightarrow> ('w, result \<times> save_handle) prog" where
  "open_save env title = call_fn (env_save env) sv_open_save (\<lambda>f. f title)"

definition close_save :: "'w env \<Rightarrow> save_handle \<Rightarrow> ('w, result) prog" where
  "close_save env save = call_fn (env_save env) sv_close_save (\<lambda>f. f save)"

text \<open>Result and \<open>*out\<close> afterwards.\<close>

definition daemoon_sync_scan_local :: "'w env \<Rightarrow> title \<Rightarrow> ('w, result \<times> local_state) prog" where
  "daemoon_sync_scan_local env title =
    bind_io (daemoon_sync_state_load env (ti_platform title) (ti_id title) no_local) (\<lambda>(r, out).
      if r \<noteq> OK then return_io (r, out)
      else bind_io (open_save env title) (\<lambda>(r, save).
      if r = ERR_NOT_FOUND then return_io (OK, out\<lparr>lo_has_save := False\<rparr>)
      else if r \<noteq> OK then return_io (r, out)
      else bind_io (daemoon_archive_hash_save env save) (\<lambda>(r, es, hex, n).
      if r \<noteq> OK then bind_io (close_save env save) (\<lambda>_. return_io (r, out))
      else
       (let out = out\<lparr>lo_sha256 := hex, lo_size := n\<rparr> in
        bind_io (close_save env save) (\<lambda>r.
        if r \<noteq> OK then return_io (r, out) else return_io (OK, out\<lparr>lo_has_save := True\<rparr>))))))"

section \<open>Backup\<close>

definition fill_created_at :: "'w env \<Rightarrow> nat \<Rightarrow> ('w, result \<times> bytes) prog" where
  "fill_created_at env cap =
    (let epoch = (case daemoon_strlcpy (Some []) cap (Some k_epoch) of (r, buf) \<Rightarrow> return_io (r, the buf))
     in case env_clock env of None \<Rightarrow> epoch
        | Some clock \<Rightarrow>
           bind_io (call_io (clock cap)) (\<lambda>(r, buf).
             if r = OK \<and> cstr buf \<noteq> [] then return_io (OK, cstr buf) else epoch))"

text \<open>The manifest a pack starts from; a failure is one of the two copies or of the clock text.\<close>

definition title_manifest :: "'w env \<Rightarrow> title \<Rightarrow> nat \<Rightarrow> ('w, result + manifest) prog" where
  "title_manifest env title parent_version =
    (let m = daemoon_manifest_init\<lparr>mf_platform := ti_platform title, mf_save_type := ti_save_type title,
           mf_version := VERSION_NONE, mf_parent_version := parent_version\<rparr> in
     case daemoon_strlcpy (Some []) TITLE_ID_MAX (Some (ti_id title)) of (r, title_id) \<Rightarrow>
     if r \<noteq> OK then return_io (Inl r)
     else case daemoon_strlcpy (Some []) LABEL_MAX (env_device_label env) of (r, label) \<Rightarrow>
     if r \<noteq> OK then return_io (Inl r)
     else
      (let name = snd (daemoon_strlcpy (Some []) NAME_MAX (Some (ti_name title)));
           m = m\<lparr>mf_title_id := the title_id, mf_device_label := the label, mf_title_name := the name\<rparr> in
       bind_io (fill_created_at env TIMESTAMP_MAX) (\<lambda>(r, created_at).
       if r \<noteq> OK then return_io (Inl r)
       else
        (let m = m\<lparr>mf_created_at := created_at\<rparr> in
         case env_save env of None \<Rightarrow> (\<lambda>_. None)
         | Some backend \<Rightarrow>
           (case sv_read_secure_value backend of None \<Rightarrow> return_io (Inr m)
            | Some read_value \<Rightarrow>
               bind_io (call_io (read_value title)) (\<lambda>(r, there, v).
                 if r = OK \<and> there \<noteq> 0
                 then return_io (Inr (m\<lparr>mf_has_secure_value := True, mf_secure_value := v\<rparr>))
                 else return_io (Inr m)))))))"

text \<open>From the opened save and file to the renamed package. Result and manifest.\<close>

definition pack_and_rename ::
  "'w env \<Rightarrow> 'z miniz \<Rightarrow> save_handle \<Rightarrow> 'w stream_ptr \<Rightarrow> manifest \<Rightarrow> bytes \<Rightarrow> bytes \<Rightarrow> ('w, result + manifest) prog" where
  "pack_and_rename env mz save f m tmp out_path =
    bind_io (daemoon_archive_pack env mz save m f) (\<lambda>(r, es, m).
      let r = (if r = OK \<and> length es = 0 then ERR_EMPTY_SAVE else r) in
      bind_io (if r = OK then daemoon_stream_close f
               else bind_io (daemoon_stream_close f) (\<lambda>_. return_io r)) (\<lambda>r.
      bind_io (close_save env save) (\<lambda>_.
      if r \<noteq> OK then bind_io (discard env tmp r) (\<lambda>r. return_io (Inl r))
      else bind_io (fs_rename_file env tmp out_path) (\<lambda>r.
      if r \<noteq> OK then bind_io (discard env tmp r) (\<lambda>r. return_io (Inl r))
      else return_io (Inr m)))))"

definition pack_title_to ::
  "'w env \<Rightarrow> 'z miniz \<Rightarrow> title \<Rightarrow> nat \<Rightarrow> bytes \<Rightarrow> ('w, result + manifest) prog" where
  "pack_title_to env mz title parent_version out_path =
    bind_io (title_manifest env title parent_version) (\<lambda>x.
      case x of Inl r \<Rightarrow> return_io (Inl r)
      | Inr m \<Rightarrow>
        (case with_suffix SYNC_PATH_MAX out_path ''.part'' of Inl r \<Rightarrow> return_io (Inl r)
         | Inr tmp \<Rightarrow>
           bind_io (open_save env title) (\<lambda>(r, save).
           if r \<noteq> OK then return_io (Inl r)
           else bind_io (fs_open_file env tmp OPEN_WRITE) (\<lambda>(r, f).
           if r \<noteq> OK then bind_io (close_save env save) (\<lambda>_. return_io (Inl r))
           else pack_and_rename env mz save f m tmp out_path))))"

text \<open>The name of a backup: the title's key and the first twelve digits of its digest.\<close>

definition backup_leaf :: "title \<Rightarrow> bytes \<Rightarrow> result + bytes" where
  "backup_leaf title hex =
    bind_sum (title_key (TITLE_ID_MAX + 16) (ti_platform title) (ti_id title)) (\<lambda>key.
      let sb = sb_add (daemoon_strbuf_init (TITLE_ID_MAX + 48)) key;
          sb = daemoon_strbuf_addc sb CHR ''_'';
          sb = daemoon_strbuf_addn sb (Some (take 12 hex));
          sb = sb_add sb ''.zip''
      in sb_finish sb)"

text \<open>Result and \<open>out_path\<close> afterwards (\<open>None\<close> for NULL).\<close>

definition daemoon_sync_backup_local ::
  "'w env \<Rightarrow> 'z miniz \<Rightarrow> title \<Rightarrow> bytes option \<Rightarrow> nat \<Rightarrow> ('w, result \<times> bytes option) prog" where
  "daemoon_sync_backup_local env mz title out_path path_len =
    (if daemoon_env_validate (Some env) \<noteq> OK then return_io (daemoon_env_validate (Some env), out_path)
     else case join_path SYNC_PATH_MAX (env_work_dir env) (Some ''backups'') None of Inl r \<Rightarrow> return_io (r, out_path)
     | Inr dir \<Rightarrow>
       bind_io (fs_make_dir env dir) (\<lambda>r.
       if r \<noteq> OK then return_io (r, out_path)
       else bind_io (open_save env title) (\<lambda>(r, save).
       if r \<noteq> OK then return_io (r, out_path)
       else bind_io (daemoon_archive_hash_save env save) (\<lambda>(r, es, hex, n).
       bind_io (close_save env save) (\<lambda>_.
       if r \<noteq> OK then return_io (r, out_path)
       else if length es = 0 then return_io (ERR_EMPTY_SAVE, out_path)
       else case bind_sum (backup_leaf title hex) (\<lambda>leaf. join_path SYNC_PATH_MAX (Some dir) (Some leaf) None) of
         Inl r \<Rightarrow> return_io (r, out_path)
       | Inr path \<Rightarrow>
         bind_io (fs_file_exists env path) (\<lambda>there.
         bind_io (if \<not> there then pack_title_to env mz title VERSION_NONE path
                  else return_io (Inr daemoon_manifest_init)) (\<lambda>packed.
         case packed of Inl r \<Rightarrow> return_io (r, out_path)
         | Inr _ \<Rightarrow>
           if out_path \<noteq> None \<and> path_len > 0 then return_io (daemoon_strlcpy out_path path_len (Some path))
           else return_io (OK, out_path))))))))"

section \<open>Talking to the user\<close>

definition mk_str_ref :: "str_id \<Rightarrow> bytes option \<Rightarrow> bytes option \<Rightarrow> str_ref" where
  "mk_str_ref sid a0 a1 = \<lparr>sr_id = sid,
    sr_args = (case a0 of None \<Rightarrow> [] | Some a \<Rightarrow> [a]) @ (case a1 of None \<Rightarrow> [] | Some a \<Rightarrow> [a])\<rparr>"

definition notify :: "'w env \<Rightarrow> str_id \<Rightarrow> bytes \<Rightarrow> ('w, unit) prog" where
  "notify env sid a0 =
    (case env_ui env of None \<Rightarrow> (\<lambda>_. None)
     | Some ui \<Rightarrow>
        (case ui_notify ui of None \<Rightarrow> return_io () | Some f \<Rightarrow> call_io (f (mk_str_ref sid (Some a0) None))))"

definition progress :: "'w env \<Rightarrow> str_id \<Rightarrow> int \<Rightarrow> ('w, unit) prog" where
  "progress env sid pct =
    (case env_ui env of None \<Rightarrow> (\<lambda>_. None)
     | Some ui \<Rightarrow>
        (case ui_progress ui of None \<Rightarrow> return_io () | Some f \<Rightarrow> call_io (f (mk_str_ref sid None None) pct)))"

definition confirm :: "'w env \<Rightarrow> str_id \<Rightarrow> bytes \<Rightarrow> ('w, int) prog" where
  "confirm env sid a0 = call_fn (env_ui env) ui_confirm (\<lambda>f. f (mk_str_ref sid (Some a0) None))"

definition check_not_running :: "'w env \<Rightarrow> title \<Rightarrow> ('w, result) prog" where
  "check_not_running env title =
    (case env_save env of None \<Rightarrow> (\<lambda>_. None)
     | Some save \<Rightarrow>
        (case sv_is_title_running save of None \<Rightarrow> return_io OK
         | Some f \<Rightarrow>
            bind_io (call_io (f title)) (\<lambda>(r, running).
              if r \<noteq> OK then return_io r
              else if running \<noteq> 0
              then bind_io (notify env STR_WARN_GAME_RUNNING (ti_name title)) (\<lambda>_. return_io ERR_BACKEND_ERROR)
              else return_io OK)))"

section \<open>Restore\<close>

text \<open>Step 2: the package against its own manifest.\<close>

definition restore_verify :: "'w env \<Rightarrow> 'z miniz \<Rightarrow> title \<Rightarrow> bytes \<Rightarrow> ('w, result + manifest) prog" where
  "restore_verify env mz title pkg_path =
    bind_io (fs_open_file env pkg_path OPEN_READ) (\<lambda>(r, pkg).
      if r \<noteq> OK then return_io (Inl r)
      else bind_io (daemoon_archive_read_manifest mz pkg) (\<lambda>x.
      bind_io (case x of Inl r \<Rightarrow> return_io (Inl r)
               | Inr m \<Rightarrow> bind_io (daemoon_archive_verify mz [] pkg m) (\<lambda>(r, _).
                   return_io (if r \<noteq> OK then Inl r else Inr m))) (\<lambda>x.
      bind_io (daemoon_stream_close pkg) (\<lambda>_.
      case x of Inl r \<Rightarrow>
        bind_io (if r = ERR_CHECKSUM_MISMATCH then notify env STR_VERIFY_FAILED (ti_name title) else return_io ())
          (\<lambda>_. return_io (Inl r))
      | Inr m \<Rightarrow>
        if mf_platform m \<noteq> ti_platform title \<or> cstr (mf_title_id m) \<noteq> cstr (ti_id title)
        then return_io (Inl ERR_INVALID_MANIFEST)
        else return_io (Inr m)))))"

text \<open>Step 3: write, commit, close; the result is the first failure.\<close>

definition restore_write :: "'w env \<Rightarrow> 'z miniz \<Rightarrow> title \<Rightarrow> bytes \<Rightarrow> ('w, result) prog" where
  "restore_write env mz title pkg_path =
    bind_io (fs_open_file env pkg_path OPEN_READ) (\<lambda>(r, pkg).
      if r \<noteq> OK then return_io r
      else bind_io (call_fn (env_save env) sv_open_save_write (\<lambda>f. f title)) (\<lambda>(r, save).
      if r \<noteq> OK then bind_io (daemoon_stream_close pkg) (\<lambda>_. return_io r)
      else bind_io (daemoon_archive_unpack env mz [] pkg save) (\<lambda>(r, _).
      bind_io (daemoon_stream_close pkg) (\<lambda>_.
      bind_io
        (if r = OK
         then bind_io (call_fn (env_save env) sv_commit (\<lambda>f. f save)) (\<lambda>r.
           if r \<noteq> OK then bind_io (notify env STR_COMMIT_FAILED (ti_name title)) (\<lambda>_. return_io r) else return_io r)
         else return_io r) (\<lambda>r.
      bind_io (close_save env save) (\<lambda>cr. return_io (if r = OK then cr else r)))))))"

text \<open>Step 4: the secure value. A failure is only reported.\<close>

definition restore_secure_value :: "'w env \<Rightarrow> title \<Rightarrow> manifest \<Rightarrow> ('w, unit) prog" where
  "restore_secure_value env title m =
    (case env_save env of None \<Rightarrow> (\<lambda>_. None)
     | Some backend \<Rightarrow>
       bind_io
        (case (sv_write_secure_value backend, sv_clear_secure_value backend) of
           (w, c) \<Rightarrow>
             if mf_has_secure_value m \<and> w \<noteq> None then call_io (the w title (mf_secure_value m))
             else if \<not> mf_has_secure_value m \<and> c \<noteq> None then call_io (the c title)
             else return_io OK)
        (\<lambda>sr. if sr \<noteq> OK then notify env STR_WARN_SECURE_VALUE (ti_name title) else return_io ()))"

text \<open>Steps 3 and 4, steps 2 to 4, and steps 1 to 4, which is all that follows the question.\<close>

definition restore_from_write :: "'w env \<Rightarrow> 'z miniz \<Rightarrow> title \<Rightarrow> bytes \<Rightarrow> manifest \<Rightarrow> ('w, result) prog" where
  "restore_from_write env mz title pkg_path m =
    bind_io (progress env STR_PROGRESS_UNPACKING (-1)) (\<lambda>_.
    bind_io (restore_write env mz title pkg_path) (\<lambda>r.
    if r = OK then bind_io (restore_secure_value env title m) (\<lambda>_. return_io r) else return_io r))"

definition restore_from_verify :: "'w env \<Rightarrow> 'z miniz \<Rightarrow> title \<Rightarrow> bytes \<Rightarrow> ('w, result) prog" where
  "restore_from_verify env mz title pkg_path =
    bind_io (progress env STR_PROGRESS_VERIFYING (-1)) (\<lambda>_.
    bind_io (restore_verify env mz title pkg_path) (\<lambda>x.
    case x of Inl r \<Rightarrow> return_io r | Inr m \<Rightarrow> restore_from_write env mz title pkg_path m))"

definition restore_confirmed_package :: "'w env \<Rightarrow> 'z miniz \<Rightarrow> title \<Rightarrow> bytes \<Rightarrow> ('w, result) prog" where
  "restore_confirmed_package env mz title pkg_path =
    bind_io (progress env STR_BACKUP_CREATING (-1)) (\<lambda>_.
    bind_io (daemoon_sync_backup_local env mz title None 0) (\<lambda>(r, _).
    if r \<noteq> OK \<and> r \<noteq> ERR_NOT_FOUND
    then bind_io (notify env STR_BACKUP_FAILED (ti_name title)) (\<lambda>_. return_io r)
    else restore_from_verify env mz title pkg_path))"

definition restore_package :: "'w env \<Rightarrow> 'z miniz \<Rightarrow> title \<Rightarrow> bytes \<Rightarrow> bool \<Rightarrow> ('w, result) prog" where
  "restore_package env mz title pkg_path confirmed =
    (if daemoon_env_validate (Some env) \<noteq> OK then return_io (daemoon_env_validate (Some env))
     else TRY (check_not_running env title)
      (bind_io (if ti_secure_value title then notify env STR_WARN_SECURE_VALUE (ti_name title) else return_io ()) (\<lambda>_.
       if confirmed then restore_confirmed_package env mz title pkg_path
       else bind_io (confirm env STR_CONFIRM_RESTORE (ti_name title)) (\<lambda>answer.
         if answer = 0 then return_io ERR_USER_CANCELLED
         else restore_confirmed_package env mz title pkg_path))))"

definition daemoon_sync_restore_package :: "'w env \<Rightarrow> 'z miniz \<Rightarrow> title \<Rightarrow> bytes \<Rightarrow> ('w, result) prog" where
  "daemoon_sync_restore_package env mz title pkg_path = restore_package env mz title pkg_path False"


section \<open>Upload\<close>

definition staging_path :: "'w env \<Rightarrow> title \<Rightarrow> nat \<Rightarrow> ('w, result + bytes) prog" where
  "staging_path env title cap =
    (case join_path SYNC_PATH_MAX (env_work_dir env) (Some ''tmp'') None of Inl r \<Rightarrow> return_io (Inl r)
     | Inr dir \<Rightarrow>
       bind_io (fs_make_dir env dir) (\<lambda>r.
       if r \<noteq> OK then return_io (Inl r)
       else return_io
        (bind_sum (title_key (TITLE_ID_MAX + 16) (ti_platform title) (ti_id title)) (\<lambda>key.
         bind_sum (with_suffix (TITLE_ID_MAX + 24) key ''.zip'') (\<lambda>leaf.
         join_path cap (Some dir) (Some leaf) None)))))"

text \<open>The end of a transfer that worked: the record of what this console is now based on.\<close>

definition record_base :: "'w env \<Rightarrow> title \<Rightarrow> local_state \<Rightarrow> nat \<Rightarrow> bytes \<Rightarrow> ('w, result \<times> local_state) prog" where
  "record_base env title local version sha =
    (let local = local\<lparr>lo_base_version := version\<rparr> in
     case daemoon_strlcpy (Some (lo_base_sha256 local)) SHA256_HEX (Some sha) of (r, copy) \<Rightarrow>
      let local = local\<lparr>lo_base_sha256 := the copy\<rparr> in
      if r \<noteq> OK then return_io (r, local)
      else bind_io (daemoon_sync_state_save env (ti_platform title) (ti_id title) local) (\<lambda>r. return_io (r, local)))"

text \<open>Result, \<open>*local\<close> and \<open>*conflict\<close> afterwards.\<close>

definition do_upload ::
  "'w env \<Rightarrow> 'z miniz \<Rightarrow> title \<Rightarrow> nat \<Rightarrow> local_state \<Rightarrow> conflict option \<Rightarrow>
    ('w, result \<times> local_state \<times> conflict option) prog" where
  "do_upload env mz title parent_version local conflict =
    bind_io (staging_path env title SYNC_PATH_MAX) (\<lambda>x.
    case x of Inl r \<Rightarrow> return_io (r, local, conflict)
    | Inr path \<Rightarrow>
      bind_io (progress env STR_PROGRESS_PACKING (-1)) (\<lambda>_.
      bind_io (pack_title_to env mz title parent_version path) (\<lambda>packed.
      case packed of Inl r \<Rightarrow> return_io (r, local, conflict)
      | Inr m \<Rightarrow>
        bind_io (progress env STR_PROGRESS_UPLOADING (-1)) (\<lambda>_.
        bind_io (fs_open_file env path OPEN_READ) (\<lambda>(r, f).
        if r \<noteq> OK then bind_io (discard env path r) (\<lambda>r. return_io (r, local, conflict))
        else case f of None \<Rightarrow> (\<lambda>_. None)
        | Some s \<Rightarrow>
          bind_io (daemoon_api_upload env m f (st_size s) conflict) (\<lambda>(answer, conflict).
          bind_io (daemoon_stream_close f) (\<lambda>_.
          bind_io (fs_remove_file env path) (\<lambda>_.
          case answer of Inl r \<Rightarrow> return_io (r, local, conflict)
          | Inr issued \<Rightarrow>
            bind_io (record_base env title local (rm_latest_version issued) (mf_sha256 m))
              (\<lambda>(r, local). return_io (r, local, conflict))))))))))"

section \<open>Download\<close>

text \<open>The package arrives under a temporary name and is then renamed.\<close>

definition download_package ::
  "'w env \<Rightarrow> title \<Rightarrow> remote_meta \<Rightarrow> bytes \<Rightarrow> bytes \<Rightarrow> ('w, result) prog" where
  "download_package env title remote tmp path =
    bind_io (fs_open_file env tmp OPEN_WRITE) (\<lambda>(r, f).
      if r \<noteq> OK then return_io r
      else bind_io (daemoon_api_download env (ti_platform title) (ti_id title) (rm_latest_version remote) f None 0)
        (\<lambda>(r, _).
      bind_io (if r = OK then daemoon_stream_close f
               else bind_io (daemoon_stream_close f) (\<lambda>_. return_io r)) (\<lambda>r.
      if r \<noteq> OK then discard env tmp r
      else bind_io (fs_rename_file env tmp path) (\<lambda>r. if r \<noteq> OK then discard env tmp r else return_io OK))))"

text \<open>What the server said it was sending against what the package says it is.\<close>

definition check_download :: "'w env \<Rightarrow> 'z miniz \<Rightarrow> title \<Rightarrow> remote_meta \<Rightarrow> bytes \<Rightarrow> ('w, result) prog" where
  "check_download env mz title remote path =
    bind_io (fs_open_file env path OPEN_READ) (\<lambda>(r, check).
    bind_io
      (if r = OK
       then bind_io (daemoon_archive_read_manifest mz check) (\<lambda>got.
            bind_io (daemoon_stream_close check) (\<lambda>_.
            return_io (case got of Inl r \<Rightarrow> r
              | Inr got \<Rightarrow> if \<not> daemoon_sha256_hex_equal (Some (mf_sha256 got)) (Some (rm_sha256 remote))
                  then ERR_CHECKSUM_MISMATCH else OK)))
       else return_io r) (\<lambda>r.
    if r \<noteq> OK
    then bind_io (if r = ERR_CHECKSUM_MISMATCH then notify env STR_VERIFY_FAILED (ti_name title) else return_io ())
      (\<lambda>_. discard env path r)
    else return_io OK))"

text \<open>Result and \<open>*local\<close> afterwards.\<close>

definition do_download ::
  "'w env \<Rightarrow> 'z miniz \<Rightarrow> title \<Rightarrow> remote_meta \<Rightarrow> local_state \<Rightarrow> bool \<Rightarrow> ('w, result \<times> local_state) prog" where
  "do_download env mz title remote local confirmed =
    bind_io (staging_path env title SYNC_PATH_MAX) (\<lambda>x.
    case x of Inl r \<Rightarrow> return_io (r, local)
    | Inr path \<Rightarrow>
      (case with_suffix SYNC_PATH_MAX path ''.part'' of Inl r \<Rightarrow> return_io (r, local)
       | Inr tmp \<Rightarrow>
         bind_io (progress env STR_PROGRESS_DOWNLOADING (-1)) (\<lambda>_.
         bind_io (download_package env title remote tmp path) (\<lambda>r.
         if r \<noteq> OK then return_io (r, local)
         else bind_io (check_download env mz title remote path) (\<lambda>r.
         if r \<noteq> OK then return_io (r, local)
         else bind_io (restore_package env mz title path confirmed) (\<lambda>r.
         bind_io (fs_remove_file env path) (\<lambda>_.
         if r \<noteq> OK then return_io (r, local)
         else record_base env title local (rm_latest_version remote) (rm_sha256 remote))))))))"

section \<open>Conflicts\<close>

definition ask_conflict :: "'w env \<Rightarrow> title \<Rightarrow> remote_meta \<Rightarrow> local_state \<Rightarrow> ('w, int) prog" where
  "ask_conflict env title remote local =
    (let local_size = daemoon_fmt_bytes (Some []) 24 (lo_size local);
         remote_size = daemoon_fmt_bytes (Some []) 24 (rm_size remote);
         msg = mk_str_ref STR_CONFLICT_EXPLAIN (Some (ti_name title)) None;
         opts =
          [mk_str_ref STR_CONFLICT_KEEP_LOCAL local_size (env_device_label env),
           mk_str_ref STR_CONFLICT_KEEP_SERVER remote_size
             (Some (if rm_device_label remote \<noteq> [] then rm_device_label remote else rm_received_at remote)),
           mk_str_ref STR_CONFLICT_KEEP_BOTH None None]
     in call_fn (env_ui env) ui_choose (\<lambda>f. f msg opts))"

definition resolve_conflict ::
  "'w env \<Rightarrow> 'z miniz \<Rightarrow> title \<Rightarrow> remote_meta \<Rightarrow> local_state \<Rightarrow> conflict_policy \<Rightarrow> bool \<Rightarrow> sync_stats \<Rightarrow>
    ('w, result \<times> sync_stats) prog" where
  "resolve_conflict env mz title remote local policy confirmed stats =
    bind_io
      (case policy of
         POLICY_KEEP_LOCAL \<Rightarrow> return_io CONFLICT_KEEP_LOCAL
       | POLICY_KEEP_SERVER \<Rightarrow> return_io CONFLICT_KEEP_SERVER
       | POLICY_DEFER \<Rightarrow> return_io CONFLICT_DEFER
       | POLICY_ASK \<Rightarrow> ask_conflict env title remote local) (\<lambda>choice.
    if choice < 0 \<or> choice = CONFLICT_DEFER
    then return_io (OK, stats\<lparr>ss_conflicts := bump (ss_conflicts stats)\<rparr>)
    else if choice = CONFLICT_KEEP_LOCAL
    then bind_io (do_upload env mz title (rm_latest_version remote) local (Some no_conflict)) (\<lambda>(r, _, _).
      return_io (r, if r = OK then stats\<lparr>ss_uploaded := bump (ss_uploaded stats)\<rparr> else stats))
    else bind_io (do_download env mz title remote local confirmed) (\<lambda>(r, _).
      return_io (r, if r = OK then stats\<lparr>ss_downloaded := bump (ss_downloaded stats)\<rparr> else stats)))"

section \<open>One title\<close>

definition k_ask_everything :: sync_opts where
  "k_ask_everything = \<lparr>so_conflict = POLICY_ASK, so_upload_confirmed = False, so_restore_confirmed = False\<rparr>"

text \<open>The branches of the switch.\<close>

definition sync_none ::
  "'w env \<Rightarrow> title \<Rightarrow> local_state \<Rightarrow> remote_meta \<Rightarrow> sync_stats \<Rightarrow> ('w, result \<times> sync_stats) prog" where
  "sync_none env title local remote stats =
    (let stats = stats\<lparr>ss_skipped := bump (ss_skipped stats)\<rparr> in
     if lo_has_save local \<and> rm_exists remote \<and> lo_base_version local \<noteq> rm_latest_version remote
     then bind_io (record_base env title local (rm_latest_version remote) (lo_sha256 local))
       (\<lambda>(r, _). return_io (r, stats))
     else return_io (OK, stats))"

definition sync_upload ::
  "'w env \<Rightarrow> 'z miniz \<Rightarrow> title \<Rightarrow> local_state \<Rightarrow> remote_meta \<Rightarrow> sync_opts \<Rightarrow> sync_stats \<Rightarrow> ('w, result \<times> sync_stats) prog" where
  "sync_upload env mz title local remote opts stats =
    bind_io (if so_upload_confirmed opts then return_io 1 else confirm env STR_CONFIRM_UPLOAD (ti_name title)) (\<lambda>answer.
    if answer = 0 then return_io (ERR_USER_CANCELLED, stats\<lparr>ss_skipped := bump (ss_skipped stats)\<rparr>)
    else bind_io (do_upload env mz title (if rm_exists remote then rm_latest_version remote else VERSION_NONE) local
        (Some no_conflict)) (\<lambda>(r, local, _).
    if r = ERR_VERSION_CONFLICT
    then bind_io (daemoon_api_get_latest env (ti_platform title) (ti_id title)) (\<lambda>x.
      case x of Inl r \<Rightarrow> return_io (r, stats)
      | Inr remote \<Rightarrow>
        resolve_conflict env mz title remote local (so_conflict opts) (so_restore_confirmed opts) stats)
    else if r \<noteq> OK then return_io (r, stats\<lparr>ss_failed := bump (ss_failed stats)\<rparr>)
    else return_io (OK, stats\<lparr>ss_uploaded := bump (ss_uploaded stats)\<rparr>)))"

definition sync_download ::
  "'w env \<Rightarrow> 'z miniz \<Rightarrow> title \<Rightarrow> local_state \<Rightarrow> remote_meta \<Rightarrow> sync_opts \<Rightarrow> sync_stats \<Rightarrow> ('w, result \<times> sync_stats) prog" where
  "sync_download env mz title local remote opts stats =
    bind_io (do_download env mz title remote local (so_restore_confirmed opts)) (\<lambda>(r, _).
    if r \<noteq> OK
    then return_io (r, if r \<noteq> ERR_USER_CANCELLED then stats\<lparr>ss_failed := bump (ss_failed stats)\<rparr> else stats)
    else return_io (OK, stats\<lparr>ss_downloaded := bump (ss_downloaded stats)\<rparr>))"

definition sync_conflict ::
  "'w env \<Rightarrow> 'z miniz \<Rightarrow> title \<Rightarrow> local_state \<Rightarrow> remote_meta \<Rightarrow> sync_opts \<Rightarrow> sync_stats \<Rightarrow> ('w, result \<times> sync_stats) prog" where
  "sync_conflict env mz title local remote opts stats =
    bind_io (resolve_conflict env mz title remote local (so_conflict opts) (so_restore_confirmed opts) stats)
      (\<lambda>(r, stats). return_io (r,
        if r \<noteq> OK \<and> r \<noteq> ERR_USER_CANCELLED then stats\<lparr>ss_failed := bump (ss_failed stats)\<rparr> else stats))"

text \<open>Result and \<open>*stats\<close> afterwards; a caller that passes NULL has a zeroed one of its own.\<close>

definition daemoon_sync_title_with ::
  "'w env \<Rightarrow> 'z miniz \<Rightarrow> title \<Rightarrow> sync_opts option \<Rightarrow> sync_stats \<Rightarrow> ('w, result \<times> sync_stats) prog" where
  "daemoon_sync_title_with env mz title opts stats =
    (let opts = (case opts of None \<Rightarrow> k_ask_everything | Some opts \<Rightarrow> opts) in
     if daemoon_env_validate (Some env) \<noteq> OK then return_io (daemoon_env_validate (Some env), stats)
     else bind_io (check_not_running env title) (\<lambda>r.
     if r \<noteq> OK then return_io (r, stats)
     else bind_io (daemoon_sync_scan_local env title) (\<lambda>(r, local).
     if r \<noteq> OK then return_io (r, stats)
     else bind_io (daemoon_api_get_latest env (ti_platform title) (ti_id title)) (\<lambda>x.
     case x of Inl r \<Rightarrow> return_io (r, stats)
     | Inr remote \<Rightarrow>
       (case daemoon_sync_decide (Some local) (Some remote) of
          SYNC_NONE \<Rightarrow> sync_none env title local remote stats
        | SYNC_UPLOAD \<Rightarrow> sync_upload env mz title local remote opts stats
        | SYNC_DOWNLOAD \<Rightarrow> sync_download env mz title local remote opts stats
        | SYNC_CONFLICT \<Rightarrow> sync_conflict env mz title local remote opts stats)))))"

definition daemoon_sync_title ::
  "'w env \<Rightarrow> 'z miniz \<Rightarrow> title \<Rightarrow> sync_stats \<Rightarrow> ('w, result \<times> sync_stats) prog" where
  "daemoon_sync_title env mz title stats = daemoon_sync_title_with env mz title None stats"

end
