(* ===== verification/Frame.thy ===== *)
theory Frame
  imports Sync
begin

text \<open>
  What the core leaves alone. \<open>keeps I m Q\<close> says that the program \<open>m\<close>, run in a world that
  satisfies \<open>I\<close>, ends in one and gives a result that satisfies \<open>Q\<close>. An environment is
  \<open>quiet\<close> for \<open>I\<close> when every entry point keeps \<open>I\<close> except the five that write to a
  save (opening one for writing, opening a file of it for writing, clearing it, committing it, and
  the two that move its secure value); the streams it hands out for anything else keep \<open>I\<close> too.
  The rules in \<open>keeps_intros\<close> take a program apart; the lemmas give one rule per operation of the
  archive, the server client and the sync engine.
\<close>

named_theorems keeps_intros \<open>what keeps an invariant of the world\<close>

section \<open>The judgement\<close>

definition keeps :: "('w \<Rightarrow> bool) \<Rightarrow> ('w, 'a) prog \<Rightarrow> ('a \<Rightarrow> bool) \<Rightarrow> bool" where
  "keeps I m Q \<longleftrightarrow> (\<forall>w a w'. I w \<longrightarrow> m w = Some (a, w') \<longrightarrow> I w' \<and> Q a)"

abbreviation safe :: "('w \<Rightarrow> bool) \<Rightarrow> ('w, 'a) prog \<Rightarrow> bool" where
  "safe I m \<equiv> keeps I m (\<lambda>_. True)"

lemma keepsD: "keeps I m Q \<Longrightarrow> I w \<Longrightarrow> m w = Some (a, w') \<Longrightarrow> I w' \<and> Q a"
  by (simp add: keeps_def)

lemma keeps_return [keeps_intros]: "Q a \<Longrightarrow> keeps I (return_io a) Q"
  by (simp add: keeps_def)

lemma keeps_bind: "keeps I m R \<Longrightarrow> (\<And>a. R a \<Longrightarrow> keeps I (f a) Q) \<Longrightarrow> keeps I (bind_io m f) Q"
  unfolding keeps_def bind_io_Some_iff by blast

lemma safe_bind [keeps_intros]: "safe I m \<Longrightarrow> (\<And>a. keeps I (f a) Q) \<Longrightarrow> keeps I (bind_io m f) Q"
  by (rule keeps_bind)

lemma keeps_crash [keeps_intros]: "keeps I (\<lambda>_. None) Q"
  by (simp add: keeps_def)

lemma keeps_mono: "keeps I m R \<Longrightarrow> (\<And>a. R a \<Longrightarrow> Q a) \<Longrightarrow> keeps I m Q"
  by (auto simp: keeps_def)

lemma keeps_safe: "keeps I m Q \<Longrightarrow> safe I m"
  by (auto simp: keeps_def)

lemma keeps_call: "(\<And>w. I w \<Longrightarrow> I (snd (op w)) \<and> Q (fst (op w))) \<Longrightarrow> keeps I (call_io op) Q"
  unfolding keeps_def call_io_def by (metis fst_conv option.inject snd_conv)

lemma safe_TRY [keeps_intros]: "safe I m \<Longrightarrow> safe I k \<Longrightarrow> safe I (TRY m k)"
  unfolding TRY_def by (auto intro!: keeps_intros)

lemma safe_call_fn:
  "(\<And>x f w. b = Some x \<Longrightarrow> sel x = Some f \<Longrightarrow> I w \<Longrightarrow> I (snd (app f w))) \<Longrightarrow> safe I (call_fn b sel app)"
  by (auto simp: call_fn_def intro!: keeps_intros keeps_call split: option.split)

section \<open>Quiet interfaces\<close>

definition quiet_stream :: "('w \<Rightarrow> bool) \<Rightarrow> 'w stream_ptr \<Rightarrow> bool" where
  "quiet_stream I p \<longleftrightarrow>
    (case p of None \<Rightarrow> True
     | Some s \<Rightarrow>
        (\<forall>f cap w. st_read s = Some f \<longrightarrow> I w \<longrightarrow> I (snd (f cap w))) \<and>
        (\<forall>f bs w. st_write s = Some f \<longrightarrow> I w \<longrightarrow> I (snd (f bs w))) \<and>
        (\<forall>f ofs w. st_seek s = Some f \<longrightarrow> I w \<longrightarrow> I (snd (f ofs w))) \<and>
        (\<forall>f w. st_close s = Some f \<longrightarrow> I w \<longrightarrow> I (snd (f w))))"

primrec quiet_walk :: "('w \<Rightarrow> bool) \<Rightarrow> 'w walk \<Rightarrow> bool" where
  "quiet_walk I (WDone r w) \<longleftrightarrow> I w"
| "quiet_walk I (WEntry path sz k) \<longleftrightarrow> (\<forall>stop. quiet_walk I (k stop))"

primrec quiet_exchange :: "('w \<Rightarrow> bool) \<Rightarrow> 'w exchange \<Rightarrow> bool" where
  "quiet_exchange I (XDone r resp w) \<longleftrightarrow> I w"
| "quiet_exchange I (XPull cap w k) \<longleftrightarrow> I w \<and> (\<forall>r bs w'. I w' \<longrightarrow> quiet_exchange I (k r bs w'))"
| "quiet_exchange I (XBody status bs w k) \<longleftrightarrow> I w \<and> (\<forall>r w'. I w' \<longrightarrow> quiet_exchange I (k r w'))"

definition quiet_save :: "('w \<Rightarrow> bool) \<Rightarrow> 'w save_backend \<Rightarrow> bool" where
  "quiet_save I b \<longleftrightarrow>
    (\<forall>f t w. sv_open_save b = Some f \<longrightarrow> I w \<longrightarrow> I (snd (f t w))) \<and>
    (\<forall>f h w. sv_list_entries b = Some f \<longrightarrow> I w \<longrightarrow> quiet_walk I (f h w)) \<and>
    (\<forall>f h p w. sv_open_file b = Some f \<longrightarrow> I w \<longrightarrow>
      I (snd (f h p OPEN_READ w)) \<and> quiet_stream I (snd (fst (f h p OPEN_READ w)))) \<and>
    (\<forall>f h w. sv_close_save b = Some f \<longrightarrow> I w \<longrightarrow> I (snd (f h w))) \<and>
    (\<forall>f t w. sv_is_title_running b = Some f \<longrightarrow> I w \<longrightarrow> I (snd (f t w))) \<and>
    (\<forall>f t w. sv_read_secure_value b = Some f \<longrightarrow> I w \<longrightarrow> I (snd (f t w)))"

definition quiet_net :: "('w \<Rightarrow> bool) \<Rightarrow> 'w net_backend \<Rightarrow> bool" where
  "quiet_net I b \<longleftrightarrow> (\<forall>f req w. nt_request b = Some f \<longrightarrow> I w \<longrightarrow> quiet_exchange I (f req w))"

definition quiet_ui :: "('w \<Rightarrow> bool) \<Rightarrow> 'w ui_backend \<Rightarrow> bool" where
  "quiet_ui I b \<longleftrightarrow>
    (\<forall>f m w. ui_confirm b = Some f \<longrightarrow> I w \<longrightarrow> I (snd (f m w))) \<and>
    (\<forall>f m n w. ui_progress b = Some f \<longrightarrow> I w \<longrightarrow> I (snd (f m n w))) \<and>
    (\<forall>f m opts w. ui_choose b = Some f \<longrightarrow> I w \<longrightarrow> I (snd (f m opts w))) \<and>
    (\<forall>f m w. ui_notify b = Some f \<longrightarrow> I w \<longrightarrow> I (snd (f m w)))"

definition quiet_fs :: "('w \<Rightarrow> bool) \<Rightarrow> 'w fs_backend \<Rightarrow> bool" where
  "quiet_fs I b \<longleftrightarrow>
    (\<forall>f p m w. fs_open b = Some f \<longrightarrow> I w \<longrightarrow> I (snd (f p m w)) \<and> quiet_stream I (snd (fst (f p m w)))) \<and>
    (\<forall>f p w. fs_remove b = Some f \<longrightarrow> I w \<longrightarrow> I (snd (f p w))) \<and>
    (\<forall>f p q w. fs_rename b = Some f \<longrightarrow> I w \<longrightarrow> I (snd (f p q w))) \<and>
    (\<forall>f p w. fs_mkdir_p b = Some f \<longrightarrow> I w \<longrightarrow> I (snd (f p w))) \<and>
    (\<forall>f p w. fs_exists b = Some f \<longrightarrow> I w \<longrightarrow> I (snd (f p w)))"

definition quiet :: "('w \<Rightarrow> bool) \<Rightarrow> 'w env \<Rightarrow> bool" where
  "quiet I env \<longleftrightarrow>
    (\<forall>b. env_save env = Some b \<longrightarrow> quiet_save I b) \<and> (\<forall>b. env_net env = Some b \<longrightarrow> quiet_net I b) \<and>
    (\<forall>b. env_ui env = Some b \<longrightarrow> quiet_ui I b) \<and> (\<forall>b. env_fs env = Some b \<longrightarrow> quiet_fs I b) \<and>
    (\<forall>f cap w. env_clock env = Some f \<longrightarrow> I w \<longrightarrow> I (snd (f cap w)))"

section \<open>Streams and callbacks\<close>

lemma safe_stream_ops [keeps_intros]:
  assumes "quiet_stream I s"
  shows "safe I (daemoon_stream_read s cap)" "safe I (daemoon_stream_write s bs)"
    "safe I (daemoon_stream_seek s ofs)" "safe I (daemoon_stream_close s)"
  using assms
  by (auto simp: daemoon_stream_read_def daemoon_stream_write_def daemoon_stream_seek_def daemoon_stream_close_def
      quiet_stream_def intro!: keeps_intros keeps_call split: option.split)

lemma quiet_None [simp]: "quiet_stream I None"
  by (simp add: quiet_stream_def)

lemma run_walk_quiet: "quiet_walk I x \<Longrightarrow> I (snd (run_walk cb x u))"
  by (induction x arbitrary: u) (auto split: prod.split)

lemma run_exchange_quiet:
  assumes "\<And>u cap. safe I (pull u cap)" "\<And>u status bs. safe I (push u status bs)"
  shows "quiet_exchange I x \<Longrightarrow> run_exchange pull push x u = Some (a, w') \<Longrightarrow> I w'"
proof (induction x arbitrary: u)
  case (XDone r resp w)
  then show ?case by simp
next
  case (XPull cap w k)
  then obtain r bs u' w1 where pull: "pull u cap w = Some (((r, bs), u'), w1)"
    "run_exchange pull push (k r bs w1) u' = Some (a, w')"
    by (auto split: option.splits)
  then have "I w1" using XPull.prems assms(1) by (auto dest: keepsD)
  with XPull pull(2) show ?case by (intro XPull.IH [of "k r" "k r bs"]) auto
next
  case (XBody status bs w k)
  then obtain r u' w1 where push: "push u status bs w = Some ((r, u'), w1)"
    "run_exchange pull push (k r w1) u' = Some (a, w')"
    by (auto split: option.splits)
  then have "I w1" using XBody.prems assms(2) by (auto dest: keepsD)
  with XBody push(2) show ?case by (intro XBody.IH [of "k r"]) auto
qed

lemma safe_run_mz:
  assumes "\<And>u ofs bs. safe I (cb_write cb u ofs bs)" "\<And>u ofs n. safe I (cb_read cb u ofs n)"
    "\<And>u n. safe I (cb_source cb u n)" "\<And>u bs. safe I (cb_sink cb u bs)"
  shows "safe I (run_mz cb call u)"
  by (induction call arbitrary: u) (auto intro!: keeps_intros assms)

lemma safe_loop:
  assumes "\<And>w a w'. I w \<Longrightarrow> m w = Some (a, w') \<Longrightarrow> I w'"
  shows "safe I m"
  using assms by (auto simp: keeps_def)


section \<open>The entry points\<close>

lemma quiet_open_save [keeps_intros]: "quiet I env \<Longrightarrow> safe I (open_save env title)"
  and quiet_close_save [keeps_intros]: "quiet I env \<Longrightarrow> safe I (close_save env save)"
  and quiet_remove [keeps_intros]: "quiet I env \<Longrightarrow> safe I (fs_remove_file env path)"
  and quiet_rename [keeps_intros]: "quiet I env \<Longrightarrow> safe I (fs_rename_file env path path')"
  and quiet_mkdir [keeps_intros]: "quiet I env \<Longrightarrow> safe I (fs_make_dir env path)"
  and quiet_exists [keeps_intros]: "quiet I env \<Longrightarrow> safe I (fs_file_exists env path)"
  and quiet_confirm [keeps_intros]: "quiet I env \<Longrightarrow> safe I (confirm env sid a0)"
  by (auto simp: open_save_def close_save_def fs_remove_file_def fs_rename_file_def fs_make_dir_def
      fs_file_exists_def confirm_def quiet_def quiet_save_def quiet_fs_def quiet_ui_def intro!: safe_call_fn)

lemma quiet_fs_open: "quiet I env \<Longrightarrow> keeps I (fs_open_file env path mode) (\<lambda>x. quiet_stream I (snd x))"
  unfolding fs_open_file_def call_fn_def
  by (auto simp: quiet_def quiet_fs_def split_beta intro!: keeps_intros keeps_call split: option.split)

lemma quiet_open_read:
  "quiet I env \<Longrightarrow> keeps I (open_save_file env save path OPEN_READ) (\<lambda>x. quiet_stream I (snd x))"
  unfolding open_save_file_def call_fn_def
  by (auto simp: quiet_def quiet_save_def split_beta intro!: keeps_intros keeps_call split: option.split)

lemma quiet_notify [keeps_intros]: "quiet I env \<Longrightarrow> safe I (notify env sid a0)"
  and quiet_progress [keeps_intros]: "quiet I env \<Longrightarrow> safe I (progress env sid n)"
  by (auto simp: notify_def progress_def quiet_def quiet_ui_def intro!: keeps_intros keeps_call split: option.split)

lemma keeps_bind_open:
  "keeps I m (\<lambda>x. quiet_stream I (snd x)) \<Longrightarrow> (\<And>r f. quiet_stream I f \<Longrightarrow> keeps I (g r f) Q) \<Longrightarrow>
    keeps I (bind_io m (\<lambda>(r, f). g r f)) Q"
  by (erule keeps_bind) auto

lemmas bind_opens [keeps_intros] = keeps_bind_open [OF quiet_fs_open] keeps_bind_open [OF quiet_open_read]

section \<open>The archive\<close>

lemma quiet_collect_save [keeps_intros]: "quiet I env \<Longrightarrow> safe I (collect_save env save)"
proof (rule safe_loop)
  fix w a w'
  assume q: "quiet I env" and I: "I w" and run: "collect_save env save w = Some (a, w')"
  obtain b f where bf: "env_save env = Some b" "sv_list_entries b = Some f"
    using run by (auto simp: collect_save_def split: option.splits)
  then have "quiet_walk I (f save w)" using q I by (auto simp: quiet_def quiet_save_def)
  from run_walk_quiet [OF this, of collect_entry "([], OK)"] run bf show "I w'"
    by (auto simp: collect_save_def split: prod.splits)
qed

lemma safe_hash_read_loop [keeps_intros]:
  assumes "quiet_stream I f"
  shows "safe I (hash_read_loop f k hash n)"
proof (rule safe_loop)
  fix w a w'
  assume I: "I w" and run: "hash_read_loop f k hash n w = Some (a, w')"
  from run have "I w \<longrightarrow> quiet_stream I f \<longrightarrow> I (snd (a, w'))"
  proof (induction f k hash n w "(a, w')" rule: hash_read_loop.raw_induct [rotated 1, consumes 1, case_names step])
    case (step loop f k hash n w)
    show ?case
    proof (intro impI)
      assume hyp: "I w" "quiet_stream I f"
      obtain r bs w1 where rd: "daemoon_stream_read f k w = Some ((r, bs), w1)"
        using step(2) by (auto simp: bind_eq_Some_conv)
      then have w1: "I w1" using hyp safe_stream_ops(1) by (metis keepsD)
      have close: "I w2" if "daemoon_stream_close f w1 = Some (x, w2)" for x w2
        using that hyp(2) w1 safe_stream_ops(4) by (metis keepsD)
      show "I (snd (a, w'))"
        using step rd w1 hyp(2) close by (auto simp: bind_eq_Some_conv split: if_splits)
    qed
  qed
  with I assms show "I w'" by simp
qed

lemma quiet_hash_entry [keeps_intros]: "quiet I env \<Longrightarrow> safe I (hash_entry env save e hash)"
  unfolding hash_entry_def Let_def by (auto intro!: keeps_intros split: prod.split)

lemma quiet_hash_entries [keeps_intros]: "quiet I env \<Longrightarrow> safe I (hash_entries env save es hash n)"
  by (induction es arbitrary: hash n) (auto intro!: keeps_intros split: prod.split)

lemma quiet_hash_save [keeps_intros]: "quiet I env \<Longrightarrow> safe I (daemoon_archive_hash_save env save)"
  unfolding daemoon_archive_hash_save_def by (auto intro!: keeps_intros split: prod.split)

lemma safe_zip_read_loop [keeps_intros]:
  assumes "quiet_stream I s"
  shows "safe I (zip_read_loop s n got)"
proof (rule safe_loop)
  fix w a w'
  assume "I w" "zip_read_loop s n got w = Some (a, w')"
  with assms show "I w'"
  proof (induction s n got w rule: zip_read_loop.induct)
    case (1 s n got w)
    show ?case
    proof (cases "length got \<ge> n")
      case True
      with 1 show ?thesis by (subst (asm) (2) zip_read_loop.simps) simp
    next
      case False
      with 1 obtain r bs w1 where rd: "daemoon_stream_read s (n - length got) w = Some ((r, bs), w1)"
        by (subst (asm) (2) zip_read_loop.simps) (auto split: option.splits)
      then have "I w1" using 1 safe_stream_ops(1) by (metis keepsD)
      with 1 rd False show ?thesis
        by (subst (asm) (2) zip_read_loop.simps) (auto split: if_splits)
    qed
  qed
qed

lemma safe_zip_write_cb [keeps_intros]: "quiet_stream I s \<Longrightarrow> safe I (zip_write_cb s io ofs bs)"
  and safe_zip_read_cb [keeps_intros]: "quiet_stream I s \<Longrightarrow> safe I (zip_read_cb s io ofs n)"
  and safe_pack_read_cb [keeps_intros]: "quiet_stream I s \<Longrightarrow> safe I (pack_read_cb s src n)"
  and safe_extract_write_cb [keeps_intros]: "quiet_stream I s \<Longrightarrow> safe I (extract_write_cb s err bs)"
  by (auto simp: zip_write_cb_def zip_read_cb_def pack_read_cb_def extract_write_cb_def
      intro!: keeps_intros split: prod.split)

lemma safe_run_pack [keeps_intros]:
  "quiet_stream I out \<Longrightarrow> quiet_stream I file \<Longrightarrow> safe I (run_mz (pack_callbacks out file) call u)"
  by (rule safe_run_mz) (auto simp: pack_callbacks_def intro!: keeps_intros split: prod.split)

lemma safe_run_write [keeps_intros]: "quiet_stream I out \<Longrightarrow> safe I (run_mz (write_callbacks out) call u)"
  by (rule safe_run_mz) (auto simp: write_callbacks_def intro!: keeps_intros)

lemma safe_run_read [keeps_intros]:
  "quiet_stream I pkg \<Longrightarrow> (\<And>u bs. safe I (sink u bs)) \<Longrightarrow> safe I (run_mz (read_callbacks pkg sink) call u)"
  by (rule safe_run_mz) (auto simp: read_callbacks_def intro!: keeps_intros split: prod.split)

lemma quiet_pack_entry [keeps_intros]:
  "quiet I env \<Longrightarrow> quiet_stream I out \<Longrightarrow> safe I (pack_entry env mz save out e st)"
  unfolding pack_entry_def Let_def by (auto intro!: keeps_intros split: prod.split)

lemma quiet_pack_entries [keeps_intros]:
  "quiet I env \<Longrightarrow> quiet_stream I out \<Longrightarrow> safe I (pack_entries env mz save out es st)"
  by (induction es arbitrary: st) (auto intro!: keeps_intros split: prod.split)

lemma safe_pack_finish [keeps_intros]: "quiet_stream I out \<Longrightarrow> safe I (pack_finish mz out m st)"
  unfolding pack_finish_def Let_def by (auto intro!: keeps_intros split: prod.split sum.split)

lemma quiet_pack [keeps_intros]:
  "quiet I env \<Longrightarrow> quiet_stream I out \<Longrightarrow> safe I (daemoon_archive_pack env mz save m out)"
  unfolding daemoon_archive_pack_def by (auto intro!: keeps_intros split: prod.split)

lemma safe_reader_open [keeps_intros]: "quiet_stream I pkg \<Longrightarrow> safe I (reader_open mz pkg)"
  unfolding reader_open_def by (auto intro!: keeps_intros split: prod.split option.split)

lemma safe_read_manifest [keeps_intros]: "quiet_stream I pkg \<Longrightarrow> safe I (daemoon_archive_read_manifest mz pkg)"
  unfolding daemoon_archive_read_manifest_def read_manifest_from_def
  by (auto intro!: keeps_intros split: prod.split option.split sum.split)

lemma safe_verify_entries [keeps_intros]: "quiet_stream I pkg \<Longrightarrow> safe I (verify_entries mz pkg es st)"
  by (induction es arbitrary: st)
     (auto simp: verify_entry_def intro!: keeps_intros split: prod.split option.split)

lemma safe_verify [keeps_intros]: "quiet_stream I pkg \<Longrightarrow> safe I (daemoon_archive_verify mz ctx pkg m)"
  unfolding daemoon_archive_verify_def by (auto intro!: keeps_intros split: prod.split sum.split)


section \<open>The server client\<close>

lemma safe_api_body_write: "quiet_stream I (sk_sink s) \<Longrightarrow> safe I (api_body_write s status bs)"
  unfolding api_body_write_def by (auto intro!: keeps_intros split: prod.split)

lemma api_body_write_sink: "ensures (api_body_write s status bs) (\<lambda>(r, s'). sk_sink s' = sk_sink s)"
  unfolding api_body_write_def by (auto intro!: ensures_intros ensures_bind_any split: prod.split)

text \<open>An exchange keeps the sink it was given, so its stream stays quiet through all pieces and retries.\<close>

definition quiet_body :: "('w \<Rightarrow> bool) \<Rightarrow> ('w, 'b) body_read \<Rightarrow> ('b \<Rightarrow> bool) \<Rightarrow> bool" where
  "quiet_body I body B \<longleftrightarrow>
    (case body of None \<Rightarrow> True | Some read \<Rightarrow> \<forall>b cap. B b \<longrightarrow> keeps I (read b cap) (\<lambda>(_, b'). B b'))"

lemma run_exchange_keeps:
  fixes I :: "'w \<Rightarrow> bool" and B :: "'b \<Rightarrow> bool" and body :: "('w, 'b) body_read"
  assumes body: "quiet_body I body B"
  defines "U \<equiv> \<lambda>u :: 'b \<times> 'w api_sink. B (fst u) \<and> quiet_stream I (sk_sink (snd u))"
  shows "quiet_exchange I x \<Longrightarrow> U u \<Longrightarrow> run_exchange (pull_body body) push_body x u = Some ((r, resp, u'), w') \<Longrightarrow>
    I w' \<and> U u'"
proof (induction x arbitrary: u)
  case (XDone r resp w)
  then show ?case by simp
next
  case (XPull cap w k)
  then obtain rr bs u1 w1 where pull: "pull_body body u cap w = Some (((rr, bs), u1), w1)"
    "run_exchange (pull_body body) push_body (k rr bs w1) u1 = Some ((r, resp, u'), w')"
    by (auto split: option.splits)
  have "keeps I (pull_body body u cap) (\<lambda>(_, u1). U u1)"
    using body XPull.prems(2)
    by (auto simp: pull_body_def quiet_body_def U_def intro!: keeps_intros keeps_bind split: option.splits)
  from keepsD [OF this _ pull(1)] have "I w1" "U u1" using XPull.prems(1) by simp_all
  with XPull pull(2) show ?case by (intro XPull.IH [of "k rr" "k rr bs"]) auto
next
  case (XBody status bs w k)
  then obtain rr u1 w1 where push: "push_body u status bs w = Some ((rr, u1), w1)"
    "run_exchange (pull_body body) push_body (k rr w1) u1 = Some ((r, resp, u'), w')"
    by (auto split: option.splits)
  have "safe I (api_body_write (snd u) status bs)" using XBody.prems(2) by (simp add: U_def safe_api_body_write)
  with push(1) XBody.prems(1) have "I w1"
    by (auto simp: push_body_def bind_io_Some_iff dest: keepsD)
  moreover have "U u1"
    using push(1) XBody.prems(2) api_body_write_sink [of "snd u" status bs]
    by (fastforce simp: push_body_def bind_io_Some_iff U_def ensures_def)
  ultimately show ?case using XBody push(2) by (intro XBody.IH [of "k rr"]) auto
qed

lemma run_request_keeps:
  assumes "quiet I env" "quiet_body I body B" "B (fst u)" "quiet_stream I (sk_sink (snd u))"
  shows "keeps I (run_request env req body u) (\<lambda>(_, _, u'). B (fst u') \<and> quiet_stream I (sk_sink (snd u')))"
proof -
  have "I w' \<and> B b' \<and> quiet_stream I (sk_sink s')"
    if I: "I w" and run: "run_request env req body u w = Some ((r, resp, b', s'), w')" for w r resp b' s' w'
  proof -
    obtain net request where net: "env_net env = Some net" "nt_request net = Some request"
      using run by (auto simp: run_request_def split: option.splits)
    then have "quiet_exchange I (request req w)"
      using assms(1) I by (auto simp: quiet_def quiet_net_def)
    from run_exchange_keeps [OF assms(2) this, of u r resp "(b', s')" w'] run net assms(3,4)
    show ?thesis by (simp add: run_request_def)
  qed
  then show ?thesis by (auto simp: keeps_def)
qed

lemma api_do_loop_safe:
  assumes "quiet I env" "quiet_body I body B"
  shows "B (fst u) \<Longrightarrow> quiet_stream I (sk_sink (snd u)) \<Longrightarrow> safe I (api_do_loop env req body n r resp u)"
proof (induction n arbitrary: r resp u)
  case (Suc n)
  have sink: "sk_sink (sink_reset s) = sk_sink s" for s :: "'a api_sink" by (simp add: sink_reset_def)
  show ?case
    unfolding api_do_loop.simps
    by (rule keeps_bind [OF run_request_keeps [OF assms]])
       (use Suc in \<open>auto simp: sink intro!: keeps_intros split: prod.splits\<close>)
qed (auto intro!: keeps_intros)

lemma api_do_safe:
  "quiet I env \<Longrightarrow> quiet_body I body B \<Longrightarrow> B b \<Longrightarrow> quiet_stream I (sk_sink sink) \<Longrightarrow> safe I (api_do env req body b sink)"
  unfolding api_do_def by (auto intro!: keeps_intros api_do_loop_safe split: prod.split)

lemma no_body_quiet: "quiet_body I no_body (\<lambda>_. True)"
  by (simp add: quiet_body_def no_body_def)

lemma stream_body_quiet: "quiet_body I (Some stream_body_read) (quiet_stream I)"
  by (auto simp: quiet_body_def stream_body_read_def intro!: keeps_intros)

lemma quiet_get_latest [keeps_intros]: "quiet I env \<Longrightarrow> safe I (daemoon_api_get_latest env p t)"
  unfolding daemoon_api_get_latest_def
  by (auto simp: mk_sink_def intro!: keeps_intros api_do_safe [OF _ no_body_quiet] split: sum.split prod.split)

lemma quiet_download [keeps_intros]:
  "quiet I env \<Longrightarrow> quiet_stream I s \<Longrightarrow> safe I (daemoon_api_download env p t v s out n)"
  unfolding daemoon_api_download_def
  by (auto simp: mk_sink_def intro!: keeps_intros keeps_safe [OF run_request_keeps [OF _ no_body_quiet]]
      split: sum.split prod.split)

lemma quiet_upload [keeps_intros]:
  "quiet I env \<Longrightarrow> quiet_stream I body \<Longrightarrow> safe I (daemoon_api_upload env m body n c)"
  unfolding daemoon_api_upload_def
  by (auto simp: mk_sink_def intro!: keeps_intros api_do_safe [OF _ stream_body_quiet] split: sum.split prod.split)

section \<open>The sync engine, up to the restore\<close>

lemma quiet_discard [keeps_intros]: "quiet I env \<Longrightarrow> safe I (discard env path r)"
  unfolding discard_def by (auto intro!: keeps_intros)

lemma safe_state_read_loop [keeps_intros]:
  assumes "quiet_stream I f"
  shows "safe I (state_read_loop f js)"
proof (rule safe_loop)
  fix w a w'
  assume "I w" "state_read_loop f js w = Some (a, w')"
  with assms show "I w'"
  proof (induction f js w rule: state_read_loop.induct)
    case (1 f js w)
    obtain r got w1 where rd: "daemoon_stream_read f (SYNC_STATE_MAX_BYTES - 1 - length js) w = Some ((r, got), w1)"
      using 1(4) by (subst (asm) state_read_loop.simps) (auto split: option.splits)
    then have w1: "I w1" using 1(2,3) safe_stream_ops(1) by (metis keepsD)
    have close: "safe I (bind_io (daemoon_stream_close f) (\<lambda>_. return_io x))" for x :: "result \<times> bytes"
      using 1(2) by (auto intro!: keeps_intros)
    show ?case
      using 1 rd w1 close by (subst (asm) (2) state_read_loop.simps) (auto split: if_splits dest: keepsD)
  qed
qed

lemma quiet_state_load [keeps_intros]: "quiet I env \<Longrightarrow> safe I (daemoon_sync_state_load env p t out)"
  unfolding daemoon_sync_state_load_def Let_def by (auto intro!: keeps_intros split: sum.split prod.split)

lemma quiet_write_then_rename [keeps_intros]: "quiet I env \<Longrightarrow> safe I (write_then_rename env tmp path js)"
  unfolding write_then_rename_def by (auto intro!: keeps_intros)

lemma quiet_state_save [keeps_intros]: "quiet I env \<Longrightarrow> safe I (daemoon_sync_state_save env p t st)"
  unfolding daemoon_sync_state_save_def by (auto intro!: keeps_intros split: sum.split)

lemma quiet_scan_local [keeps_intros]: "quiet I env \<Longrightarrow> safe I (daemoon_sync_scan_local env title)"
  unfolding daemoon_sync_scan_local_def Let_def by (auto intro!: keeps_intros split: prod.split)

lemma quiet_fill_created_at [keeps_intros]: "quiet I env \<Longrightarrow> safe I (fill_created_at env cap)"
  unfolding fill_created_at_def Let_def
  by (auto simp: quiet_def intro!: keeps_intros keeps_call split: option.split prod.split)

lemma quiet_title_manifest [keeps_intros]: "quiet I env \<Longrightarrow> safe I (title_manifest env title v)"
  unfolding title_manifest_def Let_def
  by (auto simp: quiet_def quiet_save_def intro!: keeps_intros keeps_call quiet_fill_created_at
      split: option.split prod.split)

lemma quiet_pack_and_rename [keeps_intros]:
  "quiet I env \<Longrightarrow> quiet_stream I f \<Longrightarrow> safe I (pack_and_rename env mz save f m tmp out)"
  unfolding pack_and_rename_def Let_def by (auto intro!: keeps_intros split: prod.split)

lemma quiet_pack_title_to [keeps_intros]: "quiet I env \<Longrightarrow> safe I (pack_title_to env mz title v out)"
  unfolding pack_title_to_def by (auto intro!: keeps_intros split: prod.split sum.split)

lemma quiet_backup_local [keeps_intros]: "quiet I env \<Longrightarrow> safe I (daemoon_sync_backup_local env mz title out n)"
  unfolding daemoon_sync_backup_local_def by (auto intro!: keeps_intros split: prod.split sum.split)

lemma quiet_check_not_running [keeps_intros]: "quiet I env \<Longrightarrow> safe I (check_not_running env title)"
  unfolding check_not_running_def
  by (auto simp: quiet_def quiet_save_def intro!: keeps_intros keeps_call quiet_notify split: option.split prod.split)

lemma quiet_restore_verify [keeps_intros]: "quiet I env \<Longrightarrow> safe I (restore_verify env mz title path)"
  unfolding restore_verify_def by (auto intro!: keeps_intros split: prod.split sum.split)

lemma quiet_staging_path [keeps_intros]: "quiet I env \<Longrightarrow> safe I (staging_path env title cap)"
  unfolding staging_path_def by (auto intro!: keeps_intros split: sum.split)

lemma quiet_record_base [keeps_intros]: "quiet I env \<Longrightarrow> safe I (record_base env title local v sha)"
  unfolding record_base_def Let_def by (auto intro!: keeps_intros split: prod.split)

lemma quiet_do_upload [keeps_intros]: "quiet I env \<Longrightarrow> safe I (do_upload env mz title v local c)"
  unfolding do_upload_def by (auto intro!: keeps_intros split: sum.split prod.split option.split)

lemma quiet_download_package [keeps_intros]: "quiet I env \<Longrightarrow> safe I (download_package env title remote tmp path)"
  unfolding download_package_def by (auto intro!: keeps_intros split: prod.split)

lemma quiet_check_download [keeps_intros]: "quiet I env \<Longrightarrow> safe I (check_download env mz title remote path)"
  unfolding check_download_def by (auto intro!: keeps_intros split: prod.split)

lemma quiet_ask_conflict [keeps_intros]: "quiet I env \<Longrightarrow> safe I (ask_conflict env title remote local)"
  unfolding ask_conflict_def Let_def by (auto simp: quiet_def quiet_ui_def intro!: safe_call_fn)

lemma quiet_sync_none [keeps_intros]: "quiet I env \<Longrightarrow> safe I (sync_none env title local remote stats)"
  unfolding sync_none_def Let_def by (auto intro!: keeps_intros split: prod.split)

end
