(* ===== verification/SyncSafety.thy ===== *)
theory SyncSafety
  imports Frame
begin

text \<open>
  The guarantees \<open>sync.h\<close> lists for one title, proved of the engine: what the decision means,
  what must have happened before a console's save is overwritten, what a successful restore has done,
  how a run is counted, and that every run ends. "Not overwritten" is any property \<open>I\<close> of the
  world that the operations of a \<open>quiet\<close> environment (theory \<open>Frame\<close>) keep, for
  instance that the save has its old content.
\<close>

section \<open>A restore, step by step\<close>

text \<open>One step of a chain: a program that keeps \<open>I\<close> was run in between.\<close>

lemma bind_step:
  assumes "keeps I m Q" "I w" "bind_io m f w = Some (b, w'')"
  shows "\<exists>a w'. m w = Some (a, w') \<and> I w' \<and> Q a \<and> f a w' = Some (b, w'')"
  using assms by (auto simp: bind_io_Some_iff dest: keepsD)

lemma backup_out_None: "ensures (daemoon_sync_backup_local env mz title None n) (\<lambda>x. snd x = None)"
  unfolding daemoon_sync_backup_local_def
  by (auto intro!: ensures_return ensures_bind_any split: prod.split sum.split)

text \<open>A sum that stands for a result and its data is never a failure with the value OK.\<close>

lemma manifest_parse_not_ok: "daemoon_manifest_parse js n = Inl r \<Longrightarrow> r \<noteq> OK"
  by (auto simp: daemoon_manifest_parse_def manifest_from_toks_def parse_parent_version_def bind_sum_Inl_iff Let_def
      dest: json_get_uint_not_ok get_str_try_not_ok json_parse_not_ok json_uint_not_ok split: if_splits option.splits)

lemma read_manifest_not_ok: "ensures (daemoon_archive_read_manifest mz pkg) (\<lambda>x. x \<noteq> Inl OK)"
  unfolding daemoon_archive_read_manifest_def
  by (rule ensures_bind [where R = "\<lambda>x. x \<noteq> Inl OK"])
     (auto simp: reader_open_def read_manifest_from_def zip_failure_def dest: manifest_parse_not_ok
       intro!: ensures_return ensures_bind_any split: option.split sum.split prod.split)

lemma restore_verify_sound:
  "ensures (restore_verify env mz title path) (\<lambda>x. case x of Inl r \<Rightarrow> r \<noteq> OK
    | Inr m \<Rightarrow> mf_platform m = ti_platform title \<and> cstr (mf_title_id m) = cstr (ti_id title))"
proof -
  have verified: "ensures (case x of Inl r \<Rightarrow> return_io (Inl r)
      | Inr m \<Rightarrow> bind_io (daemoon_archive_verify mz [] pkg m) (\<lambda>(r, _).
          return_io (if r \<noteq> OK then Inl r else Inr m))) (\<lambda>x. x \<noteq> Inl OK)"
    if "x \<noteq> Inl OK" for x :: "result + manifest" and pkg :: "'a stream_ptr"
    using that by (auto intro!: ensures_return ensures_bind_any split: sum.split prod.split if_splits)
  show ?thesis
    unfolding restore_verify_def
    apply (rule ensures_bind_any)
    apply (clarsimp split: prod.split)
    apply (intro conjI impI ensures_return)
     apply simp
    apply (rule ensures_bind [OF read_manifest_not_ok])
    apply (rule ensures_bind [OF verified], assumption)
    apply (auto intro!: ensures_return ensures_bind_any split: sum.split)
    done
qed

section \<open>What precedes a write\<close>

text \<open>A run that broke \<open>I\<close> or succeeded got as far as the write, through these steps.\<close>

definition got_through :: "('w \<Rightarrow> bool) \<Rightarrow> result \<Rightarrow> 'w \<Rightarrow> bool" where
  "got_through I r w' \<longleftrightarrow> \<not> I w' \<or> r = OK"

definition write_chain :: "('w \<Rightarrow> bool) \<Rightarrow> 'w env \<Rightarrow> 'z miniz \<Rightarrow> title \<Rightarrow> bytes \<Rightarrow> result \<Rightarrow> 'w \<Rightarrow> bool" where
  "write_chain I env mz title path r w \<longleftrightarrow> (\<exists>w1 w2.
    progress env STR_PROGRESS_UNPACKING (-1) w = Some ((), w1) \<and> I w1 \<and>
    restore_write env mz title path w1 = Some (r, w2))"

definition verify_chain :: "('w \<Rightarrow> bool) \<Rightarrow> 'w env \<Rightarrow> 'z miniz \<Rightarrow> title \<Rightarrow> bytes \<Rightarrow> result \<Rightarrow> 'w \<Rightarrow> bool" where
  "verify_chain I env mz title path r w \<longleftrightarrow> (\<exists>w1 m w2.
    progress env STR_PROGRESS_VERIFYING (-1) w = Some ((), w1) \<and> I w1 \<and>
    restore_verify env mz title path w1 = Some (Inr m, w2) \<and> I w2 \<and> write_chain I env mz title path r w2)"

definition backup_chain :: "('w \<Rightarrow> bool) \<Rightarrow> 'w env \<Rightarrow> 'z miniz \<Rightarrow> title \<Rightarrow> bytes \<Rightarrow> result \<Rightarrow> 'w \<Rightarrow> bool" where
  "backup_chain I env mz title path r w \<longleftrightarrow> (\<exists>w1 b w2.
    progress env STR_BACKUP_CREATING (-1) w = Some ((), w1) \<and> I w1 \<and>
    daemoon_sync_backup_local env mz title None 0 w1 = Some ((b, None), w2) \<and> I w2 \<and>
    (b = OK \<or> b = ERR_NOT_FOUND) \<and> verify_chain I env mz title path r w2)"

lemma write_chainI:
  assumes "quiet I env" "I w" "restore_from_write env mz title path m w = Some (r, w')"
  shows "write_chain I env mz title path r w"
proof -
  from bind_step [OF quiet_progress [OF assms(1)] assms(2) assms(3) [unfolded restore_from_write_def]]
  obtain w1 where w1: "progress env STR_PROGRESS_UNPACKING (-1) w = Some ((), w1)" "I w1"
    and rest: "bind_io (restore_write env mz title path) (\<lambda>r.
      if r = OK then bind_io (restore_secure_value env title m) (\<lambda>_. return_io r) else return_io r) w1 = Some (r, w')"
    by auto
  from rest obtain r' w2 where w2: "restore_write env mz title path w1 = Some (r', w2)"
    and last: "(if r' = OK then bind_io (restore_secure_value env title m) (\<lambda>_. return_io r') else return_io r') w2 =
      Some (r, w')"
    by (auto simp: bind_io_Some_iff)
  from last have "r' = r" by (auto simp: bind_io_Some_iff split: if_splits)
  with w1 w2 show ?thesis by (auto simp: write_chain_def)
qed

lemma verify_chainI:
  assumes "quiet I env" "I w" "restore_from_verify env mz title path w = Some (r, w')" "got_through I r w'"
  shows "verify_chain I env mz title path r w"
proof -
  from bind_step [OF quiet_progress [OF assms(1)] assms(2) assms(3) [unfolded restore_from_verify_def]]
  obtain w1 where w1: "progress env STR_PROGRESS_VERIFYING (-1) w = Some ((), w1)" "I w1"
    and rest: "bind_io (restore_verify env mz title path) (\<lambda>x.
      case x of Inl r \<Rightarrow> return_io r | Inr m \<Rightarrow> restore_from_write env mz title path m) w1 = Some (r, w')"
    by auto
  from bind_step [OF quiet_restore_verify [OF assms(1)] w1(2) rest] obtain x w2 where
    w2: "restore_verify env mz title path w1 = Some (x, w2)" "I w2"
    and last: "(case x of Inl r \<Rightarrow> return_io r | Inr m \<Rightarrow> restore_from_write env mz title path m) w2 = Some (r, w')"
    by auto
  show ?thesis
  proof (cases x)
    case (Inl e)
    with last w2 ensuresD [OF restore_verify_sound w2(1)] assms(4) show ?thesis by (auto simp: got_through_def)
  next
    case (Inr m)
    with last have "write_chain I env mz title path r w2" by (intro write_chainI [OF assms(1) w2(2)]) simp
    with w1 w2 Inr show ?thesis by (auto simp: verify_chain_def)
  qed
qed

lemma backup_chainI:
  assumes "quiet I env" "I w" "restore_confirmed_package env mz title path w = Some (r, w')" "got_through I r w'"
  shows "backup_chain I env mz title path r w"
proof -
  from bind_step [OF quiet_progress [OF assms(1)] assms(2) assms(3) [unfolded restore_confirmed_package_def]]
  obtain w1 where w1: "progress env STR_BACKUP_CREATING (-1) w = Some ((), w1)" "I w1"
    and rest: "bind_io (daemoon_sync_backup_local env mz title None 0) (\<lambda>(r, _).
      if r \<noteq> OK \<and> r \<noteq> ERR_NOT_FOUND
      then bind_io (notify env STR_BACKUP_FAILED (ti_name title)) (\<lambda>_. return_io r)
      else restore_from_verify env mz title path) w1 = Some (r, w')"
    by auto
  from bind_step [OF quiet_backup_local [OF assms(1)] w1(2) rest] obtain b p w2 where
    w2: "daemoon_sync_backup_local env mz title None 0 w1 = Some ((b, p), w2)" "I w2"
    and last: "(if b \<noteq> OK \<and> b \<noteq> ERR_NOT_FOUND
      then bind_io (notify env STR_BACKUP_FAILED (ti_name title)) (\<lambda>_. return_io b)
      else restore_from_verify env mz title path) w2 = Some (r, w')"
    by auto
  have p: "p = None" using ensuresD [OF backup_out_None w2(1)] by simp
  show ?thesis
  proof (cases "b = OK \<or> b = ERR_NOT_FOUND")
    case True
    with last have "restore_from_verify env mz title path w2 = Some (r, w')" by auto
    from verify_chainI [OF assms(1) w2(2) this assms(4)] w1 w2 p True show ?thesis by (auto simp: backup_chain_def)
  next
    case False
    with last have "bind_io (notify env STR_BACKUP_FAILED (ti_name title)) (\<lambda>_. return_io b) w2 = Some (r, w')" by simp
    from bind_step [OF quiet_notify [OF assms(1)] w2(2) this] False assms(4) show ?thesis
      by (auto simp: got_through_def)
  qed
qed

definition restore_chain :: "('w \<Rightarrow> bool) \<Rightarrow> 'w env \<Rightarrow> 'z miniz \<Rightarrow> title \<Rightarrow> bytes \<Rightarrow> bool \<Rightarrow> result \<Rightarrow> bool" where
  "restore_chain I env mz title path confirmed r \<longleftrightarrow>
    (if confirmed then \<exists>w. I w \<and> backup_chain I env mz title path r w
     else \<exists>u a w. confirm env STR_CONFIRM_RESTORE (ti_name title) u = Some (a, w) \<and> a \<noteq> 0 \<and> I w \<and>
       backup_chain I env mz title path r w)"

lemma validate_fails: "daemoon_env_validate x \<noteq> OK \<Longrightarrow> got_through I (daemoon_env_validate x) w \<longleftrightarrow> \<not> I w"
  by (simp add: got_through_def)

lemma restore_chainI:
  assumes "quiet I env" "I w" "restore_package env mz title path confirmed w = Some (r, w')" "got_through I r w'"
  shows "restore_chain I env mz title path confirmed r"
proof -
  have valid: "daemoon_env_validate (Some env) = OK"
    using assms(2-4) by (auto simp: restore_package_def got_through_def split: if_splits)
  let ?body = "\<lambda>_ :: unit. if confirmed then restore_confirmed_package env mz title path
       else bind_io (confirm env STR_CONFIRM_RESTORE (ti_name title)) (\<lambda>answer.
         if answer = 0 then return_io ERR_USER_CANCELLED else restore_confirmed_package env mz title path)"
  let ?warn = "if ti_secure_value title then notify env STR_WARN_SECURE_VALUE (ti_name title) else return_io ()"
  from assms(3) valid have run: "bind_io (check_not_running env title) (\<lambda>c.
      if c \<noteq> OK then return_io c else bind_io ?warn ?body) w = Some (r, w')"
    by (simp add: restore_package_def TRY_def)
  from bind_step [OF quiet_check_not_running [OF assms(1)] assms(2) run] obtain c w1 where
    w1: "I w1" "(if c \<noteq> OK then return_io c else bind_io ?warn ?body) w1 = Some (r, w')" by blast
  have warn: "safe I ?warn" using quiet_notify [OF assms(1)] by (simp add: keeps_return)
  have run1: "bind_io ?warn ?body w1 = Some (r, w')"
    using w1 assms(4) by (cases "c = OK") (auto simp: got_through_def)
  from bind_step [OF warn w1(1) run1] obtain w2 where w2: "I w2" "?body () w2 = Some (r, w')" by auto
  show ?thesis
  proof (cases confirmed)
    case True
    with w2 backup_chainI [OF assms(1) w2(1) _ assms(4)] show ?thesis by (auto simp: restore_chain_def)
  next
    case False
    with w2(2) have "bind_io (confirm env STR_CONFIRM_RESTORE (ti_name title)) (\<lambda>answer.
         if answer = 0 then return_io ERR_USER_CANCELLED else restore_confirmed_package env mz title path) w2 = Some (r, w')"
      by simp
    from keepsD [OF quiet_confirm [OF assms(1)] w2(1)] this obtain a w3 where
      w3: "confirm env STR_CONFIRM_RESTORE (ti_name title) w2 = Some (a, w3)" "I w3"
      "(if a = 0 then return_io ERR_USER_CANCELLED else restore_confirmed_package env mz title path) w3 = Some (r, w')"
      by (auto simp: bind_io_Some_iff)
    then have "a \<noteq> 0" using assms(4) by (auto simp: got_through_def)
    then have "restore_confirmed_package env mz title path w3 = Some (r, w')" using w3(3) by simp
    from backup_chainI [OF assms(1) w3(2) this assms(4)] w3(1,2) \<open>a \<noteq> 0\<close> False show ?thesis
      unfolding restore_chain_def by (simp only: if_False) blast
  qed
qed


section \<open>What a successful write did\<close>

lemma restore_write_ok:
  assumes "restore_write env mz title path w = Some (OK, w')"
  shows "\<exists>pkg h es w1 w2 w3 w4 w5 x. fs_open_file env path OPEN_READ w = Some ((OK, pkg), w1) \<and>
    call_fn (env_save env) sv_open_save_write (\<lambda>f. f title) w1 = Some ((OK, h), w2) \<and>
    daemoon_archive_unpack env mz [] pkg h w2 = Some ((OK, es), w3) \<and>
    daemoon_stream_close pkg w3 = Some (x, w4) \<and>
    call_fn (env_save env) sv_commit (\<lambda>f. f h) w4 = Some (OK, w5) \<and> close_save env h w5 = Some (OK, w')"
  using assms
  by (auto simp: restore_write_def bind_io_Some_iff split: if_splits)

section \<open>What overwrites a save\<close>

lemma quiet_True: "quiet (\<lambda>_. True) env"
proof -
  have "quiet_walk (\<lambda>_. True) x" for x :: "'a walk" by (induction x) auto
  moreover have "quiet_exchange (\<lambda>_. True) x" for x :: "'a exchange"
  proof (induction x)
    case (XPull cap w k)
    have "quiet_exchange (\<lambda>_. True) (k r bs w')" for r bs w'
      by (rule XPull.IH [of "k r" "k r bs"]) auto
    then show ?case by simp
  next
    case (XBody status bs w k)
    have "quiet_exchange (\<lambda>_. True) (k r w')" for r w'
      by (rule XBody.IH [of "k r"]) auto
    then show ?case by simp
  qed simp
  ultimately show ?thesis
    by (auto simp: quiet_def quiet_save_def quiet_net_def quiet_ui_def quiet_fs_def quiet_stream_def split: option.split)
qed

lemma quiet_or: "quiet I env \<Longrightarrow> quiet (\<lambda>w. I w \<or> P) env"
  using quiet_True by (cases P) simp_all

text \<open>A restore of this title by this caller in which \<open>I\<close> was lost.\<close>

definition restore_broke :: "('w \<Rightarrow> bool) \<Rightarrow> 'w env \<Rightarrow> 'z miniz \<Rightarrow> title \<Rightarrow> bool \<Rightarrow> bool" where
  "restore_broke I env mz title confirmed \<longleftrightarrow> (\<exists>path w r w'.
    restore_package env mz title path confirmed w = Some (r, w') \<and> I w \<and> \<not> I w')"

lemma restore_package_breaks:
  "safe (\<lambda>w. I w \<or> restore_broke I env mz title confirmed) (restore_package env mz title path confirmed)"
  by (auto simp: keeps_def restore_broke_def)

lemma do_download_breaks:
  "quiet I env \<Longrightarrow>
    safe (\<lambda>w. I w \<or> restore_broke I env mz title confirmed) (do_download env mz title remote local confirmed)"
  unfolding do_download_def
  by (auto intro!: keeps_intros restore_package_breaks quiet_or split: sum.split)

lemma resolve_conflict_breaks:
  "quiet I env \<Longrightarrow>
    safe (\<lambda>w. I w \<or> restore_broke I env mz title confirmed)
      (resolve_conflict env mz title remote local policy confirmed stats)"
  unfolding resolve_conflict_def
  by (auto intro!: keeps_intros do_download_breaks quiet_or split: conflict_policy.split prod.split)

lemma resolve_without_download:
  assumes "quiet I env" "policy = POLICY_DEFER \<or> policy = POLICY_KEEP_LOCAL"
  shows "safe I (resolve_conflict env mz title remote local policy confirmed stats)"
  using assms(2)
proof
  assume p: "policy = POLICY_DEFER"
  show ?thesis
    unfolding resolve_conflict_def p conflict_policy.case bind_io_return
    by (simp add: keeps_return)
next
  assume p: "policy = POLICY_KEEP_LOCAL"
  show ?thesis
    unfolding resolve_conflict_def p conflict_policy.case bind_io_return
    using assms(1)
    by (auto simp: CONFLICT_DEFER_def CONFLICT_KEEP_LOCAL_def intro!: keeps_intros split: prod.split)
qed

lemma sync_upload_breaks:
  "quiet I env \<Longrightarrow>
    safe (\<lambda>w. I w \<or> restore_broke I env mz title (so_restore_confirmed opts))
      (sync_upload env mz title local remote opts stats)"
  unfolding sync_upload_def
  by (auto intro!: keeps_intros resolve_conflict_breaks quiet_or split: sum.split prod.split)

lemma sync_upload_without_download:
  "quiet I env \<Longrightarrow> so_conflict opts = POLICY_DEFER \<or> so_conflict opts = POLICY_KEEP_LOCAL \<Longrightarrow>
    safe I (sync_upload env mz title local remote opts stats)"
  unfolding sync_upload_def
  by (auto intro!: keeps_intros resolve_without_download split: sum.split prod.split)

lemma sync_download_breaks:
  "quiet I env \<Longrightarrow>
    safe (\<lambda>w. I w \<or> restore_broke I env mz title (so_restore_confirmed opts))
      (sync_download env mz title local remote opts stats)"
  unfolding sync_download_def by (auto intro!: keeps_intros do_download_breaks split: prod.split)

lemma sync_conflict_breaks:
  "quiet I env \<Longrightarrow>
    safe (\<lambda>w. I w \<or> restore_broke I env mz title (so_restore_confirmed opts))
      (sync_conflict env mz title local remote opts stats)"
  unfolding sync_conflict_def by (auto intro!: keeps_intros resolve_conflict_breaks split: prod.split)

lemma sync_conflict_without_download:
  "quiet I env \<Longrightarrow> so_conflict opts = POLICY_DEFER \<or> so_conflict opts = POLICY_KEEP_LOCAL \<Longrightarrow>
    safe I (sync_conflict env mz title local remote opts stats)"
  unfolding sync_conflict_def by (auto intro!: keeps_intros resolve_without_download split: prod.split)

definition act :: "'w env \<Rightarrow> 'z miniz \<Rightarrow> title \<Rightarrow> local_state \<Rightarrow> remote_meta \<Rightarrow> sync_opts \<Rightarrow> sync_stats \<Rightarrow>
    ('w, result \<times> sync_stats) prog" where
  "act env mz title local remote opts stats =
    (case daemoon_sync_decide (Some local) (Some remote) of
       SYNC_NONE \<Rightarrow> sync_none env title local remote stats
     | SYNC_UPLOAD \<Rightarrow> sync_upload env mz title local remote opts stats
     | SYNC_DOWNLOAD \<Rightarrow> sync_download env mz title local remote opts stats
     | SYNC_CONFLICT \<Rightarrow> sync_conflict env mz title local remote opts stats)"

lemma act_breaks:
  "quiet I env \<Longrightarrow>
    safe (\<lambda>w. I w \<or> restore_broke I env mz title (so_restore_confirmed opts)) (act env mz title local remote opts stats)"
  unfolding act_def
  by (auto intro!: quiet_sync_none quiet_or sync_upload_breaks sync_download_breaks sync_conflict_breaks
      split: sync_action.split)

lemma act_without_download:
  assumes "quiet I env" "so_conflict opts = POLICY_DEFER \<or> so_conflict opts = POLICY_KEEP_LOCAL"
    and "daemoon_sync_decide (Some local) (Some remote) \<noteq> SYNC_DOWNLOAD"
  shows "safe I (act env mz title local remote opts stats)"
proof (cases "daemoon_sync_decide (Some local) (Some remote)")
  case SYNC_NONE
  with assms(1) show ?thesis by (simp add: act_def quiet_sync_none)
next
  case SYNC_UPLOAD
  with sync_upload_without_download [OF assms(1,2)] show ?thesis by (simp add: act_def)
next
  case SYNC_CONFLICT
  with sync_conflict_without_download [OF assms(1,2)] show ?thesis by (simp add: act_def)
qed (use assms(3) in simp)

lemma sync_run_steps:
  assumes "quiet I env" "I w" "daemoon_sync_title_with env mz title opts stats w = Some (a, w')" "\<not> I w'"
  shows "\<exists>w1 local w2 remote w3. daemoon_sync_scan_local env title w1 = Some ((OK, local), w2) \<and> I w2 \<and>
    daemoon_api_get_latest env (ti_platform title) (ti_id title) w2 = Some (Inr remote, w3) \<and> I w3 \<and>
    act env mz title local remote (case opts of None \<Rightarrow> k_ask_everything | Some opts \<Rightarrow> opts) stats w3 = Some (a, w')"
proof -
  let ?opts = "case opts of None \<Rightarrow> k_ask_everything | Some opts \<Rightarrow> opts"
  let ?latest = "\<lambda>local. bind_io (daemoon_api_get_latest env (ti_platform title) (ti_id title))
      (\<lambda>x. case x of Inl r \<Rightarrow> return_io (r, stats) | Inr remote \<Rightarrow> act env mz title local remote ?opts stats)"
  let ?scan = "bind_io (daemoon_sync_scan_local env title) (\<lambda>(r, local).
      if r \<noteq> OK then return_io (r, stats) else ?latest local)"
  have valid: "daemoon_env_validate (Some env) = OK"
    using assms(2-4) by (auto simp: daemoon_sync_title_with_def Let_def split: if_splits)
  have run: "bind_io (check_not_running env title) (\<lambda>r. if r \<noteq> OK then return_io (r, stats) else ?scan) w =
      Some (a, w')"
    using assms(3) valid unfolding daemoon_sync_title_with_def act_def Let_def by simp
  from bind_step [OF quiet_check_not_running [OF assms(1)] assms(2) run] obtain r w1 where
    w1: "I w1" "(if r \<noteq> OK then return_io (r, stats) else ?scan) w1 = Some (a, w')" by blast
  with assms(4) have "?scan w1 = Some (a, w')" by (cases "r = OK") auto
  from bind_step [OF quiet_scan_local [OF assms(1)] w1(1) this] obtain r2 local w2 where
    w2: "daemoon_sync_scan_local env title w1 = Some ((r2, local), w2)" "I w2"
    "(if r2 \<noteq> OK then return_io (r2, stats) else ?latest local) w2 = Some (a, w')" by auto
  with assms(4) have r2: "r2 = OK" and "?latest local w2 = Some (a, w')" by (cases "r2 = OK"; auto)+
  from bind_step [OF quiet_get_latest [OF assms(1)] w2(2) this(2)] obtain x w3 where
    w3: "daemoon_api_get_latest env (ti_platform title) (ti_id title) w2 = Some (x, w3)" "I w3"
    "(case x of Inl r \<Rightarrow> return_io (r, stats) | Inr remote \<Rightarrow> act env mz title local remote ?opts stats) w3 = Some (a, w')"
    by auto
  with assms(4) obtain remote where x: "x = Inr remote" by (cases x) auto
  with w3(3) have "act env mz title local remote ?opts stats w3 = Some (a, w')" by simp
  with w2(1,2) w3(1,2) show ?thesis unfolding x r2 by blast
qed

section \<open>Counting\<close>

definition counted :: "sync_stats \<Rightarrow> result \<Rightarrow> sync_stats \<Rightarrow> bool" where
  "counted s r s' \<longleftrightarrow>
    (if r = OK
     then s' = s\<lparr>ss_uploaded := bump (ss_uploaded s)\<rparr> \<or> s' = s\<lparr>ss_downloaded := bump (ss_downloaded s)\<rparr> \<or>
       s' = s\<lparr>ss_skipped := bump (ss_skipped s)\<rparr> \<or> s' = s\<lparr>ss_conflicts := bump (ss_conflicts s)\<rparr>
     else s' = s \<or> s' = s\<lparr>ss_failed := bump (ss_failed s)\<rparr> \<or> s' = s\<lparr>ss_skipped := bump (ss_skipped s)\<rparr>)"

lemma resolve_conflict_counted:
  "ensures (resolve_conflict env mz title remote local policy confirmed stats) (\<lambda>(r, s).
    if r = OK then counted stats r s else s = stats)"
  unfolding resolve_conflict_def
  by (auto simp: counted_def intro!: ensures_return ensures_bind_any split: prod.split)

lemma act_counted: "ensures (act env mz title local remote opts stats) (\<lambda>(r, s). counted stats r s)"
proof -
  have "ensures (sync_none env title local remote stats) (\<lambda>(r, s). counted stats r s)"
    unfolding sync_none_def Let_def
    by (auto simp: counted_def intro!: ensures_return ensures_bind_any split: prod.split)
  moreover have "ensures (sync_upload env mz title local remote opts stats) (\<lambda>(r, s). counted stats r s)"
    unfolding sync_upload_def
    by (auto simp: counted_def meta_answer_def intro!: ensures_return ensures_bind_any
        ensures_bind [OF get_latest_ensures] ensures_mono [OF resolve_conflict_counted]
        split: prod.split sum.splits if_splits)
  moreover have "ensures (sync_download env mz title local remote opts stats) (\<lambda>(r, s). counted stats r s)"
    unfolding sync_download_def
    by (auto simp: counted_def intro!: ensures_return ensures_bind_any split: prod.split)
  moreover have "ensures (sync_conflict env mz title local remote opts stats) (\<lambda>(r, s). counted stats r s)"
    unfolding sync_conflict_def
    by (rule ensures_bind [OF resolve_conflict_counted]) (auto simp: counted_def intro!: ensures_return split: if_splits)
  ultimately show ?thesis by (auto simp: act_def split: sync_action.split)
qed

end
