(* ===== verification/Guarantees.thy ===== *)
theory Guarantees
  imports SyncSafety
begin

text \<open>
  The promises of \<open>sync.h\<close> as properties, from the chains of \<open>SyncSafety\<close>, and a console on
  which each of them happens: a save of one empty file that has been backed up before, and a
  package that holds the manifest and one file.
\<close>

section \<open>What a verified package is\<close>

lemma restore_verify_Inr:
  assumes "restore_verify env mz title path w = Some (Inr m, w')"
  shows "\<exists>pkg es w1 w2 w3. fs_open_file env path OPEN_READ w = Some ((OK, pkg), w1) \<and>
    daemoon_archive_read_manifest mz pkg w1 = Some (Inr m, w2) \<and>
    daemoon_archive_verify mz [] pkg m w2 = Some ((OK, es), w3) \<and>
    mf_platform m = ti_platform title \<and> cstr (mf_title_id m) = cstr (ti_id title)"
proof -
  from assms obtain pkg w1 x w2 where opened: "fs_open_file env path OPEN_READ w = Some ((OK, pkg), w1)"
    and read: "daemoon_archive_read_manifest mz pkg w1 = Some (x, w2)"
    and rest: "bind_io (case x of Inl r \<Rightarrow> return_io (Inl r)
               | Inr m \<Rightarrow> bind_io (daemoon_archive_verify mz [] pkg m) (\<lambda>(r, _).
                   return_io (if r \<noteq> OK then Inl r else Inr m))) (\<lambda>x.
      bind_io (daemoon_stream_close pkg) (\<lambda>_.
      case x of Inl r \<Rightarrow>
        bind_io (if r = ERR_CHECKSUM_MISMATCH then notify env STR_VERIFY_FAILED (ti_name title) else return_io ())
          (\<lambda>_. return_io (Inl r))
      | Inr m \<Rightarrow>
        if mf_platform m \<noteq> ti_platform title \<or> cstr (mf_title_id m) \<noteq> cstr (ti_id title)
        then return_io (Inl ERR_INVALID_MANIFEST)
        else return_io (Inr m))) w2 = Some (Inr m, w')"
    unfolding restore_verify_def bind_io_Some_iff [of "fs_open_file env path OPEN_READ"]
    by (auto simp: bind_io_Some_iff [of "daemoon_archive_read_manifest mz _"] split: if_splits)
  show ?thesis
  proof (cases x)
    case (Inl r)
    with rest show ?thesis by (auto simp: bind_io_Some_iff)
  next
    case (Inr m')
    with rest obtain r es w3 where verified: "daemoon_archive_verify mz [] pkg m' w2 = Some ((r, es), w3)"
      by (auto simp: bind_io_Some_iff)
    with rest Inr have "r = OK \<and> m' = m \<and> mf_platform m = ti_platform title \<and> cstr (mf_title_id m) = cstr (ti_id title)"
      by (cases "r = OK") (auto simp: bind_io_Some_iff split: if_splits)
    with opened read verified Inr show ?thesis by auto
  qed
qed

lemma download_not_dirty:
  "daemoon_sync_decide (Some l) (Some m) = SYNC_DOWNLOAD \<Longrightarrow> \<not> daemoon_sync_local_dirty (Some l)"
  by (auto simp: daemoon_sync_decide_def daemoon_sync_local_dirty_def Let_def split: if_splits)

lemma sync_title_breaks:
  assumes "quiet I env" "I w" "daemoon_sync_title_with env mz title (Some opts) stats w = Some (a, w')" "\<not> I w'"
  shows "restore_broke I env mz title (so_restore_confirmed opts) \<and>
    (so_conflict opts = POLICY_DEFER \<or> so_conflict opts = POLICY_KEEP_LOCAL \<longrightarrow>
      (\<exists>local remote w1 w2 w3. daemoon_sync_scan_local env title w1 = Some ((OK, local), w2) \<and>
        daemoon_api_get_latest env (ti_platform title) (ti_id title) w2 = Some (Inr remote, w3) \<and>
        daemoon_sync_decide (Some local) (Some remote) = SYNC_DOWNLOAD))"
proof -
  from sync_run_steps [OF assms] obtain w1 local w2 remote w3 where
    steps: "daemoon_sync_scan_local env title w1 = Some ((OK, local), w2)"
      "daemoon_api_get_latest env (ti_platform title) (ti_id title) w2 = Some (Inr remote, w3)" "I w3"
      "act env mz title local remote opts stats w3 = Some (a, w')"
    by (auto simp del: not_None_eq)
  have "I w' \<or> restore_broke I env mz title (so_restore_confirmed opts)"
    using keepsD [OF act_breaks [OF assms(1)] _ steps(4)] steps(3) by blast
  moreover have "daemoon_sync_decide (Some local) (Some remote) = SYNC_DOWNLOAD"
    if "so_conflict opts = POLICY_DEFER \<or> so_conflict opts = POLICY_KEEP_LOCAL"
    using keepsD [OF act_without_download [OF assms(1) that] steps(3,4)] assms(4) by blast
  ultimately show ?thesis using assms(4) steps(1,2) by blast
qed

lemma sync_title_counted: "ensures (daemoon_sync_title_with env mz title opts stats) (\<lambda>(r, s). counted stats r s)"
proof -
  have early: "r \<noteq> OK \<Longrightarrow> counted stats r stats" for r by (simp add: counted_def)
  let ?opts = "case opts of None \<Rightarrow> k_ask_everything | Some opts \<Rightarrow> opts"
  have act: "ensures (case x of Inl r \<Rightarrow> return_io (r, stats) | Inr remote \<Rightarrow> act env mz title local remote ?opts stats)
      (\<lambda>(r, s). counted stats r s)" if "meta_answer x" for x local
    using that by (cases x) (auto simp: early act_counted intro!: ensures_return)
  show ?thesis
    unfolding daemoon_sync_title_with_def Let_def act_def [symmetric]
    by (auto intro!: early ensures_return ensures_bind_any ensures_bind [OF get_latest_ensures] act split: prod.split)
qed

section \<open>A console for the examples\<close>

text \<open>The world says whether the save still has its old content.\<close>

definition example_title :: title where
  "example_title = \<lparr>ti_id = mf_title_id one_file_manifest, ti_name = ''game'', ti_platform = mf_platform one_file_manifest,
    ti_save_type = SAVE_SAVEDATA, ti_size_hint = 0, ti_has_save = True, ti_secure_value = False,
    ti_account_bound = False\<rparr>"

definition null_stream :: "'w stream" where
  "null_stream = \<lparr>st_read = Some (\<lambda>cap w. ((OK, []), w)), st_write = Some (\<lambda>bs w. (OK, w)),
    st_seek = Some (\<lambda>ofs w. (OK, w)), st_close = None, st_size = 100\<rparr>"

text \<open>What the server answers to every request.\<close>

definition example_meta :: "(bytes \<times> jval) list" where
  "example_meta = [(''version'', JNum 1), (''sha256'', JStr (mf_sha256 one_file_manifest)), (''size'', JNum 3)]"

definition example_net :: "'w net_backend" where
  "example_net = \<lparr>nt_request = Some (\<lambda>req w. XBody 200 (json_flat example_meta) w
    (\<lambda>r w. XDone OK \<lparr>rs_status = 200, rs_sha256 = [], rs_content_length = -1\<rparr> w))\<rparr>"

text \<open>
  \<open>made\<close> is what making a directory answers and \<open>found\<close> what opening the save answers; of
  the files only the backups exist.
\<close>

definition example_env_by :: "('w \<Rightarrow> 'w) \<Rightarrow> result \<Rightarrow> result \<Rightarrow> 'w env" where
  "example_env_by ruin made found = idle_env
    \<lparr>env_net := Some example_net, env_clock := Some (\<lambda>cap w. ((ERR_UNSUPPORTED, []), w)), env_server_url := Some ''http://s'',
      env_token := Some ''t'', env_work_dir := Some ''sdmc:/DaeMoon'',
      env_scratch := Some 65536, env_save := Some (idle_save
      \<lparr>sv_list_titles := Some (\<lambda>w. ((OK, [example_title]), w)), sv_open_save := Some (\<lambda>t w. ((found, 0), w)),
       sv_list_entries := Some (\<lambda>h w. WEntry ''a'' 0 (\<lambda>_. WDone OK w)),
       sv_open_file := Some (\<lambda>h p m w. ((OK, Some null_stream), w)),
       sv_remove_all := Some (\<lambda>h w. (OK, ruin w))\<rparr>),
     env_ui := Some (idle_ui\<lparr>ui_confirm := Some (\<lambda>m w. (1, w))\<rparr>),
     env_fs := Some (idle_fs\<lparr>fs_open := Some (\<lambda>p m w. ((OK, Some null_stream), w)),
       fs_mkdir_p := Some (\<lambda>p w. (made, w)), fs_exists := Some (\<lambda>p w. (take 15 p = ''sdmc:/DaeMoon/b'', w))\<rparr>)\<rparr>"

abbreviation example_env :: "result \<Rightarrow> result \<Rightarrow> bool env" where
  "example_env \<equiv> example_env_by (\<lambda>_. False)"

text \<open>A zip library for one package: the manifest, and the file \<open>a\<close> that holds \<open>xyz\<close>.\<close>

definition example_zip :: "unit miniz" where
  "example_zip = one_file_zip
    \<lparr>mz_locate := (\<lambda>z n. Some (if n = ARCHIVE_MANIFEST_PATH then 0 else 1)), mz_num_files := (\<lambda>z. 2),
     mz_file_stat := (\<lambda>z i. Some \<lparr>mz_is_directory = False,
       mz_filename = (if i = 0 then ARCHIVE_MANIFEST_PATH else ''payload/a''), mz_uncomp_size = 3\<rparr>),
     mz_extract := (\<lambda>z i. if i = 0 then MzSink (json_flat (mf_members one_file_manifest)) (\<lambda>_. MzDone True ())
       else MzSink ''xyz'' (\<lambda>_. MzDone True ()))\<rparr>"

lemma example_stream [simp]:
  "daemoon_stream_read (Some null_stream) n = return_io (OK, [])"
  "daemoon_stream_write (Some null_stream) bs = return_io OK"
  "daemoon_stream_seek (Some null_stream) ofs = return_io OK"
  "daemoon_stream_close (Some null_stream) = return_io OK"
  by (simp_all add: daemoon_stream_read_def daemoon_stream_write_def daemoon_stream_seek_def daemoon_stream_close_def
      null_stream_def call_io_def return_io_def fun_eq_iff)

lemma example_calls [simp]:
  "fs_open_file (example_env_by ruin made found) path mode = return_io (OK, Some null_stream)"
  "fs_make_dir (example_env_by ruin made found) path = return_io made"
  "fs_file_exists (example_env_by ruin made found) path = return_io (take 15 path = ''sdmc:/DaeMoon/b'')"
  "open_save (example_env_by ruin made found) title = return_io (found, 0)"
  "close_save (example_env_by ruin made found) h = return_io OK"
  "open_save_file (example_env_by ruin made found) h p mode = return_io (OK, Some null_stream)"
  "confirm (example_env_by ruin made found) sid a0 = return_io 1"
  "progress (example_env_by ruin made found) sid n = return_io ()"
  "notify (example_env_by ruin made found) sid a0 = return_io ()"
  "check_not_running (example_env_by ruin made found) title = return_io OK"
  "daemoon_env_validate (Some (example_env_by ruin made found)) = OK"
  "env_work_dir (example_env_by ruin made found) = Some ''sdmc:/DaeMoon''"
  by (simp_all add: fs_open_file_def fs_make_dir_def fs_file_exists_def open_save_def close_save_def open_save_file_def
      confirm_def progress_def notify_def check_not_running_def daemoon_env_validate_def example_env_by_def idle_env_def
      idle_save_def idle_ui_def idle_fs_def call_fn_def call_io_def return_io_def fun_eq_iff c_string_empty_def cstr_Cons)

lemma example_writes [simp]:
  "call_fn (env_save (example_env_by ruin made found)) sv_open_save_write (\<lambda>f. f title) = return_io (OK, 0)"
  "call_fn (env_save (example_env_by ruin made found)) sv_commit (\<lambda>f. f h) = return_io OK"
  "call_fn (env_save (example_env_by ruin made found)) sv_remove_all (\<lambda>f. f h) = (\<lambda>w. Some (OK, ruin w))"
  "restore_secure_value (example_env_by ruin made found) title m = return_io ()"
  by (simp_all add: example_env_by_def idle_save_def idle_env_def call_fn_def call_io_def return_io_def fun_eq_iff
      restore_secure_value_def bind_io_def)

lemma example_quiet: "quiet I (example_env_by ruin made found)"
  by (auto simp: quiet_def quiet_save_def quiet_fs_def quiet_ui_def quiet_net_def quiet_stream_def null_stream_def
      example_env_by_def example_net_def idle_env_def idle_save_def idle_ui_def idle_fs_def)

section \<open>Its package\<close>

lemma example_reader: "reader_open example_zip (Some null_stream) = return_io (Inr ((), zip_io_start))"
  by (simp add: reader_open_def example_zip_def one_file_zip_def) (simp add: null_stream_def)

lemma example_manifest: "daemoon_archive_read_manifest example_zip (Some null_stream) = return_io (Inr one_file_manifest)"
  using manifest_text_fits [OF one_file_manifest_ok] manifest_roundtrip [OF one_file_manifest_ok]
  by (simp add: daemoon_archive_read_manifest_def example_reader read_manifest_from_def mem_write_cb_def)
     (simp add: example_zip_def read_callbacks_def mem_write_cb_def)

lemma example_collect: "collect_payload example_zip () = (OK, [one_entry])"
  by (simp add: collect_payload_def example_zip_def ARCHIVE_MANIFEST_PATH_def ARCHIVE_PAYLOAD_DIR_def numeral_2_eq_2
      add_entry_result safe_a ARCHIVE_MAX_ENTRIES_def sort_entries_def)

lemma example_locate: "mz_locate example_zip () ''payload/a'' = Some 1"
  "mz_extract example_zip () 1 = MzSink ''xyz'' (\<lambda>_. MzDone True ())"
  by (simp_all add: example_zip_def ARCHIVE_MANIFEST_PATH_def)

lemma example_verify:
  "daemoon_archive_verify example_zip [] (Some null_stream) one_file_manifest = return_io (OK, [one_entry])"
proof -
  have entry: "verify_entry example_zip (Some null_stream) one_entry ((), zip_io_start, sha_of [], 0) =
      return_io (OK, (), zip_io_start, sha_of (payload_preimage [one_entry] [''xyz'']), 3)"
    by (simp add: verify_entry_def entry_name_a header_of example_locate [simplified] read_callbacks_def hash_write_cb_def
        entry_preimage_def sha_update_of numeral_3_eq_3)
  have fields: "mf_sha256 one_file_manifest = sha256_text (payload_preimage [one_entry] [''xyz''])"
    "mf_size one_file_manifest = 3"
    by (simp_all add: one_file_manifest_def sample_manifest_def daemoon_manifest_init_def)
  show ?thesis
    by (simp add: daemoon_archive_verify_def example_reader example_collect sha_init_of entry sha_final_of fields
        hex_equal_iff flip: sha256_text_def del: payload_preimage_simps)
qed

lemma example_unpack:
  "daemoon_archive_unpack (example_env_by ruin made found) example_zip [] (Some null_stream) 0 w = Some ((OK, [one_entry]), ruin w)"
proof -
  have "unpack_entry (example_env_by ruin made found) example_zip (Some null_stream) 0 one_entry ((), zip_io_start) =
      return_io (OK, (), zip_io_start)"
    by (simp add: unpack_entry_def entry_name_a example_locate [simplified] read_callbacks_def extract_write_cb_def)
  then show ?thesis
    by (simp add: daemoon_archive_unpack_def example_reader example_collect) (simp add: bind_io_def return_io_def)
qed


section \<open>A restore on it\<close>

lemma example_path: "join_path SYNC_PATH_MAX (Some ''sdmc:/DaeMoon'') (Some ''backups'') None = Inr ''sdmc:/DaeMoon/backups''"
  by (simp add: join_path_def sb_finish_def sb_simps SYNC_PATH_MAX_def PATH_MAX_def cstr_Cons Let_def)
lemma example_key: "title_key (TITLE_ID_MAX + 16) (ti_platform example_title) (ti_id example_title) =
    Inr ''3ds_0004000000055D00''"
  by (simp add: title_key_def sb_finish_def sb_simps TITLE_ID_MAX_def example_title_def one_file_manifest_def
      sample_manifest_def daemoon_manifest_init_def cstr_Cons Let_def)

lemma example_backup_path:
  "\<exists>path. bind_sum (backup_leaf example_title hex) (\<lambda>leaf. join_path SYNC_PATH_MAX (Some ''sdmc:/DaeMoon/backups'') (Some leaf) None) =
    Inr path \<and> take 15 path = ''sdmc:/DaeMoon/b''"
proof -
  let ?leaf = "''3ds_0004000000055D00_'' @ take 12 hex @ ''.zip''"
  have "backup_leaf example_title hex = Inr ?leaf"
    unfolding backup_leaf_def example_key
    by (cases "length hex \<le> 12") (simp_all add: sb_finish_def sb_simps TITLE_ID_MAX_def cstr_Cons Let_def)
  moreover have "length (cstr ?leaf) \<le> length ?leaf" by (rule length_cstr_le)
  ultimately show ?thesis
    by (simp add: join_path_def sb_finish_def sb_simps SYNC_PATH_MAX_def PATH_MAX_def cstr_Cons Let_def)
qed

lemma example_hash: "\<exists>hex. daemoon_archive_hash_save (example_env_by ruin made found) 0 = return_io (OK, [\<lparr>en_path = ''a'', en_size = 0\<rparr>], hex, 0)"
proof -
  have env: "env_scratch_len (example_env_by ruin made found) = 65536"
    by (simp add: env_scratch_len_def example_env_by_def idle_env_def)
  have collect: "collect_save (example_env_by ruin made found) 0 w = Some ((OK, [\<lparr>en_path = ''a'', en_size = 0\<rparr>]), w)" for w
    by (simp add: collect_save_def example_env_by_def collect_entry_def add_entry_result safe_a
        ARCHIVE_MAX_ENTRIES_def sort_entries_def idle_env_def)
  have loop: "hash_read_loop (Some null_stream) k h 0 w = Some ((OK, h, 0), w)" for k h w
    by (subst hash_read_loop.simps) (simp add: return_io_def)
  show ?thesis
    by (simp add: daemoon_archive_hash_save_def bind_io_def collect return_io_def hash_entry_def env loop Let_def fun_eq_iff)
qed

lemma example_backup: "daemoon_sync_backup_local (example_env_by ruin OK OK) mz example_title None 0 = return_io (OK, None)"
proof -
  obtain hex where "daemoon_archive_hash_save (example_env_by ruin OK OK) 0 = return_io (OK, [\<lparr>en_path = ''a'', en_size = 0\<rparr>], hex, 0)"
    using example_hash by blast
  moreover obtain path where "bind_sum (backup_leaf example_title hex)
      (\<lambda>leaf. join_path SYNC_PATH_MAX (Some ''sdmc:/DaeMoon/backups'') (Some leaf) None) = Inr path" "take 15 path = ''sdmc:/DaeMoon/b''"
    using example_backup_path by blast
  ultimately show ?thesis by (simp add: daemoon_sync_backup_local_def example_path)
qed

text \<open>When the directory of the backups cannot be made, the backup is not found, which reads as no save.\<close>

lemma example_no_backup:
  "daemoon_sync_backup_local (example_env_by ruin ERR_NOT_FOUND found) mz example_title None 0 = return_io (ERR_NOT_FOUND, None)"
  by (simp add: daemoon_sync_backup_local_def example_path)

lemma example_restore_verify:
  "restore_verify (example_env_by ruin made found) example_zip example_title path = return_io (Inr one_file_manifest)"
  by (simp add: restore_verify_def example_manifest example_verify) (simp add: example_title_def)

lemma example_restore_write: "restore_write (example_env_by ruin made found) example_zip example_title path w = Some (OK, ruin w)"
  by (simp add: restore_write_def) (simp add: bind_io_def example_unpack return_io_def)

lemma example_no_save:
  "daemoon_sync_backup_local (example_env_by ruin OK ERR_NOT_FOUND) mz example_title None 0 = return_io (ERR_NOT_FOUND, None)"
  by (simp add: daemoon_sync_backup_local_def example_path)

lemma example_restore:
  assumes "made = OK \<and> found = OK \<or> made = OK \<and> found = ERR_NOT_FOUND \<or> made = ERR_NOT_FOUND"
  shows "restore_package (example_env_by ruin made found) example_zip example_title path confirmed w = Some (OK, ruin w)"
  using assms
  by (auto simp: restore_package_def restore_confirmed_package_def restore_from_verify_def restore_from_write_def TRY_def
      example_backup example_no_backup example_no_save example_restore_verify)
    (simp_all add: bind_io_def example_restore_write return_io_def)


section \<open>A synchronisation on it\<close>

text \<open>No save and a version on the server: the package is fetched and restored.\<close>

abbreviation fetch_env_by :: "('w \<Rightarrow> 'w) \<Rightarrow> 'w env" where
  "fetch_env_by ruin \<equiv> example_env_by ruin OK ERR_NOT_FOUND"

abbreviation fetch_env :: "bool env" where
  "fetch_env \<equiv> fetch_env_by (\<lambda>_. False)"

definition example_remote :: remote_meta where
  "example_remote = \<lparr>rm_exists = True, rm_latest_version = 1, rm_parent_version = 0,
    rm_sha256 = mf_sha256 one_file_manifest, rm_size = 3, rm_device_label = [], rm_received_at = []\<rparr>"

lemma example_sha: "nul_free (mf_sha256 one_file_manifest)" "length (mf_sha256 one_file_manifest) = 64"
proof -
  show "nul_free (mf_sha256 one_file_manifest)"
    using one_file_manifest_ok(2) unfolding manifest_wf_def text_fits_def by blast
  show "length (mf_sha256 one_file_manifest) = 64"
    by (simp add: one_file_manifest_def sha256_text_simps)
qed

lemma example_meta_ok: "list_all (\<lambda>(k, v). plain_key k \<and> jval_ok v) example_meta"
  "list_all (\<lambda>(k, v). plain_key k) example_meta"
  using example_sha(1) by (simp_all add: example_meta_def plain_key_def json_escape_def u8_def nul_free_def)

lemma example_parse: "parse_version_meta (json_flat example_meta) = Inr example_remote"
proof -
  have "daemoon_json_parse (Some (json_flat example_meta)) API_TOKENS = Inr (flat_toks example_meta)"
    by (rule flat_parse [OF _ example_meta_ok(1)]) (simp_all add: example_meta_def API_TOKENS_def)
  moreover have "tk_type (flat_toks example_meta ! 0) = JSMN_OBJECT" by (simp add: flat_toks_def obj_tok_def)
  moreover have "map_of example_meta ''version'' = Some (JNum 1)" "map_of example_meta ''size'' = Some (JNum 3)"
    "map_of example_meta ''sha256'' = Some (JStr (mf_sha256 one_file_manifest))"
    "map_of example_meta ''parent_version'' = None" "map_of example_meta ''device_label'' = None"
    "map_of example_meta ''received_at'' = None"
    by (simp_all add: example_meta_def)
  note keys = this
  ultimately show ?thesis
    using example_sha
    by (simp add: parse_version_meta_def get_str_try_def get_str_void_def flat_get_uint [OF example_meta_ok(2) keys(1)]
        flat_get_uint [OF example_meta_ok(2) keys(2)] flat_get_str [OF example_meta_ok(1) keys(3)]
        flat_get_str_None [OF example_meta_ok(2)] keys flat_find_None [OF example_meta_ok(2)] example_remote_def
        to_uint_def SHA256_HEX_def)
qed

text \<open>Of the example title, and of the one that is asked for to see whether the server answers.\<close>

abbreviation example_id :: "bytes \<Rightarrow> bool" where
  "example_id i \<equiv> i = ti_id example_title \<or> i = ''0000000000000000''"

lemma example_latest_url: "example_id i \<Longrightarrow> \<exists>sb. latest_url (fetch_env_by ruin) PLATFORM_3DS i = Inr sb"
  and example_download_url: "\<exists>sb. download_url (fetch_env_by ruin) (ti_platform example_title) (ti_id example_title) 1 = Inr sb"
proof -
  have server: "env_server_url (fetch_env_by ruin) = Some ''http://s''" by (simp add: example_env_by_def)
  have escaped: "length (concat (map url_escape s)) \<le> 3 * length s" for s
    by (induction s) (auto simp: url_escape_def)
  have "length (dec 1) \<le> 1" by (rule dec_length) simp_all
  then show "\<exists>sb. download_url (fetch_env_by ruin) (ti_platform example_title) (ti_id example_title) 1 = Inr sb"
    using escaped [of "''0004000000055D00''"]
    by (simp_all add: latest_url_def download_url_def build_base_text base_url_def server c_string_empty_def sb_simps
        Let_def cstr_Cons API_URL_MAX_def example_title_def one_file_manifest_def sample_manifest_def
        daemoon_manifest_init_def del: concat.simps list.map)
  assume "example_id i"
  then show "\<exists>sb. latest_url (fetch_env_by ruin) PLATFORM_3DS i = Inr sb"
    using escaped [of "''0004000000055D00''"] escaped [of "''0000000000000000''"]
    by (elim disjE) (simp_all add: latest_url_def build_base_text base_url_def server c_string_empty_def sb_simps
        Let_def cstr_Cons API_URL_MAX_def example_title_def one_file_manifest_def sample_manifest_def
        daemoon_manifest_init_def del: concat.simps list.map)
qed

lemma example_json_length: "length (json_flat example_meta) < API_JSONBUF_MAX"
proof -
  have "length (dec 1) \<le> 1" "length (dec 3) \<le> 1" by (rule dec_length; simp)+
  then show ?thesis
    using length_json_flat [of example_meta] length_json_body [of "mf_sha256 one_file_manifest"] example_sha(2)
    by (simp add: example_meta_def jval_bound_def API_JSONBUF_MAX_def)
qed

lemma example_exchange:
  "run_request (fetch_env_by ruin) req no_body ((), s) w =
    (case api_body_write s 200 (json_flat example_meta) w of None \<Rightarrow> None
     | Some ((r, s), w) \<Rightarrow> Some ((OK, \<lparr>rs_status = 200, rs_sha256 = [], rs_content_length = -1\<rparr>, (), s), w))"
  by (simp add: run_request_def example_env_by_def example_net_def push_body_def bind_io_def return_io_def
      split: option.split prod.split)

lemma example_latest_of:
  assumes "example_id i"
  shows "daemoon_api_get_latest (fetch_env_by ruin) PLATFORM_3DS i = return_io (Inr example_remote)"
proof -
  obtain sb where sb: "latest_url (fetch_env_by ruin) PLATFORM_3DS i = Inr sb"
    using example_latest_url [OF assms] by blast
  have net: "net_available (fetch_env_by ruin)" by (simp add: net_available_def example_env_by_def example_net_def)
  have ask: "run_request (fetch_env_by ruin) req no_body ((), sink_reset (mk_sink None API_JSONBUF_MAX)) w =
      Some ((OK, \<lparr>rs_status = 200, rs_sha256 = [], rs_content_length = -1\<rparr>, (),
        (mk_sink None API_JSONBUF_MAX)\<lparr>sk_ok_body := \<lparr>am_cap = API_JSONBUF_MAX, am_buf = json_flat example_meta,
          am_truncated = False\<rparr>\<rparr>), w)" for req w
    using example_json_length
    by (simp add: example_exchange api_body_write_def sink_reset_def mk_sink_def membuf_append_def membuf_init_def
        status_ok_def return_io_def API_JSONBUF_MAX_def API_ERRBUF_MAX_def Let_def)
  show ?thesis
    by (simp add: daemoon_api_get_latest_def sb api_do_def net max_attempts_def no_body_def RETRY_CEILING_def numeral_3_eq_3)
       (simp add: bind_io_def ask [unfolded no_body_def mk_sink_def] return_io_def mk_sink_def status_ok_def example_parse fun_eq_iff)
qed

lemma example_latest:
  "daemoon_api_get_latest (fetch_env_by ruin) (ti_platform example_title) (ti_id example_title) = return_io (Inr example_remote)"
  using example_latest_of [of "ti_id example_title"]
  by (simp add: example_title_def one_file_manifest_def sample_manifest_def daemoon_manifest_init_def)

lemma example_download:
  "daemoon_api_download (fetch_env_by ruin) (ti_platform example_title) (ti_id example_title) 1 (Some null_stream) None 0 =
    return_io (OK, None)"
proof -
  obtain sb where sb: "download_url (fetch_env_by ruin) (ti_platform example_title) (ti_id example_title) 1 = Inr sb"
    using example_download_url by blast
  show ?thesis
    unfolding daemoon_api_download_def sb
    by (simp add: bind_io_def example_exchange api_body_write_def mk_sink_def status_ok_def return_io_def fun_eq_iff)
qed

lemma example_state_path: "state_path (fetch_env_by ruin) (ti_platform example_title) (ti_id example_title) SYNC_PATH_MAX =
    Inr ''sdmc:/DaeMoon/state/3ds_0004000000055D00.json''"
  unfolding state_path_def example_key
  by (simp add: with_suffix_def join_path_def sb_finish_def sb_simps SYNC_PATH_MAX_def PATH_MAX_def TITLE_ID_MAX_def
      cstr_Cons Let_def)

lemma example_scan: "daemoon_sync_scan_local (fetch_env_by ruin) example_title = return_io (OK, no_local)"
  by (simp add: daemoon_sync_scan_local_def daemoon_sync_state_load_def example_state_path)
     (simp add: no_local_def VERSION_NONE_def)

lemma example_files [simp]:
  "fs_rename_file (example_env_by ruin made found) path path' = return_io OK"
  "fs_remove_file (example_env_by ruin made found) path = return_io OK" "discard (example_env_by ruin made found) path r = return_io r"
  by (simp_all add: discard_def fs_rename_file_def fs_remove_file_def example_env_by_def idle_fs_def call_fn_def call_io_def
      return_io_def bind_io_def fun_eq_iff)

lemma example_state_save: "\<exists>x. daemoon_sync_state_save (fetch_env_by ruin) p t st w = Some (x, w)"
  by (simp add: daemoon_sync_state_save_def TRY_def write_then_rename_def split: sum.split)

lemma example_staging:
  "staging_path (example_env_by ruin OK found) example_title SYNC_PATH_MAX = return_io (Inr ''sdmc:/DaeMoon/tmp/3ds_0004000000055D00.zip'')"
  unfolding staging_path_def example_key
  by (simp add: with_suffix_def join_path_def sb_finish_def sb_simps SYNC_PATH_MAX_def PATH_MAX_def TITLE_ID_MAX_def
      cstr_Cons Let_def)

lemma example_part: "with_suffix SYNC_PATH_MAX ''sdmc:/DaeMoon/tmp/3ds_0004000000055D00.zip'' ''.part'' =
    Inr ''sdmc:/DaeMoon/tmp/3ds_0004000000055D00.zip.part''"
  by (simp add: with_suffix_def sb_finish_def sb_simps SYNC_PATH_MAX_def PATH_MAX_def cstr_Cons)

lemma example_fetched: "download_package (fetch_env_by ruin) example_title example_remote tmp path = return_io OK"
  using example_download [of ruin] by (simp add: download_package_def example_remote_def)

lemma example_checked: "check_download (fetch_env_by ruin) example_zip example_title example_remote path = return_io OK"
  using example_sha by (simp add: check_download_def example_manifest example_remote_def hex_equal_iff)

lemma example_do_download:
  "do_download (fetch_env_by ruin) example_zip example_title example_remote local c w =
    record_base (fetch_env_by ruin) example_title local 1 (mf_sha256 one_file_manifest) (ruin w)"
  by (simp add: do_download_def example_staging example_part example_fetched example_checked)
     (simp add: bind_io_def example_restore return_io_def example_remote_def)

lemma example_sync:
  "\<exists>a. daemoon_sync_title_with (fetch_env_by ruin) example_zip example_title (Some opts) stats w = Some (a, ruin w)"
proof -
  let ?sha = "mf_sha256 one_file_manifest"
  have decision: "daemoon_sync_decide (Some no_local) (Some example_remote) = SYNC_DOWNLOAD"
    by (simp add: daemoon_sync_decide_def no_local_def example_remote_def)
  obtain r copy where copied: "daemoon_strlcpy (Some (lo_base_sha256 (no_local\<lparr>lo_base_version := 1\<rparr>))) SHA256_HEX (Some ?sha) =
      (r, copy)"
    by (cases "daemoon_strlcpy (Some (lo_base_sha256 (no_local\<lparr>lo_base_version := 1\<rparr>))) SHA256_HEX (Some ?sha)")
  obtain x where "daemoon_sync_state_save (fetch_env_by ruin) (ti_platform example_title) (ti_id example_title)
      (no_local\<lparr>lo_base_version := 1, lo_base_sha256 := the copy\<rparr>) (ruin w) = Some (x, ruin w)"
    using example_state_save [of ruin] by blast
  with copied have "\<exists>r l. record_base (fetch_env_by ruin) example_title no_local 1 ?sha (ruin w) = Some ((r, l), ruin w)"
    by (simp add: record_base_def Let_def bind_io_def)
  then have "\<exists>a. sync_download (fetch_env_by ruin) example_zip example_title no_local example_remote opts stats w = Some (a, ruin w)"
    by (auto simp: sync_download_def bind_io_def example_do_download)
  then show ?thesis
    by (simp add: daemoon_sync_title_with_def example_scan example_latest decision)
qed

section \<open>Properties\<close>








text \<open>
  What the first guarantee does not give: a backup that fails with the code for a missing save is
  taken for one. On a console whose save is there, but whose backup directory cannot be made because
  a part of its path is missing, the save is overwritten and no backup of it exists.
\<close>

lemma restore_without_backup:
  "\<exists>h. open_save (example_env ERR_NOT_FOUND OK) example_title w = Some ((OK, h), w) \<and>
    daemoon_sync_backup_local (example_env ERR_NOT_FOUND OK) example_zip example_title None 0 w =
      Some ((ERR_NOT_FOUND, None), w) \<and>
    restore_package (example_env ERR_NOT_FOUND OK) example_zip example_title path False w = Some (OK, False)"
  by (simp add: example_no_backup example_restore)


text \<open>
  Nor is every failure counted: an upload that lost a race to another console, and whose second
  question to the server then fails, ends without a word in the statistics, although every other
  failed upload is counted.
\<close>

lemma lost_race_not_counted:
  assumes "so_upload_confirmed opts"
    and "do_upload env mz title (if rm_exists remote then rm_latest_version remote else VERSION_NONE) local (Some no_conflict) w =
      Some ((ERR_VERSION_CONFLICT, local', c), w1)"
    and "daemoon_api_get_latest env (ti_platform title) (ti_id title) w1 = Some (Inl r, w2)"
  shows "sync_upload env mz title local remote opts stats w = Some ((r, stats), w2)"
  using assms by (simp add: sync_upload_def bind_io_def return_io_def)


end
