(* ===== verification/StateFile.thy ===== *)
theory StateFile
  imports Sync
begin

text \<open>
  The state file of \<open>sync.c\<close>: what \<open>daemoon_sync_state_save\<close> writes is a flat JSON object
  (\<open>state_members\<close>) that always fits the buffers of both sides, and
  \<open>daemoon_sync_state_load\<close> reads it back.
\<close>

definition state_members :: "platform \<Rightarrow> bytes \<Rightarrow> local_state \<Rightarrow> (bytes \<times> jval) list" where
  "state_members p title_id st =
    [(''format_version'', JNum 1), (''platform'', JStr (daemoon_platform_name p)), (''title_id'', JStr title_id),
     (''base_version'', JNum (lo_base_version st)), (''base_sha256'', JStr (lo_base_sha256 st))]"

text \<open>A state as the engine makes it, for a title whose identifier needs no escapes.\<close>

definition state_ok :: "bytes \<Rightarrow> local_state \<Rightarrow> bool" where
  "state_ok title_id st \<longleftrightarrow> plain_key title_id \<and> length title_id < TITLE_ID_MAX \<and> lo_base_version st < 2 ^ 32 \<and>
    (lo_base_sha256 st = [] \<or> is_lower_hex64 (lo_base_sha256 st))"

lemma state_ok_facts:
  assumes "state_ok title_id st"
  shows "nul_free title_id" "json_body title_id = title_id" "length title_id \<le> 32" "lo_base_version st < 2 ^ 32"
    "nul_free (lo_base_sha256 st)" "json_body (lo_base_sha256 st) = lo_base_sha256 st" "length (lo_base_sha256 st) \<le> 64"
proof -
  show "nul_free title_id" "json_body title_id = title_id" "length title_id \<le> 32" "lo_base_version st < 2 ^ 32"
    using assms by (simp_all add: state_ok_def plain_key_def TITLE_ID_MAX_def)
  show "nul_free (lo_base_sha256 st)"
    using assms by (auto simp: state_ok_def is_lower_hex64_def nul_free_def list_all_iff)
  show "json_body (lo_base_sha256 st) = lo_base_sha256 st" "length (lo_base_sha256 st) \<le> 64"
    using assms hex64_plain [of "lo_base_sha256 st"] by (auto simp: state_ok_def)
qed

lemma state_keys [simp]: "plain_key ''base_version''" "plain_key ''base_sha256''"
  by (rule plain_keyI, simp add: u8_def)+

lemma state_members_ok:
  assumes "state_ok title_id st"
  shows "list_all (\<lambda>(k, v). plain_key k \<and> jval_ok v) (state_members p title_id st)"
    "list_all (\<lambda>(k, v). plain_key k) (state_members p title_id st)"
  using state_ok_facts [OF assms] by (simp_all add: state_members_def platform.name_nul_free)

lemma dec_one: "dec 1 = ''1''"
proof -
  have "byte 49 = CHR ''1''" by code_simp
  then show ?thesis by (subst dec.simps) simp
qed

lemma state_json_text:
  assumes "state_ok title_id st"
  shows "state_json p title_id st = sb_of SYNC_STATE_MAX_BYTES (json_flat (state_members p title_id st))"
  using state_ok_facts [OF assms] dec_one
  by (simp add: state_json_def sb_simps Let_def cstr_literal platform.name_nul_free json_flat_def state_members_def
      jval_render_def)

lemma state_json_fits:
  assumes "state_ok title_id st"
  shows "length (json_flat (state_members p title_id st)) < SYNC_STATE_MAX_BYTES - 1"
proof -
  note facts = state_ok_facts [OF assms]
  have "length (dec (lo_base_version st)) \<le> 10" "length (dec 1) \<le> 1"
    using facts(4) by (auto intro!: dec_length)
  moreover have "length (json_body (daemoon_platform_name p)) \<le> 7"
    by (cases p) (simp_all add: json_escape_def u8_def)
  ultimately show ?thesis
    using length_json_flat [of "state_members p title_id st"] facts
    by (simp add: state_members_def jval_bound_def SYNC_STATE_MAX_BYTES_def)
qed

lemma state_from_own_toks:
  assumes "state_ok title_id st"
  shows "state_from_toks (json_flat (state_members p title_id st)) (flat_toks (state_members p title_id st)) out =
    out\<lparr>lo_base_version := lo_base_version st, lo_base_sha256 := lo_base_sha256 st\<rparr>"
proof -
  note ok = state_members_ok [OF assms, of p] and facts = state_ok_facts [OF assms]
  have "map_of (state_members p title_id st) ''base_version'' = Some (JNum (lo_base_version st))"
    "map_of (state_members p title_id st) ''base_sha256'' = Some (JStr (lo_base_sha256 st))"
    by (simp_all add: state_members_def)
  from flat_get_uint [OF ok(2) this(1)] flat_get_str [OF ok(1) this(2)] facts show ?thesis
    by (simp add: state_from_toks_def SHA256_HEX_def)
qed

text \<open>A stream that delivers \<open>rest w\<close>, in pieces of any size, as long as the world is in \<open>J\<close>.\<close>

lemma state_read_loop_all:
  fixes rest :: "'w \<Rightarrow> bytes" and J :: "'w \<Rightarrow> bool"
  assumes src: "st_read s = Some rd"
    "\<And>cap w. 0 < cap \<Longrightarrow> J w \<Longrightarrow>
      \<exists>n w'. rd cap w = ((OK, take n (rest w)), w') \<and> J w' \<and> rest w' = drop n (rest w) \<and> (rest w \<noteq> [] \<longrightarrow> 0 < n)"
  shows "J w \<Longrightarrow> length js + length (rest w) < SYNC_STATE_MAX_BYTES - 1 \<Longrightarrow>
    \<exists>w'. state_read_loop (Some s) js w = Some ((OK, js @ rest w), w') \<and> J w'"
proof (induction "length (rest w)" arbitrary: w js rule: less_induct)
  case less
  let ?cap = "SYNC_STATE_MAX_BYTES - 1 - length js"
  have "0 < ?cap" using less.prems(2) by simp
  then obtain n w1 where rd: "rd ?cap w = ((OK, take n (rest w)), w1)" "rest w1 = drop n (rest w)" "rest w \<noteq> [] \<longrightarrow> 0 < n" "J w1"
    using src(2) less.prems(1) by blast
  then have read: "daemoon_stream_read (Some s) ?cap w = Some ((OK, take n (rest w)), w1)"
    by (simp add: daemoon_stream_read_def src(1) call_io_def)
  show ?case
  proof (cases "rest w = []")
    case True
    with read rd(4) show ?thesis by (subst state_read_loop.simps) simp
  next
    case False
    then have "length (rest w1) < length (rest w)" using rd by simp
    moreover have "length (js @ take n (rest w)) + length (rest w1) < SYNC_STATE_MAX_BYTES - 1"
      using less.prems(2) rd(2) by (simp add: min_def)
    ultimately obtain w2 where "state_read_loop (Some s) (js @ take n (rest w)) w1 = Some ((OK, (js @ take n (rest w)) @ rest w1), w2)" "J w2"
      using less.hyps [OF _ rd(4)] by blast
    moreover have "take n (rest w) \<noteq> []" using False rd(3) by (cases "rest w") auto
    moreover have "length (js @ take n (rest w)) < SYNC_STATE_MAX_BYTES - 1" using less.prems(2) by (simp add: min_def)
    ultimately show ?thesis
      using read rd(2) by (subst state_read_loop.simps) (simp add: not_le)
  qed
qed

text \<open>The state of a title survives the round trip through its file: what the save writes fits its buffer
  and the limit of the reader, whatever version of 32 bits and whatever digest it records, and a load
  that finds the file and is delivered these bytes, in pieces of any size, gives back the version
  and the digest and leaves the rest of the state alone.\<close>
lemma state_file_roundtrip:
  fixes rest :: "'w \<Rightarrow> bytes" and J :: "'w \<Rightarrow> bool"
  assumes state: "state_ok title_id st" "state_path env p title_id SYNC_PATH_MAX = Inr path"
    and there: "fs_file_exists env path w = Some (True, w1)" "fs_open_file env path OPEN_READ w1 = Some ((OK, Some s), w2)"
      "sb_finish (state_json p title_id st) = Inr (rest w2)" "J w2"
    and stream: "st_read s = Some rd"
      "\<And>cap w. 0 < cap \<Longrightarrow> J w \<Longrightarrow>
        \<exists>n w'. rd cap w = ((OK, take n (rest w)), w') \<and> J w' \<and> rest w' = drop n (rest w) \<and> (rest w \<noteq> [] \<longrightarrow> 0 < n)"
      "\<And>w. J w \<Longrightarrow> \<exists>w'. daemoon_stream_close (Some s) w = Some (OK, w')"
  shows "\<exists>w'. daemoon_sync_state_load env p title_id out w =
    Some ((OK, out\<lparr>lo_base_version := lo_base_version st, lo_base_sha256 := lo_base_sha256 st\<rparr>), w')"
proof -
  let ?ms = "state_members p title_id st"
  have fits: "length (json_flat ?ms) < SYNC_STATE_MAX_BYTES - 1" by (rule state_json_fits [OF state(1)])
  then have rest: "rest w2 = json_flat ?ms"
    using there(3) by (simp add: sb_finish_def state_json_text [OF state(1)] sb_simps split: if_splits)
  with state_read_loop_all [of s rd J rest w2 "[]", OF stream(1,2)] fits there(4) obtain w3 where
    read: "state_read_loop (Some s) [] w2 = Some ((OK, json_flat ?ms), w3)" "J w3" by auto
  obtain w4 where close: "daemoon_stream_close (Some s) w3 = Some (OK, w4)" using stream(3) [OF read(2)] by blast
  have parsed: "daemoon_json_parse (Some (json_flat ?ms)) SYNC_STATE_TOKENS = Inr (flat_toks ?ms)"
    by (rule flat_parse [OF _ state_members_ok(1) [OF state(1)]]) (simp_all add: state_members_def SYNC_STATE_TOKENS_def)
  show ?thesis
    by (simp add: daemoon_sync_state_load_def state(2) bind_io_def there(1,2) read close parsed return_io_def
        state_from_own_toks [OF state(1)] Let_def)
qed

end
