(* ===== verification/Transfers.thy ===== *)
theory Transfers
  imports Guarantees StateFile
begin

text \<open>
  What a finished upload or download has done: the manifest that travels with an upload, the state
  a console records after either, and a console and a server on which both happen.
\<close>

section \<open>The manifest of an upload\<close>

text \<open>What the packing fixes about a title.\<close>

definition packed_for :: "title \<Rightarrow> nat \<Rightarrow> manifest \<Rightarrow> bool" where
  "packed_for title parent m \<longleftrightarrow> mf_parent_version m = parent \<and> mf_platform m = ti_platform title \<and>
    mf_title_id m = cstr (ti_id title)"

lemma packed_for_pack: "packed_for t v (m\<lparr>mf_size := n, mf_sha256 := d\<rparr>) = packed_for t v m"
  by (simp add: packed_for_def)

lemma title_manifest_fields: "ensures (title_manifest env title v) (\<lambda>x. case x of Inl r \<Rightarrow> True | Inr m \<Rightarrow> packed_for title v m)"
proof -
  have copied: "daemoon_strlcpy (Some []) TITLE_ID_MAX (Some s) = (OK, b) \<Longrightarrow> the b = cstr s" for s b
    using strlcpy_ok_iff [of "[]" TITLE_ID_MAX s] strlcpy_fits [of s TITLE_ID_MAX "[]"] by auto
  show ?thesis
    unfolding title_manifest_def Let_def
    by (auto simp: packed_for_def ensures_def [of "\<lambda>_. None"] dest!: copied intro!: ensures_return ensures_bind_any
        split: prod.split option.split)
qed

lemma pack_fields:
  assumes "packed_for t v m"
  shows "ensures (daemoon_archive_pack env mz save m out) (\<lambda>(r, es, m'). r = OK \<longrightarrow> packed_for t v m' \<and>
    daemoon_manifest_validate m' = OK)"
  unfolding daemoon_archive_pack_def
  by (auto intro!: ensures_return ensures_bind_any ensures_mono [OF pack_finish_ensures] simp: packed_for_pack assms
      split: prod.split)

definition packed_ok :: "title \<Rightarrow> nat \<Rightarrow> result + manifest \<Rightarrow> bool" where
  "packed_ok t v x \<longleftrightarrow> (\<forall>m. x = Inr m \<longrightarrow> packed_for t v m \<and> daemoon_manifest_validate m = OK)"

lemma packed_ok_simps [simp]:
  "packed_ok t v (Inl r)" "packed_ok t v (Inr m) \<longleftrightarrow> packed_for t v m \<and> daemoon_manifest_validate m = OK"
  by (simp_all add: packed_ok_def)

lemma pack_and_rename_fields:
  assumes "packed_for t v m"
  shows "ensures (pack_and_rename env mz save f m tmp out) (packed_ok t v)"
proof -
  have kept: "ensures (if r = OK then daemoon_stream_close f else bind_io (daemoon_stream_close f) (\<lambda>_. return_io r))
      (\<lambda>r'. r' = OK \<longrightarrow> r = OK)" for r
    by (auto simp: ensures_def bind_io_Some_iff)
  show ?thesis
    unfolding pack_and_rename_def Let_def
    apply (rule ensures_bind [OF pack_fields [OF assms]])
    apply (simp only: split_paired_all prod.case)
    apply (rule ensures_bind [OF kept])
    apply (auto intro!: ensures_return ensures_bind_any split: if_splits)
    done
qed

lemma pack_title_to_fields: "ensures (pack_title_to env mz title v path) (packed_ok title v)"
  unfolding pack_title_to_def
  by (rule ensures_bind [OF title_manifest_fields])
     (auto intro!: ensures_return ensures_bind_any pack_and_rename_fields split: sum.splits prod.split)

section \<open>What was recorded\<close>

lemma record_base_ok:
  assumes "record_base env title local v sha w = Some ((OK, local'), w')"
  shows "local' = local\<lparr>lo_base_version := v, lo_base_sha256 := cstr sha\<rparr> \<and>
    daemoon_sync_state_save env (ti_platform title) (ti_id title) local' w = Some (OK, w')"
proof -
  obtain r b where copied: "daemoon_strlcpy (Some (lo_base_sha256 (local\<lparr>lo_base_version := v\<rparr>))) SHA256_HEX (Some sha) = (r, b)"
    by (cases "daemoon_strlcpy (Some (lo_base_sha256 (local\<lparr>lo_base_version := v\<rparr>))) SHA256_HEX (Some sha)")
  with assms have run: "r = OK" "local' = local\<lparr>lo_base_version := v, lo_base_sha256 := the b\<rparr>"
    "daemoon_sync_state_save env (ti_platform title) (ti_id title) local' w = Some (OK, w')"
    by (auto simp: record_base_def Let_def bind_io_Some_iff split: if_splits)
  moreover have "the b = cstr sha"
    using copied run(1) strlcpy_ok_iff [of "lo_base_sha256 local" SHA256_HEX sha]
      strlcpy_fits [of sha SHA256_HEX "lo_base_sha256 local"] by auto
  ultimately show ?thesis by simp
qed

text \<open>A run through a case distinction.\<close>

lemma run_case_sum: "(case x of Inl r \<Rightarrow> f r | Inr m \<Rightarrow> g m) w = Some y \<longleftrightarrow>
    (\<exists>r. x = Inl r \<and> f r w = Some y) \<or> (\<exists>m. x = Inr m \<and> g m w = Some y)"
  by (cases x) auto

lemma run_case_option: "(case x of None \<Rightarrow> f | Some m \<Rightarrow> g m) w = Some y \<longleftrightarrow>
    (x = None \<and> f w = Some y) \<or> (\<exists>m. x = Some m \<and> g m w = Some y)"
  by (cases x) auto

lemma run_if: "(if b then f else g) w = Some y \<longleftrightarrow> b \<and> f w = Some y \<or> \<not> b \<and> g w = Some y"
  by simp

lemmas run_simps = bind_io_Some_iff run_case_sum run_case_option run_if split_paired_Ex prod.case

text \<open>No failure has the value of success.\<close>

lemma path_not_ok: "join_path cap a b c \<noteq> Inl OK" "title_key cap p t \<noteq> Inl OK" "with_suffix cap s e \<noteq> Inl OK"
  by (auto simp: join_path_def title_key_def with_suffix_def sb_finish_def Let_def)

lemma staging_not_ok: "ensures (staging_path env title cap) (\<lambda>x. x \<noteq> Inl OK)"
  unfolding staging_path_def
  by (auto simp: bind_sum_Inl_iff path_not_ok intro!: ensures_return ensures_bind_any split: sum.split)

lemma pack_not_ok: "ensures (pack_title_to env mz title v path) (\<lambda>x. x \<noteq> Inl OK)"
proof -
  have discarded: "ensures (discard env tmp r) (\<lambda>r'. r' = r)" for tmp r
    unfolding discard_def by (auto intro!: ensures_return ensures_bind_any)
  have "ensures (pack_and_rename env mz save f m tmp out) (\<lambda>x. x \<noteq> Inl OK)" for save f m tmp out
    unfolding pack_and_rename_def Let_def
    by (auto intro!: ensures_return ensures_bind_any ensures_bind [OF discarded] split: prod.split)
  moreover have "ensures (title_manifest env title v) (\<lambda>x. x \<noteq> Inl OK)"
    unfolding title_manifest_def Let_def
    by (auto simp: ensures_def [of "\<lambda>_. None"] intro!: ensures_return ensures_bind_any split: prod.split option.split)
  ultimately show ?thesis
    unfolding pack_title_to_def
    apply -
    apply (rule ensures_bind, assumption)
    apply (auto simp: path_not_ok intro!: ensures_return ensures_bind_any split: sum.splits prod.split)
    done
qed

lemma not_ok_runs: "staging_path env title cap w \<noteq> Some (Inl OK, w')" "pack_title_to env mz title v path w \<noteq> Some (Inl OK, w')"
  "daemoon_api_upload env m f n c w \<noteq> Some ((Inl OK, c1), w')"
  using ensuresD [OF staging_not_ok] ensuresD [OF pack_not_ok] ensuresD [OF upload_ensures] by fastforce+

lemma do_upload_ok:
  assumes "do_upload env mz title v local c w = Some ((OK, local', c'), w')"
  shows "\<exists>path m s issued c1 w1 w2 w3 w4 w5 w6. pack_title_to env mz title v path w1 = Some (Inr m, w2) \<and>
    fs_open_file env path OPEN_READ w3 = Some ((OK, Some s), w4) \<and>
    daemoon_api_upload env m (Some s) (st_size s) c w4 = Some ((Inr issued, c1), w5) \<and>
    record_base env title local (rm_latest_version issued) (mf_sha256 m) w6 = Some ((OK, local'), w')"
proof -
  have discarded: "discard env path r u = Some (OK, u') \<Longrightarrow> r = OK" for path r u u'
    by (simp add: discard_def bind_io_Some_iff)
  show ?thesis
    using assms unfolding do_upload_def run_simps
    by (auto simp: not_ok_runs dest: discarded) blast
qed

lemma do_download_ok:
  assumes "do_download env mz title remote local confirmed w = Some ((OK, local'), w')"
  shows "\<exists>path w1 w2 w3 w4. check_download env mz title remote path w1 = Some (OK, w2) \<and>
    restore_package env mz title path confirmed w2 = Some (OK, w3) \<and>
    record_base env title local (rm_latest_version remote) (rm_sha256 remote) w4 = Some ((OK, local'), w')"
  using assms unfolding do_download_def run_simps
  by (auto simp: not_ok_runs path_not_ok)

lemma check_download_ok:
  assumes "check_download env mz title remote path w = Some (OK, w')"
  shows "\<exists>pkg got w1 w2. fs_open_file env path OPEN_READ w = Some ((OK, pkg), w1) \<and>
    daemoon_archive_read_manifest mz pkg w1 = Some (Inr got, w2) \<and> cstr (mf_sha256 got) = cstr (rm_sha256 remote)"
proof -
  have unread: "daemoon_archive_read_manifest mz pkg u \<noteq> Some (Inl OK, u')" for pkg u u'
    using ensuresD [OF read_manifest_not_ok] by fastforce
  have discarded: "discard env path r u = Some (OK, u') \<Longrightarrow> r = OK" for r u u'
    by (simp add: discard_def bind_io_Some_iff)
  have answer: "(case x of Inl r \<Rightarrow> r | Inr g \<Rightarrow> h g) = OK \<longleftrightarrow> x = Inl OK \<or> (\<exists>g. x = Inr g \<and> h g = OK)"
    for x :: "result + manifest" and h
    by (cases x) auto
  show ?thesis
    using assms unfolding check_download_def run_simps
    by (auto simp: unread answer hex_equal_iff dest!: discarded split: if_splits)
qed

section \<open>An upload and a download\<close>

lemma example_state_ok:
  "is_lower_hex64 sha \<Longrightarrow> state_ok (ti_id example_title) (l\<lparr>lo_base_version := 1, lo_base_sha256 := sha\<rparr>)"
  by (simp add: state_ok_def example_title_def one_file_manifest_def sample_manifest_def daemoon_manifest_init_def
      plain_key_def json_escape_def u8_def TITLE_ID_MAX_def)

lemma example_dirs: "join_path SYNC_PATH_MAX (Some ''sdmc:/DaeMoon'') (Some ''state'') None = Inr ''sdmc:/DaeMoon/state''"
  "state_path (example_env OK found) (ti_platform example_title) (ti_id example_title) SYNC_PATH_MAX =
    Inr ''sdmc:/DaeMoon/state/3ds_0004000000055D00.json''"
  unfolding state_path_def example_key
  by (simp_all add: with_suffix_def join_path_def sb_finish_def sb_simps SYNC_PATH_MAX_def PATH_MAX_def TITLE_ID_MAX_def
      cstr_Cons Let_def)

lemma example_record:
  assumes "is_lower_hex64 sha"
  shows "record_base (example_env OK found) example_title l 1 sha =
    return_io (OK, l\<lparr>lo_base_version := 1, lo_base_sha256 := sha\<rparr>)"
proof -
  let ?l = "l\<lparr>lo_base_version := 1, lo_base_sha256 := sha\<rparr>"
  note ok = example_state_ok [OF assms, of l]
  have copied: "daemoon_strlcpy (Some d) SHA256_HEX (Some sha) = (OK, Some sha)" for d
    using strlcpy_fits [of sha SHA256_HEX d] state_ok_facts(5,7) [OF ok] by (simp add: SHA256_HEX_def)
  have "sb_finish (state_json (ti_platform example_title) (ti_id example_title) ?l) =
      Inr (json_flat (state_members (ti_platform example_title) (ti_id example_title) ?l))"
    unfolding sb_finish_def state_json_text [OF ok]
    using state_json_fits [OF ok, of "ti_platform example_title"] by (simp add: sb_simps)
  moreover have "with_suffix SYNC_PATH_MAX ''sdmc:/DaeMoon/state/3ds_0004000000055D00.json'' ''.tmp'' =
      Inr ''sdmc:/DaeMoon/state/3ds_0004000000055D00.json.tmp''"
    by (simp add: with_suffix_def sb_finish_def sb_simps SYNC_PATH_MAX_def PATH_MAX_def cstr_Cons)
  ultimately have "daemoon_sync_state_save (example_env OK found) (ti_platform example_title) (ti_id example_title) ?l = return_io OK"
    by (simp add: daemoon_sync_state_save_def TRY_def write_then_rename_def example_dirs)
  then show ?thesis
    by (simp add: record_base_def Let_def copied)
qed

lemma example_download_run:
  "do_download fetch_env example_zip example_title example_remote no_local True True =
    Some ((OK, no_local\<lparr>lo_base_version := 1, lo_base_sha256 := mf_sha256 one_file_manifest\<rparr>), False)"
  using validate_ok(5) [OF one_file_manifest_ok(1)]
  by (simp only: example_do_download example_record) (simp add: return_io_def)


text \<open>The save of one empty file, packed and sent.\<close>

abbreviation send_env :: "bool env" where
  "send_env \<equiv> example_env OK OK"

definition empty_manifest :: manifest where
  "empty_manifest = daemoon_manifest_init
    \<lparr>mf_platform := ti_platform example_title, mf_save_type := ti_save_type example_title, mf_version := VERSION_NONE,
     mf_parent_version := 1, mf_title_id := ti_id example_title, mf_device_label := ''label'', mf_title_name := ''game'',
     mf_created_at := k_epoch\<rparr>"

definition sent_manifest :: manifest where
  "sent_manifest = empty_manifest
    \<lparr>mf_size := 0, mf_sha256 := sha256_text (payload_preimage [\<lparr>en_path = ''a'', en_size = 0\<rparr>] [[]])\<rparr>"

lemma sent_manifest_ok: "daemoon_manifest_validate sent_manifest = OK" "manifest_wf sent_manifest"
proof -
  have "utf8_valid_loop ''label''"
    by (simp add: utf8_valid_loop.simps seq_len_def utf8_lead_def utf8_overlong_def utf8_out_of_range_def u8_def)
  moreover have "is_lower_hex64 (sha256_text m)" for m
    using sha256_text_simps(1,2) [of m] by (simp add: is_lower_hex64_def list_all_iff lower_hex_char_def)
  ultimately show "daemoon_manifest_validate sent_manifest = OK"
    by (simp add: daemoon_manifest_validate_def sent_manifest_def empty_manifest_def daemoon_manifest_init_def example_title_def
        one_file_manifest_def sample_manifest_def MANIFEST_FORMAT_VERSION_def
        is_valid_title_id_def size_defs daemoon_utf8_valid_def VERSION_NONE_def list_all_iff)
  show "manifest_wf sent_manifest"
    by (simp add: manifest_wf_def sent_manifest_def empty_manifest_def daemoon_manifest_init_def text_fits_def size_defs example_title_def
        one_file_manifest_def sample_manifest_def TIMESTAMP_MAX_def VERSION_NONE_def k_epoch_def TIMESTAMP_NONE_def)
qed

lemma example_title_manifest: "title_manifest send_env example_title 1 = return_io (Inr empty_manifest)"
proof -
  have copied: "daemoon_strlcpy (Some []) TITLE_ID_MAX (Some (ti_id example_title)) = (OK, Some (ti_id example_title))"
    "daemoon_strlcpy (Some []) LABEL_MAX (Some ''label'') = (OK, Some ''label'')"
    "daemoon_strlcpy (Some []) NAME_MAX (Some ''game'') = (OK, Some ''game'')"
    "daemoon_strlcpy (Some []) TIMESTAMP_MAX (Some k_epoch) = (OK, Some k_epoch)"
    by (simp_all add: daemoon_strlcpy_def size_defs TIMESTAMP_MAX_def example_title_def one_file_manifest_def
        sample_manifest_def daemoon_manifest_init_def k_epoch_def TIMESTAMP_NONE_def cstr_Cons)
  have env: "env_device_label send_env = Some ''label''" "env_clock send_env = Some (\<lambda>cap w. ((ERR_UNSUPPORTED, []), w))"
    "\<exists>b. env_save send_env = Some b \<and> sv_read_secure_value b = None" "ti_name example_title = ''game''"
    by (simp_all add: example_env_by_def idle_env_def idle_save_def example_title_def)
  then show ?thesis
    by (auto simp: title_manifest_def copied fill_created_at_def Let_def empty_manifest_def VERSION_NONE_def
        bind_io_def call_io_def return_io_def fun_eq_iff)
qed

lemma example_pack:
  "daemoon_archive_pack send_env example_zip 0 empty_manifest (Some null_stream) =
    return_io (OK, [\<lparr>en_path = ''a'', en_size = 0\<rparr>], sent_manifest)"
proof -
  let ?e = "\<lparr>en_path = ''a'', en_size = 0\<rparr>"
  have collect: "collect_save send_env 0 w = Some ((OK, [?e]), w)" for w
    by (simp add: collect_save_def example_env_by_def collect_entry_def add_entry_result safe_a
        ARCHIVE_MAX_ENTRIES_def sort_entries_def idle_env_def)
  have entry: "pack_entry send_env example_zip 0 (Some null_stream) ?e
      \<lparr>pk_hash = sha_of [], pk_zip = (), pk_io = zip_io_start, pk_size = 0\<rparr> =
    return_io (OK, \<lparr>pk_hash = sha_of (payload_preimage [?e] [[]]), pk_zip = (), pk_io = zip_io_start, pk_size = 0\<rparr>)"
    by (simp add: pack_entry_def entry_name_a header_of example_zip_def one_file_zip_def pack_callbacks_def
        pack_read_cb_def entry_preimage_def sha_update_of Let_def)
  have manifest: "empty_manifest\<lparr>mf_size := 0, mf_sha256 := daemoon_sha256_hex (sha256_spec (payload_preimage [?e] [[]]))\<rparr> =
      sent_manifest"
    by (simp add: sent_manifest_def sha256_text_def)
  have finish: "pack_finish example_zip (Some null_stream) empty_manifest
      \<lparr>pk_hash = sha_of (payload_preimage [?e] [[]]), pk_zip = (), pk_io = zip_io_start, pk_size = 0\<rparr> =
    return_io (OK, sent_manifest)"
    using manifest_write_text [OF sent_manifest_ok]
    by (simp add: pack_finish_def Let_def sha_final_of manifest example_zip_def one_file_zip_def zip_io_start_def
        del: payload_preimage_simps)
  have init: "mz_writer_init example_zip = MzDone True ()" by (simp add: example_zip_def one_file_zip_def)
  show ?thesis
    by (simp add: daemoon_archive_pack_def bind_io_def collect init return_io_def sha_init_of entry finish fun_eq_iff
        del: payload_preimage_simps)
qed


lemma example_upload_url: "\<exists>sb. upload_url send_env sent_manifest = Inr sb"
proof -
  have server: "env_server_url send_env = Some ''http://s''" by (simp add: example_env_by_def)
  have escaped: "length (concat (map url_escape s)) \<le> 3 * length s" for s
    by (induction s) (auto simp: url_escape_def)
  have "length (dec 1) \<le> 1" by (rule dec_length) simp_all
  then show ?thesis
    using escaped [of "''0004000000055D00''"]
    by (simp add: upload_url_def build_base_text base_url_def server c_string_empty_def sb_simps
        Let_def cstr_Cons API_URL_MAX_def example_title_def one_file_manifest_def sample_manifest_def
        daemoon_manifest_init_def sent_manifest_def empty_manifest_def del: concat.simps list.map)
qed

lemma example_upload:
  "daemoon_api_upload send_env sent_manifest (Some null_stream) n c = return_io (Inr example_remote, c)"
proof -
  obtain sb where sb: "upload_url send_env sent_manifest = Inr sb" using example_upload_url by blast
  have net: "net_available send_env" by (simp add: net_available_def example_env_by_def example_net_def)
  have ask: "run_request send_env req (Some stream_body_read) (b, sink_reset (mk_sink None API_JSONBUF_MAX)) w =
      Some ((OK, \<lparr>rs_status = 200, rs_sha256 = [], rs_content_length = -1\<rparr>, b,
        (mk_sink None API_JSONBUF_MAX)\<lparr>sk_ok_body := \<lparr>am_cap = API_JSONBUF_MAX, am_buf = json_flat example_meta,
          am_truncated = False\<rparr>\<rparr>), w)" for req w b
    using example_json_length
    by (simp add: run_request_def example_env_by_def example_net_def push_body_def api_body_write_def sink_reset_def mk_sink_def
        membuf_append_def membuf_init_def status_ok_def return_io_def bind_io_def API_JSONBUF_MAX_def API_ERRBUF_MAX_def Let_def)
  show ?thesis
    by (simp add: daemoon_api_upload_def sb api_do_def net max_attempts_def)
       (simp add: bind_io_def ask [unfolded mk_sink_def] return_io_def mk_sink_def status_ok_def example_parse fun_eq_iff)
qed

lemma example_pack_title:
  "pack_title_to send_env example_zip example_title 1 ''sdmc:/DaeMoon/tmp/3ds_0004000000055D00.zip'' = return_io (Inr sent_manifest)"
  by (simp only: pack_title_to_def example_title_manifest bind_io_return sum.case example_part example_calls prod.case
      not_not simp_thms if_True if_False pack_and_rename_def example_pack)
     (simp add: Let_def)

lemma example_upload_run:
  "do_upload send_env example_zip example_title 1 no_local None w =
    Some ((OK, no_local\<lparr>lo_base_version := 1, lo_base_sha256 := mf_sha256 sent_manifest\<rparr>, None), w)"
proof -
  have version: "rm_latest_version example_remote = 1" by (simp add: example_remote_def)
  note recorded = example_record [OF validate_ok(5) [OF sent_manifest_ok(1)]]
  show ?thesis
    by (simp only: do_upload_def example_staging bind_io_return sum.case example_calls example_pack_title prod.case
        not_not simp_thms if_True if_False option.case example_upload example_stream example_files version recorded)
       (simp add: return_io_def)
qed

section \<open>Properties\<close>

text \<open>C21 An upload that reports success has left a consistent record: the manifest it sent names this title
  and its platform, passes the check and carries the parent version the decision was made against, so
  the server can refuse it if another console was faster; and the version the server issued and the
  digest of exactly what was packed are what the console now remembers and has written to its state file.\<close>
theorem upload_recorded:
  assumes "do_upload env mz title parent local c w = Some ((OK, local', c'), w')"
  shows "\<exists>m s issued c1 w1 w2 w3. daemoon_api_upload env m (Some s) (st_size s) c w1 = Some ((Inr issued, c1), w2) \<and>
    mf_parent_version m = parent \<and> mf_platform m = ti_platform title \<and> mf_title_id m = cstr (ti_id title) \<and>
    daemoon_manifest_validate m = OK \<and>
    local' = local\<lparr>lo_base_version := rm_latest_version issued, lo_base_sha256 := cstr (mf_sha256 m)\<rparr> \<and>
    daemoon_sync_state_save env (ti_platform title) (ti_id title) local' w3 = Some (OK, w')"
proof -
  from do_upload_ok [OF assms] obtain path m s issued c1 w1 w2 w4 w5 w6 where
    steps: "pack_title_to env mz title parent path w1 = Some (Inr m, w2)"
    "daemoon_api_upload env m (Some s) (st_size s) c w4 = Some ((Inr issued, c1), w5)"
    "record_base env title local (rm_latest_version issued) (mf_sha256 m) w6 = Some ((OK, local'), w')"
    by blast
  from ensuresD [OF pack_title_to_fields steps(1)] record_base_ok [OF steps(3)] steps(2) show ?thesis
    unfolding packed_ok_simps packed_for_def by blast
qed

theorem upload_recorded_witness:
  "\<exists>m. mf_parent_version m = 1 \<and> mf_title_id m = ''0004000000055D00'' \<and> daemoon_manifest_validate m = OK"
  using upload_recorded [OF example_upload_run [of True]]
  by (auto simp: example_title_def one_file_manifest_def sample_manifest_def daemoon_manifest_init_def cstr_Cons)

text \<open>C22 A download that reports success has installed what was announced: the manifest in the fetched
  package has the digest the server gave for the version, the restore of that package succeeded, and
  the version and its digest are what the console now remembers and has written to its state file.\<close>
theorem download_recorded:
  assumes "do_download env mz title remote local confirmed w = Some ((OK, local'), w')"
  shows "\<exists>path pkg got w1 w2 w3 w4 w5 w6.
    fs_open_file env path OPEN_READ w1 = Some ((OK, pkg), w2) \<and>
    daemoon_archive_read_manifest mz pkg w2 = Some (Inr got, w3) \<and> cstr (mf_sha256 got) = cstr (rm_sha256 remote) \<and>
    restore_package env mz title path confirmed w4 = Some (OK, w5) \<and>
    local' = local\<lparr>lo_base_version := rm_latest_version remote, lo_base_sha256 := cstr (rm_sha256 remote)\<rparr> \<and>
    daemoon_sync_state_save env (ti_platform title) (ti_id title) local' w6 = Some (OK, w')"
proof -
  from do_download_ok [OF assms] obtain path w1 w2 w3 w4 where
    steps: "check_download env mz title remote path w1 = Some (OK, w2)"
    "restore_package env mz title path confirmed w2 = Some (OK, w3)"
    "record_base env title local (rm_latest_version remote) (rm_sha256 remote) w4 = Some ((OK, local'), w')"
    by blast
  from check_download_ok [OF steps(1)] record_base_ok [OF steps(3)] steps(2) show ?thesis by blast
qed

theorem download_recorded_witness:
  "\<exists>pkg got w2 w3. daemoon_archive_read_manifest example_zip pkg (w2 :: bool) = Some (Inr got, w3) \<and>
    cstr (mf_sha256 got) = cstr (mf_sha256 one_file_manifest)"
  using download_recorded [OF example_download_run] by (simp add: example_remote_def) blast

end
