(* ===== verification/Protocol.thy ===== *)
theory Protocol
  imports Sync
begin

text \<open>
  Several consoles and one server, as a labelled transition system over the decision the engine
  makes. A save is represented by its digest, the server by the digests of the versions it has
  accepted. A console decides against the history \<open>seen\<close>, which is what the server had when it was
  asked and may have grown since; an upload is accepted only if it has not, which is the check of the
  parent version, and a download fetches the version that was seen. A console may fail to record
  what it has just transferred. The invariant of this system is what the three-way comparison of
  \<open>daemoon_sync_decide\<close> relies on.
\<close>

section \<open>The system\<close>

record console =
  cs_save :: "bytes option"
  cs_version :: nat
  cs_base :: bytes

record 'k cloud =
  cl_history :: "bytes list"
  cl_console :: "'k \<Rightarrow> console"

definition local_of :: "console \<Rightarrow> local_state" where
  "local_of c = \<lparr>lo_has_save = cs_save c \<noteq> None, lo_sha256 = (case cs_save c of None \<Rightarrow> [] | Some d \<Rightarrow> d), lo_size = 0,
    lo_base_version = cs_version c, lo_base_sha256 = cs_base c\<rparr>"

definition remote_of :: "bytes list \<Rightarrow> remote_meta" where
  "remote_of h = (if h = [] then no_meta
    else no_meta\<lparr>rm_exists := True, rm_latest_version := length h, rm_parent_version := length h - 1, rm_sha256 := last h\<rparr>)"

definition decide :: "console \<Rightarrow> bytes list \<Rightarrow> sync_action" where
  "decide c h = daemoon_sync_decide (Some (local_of c)) (Some (remote_of h))"

definition is_digest :: "bytes \<Rightarrow> bool" where
  "is_digest d \<longleftrightarrow> length d = 64 \<and> nul_free d"

definition put :: "'k \<Rightarrow> console \<Rightarrow> 'k cloud \<Rightarrow> 'k cloud" where
  "put k c s = s\<lparr>cl_console := (cl_console s)(k := c)\<rparr>"

definition based :: "console \<Rightarrow> nat \<Rightarrow> bytes \<Rightarrow> console" where
  "based c v d = c\<lparr>cs_version := v, cs_base := d\<rparr>"

datatype 'k label = Play 'k | Idle 'k | Upload 'k | Download 'k | Keep_Local 'k | Keep_Server 'k

inductive step :: "'k label \<Rightarrow> 'k cloud \<Rightarrow> 'k cloud \<Rightarrow> bool" where
  play: "(\<And>x. d = Some x \<Longrightarrow> is_digest x) \<Longrightarrow>
    step (Play k) s (put k ((cl_console s k)\<lparr>cs_save := d\<rparr>) s)"
| idle: "prefix seen (cl_history s) \<Longrightarrow> seen \<noteq> [] \<Longrightarrow> cs_save (cl_console s k) = Some d \<Longrightarrow>
    decide (cl_console s k) seen = SYNC_NONE \<Longrightarrow>
    step (Idle k) s (put k (based (cl_console s k) (length seen) d) s)"
| upload: "seen = cl_history s \<Longrightarrow> cs_save (cl_console s k) = Some d \<Longrightarrow>
    decide (cl_console s k) seen = a \<Longrightarrow> (a, l) \<in> {(SYNC_UPLOAD, Upload k), (SYNC_CONFLICT, Keep_Local k)} \<Longrightarrow>
    c' \<in> {cl_console s k, based (cl_console s k) (Suc (length seen)) d} \<Longrightarrow>
    step l s (put k c' s\<lparr>cl_history := seen @ [d]\<rparr>)"
| download: "prefix seen (cl_history s) \<Longrightarrow> seen \<noteq> [] \<Longrightarrow>
    decide (cl_console s k) seen = a \<Longrightarrow> (a, l) \<in> {(SYNC_DOWNLOAD, Download k), (SYNC_CONFLICT, Keep_Server k)} \<Longrightarrow>
    c = (cl_console s k)\<lparr>cs_save := Some (last seen)\<rparr> \<Longrightarrow> c' \<in> {c, based c (length seen) (last seen)} \<Longrightarrow>
    step l s (put k c' s)"

inductive run :: "'k label list \<Rightarrow> 'k cloud \<Rightarrow> 'k cloud \<Rightarrow> bool" where
  stop: "run [] s s"
| more: "run ls s s' \<Longrightarrow> step l s' s'' \<Longrightarrow> run (ls @ [l]) s s''"

definition fresh_console :: console where
  "fresh_console = \<lparr>cs_save = None, cs_version = VERSION_NONE, cs_base = []\<rparr>"

definition start :: "'k cloud" where
  "start = \<lparr>cl_history = [], cl_console = (\<lambda>_. fresh_console)\<rparr>"

section \<open>The invariant\<close>

text \<open>What a console remembers is a version the server has, with its digest.\<close>

definition console_ok :: "bytes list \<Rightarrow> console \<Rightarrow> bool" where
  "console_ok h c \<longleftrightarrow> (\<forall>d. cs_save c = Some d \<longrightarrow> is_digest d) \<and> cs_version c \<le> length h \<and>
    (0 < cs_version c \<longrightarrow> cs_base c = h ! (cs_version c - 1))"

definition cloud_ok :: "'k cloud \<Rightarrow> bool" where
  "cloud_ok s \<longleftrightarrow> list_all is_digest (cl_history s) \<and> (\<forall>k. console_ok (cl_history s) (cl_console s k))"

lemma digest_equal: "is_digest d \<Longrightarrow> daemoon_sha256_hex_equal (Some d) (Some e) \<longleftrightarrow> cstr e = d"
  by (auto simp: hex_equal_iff is_digest_def)

lemma digest_self: "is_digest d \<Longrightarrow> daemoon_sha256_hex_equal (Some d) (Some d)"
  by (simp add: hex_equal_iff is_digest_def)

lemma last_digest: "list_all is_digest h \<Longrightarrow> prefix seen h \<Longrightarrow> seen \<noteq> [] \<Longrightarrow> is_digest (last seen)"
  by (auto simp: prefix_def list_all_iff)

lemma last_seen: "prefix seen h \<Longrightarrow> seen \<noteq> [] \<Longrightarrow> h ! (length seen - 1) = last seen \<and> length seen \<le> length h"
  by (auto simp: prefix_def last_conv_nth nth_append)

lemma digests_equal: "is_digest d \<Longrightarrow> is_digest e \<Longrightarrow> daemoon_sha256_hex_equal (Some d) (Some e) \<longleftrightarrow> d = e"
  by (auto simp: digest_equal is_digest_def)

text \<open>The decision in terms of digests.\<close>

lemma decide_no_save: "cs_save c = None \<Longrightarrow> decide c h = (if h = [] then SYNC_NONE else SYNC_DOWNLOAD)"
  by (simp add: decide_def daemoon_sync_decide_def local_of_def remote_of_def no_meta_def)

lemma decide_save:
  assumes "cs_save c = Some d" "console_ok h' c" "list_all is_digest h'" "prefix h h'"
  shows "decide c h =
    (if h = [] then SYNC_UPLOAD else if d = last h then SYNC_NONE
     else if length h < cs_version c then SYNC_CONFLICT
     else if cs_version c = length h then SYNC_UPLOAD
     else if 0 < cs_version c \<and> d = cs_base c then SYNC_DOWNLOAD else SYNC_CONFLICT)"
proof -
  have d: "is_digest d" using assms(1,2) by (simp add: console_ok_def)
  have base: "is_digest (cs_base c)" if "0 < cs_version c"
    using that assms(2,3) by (auto simp: console_ok_def list_all_length)
  have newest: "h \<noteq> [] \<Longrightarrow> is_digest (last h)" using last_digest [OF assms(3,4)] by simp
  have same: "h \<noteq> [] \<Longrightarrow> cs_version c = length h \<Longrightarrow> cs_base c = last h"
    using assms(2) last_seen [OF assms(4)] by (auto simp: console_ok_def)
  have dirty: "daemoon_sync_local_dirty (Some (local_of c)) \<longleftrightarrow> cs_version c = 0 \<or> d \<noteq> cs_base c"
  proof (cases "cs_version c = 0")
    case True
    with assms(1) show ?thesis by (simp add: daemoon_sync_local_dirty_def local_of_def VERSION_NONE_def)
  next
    case False
    with base have b: "is_digest (cs_base c)" by simp
    then have "cstr (cs_base c) \<noteq> []" by (auto simp: is_digest_def)
    with False assms(1) digests_equal [OF d b] show ?thesis
      by (simp add: daemoon_sync_local_dirty_def local_of_def VERSION_NONE_def c_string_empty_def)
  qed
  show ?thesis
  proof (cases "h = []")
    case True
    with assms(1) show ?thesis
      by (simp add: decide_def daemoon_sync_decide_def local_of_def remote_of_def no_meta_def)
  next
    case False
    have "daemoon_sync_decide (Some (local_of c)) (Some (remote_of h)) =
      (if d = last h then SYNC_NONE
       else if cs_version c = length h then (if daemoon_sync_local_dirty (Some (local_of c)) then SYNC_UPLOAD else SYNC_CONFLICT)
       else if cs_version c < length h then (if daemoon_sync_local_dirty (Some (local_of c)) then SYNC_CONFLICT else SYNC_DOWNLOAD)
       else SYNC_CONFLICT)"
      using False assms(1) digests_equal [OF d newest [OF False]]
      by (simp add: daemoon_sync_decide_def local_of_def remote_of_def no_meta_def Let_def)
    with False same [OF False] dirty show ?thesis by (auto simp: decide_def)
  qed
qed

lemma console_ok_more: "console_ok h c \<Longrightarrow> prefix h h' \<Longrightarrow> console_ok h' c"
  by (auto simp: console_ok_def prefix_def nth_append)

lemma prefix_last: "prefix seen h \<Longrightarrow> seen \<noteq> [] \<Longrightarrow> last seen \<in> set h"
  by (auto simp: prefix_def)

inductive_cases stepE: "step l s s'"

lemma step_history: "step l s s' \<Longrightarrow> prefix (cl_history s) (cl_history s')"
  by (erule step.cases) (auto simp: put_def)

lemma step_ok:
  assumes "step l s s'" "cloud_ok s"
  shows "cloud_ok s'"
  using assms
proof cases
  case (play d k)
  with assms(2) show ?thesis by (auto simp: cloud_ok_def put_def console_ok_def)
next
  case (idle seen k d)
  have c: "console_ok (cl_history s) (cl_console s k)" and h: "list_all is_digest (cl_history s)"
    using assms(2) by (simp_all add: cloud_ok_def)
  from idle decide_save [OF idle(5) c h idle(3)] have "d = last seen" by (auto split: if_splits)
  with idle c last_seen [OF idle(3,4)] assms(2) show ?thesis
    by (auto simp: cloud_ok_def put_def console_ok_def based_def)
next
  case (upload seen k d a c')
  have "is_digest d" using assms(2) upload(3) by (auto simp: cloud_ok_def console_ok_def)
  moreover have "console_ok (cl_history s @ [d]) (cl_console s j)" for j
    using assms(2) by (auto simp: cloud_ok_def intro: console_ok_more)
  ultimately show ?thesis
    using assms(2) upload by (auto simp: cloud_ok_def put_def console_ok_def based_def)
next
  case (download seen k a c c')
  have "is_digest (last seen)"
    using last_digest [OF _ download(2,3)] assms(2) by (simp add: cloud_ok_def)
  with assms(2) download last_seen [OF download(2,3)] show ?thesis
    by (auto simp: cloud_ok_def put_def console_ok_def based_def)
qed

lemma run_ok: "run ls s s' \<Longrightarrow> cloud_ok s \<Longrightarrow> cloud_ok s' \<and> prefix (cl_history s) (cl_history s')"
  by (induction rule: run.induct) (auto intro: step_ok dest: step_history prefix_order.trans)

lemma start_ok: "cloud_ok start"
  by (simp add: cloud_ok_def start_def console_ok_def fresh_console_def VERSION_NONE_def)


section \<open>Nothing is lost\<close>

text \<open>A download that nobody was asked about replaces a save that the server has.\<close>

lemma automatic_download:
  assumes "cloud_ok s" "prefix seen (cl_history s)" "decide (cl_console s k) seen = SYNC_DOWNLOAD"
    and "cs_save (cl_console s k) = Some d"
  shows "d \<in> set (cl_history s)"
proof -
  have c: "console_ok (cl_history s) (cl_console s k)" and h: "list_all is_digest (cl_history s)"
    using assms(1) by (simp_all add: cloud_ok_def)
  from decide_save [OF assms(4) c h assms(2)] assms(3)
  have "d = cs_base (cl_console s k)" "0 < cs_version (cl_console s k)" by (auto split: if_splits)
  with c show ?thesis by (auto simp: console_ok_def)
qed

lemma step_keeps_save:
  assumes "cloud_ok s" "step l s s'" "l \<noteq> Play k" "l \<noteq> Keep_Server k" "cs_save (cl_console s k) = Some d"
  shows "cs_save (cl_console s' k) = Some d \<or> d \<in> set (cl_history s')"
  using assms(2)
proof cases
  case (download seen j a c c')
  show ?thesis
  proof (cases "j = k")
    case True
    with download assms(4) have "decide (cl_console s k) seen = SYNC_DOWNLOAD" by auto
    from automatic_download [OF assms(1) _ this assms(5)] download show ?thesis by (simp add: put_def)
  next
    case False
    with download assms(5) show ?thesis by (simp add: put_def)
  qed
qed (use assms(3-5) in \<open>auto simp: put_def based_def\<close>)

lemma run_keeps_save:
  assumes "run ls s s'"
  shows "cloud_ok s \<Longrightarrow> Play k \<notin> set ls \<Longrightarrow> Keep_Server k \<notin> set ls \<Longrightarrow> cs_save (cl_console s k) = Some d \<Longrightarrow>
    cs_save (cl_console s' k) = Some d \<or> d \<in> set (cl_history s')"
  using assms
proof (induction rule: run.induct)
  case (more ls s s' l s'')
  then have ok: "cloud_ok s'" using run_ok by blast
  from more have "cs_save (cl_console s' k) = Some d \<or> d \<in> set (cl_history s')" by simp
  then show ?case
  proof
    assume "cs_save (cl_console s' k) = Some d"
    with step_keeps_save [OF ok more.hyps(2), of k d] more.prems show ?thesis by auto
  next
    assume "d \<in> set (cl_history s')"
    with step_history [OF more.hyps(2)] show ?thesis by (auto simp: prefix_def)
  qed
qed simp

section \<open>Settled consoles\<close>

lemma settled:
  assumes "cloud_ok s" "cs_save (cl_console s k) = Some (last (cl_history s))" "cl_history s \<noteq> []"
  shows "decide (cl_console s k) (cl_history s) = SYNC_NONE"
  using assms decide_save [OF assms(2), of "cl_history s" "cl_history s"] by (simp add: cloud_ok_def)

lemma conflict_means_both:
  assumes "cloud_ok s" "decide (cl_console s k) (cl_history s) = SYNC_CONFLICT"
  shows "\<exists>d. cs_save (cl_console s k) = Some d \<and> d \<noteq> last (cl_history s) \<and>
    cs_version (cl_console s k) < length (cl_history s) \<and>
    (cs_version (cl_console s k) = 0 \<or> d \<noteq> cl_history s ! (cs_version (cl_console s k) - 1))"
proof -
  have c: "console_ok (cl_history s) (cl_console s k)" and h: "list_all is_digest (cl_history s)"
    using assms(1) by (simp_all add: cloud_ok_def)
  obtain d where d: "cs_save (cl_console s k) = Some d"
    using assms(2) decide_no_save [of "cl_console s k" "cl_history s"]
    by (cases "cs_save (cl_console s k)") (auto split: if_splits)
  from decide_save [OF d c h, of "cl_history s"] assms(2) d c show ?thesis
    by (auto simp: console_ok_def split: if_splits)
qed


text \<open>
  What the decision is for: with the version this console is based on, who has changed the save
  since? Both is a conflict.
\<close>

definition three_way :: "bytes option \<Rightarrow> nat \<Rightarrow> bytes list \<Rightarrow> sync_action" where
  "three_way mine v h =
    (case mine of
       None \<Rightarrow> if h = [] then SYNC_NONE else SYNC_DOWNLOAD
     | Some d \<Rightarrow>
        if h = [] then SYNC_UPLOAD
        else if d = last h then SYNC_NONE
        else
         (let changed_here = v = 0 \<or> h ! (v - 1) \<noteq> d; changed_there = v < length h
          in if changed_here \<and> changed_there then SYNC_CONFLICT
             else if changed_here then SYNC_UPLOAD else SYNC_DOWNLOAD))"

lemma decide_three_way:
  assumes "cloud_ok s" "prefix seen (cl_history s)" "cs_version (cl_console s k) \<le> length seen"
  shows "decide (cl_console s k) seen = three_way (cs_save (cl_console s k)) (cs_version (cl_console s k)) seen"
proof (cases "cs_save (cl_console s k)")
  case None
  then show ?thesis by (simp add: decide_no_save three_way_def)
next
  case (Some d)
  have c: "console_ok (cl_history s) (cl_console s k)" and h: "list_all is_digest (cl_history s)"
    using assms(1) by (simp_all add: cloud_ok_def)
  have base: "0 < cs_version (cl_console s k) \<Longrightarrow> seen ! (cs_version (cl_console s k) - 1) = cs_base (cl_console s k)"
    using c assms(2,3) by (auto simp: console_ok_def prefix_def nth_append)
  have newest: "seen \<noteq> [] \<Longrightarrow> seen ! (length seen - 1) = last seen" by (simp add: last_conv_nth)
  from decide_save [OF Some c h assms(2)] Some assms(3) base newest show ?thesis
    by (auto simp: three_way_def Let_def)
qed

section \<open>One run settles\<close>

definition sync_labels :: "'k \<Rightarrow> 'k label set" where
  "sync_labels k = {Idle k, Upload k, Download k, Keep_Local k, Keep_Server k}"

definition settles :: "'k label set \<Rightarrow> 'k \<Rightarrow> 'k cloud \<Rightarrow> bool" where
  "settles L k s \<longleftrightarrow> (\<exists>l \<in> L. \<exists>s'. step l s s' \<and> decide (cl_console s' k) (cl_history s') = SYNC_NONE \<and>
    cs_version (cl_console s' k) = length (cl_history s'))"

lemma upload_settles:
  assumes "cloud_ok s" "cs_save (cl_console s k) = Some d" "decide (cl_console s k) (cl_history s) = a"
    and "(a, l) \<in> {(SYNC_UPLOAD, Upload k), (SYNC_CONFLICT, Keep_Local k)}"
  shows "settles {l} k s"
proof -
  let ?c = "based (cl_console s k) (Suc (length (cl_history s))) d"
  let ?s = "(put k ?c s)\<lparr>cl_history := cl_history s @ [d]\<rparr>"
  have "step l s ?s" by (rule step.upload [OF refl assms(2-4)]) simp
  moreover have "decide (cl_console ?s k) (cl_history ?s) = SYNC_NONE"
    using settled [OF step_ok [OF calculation assms(1)], of k] assms(2) by (simp add: put_def based_def)
  ultimately show ?thesis by (auto simp: settles_def put_def based_def)
qed

lemma download_settles:
  assumes "cloud_ok s" "cl_history s \<noteq> []" "decide (cl_console s k) (cl_history s) = a"
    and "(a, l) \<in> {(SYNC_DOWNLOAD, Download k), (SYNC_CONFLICT, Keep_Server k)}"
  shows "settles {l} k s"
proof -
  let ?c = "based ((cl_console s k)\<lparr>cs_save := Some (last (cl_history s))\<rparr>) (length (cl_history s)) (last (cl_history s))"
  have "step l s (put k ?c s)" by (rule step.download [OF _ assms(2-4) refl]) simp_all
  moreover have "decide (cl_console (put k ?c s) k) (cl_history (put k ?c s)) = SYNC_NONE"
    using settled [OF step_ok [OF calculation assms(1)], of k] assms(2) by (simp add: put_def based_def)
  ultimately show ?thesis by (auto simp: settles_def put_def based_def)
qed

lemma idle_settles:
  assumes "cloud_ok s" "cl_history s \<noteq> []" "cs_save (cl_console s k) = Some d"
    and "decide (cl_console s k) (cl_history s) = SYNC_NONE"
  shows "settles {Idle k} k s"
proof -
  let ?c = "based (cl_console s k) (length (cl_history s)) d"
  have c: "console_ok (cl_history s) (cl_console s k)" and h: "list_all is_digest (cl_history s)"
    using assms(1) by (simp_all add: cloud_ok_def)
  have d: "d = last (cl_history s)"
    using decide_save [OF assms(3) c h, of "cl_history s"] assms(2,4) by (auto split: if_splits)
  have "step (Idle k) s (put k ?c s)" by (rule step.idle [OF _ assms(2-4)]) simp
  moreover have "decide (cl_console (put k ?c s) k) (cl_history (put k ?c s)) = SYNC_NONE"
    using settled [OF step_ok [OF calculation assms(1)], of k] assms(2,3) d by (simp add: put_def based_def)
  ultimately show ?thesis by (auto simp: settles_def put_def based_def)
qed


section \<open>A history for the examples\<close>

text \<open>Console 0 plays and uploads; console 2 has played a save of its own.\<close>

definition save_a :: bytes where "save_a = replicate 64 CHR ''a''"
definition save_b :: bytes where "save_b = replicate 64 CHR ''b''"

definition example_cloud :: "nat cloud" where
  "example_cloud = put 2 (fresh_console\<lparr>cs_save := Some save_b\<rparr>)
    ((put 0 (based (fresh_console\<lparr>cs_save := Some save_a\<rparr>) 1 save_a) start)\<lparr>cl_history := [save_a]\<rparr>)"

lemma example_digests: "is_digest save_a" "is_digest save_b" "save_a \<noteq> save_b"
  by (simp_all add: is_digest_def save_a_def save_b_def nul_free_def replicate_eq_replicate)

lemma run_snoc: "run ls s s' \<Longrightarrow> step l s' s'' \<Longrightarrow> ls' = ls @ [l] \<Longrightarrow> run ls' s s''"
  by (simp add: run.more)

lemma example_run: "run [Play 0, Upload 0, Play 2] start example_cloud"
proof -
  let ?s1 = "put (0 :: nat) (fresh_console\<lparr>cs_save := Some save_a\<rparr>) start"
  let ?s2 = "(put (0 :: nat) (based (fresh_console\<lparr>cs_save := Some save_a\<rparr>) 1 save_a) start)\<lparr>cl_history := [save_a]\<rparr>"
  have "step (Play 0) start ?s1"
    using step.play [of "Some save_a" 0 "start :: nat cloud"] example_digests by (simp add: start_def)
  then have "run [Play 0] start ?s1" by (rule run_snoc [OF run.stop]) simp
  moreover have "step (Upload 0) ?s1 ?s2"
  proof -
    have "decide (cl_console ?s1 0) (cl_history ?s1) = SYNC_UPLOAD"
      by (simp add: decide_def daemoon_sync_decide_def local_of_def remote_of_def no_meta_def put_def start_def)
    from step.upload [OF refl _ this, of save_a "Upload 0" "based (fresh_console\<lparr>cs_save := Some save_a\<rparr>) 1 save_a"]
    show ?thesis by (simp add: put_def start_def)
  qed
  ultimately have "run [Play 0, Upload 0] start ?s2" by (rule run_snoc) simp
  moreover have "step (Play 2) ?s2 example_cloud"
    using step.play [of "Some save_b" 2 ?s2] example_digests
    by (simp add: example_cloud_def put_def start_def)
  ultimately show ?thesis by (rule run_snoc) simp
qed

lemma example_cloud_simps [simp]:
  "cl_history example_cloud = [save_a]"
  "cl_console example_cloud 0 = \<lparr>cs_save = Some save_a, cs_version = 1, cs_base = save_a\<rparr>"
  "cl_console example_cloud 2 = \<lparr>cs_save = Some save_b, cs_version = 0, cs_base = []\<rparr>"
  by (simp_all add: example_cloud_def put_def based_def start_def fresh_console_def VERSION_NONE_def)

section \<open>Properties\<close>



text \<open>C4 The decision is the three-way comparison it is meant to be: in every state the system can reach,
  for a console that is based on one of the versions it was told of, it is a function of the save, the
  version the save is based on and those versions alone, whose only question is who has changed the save
  since: upload if only this console has, download if only others have, a conflict if both have.\<close>
theorem decide_is_three_way:
  assumes "run ls start s" "prefix seen (cl_history s)" "cs_version (cl_console s k) \<le> length seen"
  shows "daemoon_sync_decide (Some (local_of (cl_console s k))) (Some (remote_of seen)) =
    three_way (cs_save (cl_console s k)) (cs_version (cl_console s k)) seen"
  using decide_three_way [OF _ assms(2,3)] run_ok [OF assms(1) start_ok] by (simp add: decide_def)

theorem decide_is_three_way_witness:
  "daemoon_sync_decide (Some (local_of (cl_console example_cloud 2))) (Some (remote_of [save_a])) = SYNC_CONFLICT"
  using decide_is_three_way [OF example_run, of "[save_a]" 2] example_digests(3) by (simp add: three_way_def)

text \<open>C3 No save is lost without its owner's say: in every run from a reachable state in which the owner of
  a console neither plays nor chooses the server's side of a conflict, the save that was on the console
  is still there at the end or is one of the versions on the server, whatever the other consoles do
  and whatever this one fails to record.\<close>
theorem no_silent_loss:
  assumes "run ls start s" "cs_save (cl_console s k) = Some d"
    and "run ms s s'" "Play k \<notin> set ms" "Keep_Server k \<notin> set ms"
  shows "cs_save (cl_console s' k) = Some d \<or> d \<in> set (cl_history s')"
  using run_keeps_save [OF assms(3) _ assms(4,5,2)] run_ok [OF assms(1) start_ok] by blast

theorem no_silent_loss_witness:
  "\<exists>s'. run [Keep_Local 2] example_cloud s' \<and> cl_history s' = [save_a, save_b] \<and>
    (cs_save (cl_console s' 0) = Some save_a \<or> save_a \<in> set (cl_history s'))"
proof -
  let ?s = "(put 2 (cl_console example_cloud 2) example_cloud)\<lparr>cl_history := [save_a, save_b]\<rparr>"
  have "decide (cl_console example_cloud 2) (cl_history example_cloud) = SYNC_CONFLICT"
    using decide_three_way [OF conjunct1 [OF run_ok [OF example_run start_ok]], of "[save_a]" 2] example_digests(3)
    by (simp add: three_way_def)
  from step.upload [OF refl _ this, of save_b "Keep_Local 2" "cl_console example_cloud 2"]
  have "step (Keep_Local 2) example_cloud ?s" by simp
  then have "run [Keep_Local 2] example_cloud ?s" by (rule run_snoc [OF run.stop]) simp
  from this no_silent_loss [OF example_run _ this, of 0 save_a] show ?thesis by (intro exI [of _ ?s]) simp
qed



end
