(* ===== verification/Stdio.thy ===== *)
theory Stdio
  imports Backend Bits "HOL-Library.AList"
begin

text \<open>
  The part of the C library the console builds use: files and directories of one mounted card.
  A card is the list of its nodes in directory order, the open streams, what the next calls will do
  (\<open>cd_faults\<close>: a full card, a card that was pulled, no memory), and every state the
  nodes have been in, newest first (\<open>cd_log\<close>): what a console that loses power finds at its next
  start is one of them. The record is open, so that a world may hold more than a card.

  A write reaches the card at once, which is the worst case for a reader of the card between two
  calls; a call that fails may have done a part of its work. As on the FAT file system
  of both consoles, a rename does not replace.
\<close>

section \<open>The card\<close>

datatype errno = ENOENT | EACCES | EPERM | ENOSPC | ENOMEM | EEXIST | EIO

datatype node = Data bytes | Folder

datatype fault = Works | Fails errno nat

type_synonym nodes = "(bytes \<times> node) list"

record fp =
  fp_path :: bytes
  fp_pos :: nat

record card =
  cd_nodes :: nodes
  cd_open :: "(nat \<times> fp) list"
  cd_next :: nat
  cd_faults :: "fault list"
  cd_log :: "nodes list"

abbreviation node_at :: "'x card_scheme \<Rightarrow> bytes \<Rightarrow> node option" where
  "node_at c \<equiv> map_of (cd_nodes c)"

definition change :: "nodes \<Rightarrow> 'x card_scheme \<Rightarrow> 'x card_scheme" where
  "change ns c = c\<lparr>cd_nodes := ns, cd_log := ns # cd_log c\<rparr>"

definition next_fault :: "'x card_scheme \<Rightarrow> fault \<times> 'x card_scheme" where
  "next_fault c = (case cd_faults c of [] \<Rightarrow> (Works, c) | f # fs \<Rightarrow> (f, c\<lparr>cd_faults := fs\<rparr>))"

text \<open>A call that does \<open>f\<close> when it works and \<open>g\<close> when it does not.\<close>

definition c_call :: "('x card_scheme \<Rightarrow> 'a \<times> 'x card_scheme) \<Rightarrow> (errno \<Rightarrow> nat \<Rightarrow> 'x card_scheme \<Rightarrow> 'a \<times> 'x card_scheme) \<Rightarrow>
    'x card_scheme \<Rightarrow> 'a \<times> 'x card_scheme" where
  "c_call f g c = (case next_fault c of (Works, c) \<Rightarrow> f c | (Fails e k, c) \<Rightarrow> g e k c)"

text \<open>A name can be made in a directory that is there, or in the root of a device (\<open>sdmc:\<close>).\<close>

definition parent_of :: "bytes \<Rightarrow> bytes option" where
  "parent_of p = (if CHR ''/'' \<in> set p then Some (rev (tl (dropWhile (\<lambda>c. c \<noteq> CHR ''/'') (rev p)))) else None)"

definition parent_there :: "'x card_scheme \<Rightarrow> bytes \<Rightarrow> bool" where
  "parent_there c p = (case parent_of p of None \<Rightarrow> True
    | Some d \<Rightarrow> d = [] \<or> last d = CHR '':'' \<or> node_at c d = Some Folder)"

text \<open>Calls in sequence.\<close>

definition c_ret :: "'a \<Rightarrow> 'w \<Rightarrow> 'a \<times> 'w" where
  "c_ret a = (\<lambda>c. (a, c))"

definition c_seq :: "('w \<Rightarrow> 'a \<times> 'w) \<Rightarrow> ('a \<Rightarrow> 'w \<Rightarrow> 'b \<times> 'w) \<Rightarrow> 'w \<Rightarrow> 'b \<times> 'w" where
  "c_seq m f = (\<lambda>c. case m c of (a, c) \<Rightarrow> f a c)"

section \<open>Streams\<close>

text \<open>\<open>fopen\<close> with mode \<open>rb\<close> or \<open>wb\<close>: the stream, or NULL and \<open>errno\<close>.\<close>

definition add_stream :: "bytes \<Rightarrow> 'x card_scheme \<Rightarrow> (errno + nat) \<times> 'x card_scheme" where
  "add_stream p c = (Inr (cd_next c),
    c\<lparr>cd_open := (cd_next c, \<lparr>fp_path = p, fp_pos = 0\<rparr>) # cd_open c, cd_next := Suc (cd_next c)\<rparr>)"

definition c_fopen_rb :: "bytes \<Rightarrow> 'x card_scheme \<Rightarrow> (errno + nat) \<times> 'x card_scheme" where
  "c_fopen_rb p = c_call
    (\<lambda>c. case node_at c p of None \<Rightarrow> (Inl ENOENT, c) | Some Folder \<Rightarrow> (Inl EIO, c) | Some (Data _) \<Rightarrow> add_stream p c)
    (\<lambda>e k c. (Inl e, c))"

definition c_fopen_wb :: "bytes \<Rightarrow> 'x card_scheme \<Rightarrow> (errno + nat) \<times> 'x card_scheme" where
  "c_fopen_wb p = c_call
    (\<lambda>c. if node_at c p = Some Folder then (Inl EIO, c)
         else if \<not> parent_there c p then (Inl ENOENT, c)
         else add_stream p (change (AList.update p (Data []) (cd_nodes c)) c))
    (\<lambda>e k c. (Inl e, c))"

text \<open>What is left to read of a stream.\<close>

definition unread :: "nat \<Rightarrow> 'x card_scheme \<Rightarrow> bytes" where
  "unread h c = (case map_of (cd_open c) h of None \<Rightarrow> []
    | Some f \<Rightarrow> (case node_at c (fp_path f) of Some (Data bs) \<Rightarrow> drop (fp_pos f) bs | _ \<Rightarrow> []))"

definition move :: "nat \<Rightarrow> (nat \<Rightarrow> nat) \<Rightarrow> 'x card_scheme \<Rightarrow> 'x card_scheme" where
  "move h g c = (case map_of (cd_open c) h of None \<Rightarrow> c
    | Some f \<Rightarrow> c\<lparr>cd_open := AList.update h (f\<lparr>fp_pos := g (fp_pos f)\<rparr>) (cd_open c)\<rparr>)"

text \<open>\<open>fread\<close> of bytes: what was read, and \<open>ferror\<close> afterwards.\<close>

definition c_fread :: "nat \<Rightarrow> nat \<Rightarrow> 'x card_scheme \<Rightarrow> (bytes \<times> bool) \<times> 'x card_scheme" where
  "c_fread h n = c_call
    (\<lambda>c. let bs = take n (unread h c) in ((bs, False), move h (\<lambda>p. p + length bs) c))
    (\<lambda>e k c. let bs = take (min k n) (unread h c) in ((bs, True), move h (\<lambda>p. p + length bs) c))"

text \<open>\<open>fgets\<close> into a buffer of \<open>cap\<close> bytes.\<close>

fun line_of :: "nat \<Rightarrow> bytes \<Rightarrow> bytes" where
  "line_of 0 bs = []"
| "line_of (Suc n) [] = []"
| "line_of (Suc n) (c # bs) = (if c = CHR 0x0a then [c] else c # line_of n bs)"

definition c_fgets :: "nat \<Rightarrow> nat \<Rightarrow> 'x card_scheme \<Rightarrow> bytes option \<times> 'x card_scheme" where
  "c_fgets h cap = c_call
    (\<lambda>c. let bs = line_of (cap - 1) (unread h c) in
         if bs = [] then (None, c) else (Some bs, move h (\<lambda>p. p + length bs) c))
    (\<lambda>e k c. (None, c))"

text \<open>\<open>fwrite\<close> of bytes: how many were written, and \<open>errno\<close>.\<close>

definition overlay :: "nat \<Rightarrow> bytes \<Rightarrow> bytes \<Rightarrow> bytes" where
  "overlay pos bs old = take pos (old @ replicate (pos - length old) NUL) @ bs @ drop (pos + length bs) old"

definition put_bytes :: "nat \<Rightarrow> bytes \<Rightarrow> 'x card_scheme \<Rightarrow> 'x card_scheme" where
  "put_bytes h bs c = (case map_of (cd_open c) h of None \<Rightarrow> c
    | Some f \<Rightarrow> (case node_at c (fp_path f) of
        Some (Data old) \<Rightarrow>
          move h (\<lambda>p. p + length bs) (change (AList.update (fp_path f) (Data (overlay (fp_pos f) bs old)) (cd_nodes c)) c)
      | _ \<Rightarrow> c))"

definition c_fwrite :: "nat \<Rightarrow> bytes \<Rightarrow> 'x card_scheme \<Rightarrow> (nat \<times> errno) \<times> 'x card_scheme" where
  "c_fwrite h bs = c_call
    (\<lambda>c. ((length bs, EIO), put_bytes h bs c))
    (\<lambda>e k c. let n = min k (length bs - 1) in ((n, e), put_bytes h (take n bs) c))"

text \<open>\<open>fseek\<close> to an offset from the start, as the \<open>long\<close> of 32 bits it is cast to; whether it worked.\<close>

definition c_fseek :: "nat \<Rightarrow> nat \<Rightarrow> 'x card_scheme \<Rightarrow> bool \<times> 'x card_scheme" where
  "c_fseek h ofs = c_call
    (\<lambda>c. let target = sint (word_of_nat ofs :: 32 word) in
         if target < 0 then (False, c) else (True, move h (\<lambda>_. nat target) c))
    (\<lambda>e k c. (False, c))"

definition c_fflush :: "nat \<Rightarrow> 'x card_scheme \<Rightarrow> errno option \<times> 'x card_scheme" where
  "c_fflush h = c_call (\<lambda>c. (None, c)) (\<lambda>e k c. (Some e, c))"

text \<open>The stream is gone whether or not \<open>fclose\<close> reports an error.\<close>

definition drop_stream :: "nat \<Rightarrow> 'x card_scheme \<Rightarrow> 'x card_scheme" where
  "drop_stream h c = c\<lparr>cd_open := AList.delete h (cd_open c)\<rparr>"

definition c_fclose :: "nat \<Rightarrow> 'x card_scheme \<Rightarrow> errno option \<times> 'x card_scheme" where
  "c_fclose h = c_call (\<lambda>c. (None, drop_stream h c)) (\<lambda>e k c. (Some e, drop_stream h c))"

section \<open>Names\<close>

definition c_unlink :: "bytes \<Rightarrow> 'x card_scheme \<Rightarrow> errno option \<times> 'x card_scheme" where
  "c_unlink p = c_call
    (\<lambda>c. case node_at c p of None \<Rightarrow> (Some ENOENT, c) | Some Folder \<Rightarrow> (Some EPERM, c)
       | Some (Data _) \<Rightarrow> (None, change (AList.delete p (cd_nodes c)) c))
    (\<lambda>e k c. (Some e, c))"

definition c_rename :: "bytes \<Rightarrow> bytes \<Rightarrow> 'x card_scheme \<Rightarrow> errno option \<times> 'x card_scheme" where
  "c_rename a b = c_call
    (\<lambda>c. case node_at c a of None \<Rightarrow> (Some ENOENT, c)
       | Some n \<Rightarrow> if node_at c b \<noteq> None then (Some EEXIST, c)
           else if \<not> parent_there c b then (Some ENOENT, c)
           else (None, change ((b, n) # AList.delete a (cd_nodes c)) c))
    (\<lambda>e k c. (Some e, c))"

definition c_mkdir :: "bytes \<Rightarrow> 'x card_scheme \<Rightarrow> errno option \<times> 'x card_scheme" where
  "c_mkdir p = c_call
    (\<lambda>c. if node_at c p \<noteq> None then (Some EEXIST, c)
         else if \<not> parent_there c p then (Some ENOENT, c)
         else (None, change ((p, Folder) # cd_nodes c) c))
    (\<lambda>e k c. (Some e, c))"

text \<open>\<open>stat\<close>: the node, or the failure.\<close>

definition c_stat :: "bytes \<Rightarrow> 'x card_scheme \<Rightarrow> (errno + node) \<times> 'x card_scheme" where
  "c_stat p = c_call
    (\<lambda>c. case node_at c p of None \<Rightarrow> (Inl ENOENT, c) | Some n \<Rightarrow> (Inr n, c))
    (\<lambda>e k c. (Inl e, c))"

text \<open>\<open>calloc\<close>: whether there was memory.\<close>

definition c_calloc :: "'x card_scheme \<Rightarrow> bool \<times> 'x card_scheme" where
  "c_calloc = c_call (\<lambda>c. (True, c)) (\<lambda>e k c. (False, c))"

end
