(* ===== verification/Newlib.thy ===== *)
theory Newlib
  imports Stdio StateFile
begin

text \<open>
  The file interface of both consoles (\<open>platform/common/fs_newlib.c\<close>) over the C library: streams on
  the card, directories made on the way to a file, and the swap that ends every write of the engine.
  The free space of the card is a call of each console, here the parameter \<open>free\<close>.
\<close>

definition from_errno :: "errno \<Rightarrow> result" where
  "from_errno e = (case e of ENOENT \<Rightarrow> ERR_NOT_FOUND | EACCES \<Rightarrow> ERR_FORBIDDEN | EPERM \<Rightarrow> ERR_FORBIDDEN
    | ENOSPC \<Rightarrow> ERR_NO_SPACE | ENOMEM \<Rightarrow> ERR_OUT_OF_MEMORY | _ \<Rightarrow> ERR_IO_ERROR)"

section \<open>Streams on the card\<close>

record sd_file =
  sf_fp :: nat
  sf_writable :: bool

definition sd_read :: "sd_file \<Rightarrow> nat \<Rightarrow> 'x card_scheme \<Rightarrow> (result \<times> bytes) \<times> 'x card_scheme" where
  "sd_read f cap =
    (if cap = 0 then c_ret (OK, [])
     else c_seq (c_fread (sf_fp f) cap) (\<lambda>(bs, ferror).
       if bs = [] \<and> ferror then c_ret (ERR_IO_ERROR, []) else c_ret (OK, bs)))"

definition sd_write :: "sd_file \<Rightarrow> bytes \<Rightarrow> 'x card_scheme \<Rightarrow> result \<times> 'x card_scheme" where
  "sd_write f buf =
    c_seq (c_fwrite (sf_fp f) buf) (\<lambda>(n, errno). c_ret (if n \<noteq> length buf then from_errno errno else OK))"

definition sd_seek :: "sd_file \<Rightarrow> nat \<Rightarrow> 'x card_scheme \<Rightarrow> result \<times> 'x card_scheme" where
  "sd_seek f offset = c_seq (c_fseek (sf_fp f) offset) (\<lambda>ok. c_ret (if \<not> ok then ERR_IO_ERROR else OK))"

definition sd_close :: "sd_file \<Rightarrow> 'x card_scheme \<Rightarrow> result \<times> 'x card_scheme" where
  "sd_close f =
    c_seq (if sf_writable f then c_fflush (sf_fp f) else c_ret None) (\<lambda>flushed.
      let r = (case flushed of None \<Rightarrow> OK | Some e \<Rightarrow> from_errno e) in
      c_seq (c_fclose (sf_fp f)) (\<lambda>closed.
        c_ret (case closed of None \<Rightarrow> r | Some e \<Rightarrow> if r = OK then from_errno e else r)))"

section \<open>Directories\<close>

text \<open>The loop over the positions \<open>i\<close> of the path; \<open>take i tmp\<close> is the path cut there.\<close>

primrec mkdir_p_loop :: "bytes \<Rightarrow> nat list \<Rightarrow> 'x card_scheme \<Rightarrow> result \<times> 'x card_scheme" where
  "mkdir_p_loop tmp [] = c_ret OK"
| "mkdir_p_loop tmp (i # is) =
    (if i < length tmp \<and> tmp ! i \<noteq> CHR ''/'' then mkdir_p_loop tmp is
     else if tmp ! (i - 1) = CHR '':'' then mkdir_p_loop tmp is
     else if CHR ''/'' \<in> set (take i tmp)
     then c_seq (c_mkdir (take i tmp)) (\<lambda>e.
       case e of None \<Rightarrow> mkdir_p_loop tmp is
       | Some e \<Rightarrow> if e \<noteq> EEXIST then c_ret (from_errno e) else mkdir_p_loop tmp is)
     else mkdir_p_loop tmp is)"

definition sd_mkdir_p :: "bytes \<Rightarrow> 'x card_scheme \<Rightarrow> result \<times> 'x card_scheme" where
  "sd_mkdir_p path =
    (case daemoon_strlcpy (Some []) (PATH_MAX * 2) (Some path) of
       (r, tmp) \<Rightarrow> if r \<noteq> OK then c_ret r else mkdir_p_loop (the tmp) [1..<Suc (length (the tmp))])"

definition sd_mkdir_parents :: "bytes \<Rightarrow> 'x card_scheme \<Rightarrow> result \<times> 'x card_scheme" where
  "sd_mkdir_parents path =
    (case daemoon_strlcpy (Some []) (PATH_MAX * 2) (Some path) of
       (r, tmp) \<Rightarrow> if r \<noteq> OK then c_ret r
         else (case parent_of (the tmp) of None \<Rightarrow> c_ret OK | Some slash \<Rightarrow> sd_mkdir_p slash))"

section \<open>The interface\<close>

definition sd_stream :: "sd_file \<Rightarrow> nat \<Rightarrow> 'x card_scheme stream" where
  "sd_stream f n =
    \<lparr>st_read = (if sf_writable f then None else Some (sd_read f)),
     st_write = (if sf_writable f then Some (sd_write f) else None),
     st_seek = Some (sd_seek f), st_close = Some (sd_close f), st_size = n\<rparr>"

definition newlib_open ::
  "bytes \<Rightarrow> open_mode \<Rightarrow> 'x card_scheme \<Rightarrow> (result \<times> 'x card_scheme stream_ptr) \<times> 'x card_scheme" where
  "newlib_open path mode =
    c_seq (if mode = OPEN_WRITE then sd_mkdir_parents path else c_ret OK) (\<lambda>r.
    if r \<noteq> OK then c_ret (r, None)
    else c_seq (if mode = OPEN_WRITE then c_fopen_wb path else c_fopen_rb path) (\<lambda>opened.
    case opened of Inl e \<Rightarrow> c_ret (from_errno e, None)
    | Inr fp \<Rightarrow>
      c_seq c_calloc (\<lambda>memory.
      if \<not> memory then c_seq (c_fclose fp) (\<lambda>_. c_ret (ERR_OUT_OF_MEMORY, None))
      else if mode = OPEN_WRITE then c_ret (OK, Some (sd_stream \<lparr>sf_fp = fp, sf_writable = True\<rparr> 0))
      else c_seq (c_stat path) (\<lambda>st.
        c_ret (OK, Some (sd_stream \<lparr>sf_fp = fp, sf_writable = False\<rparr>
          (case st of Inr (Data bs) \<Rightarrow> length bs | _ \<Rightarrow> 0)))))))"

definition newlib_remove :: "bytes \<Rightarrow> 'x card_scheme \<Rightarrow> result \<times> 'x card_scheme" where
  "newlib_remove path =
    c_seq (c_unlink path) (\<lambda>e. c_ret (case e of None \<Rightarrow> OK | Some e \<Rightarrow> if e \<noteq> ENOENT then from_errno e else OK))"

definition newlib_rename :: "bytes \<Rightarrow> bytes \<Rightarrow> 'x card_scheme \<Rightarrow> result \<times> 'x card_scheme" where
  "newlib_rename from to =
    c_seq (sd_mkdir_parents to) (\<lambda>r.
    if r \<noteq> OK then c_ret r
    else c_seq (c_unlink to) (\<lambda>_.
      c_seq (c_rename from to) (\<lambda>e. c_ret (case e of None \<Rightarrow> OK | Some e \<Rightarrow> from_errno e))))"

definition newlib_mkdir_p :: "bytes \<Rightarrow> 'x card_scheme \<Rightarrow> result \<times> 'x card_scheme" where
  "newlib_mkdir_p path = sd_mkdir_p path"

definition newlib_exists :: "bytes \<Rightarrow> 'x card_scheme \<Rightarrow> bool \<times> 'x card_scheme" where
  "newlib_exists path = c_seq (c_stat path) (\<lambda>st. c_ret (case st of Inl e \<Rightarrow> False | Inr n \<Rightarrow> True))"

definition newlib_free_space ::
  "('x card_scheme \<Rightarrow> nat \<times> 'x card_scheme) \<Rightarrow> bytes \<Rightarrow> 'x card_scheme \<Rightarrow> (result \<times> nat) \<times> 'x card_scheme" where
  "newlib_free_space free path = c_seq free (\<lambda>n. c_ret (OK, n))"

definition daemoon_fs_newlib_backend ::
  "('x card_scheme \<Rightarrow> nat \<times> 'x card_scheme) \<Rightarrow> 'x card_scheme fs_backend" where
  "daemoon_fs_newlib_backend free =
    \<lparr>fs_open = Some newlib_open, fs_remove = Some newlib_remove, fs_rename = Some newlib_rename,
     fs_mkdir_p = Some newlib_mkdir_p, fs_exists = Some newlib_exists, fs_free_space = Some (newlib_free_space free)\<rparr>"


section \<open>What a call leaves alone\<close>

text \<open>Every state the nodes went through between two cards had one of these at the path.\<close>

definition went :: "bytes \<Rightarrow> node option set \<Rightarrow> 'x card_scheme \<Rightarrow> 'x card_scheme \<Rightarrow> bool" where
  "went p V c c' \<longleftrightarrow> node_at c' p \<in> V \<and> (\<exists>ns. cd_log c' = ns @ cd_log c \<and> (\<forall>n \<in> set ns. map_of n p \<in> V))"

abbreviation same_at :: "bytes \<Rightarrow> 'x card_scheme \<Rightarrow> 'x card_scheme \<Rightarrow> bool" where
  "same_at p c c' \<equiv> went p {node_at c p} c c'"

lemma went_node: "same_at p c c' \<Longrightarrow> node_at c' p = node_at c p"
  by (simp add: went_def)

lemma went_mono: "went p V c c' \<Longrightarrow> V \<subseteq> W \<Longrightarrow> went p W c c'"
  by (auto simp: went_def)

lemma went_trans: "went p V c c' \<Longrightarrow> went p V c' c'' \<Longrightarrow> went p V c c''"
  unfolding went_def by (metis UnE append_assoc set_append)

lemma same_at_trans: "same_at p c c' \<Longrightarrow> went p V c' c'' \<Longrightarrow> node_at c p \<in> V \<Longrightarrow> went p V c c''"
  by (rule went_trans [OF went_mono]) auto

lemma same_at_same: "same_at p c c' \<Longrightarrow> same_at p c' c'' \<Longrightarrow> same_at p c c''"
  by (auto intro: same_at_trans simp: went_node)

lemma went_quiet: "cd_nodes c' = cd_nodes c \<Longrightarrow> cd_log c' = cd_log c \<Longrightarrow> node_at c p \<in> V \<Longrightarrow> went p V c c'"
  by (auto simp: went_def)

lemma went_change:
  "cd_nodes c' = ns \<Longrightarrow> cd_log c' = ns # cd_log c \<Longrightarrow> map_of ns p \<in> V \<Longrightarrow> went p V c c'"
  unfolding went_def by (intro conjI exI [of _ "[ns]"]) auto

definition spares :: "bytes \<Rightarrow> ('x card_scheme \<Rightarrow> 'a \<times> 'x card_scheme) \<Rightarrow> bool" where
  "spares p m \<longleftrightarrow> (\<forall>c. same_at p c (snd (m c)))"

named_theorems spares_intros \<open>calls that leave a path alone\<close>

lemma sparesD: "spares p m \<Longrightarrow> m c = (a, c') \<Longrightarrow> same_at p c c'"
  unfolding spares_def by (metis snd_conv)

lemma spares_ret [spares_intros]: "spares p (c_ret a)"
  by (simp add: spares_def c_ret_def went_quiet)

lemma spares_seq [spares_intros]: "spares p m \<Longrightarrow> (\<And>a. spares p (f a)) \<Longrightarrow> spares p (c_seq m f)"
  unfolding spares_def c_seq_def split_beta by (metis insertI1 same_at_trans went_node)

lemma next_fault_fields [simp]: "next_fault c = (x, c') \<Longrightarrow> cd_nodes c' = cd_nodes c"
  "next_fault c = (x, c') \<Longrightarrow> cd_log c' = cd_log c" "next_fault c = (x, c') \<Longrightarrow> cd_open c' = cd_open c"
  by (auto simp: next_fault_def split: list.splits)

lemma spares_call:
  fixes f :: "'x card_scheme \<Rightarrow> 'a \<times> 'x card_scheme"
  assumes f: "\<And>c. same_at p c (snd (f c))" and g: "\<And>e k c. same_at p c (snd (g e k c))"
  shows "spares p (c_call f g)"
  unfolding spares_def c_call_def
proof
    fix c :: "'x card_scheme"
    obtain x c' where step: "next_fault c = (x, c')" by (cases "next_fault c")
    with f [of c'] g [of c'] show "same_at p c (snd (case next_fault c of (Works, c) \<Rightarrow> f c | (Fails e k, c) \<Rightarrow> g e k c))"
      by (cases x) (auto simp: went_def)
qed

lemma map_of_delete [simp]: "map_of (AList.delete q ns) p = (if p = q then None else map_of ns p)"
  by (simp add: delete_conv')

lemma map_of_update [simp]: "map_of (AList.update q v ns) p = (if p = q then Some v else map_of ns p)"
  by (simp add: update_conv')

lemma change_fields [simp]: "cd_nodes (change ns c) = ns" "cd_log (change ns c) = ns # cd_log c" "cd_open (change ns c) = cd_open c"
  by (simp_all add: change_def)

lemma move_fields [simp]: "cd_nodes (move h g c) = cd_nodes c" "cd_log (move h g c) = cd_log c"
  by (simp_all add: move_def split: option.split)

lemma drop_stream_fields [simp]: "cd_nodes (drop_stream h c) = cd_nodes c" "cd_log (drop_stream h c) = cd_log c"
  by (simp_all add: drop_stream_def)

lemma add_stream_fields [simp]: "cd_nodes (snd (add_stream q c)) = cd_nodes c" "cd_log (snd (add_stream q c)) = cd_log c"
  by (simp_all add: add_stream_def)

lemma spares_calls [spares_intros]:
  "spares p (c_stat q)" "spares p c_calloc" "spares p (c_fclose h)" "spares p (c_fflush h)"
  "spares p (c_fread h n)" "spares p (c_fseek h k)" "spares p (c_fopen_rb q)" "spares p (c_fgets h n)"
  unfolding c_stat_def c_calloc_def c_fclose_def c_fflush_def c_fread_def c_fseek_def c_fopen_rb_def c_fgets_def Let_def
  by (rule spares_call; auto intro!: went_quiet split: option.splits node.splits)+

lemma spares_names [spares_intros]:
  assumes "q \<noteq> p"
  shows "spares p (c_mkdir q)" "spares p (c_unlink q)" "spares p (c_fopen_wb q)"
  using assms unfolding c_mkdir_def c_unlink_def c_fopen_wb_def
  by (rule_tac [!] spares_call) (auto intro: went_quiet went_change split: option.splits node.splits)

section \<open>Making directories\<close>

lemma spares_mkdir_loop: "length tmp < length p \<Longrightarrow> spares p (mkdir_p_loop tmp is)"
proof (induction "is")
  case (Cons i "is")
  have "take i tmp \<noteq> p" using Cons.prems by (auto dest: arg_cong [where f = length])
  with Cons show ?case by (auto intro!: spares_intros split: option.split)
qed (auto intro: spares_intros)

lemma strlcpy_Some: "daemoon_strlcpy (Some []) n (Some s) = (OK, t) \<Longrightarrow> t = Some (cstr s)"
  by (auto simp: daemoon_strlcpy_def Let_def split: if_splits)

lemma spares_mkdir_p [spares_intros]: "length d < length p \<Longrightarrow> spares p (sd_mkdir_p d)"
  using length_cstr_le [of d] unfolding sd_mkdir_p_def
  by (auto intro!: spares_intros spares_mkdir_loop dest!: strlcpy_Some split: prod.split)

lemma length_parent: "parent_of q = Some d \<Longrightarrow> length d < length q"
proof -
  assume "parent_of q = Some d"
  then have d: "d = rev (tl (dropWhile (\<lambda>c. c \<noteq> CHR ''/'') (rev q)))" and slash: "CHR ''/'' \<in> set q"
    by (auto simp: parent_of_def split: if_splits)
  from slash have "dropWhile (\<lambda>c. c \<noteq> CHR ''/'') (rev q) \<noteq> []" by (auto simp: dropWhile_eq_Nil_conv)
  moreover have "length (dropWhile (\<lambda>c. c \<noteq> CHR ''/'') (rev q)) \<le> length q"
    using length_dropWhile_le [of _ "rev q"] by simp
  ultimately show ?thesis by (cases "dropWhile (\<lambda>c. c \<noteq> CHR ''/'') (rev q)") (auto simp: d)
qed

lemma parent_of_suffix: "CHR ''/'' \<notin> set x \<Longrightarrow> parent_of (q @ x) = parent_of q"
proof -
  assume "CHR ''/'' \<notin> set x"
  then have "dropWhile (\<lambda>c. c \<noteq> CHR ''/'') (rev x @ rev q) = dropWhile (\<lambda>c. c \<noteq> CHR ''/'') (rev q)"
    by (intro dropWhile_append2) auto
  with \<open>CHR ''/'' \<notin> set x\<close> show ?thesis by (simp add: parent_of_def)
qed

lemma spares_mkdir_parents:
  assumes "\<And>d. parent_of (cstr q) = Some d \<Longrightarrow> length d < length p"
  shows "spares p (sd_mkdir_parents q)"
  using assms unfolding sd_mkdir_parents_def
  by (auto intro!: spares_intros dest!: strlcpy_Some split: prod.split option.split)

lemma spares_parents [spares_intros]:
  "spares p (sd_mkdir_parents p)" "spares p (sd_mkdir_parents (p @ ''.tmp''))" "spares (p @ ''.tmp'') (sd_mkdir_parents p)"
proof -
  have cut: "parent_of (cstr p) = Some d \<Longrightarrow> length d < length p" for d
    using length_parent [of "cstr p" d] length_cstr_le [of p] by linarith
  then show "spares p (sd_mkdir_parents p)" by (rule spares_mkdir_parents)
  from cut show "spares (p @ ''.tmp'') (sd_mkdir_parents p)" by (intro spares_mkdir_parents) fastforce
  have "parent_of (cstr (p @ ''.tmp'')) = parent_of (cstr p)"
  proof (cases "nul_free p")
    case True
    then show ?thesis by (simp add: cstr_append_nul_free parent_of_suffix)
  next
    case False
    then have "cstr (p @ ''.tmp'') = cstr p"
      by (auto simp: cstr_def nul_free_def takeWhile_append1)
    then show ?thesis by simp
  qed
  with cut show "spares p (sd_mkdir_parents (p @ ''.tmp''))" by (intro spares_mkdir_parents) simp
qed


section \<open>Writing a file and swapping it in\<close>

lemma from_errno_not_OK [simp]: "from_errno e \<noteq> OK" "OK \<noteq> from_errno e"
  by (cases e; simp add: from_errno_def)+

lemma c_seq_eq: "c_seq m f c = (b, c'') \<longleftrightarrow> (\<exists>a c'. m c = (a, c') \<and> f a c' = (b, c''))"
  by (simp add: c_seq_def split: prod.split)

lemma c_ret_eq: "c_ret a c = (b, c') \<longleftrightarrow> b = a \<and> c' = c"
  by (auto simp: c_ret_def)

lemma c_case_sum: "(case x of Inl e \<Rightarrow> f e | Inr a \<Rightarrow> g a) c = y \<longleftrightarrow>
    (\<exists>e. x = Inl e \<and> f e c = y) \<or> (\<exists>a. x = Inr a \<and> g a c = y)"
  and c_case_option: "(case z of None \<Rightarrow> u | Some b \<Rightarrow> v b) c = y \<longleftrightarrow> z = None \<and> u c = y \<or> (\<exists>b. z = Some b \<and> v b c = y)"
  by (auto split: sum.split option.split)

lemmas c_run = c_seq_eq c_ret_eq c_case_sum c_case_option

lemma spares_open:
  assumes "q \<noteq> p" "spares p (sd_mkdir_parents q :: 'x card_scheme \<Rightarrow> _)"
  shows "spares p (newlib_open q OPEN_WRITE :: 'x card_scheme \<Rightarrow> _)"
  using assms unfolding newlib_open_def by (auto intro!: spares_intros split: sum.split)

lemma fopen_wb_open:
  "c_fopen_wb q c = (Inr h, c') \<Longrightarrow> node_at c' q = Some (Data []) \<and> map_of (cd_open c') h = Some \<lparr>fp_path = q, fp_pos = 0\<rparr>"
  by (auto simp: c_fopen_wb_def c_call_def add_stream_def split: prod.splits fault.splits if_splits)

lemma calloc_fields: "c_calloc c = (x, c') \<Longrightarrow> cd_nodes c' = cd_nodes c \<and> cd_open c' = cd_open c"
  by (auto simp: c_calloc_def c_call_def split: prod.splits fault.splits)

lemma newlib_open_stream:
  assumes "newlib_open q OPEN_WRITE c = ((OK, f), c')"
  shows "\<exists>h. f = Some (sd_stream \<lparr>sf_fp = h, sf_writable = True\<rparr> 0) \<and> node_at c' q = Some (Data []) \<and>
    map_of (cd_open c') h = Some \<lparr>fp_path = q, fp_pos = 0\<rparr>"
  using assms by (auto simp: newlib_open_def c_run dest!: fopen_wb_open calloc_fields split: if_splits)

lemma put_bytes_fresh:
  assumes "map_of (cd_open c) h = Some \<lparr>fp_path = q, fp_pos = 0\<rparr>" "node_at c q = Some (Data [])" "q \<noteq> p"
  shows "same_at p c (put_bytes h bs c)" "node_at (put_bytes h bs c) q = Some (Data bs)"
  using assms by (auto simp: put_bytes_def overlay_def intro: went_change)

lemma sd_write_fresh:
  assumes "map_of (cd_open c) h = Some \<lparr>fp_path = q, fp_pos = 0\<rparr>" "node_at c q = Some (Data [])" "q \<noteq> p"
    and "sd_write \<lparr>sf_fp = h, sf_writable = True\<rparr> bs c = (r, c')"
  shows "same_at p c c' \<and> (r = OK \<longrightarrow> node_at c' q = Some (Data bs))"
proof -
  obtain x c1 where step: "next_fault c = (x, c1)" by (cases "next_fault c")
  note fresh = put_bytes_fresh [of c1 h q p] next_fault_fields [OF step]
  show ?thesis
  proof (cases x)
    case Works
    with step assms fresh(1,2) [of bs] fresh(3-) show ?thesis
      by (auto simp: sd_write_def c_run c_fwrite_def c_call_def went_def)
  next
    case (Fails e k)
    with step assms fresh(1,2) [of "take (min k (length bs - 1)) bs"] fresh(3-) show ?thesis
      by (auto simp: sd_write_def c_run c_fwrite_def c_call_def went_def Let_def split: if_splits)
  qed
qed

lemma spares_close [spares_intros]: "spares p (sd_close f)"
  unfolding sd_close_def Let_def by (auto intro!: spares_intros split: option.split)

lemma spares_remove [spares_intros]: "q \<noteq> p \<Longrightarrow> spares p (newlib_remove q)"
  unfolding newlib_remove_def by (auto intro!: spares_intros split: option.split)

lemma unlink_target: "c_unlink p c = (e, c') \<Longrightarrow> went p {node_at c p, None} c c'"
  by (auto simp: c_unlink_def c_call_def split: prod.splits fault.splits option.splits node.splits
      intro: went_quiet went_change)

lemma rename_target:
  assumes "c_rename q p c = (e, c')" "q \<noteq> p"
  shows "went p {node_at c p, node_at c q} c c' \<and> (e = None \<longrightarrow> node_at c' p = node_at c q)"
  using assms
  by (auto simp: c_rename_def c_call_def split: prod.splits fault.splits option.splits if_splits
      intro: went_quiet went_change)

text \<open>The swap at the end of a write: whoever looks at the path in between sees what was there, nothing,
  or the whole new file.\<close>

lemma newlib_rename_swap:
  assumes "newlib_rename (p @ ''.tmp'') p c = (r, c')" "node_at c (p @ ''.tmp'') = new"
  shows "went p {node_at c p, None, new} c c' \<and> (r = OK \<longrightarrow> node_at c' p = new)"
proof -
  let ?tmp = "p @ ''.tmp''" and ?V = "{node_at c p, None, new}"
  from assms(1) obtain m c1 where m: "sd_mkdir_parents p c = (m, c1)"
      and rest: "m \<noteq> OK \<and> r = m \<and> c' = c1 \<or> m = OK \<and> (\<exists>u c2 e. c_unlink p c1 = (u, c2) \<and> c_rename ?tmp p c2 = (e, c') \<and>
        r = (case e of None \<Rightarrow> OK | Some e \<Rightarrow> from_errno e))"
    by (auto simp: newlib_rename_def c_run split: if_splits)
  have made: "same_at p c c1" "same_at ?tmp c c1" using m by (auto intro: sparesD spares_intros)
  from rest show ?thesis
  proof
    assume "m \<noteq> OK \<and> r = m \<and> c' = c1"
    with made(1) show ?thesis by (auto elim: went_mono)
  next
    assume "m = OK \<and> (\<exists>u c2 e. c_unlink p c1 = (u, c2) \<and> c_rename ?tmp p c2 = (e, c') \<and>
        r = (case e of None \<Rightarrow> OK | Some e \<Rightarrow> from_errno e))"
    then obtain u c2 e where steps: "c_unlink p c1 = (u, c2)" "c_rename ?tmp p c2 = (e, c')"
        "r = (case e of None \<Rightarrow> OK | Some e \<Rightarrow> from_errno e)" by blast
    have tmp: "same_at ?tmp c1 c2" using sparesD [OF spares_names(2) steps(1)] by simp
    have "went p ?V c1 c2" using unlink_target [OF steps(1)] made(1) by (auto simp: went_node elim!: went_mono)
    moreover have "node_at c2 ?tmp = new" using tmp made(2) assms(2) by (auto simp: went_def)
    then have "went p ?V c2 c'" "r = OK \<longrightarrow> node_at c' p = new"
      using rename_target [OF steps(2)] \<open>went p ?V c1 c2\<close> steps(3)
      by (auto simp: went_def split: option.splits)
    ultimately show ?thesis using same_at_trans [OF made(1), of ?V c'] went_trans by fastforce
  qed
qed


section \<open>The engine on a card\<close>

lemma on_card:
  assumes "env_fs env = Some (daemoon_fs_newlib_backend free)"
  shows "fs_open_file env q m = call_io (newlib_open q m)" "fs_rename_file env a b = call_io (newlib_rename a b)"
    "fs_remove_file env q = call_io (newlib_remove q)" "fs_make_dir env q = call_io (newlib_mkdir_p q)"
    "fs_file_exists env q = call_io (newlib_exists q)"
  using assms by (simp_all add: fs_open_file_def fs_rename_file_def fs_remove_file_def fs_make_dir_def fs_file_exists_def
      call_fn_def daemoon_fs_newlib_backend_def)

lemma card_stream:
  "bs \<noteq> [] \<Longrightarrow> daemoon_stream_write (Some (sd_stream \<lparr>sf_fp = h, sf_writable = True\<rparr> n)) bs =
    call_io (sd_write \<lparr>sf_fp = h, sf_writable = True\<rparr> bs)"
  "daemoon_stream_close (Some (sd_stream f n)) = call_io (sd_close f)"
  by (simp_all add: daemoon_stream_write_def daemoon_stream_close_def sd_stream_def)

lemma bind_call_eq: "bind_io (call_io op) k c = Some y \<longleftrightarrow> (\<exists>a c1. op c = (a, c1) \<and> k a c1 = Some y)"
  by (simp add: bind_io_def call_io_def split: prod.split)

lemma discard_on_card:
  assumes "env_fs env = Some (daemoon_fs_newlib_backend free)" "discard env q r c = Some (r', c')" "q \<noteq> p"
  shows "r' = r \<and> same_at p c c'"
  using assms(2) sparesD [OF spares_remove [OF assms(3)]]
  by (auto simp: discard_def on_card [OF assms(1)] bind_call_eq return_io_def)

lemma swap_on_card:
  assumes card: "env_fs env = Some (daemoon_fs_newlib_backend free)"
    and run: "write_then_rename env (p @ ''.tmp'') p js c = Some (r, c')" and js: "js \<noteq> []"
  shows "went p {node_at c p, None, Some (Data js)} c c' \<and> (r = OK \<longrightarrow> node_at c' p = Some (Data js))"
proof -
  let ?tmp = "p @ ''.tmp''" and ?V = "{node_at c p, None, Some (Data js)}"
  have V: "went p ?V c d" if "same_at p c d" for d using that by (auto elim: went_mono)
  obtain r1 f c1 where opened: "newlib_open ?tmp OPEN_WRITE c = ((r1, f), c1)" by (metis prod.exhaust)
  have same1: "same_at p c c1" by (rule sparesD [OF spares_open opened]) (auto intro: spares_intros)
  show ?thesis
  proof (cases "r1 = OK")
    case False
    with run opened have "r \<noteq> OK" "c' = c1" by (auto simp: write_then_rename_def on_card [OF card] bind_call_eq return_io_def)
    with V [OF same1] show ?thesis by simp
  next
    case True
    with newlib_open_stream opened obtain h where f: "f = Some (sd_stream \<lparr>sf_fp = h, sf_writable = True\<rparr> 0)"
        "map_of (cd_open c1) h = Some \<lparr>fp_path = ?tmp, fp_pos = 0\<rparr>" "node_at c1 ?tmp = Some (Data [])" by blast
    obtain r2 c2 where wrote: "sd_write \<lparr>sf_fp = h, sf_writable = True\<rparr> js c1 = (r2, c2)" by (metis prod.exhaust)
    obtain r3 c3 where closed: "sd_close \<lparr>sf_fp = h, sf_writable = True\<rparr> c2 = (r3, c3)" by (metis prod.exhaust)
    have same3: "same_at p c c3"
      using sd_write_fresh [OF f(2,3) _ wrote, of p] sparesD [OF spares_close closed, of p]
      by (auto intro: same_at_same [OF same1] same_at_same)
    have tmp3: "r2 = OK \<Longrightarrow> node_at c3 ?tmp = Some (Data js)"
      using sd_write_fresh [OF f(2,3) _ wrote, of p] sparesD [OF spares_close closed, of ?tmp] by (auto simp: went_def)
    have rest: "r2 \<noteq> OK \<and> discard env ?tmp r2 c3 = Some (r, c') \<or> r2 = OK \<and> r3 \<noteq> OK \<and> discard env ?tmp r3 c3 = Some (r, c') \<or>
        r2 = OK \<and> (\<exists>r4 c4. newlib_rename ?tmp p c3 = (r4, c4) \<and>
          (r4 = OK \<and> r = OK \<and> c' = c4 \<or> r4 \<noteq> OK \<and> discard env ?tmp r4 c4 = Some (r, c')))"
      using run opened True wrote closed
      by (auto simp: write_then_rename_def on_card [OF card] card_stream js f(1) bind_call_eq return_io_def split: if_splits)
    then consider (gone) x where "x \<noteq> OK" "discard env ?tmp x c3 = Some (r, c')"
      | (swapped) r4 c4 where "r2 = OK" "newlib_rename ?tmp p c3 = (r4, c4)"
          "r4 = OK \<and> r = OK \<and> c' = c4 \<or> r4 \<noteq> OK \<and> discard env ?tmp r4 c4 = Some (r, c')" by blast
    then show ?thesis
    proof cases
      case gone
      from discard_on_card [OF card gone(2), of p] have "r \<noteq> OK" "same_at p c3 c'" using gone(1) by auto
      with same_at_trans [OF same3, of "{node_at c p}" c'] same3 V show ?thesis by (simp add: went_node)
    next
      case swapped
      have swap: "went p ?V c c4" "r4 = OK \<longrightarrow> node_at c4 p = Some (Data js)"
        using newlib_rename_swap [OF swapped(2) tmp3 [OF swapped(1)]] same_at_trans [OF same3, of ?V c4] same3
        by (simp_all add: went_node)
      from swapped(3) show ?thesis
      proof
        assume "r4 \<noteq> OK \<and> discard env ?tmp r4 c4 = Some (r, c')"
        with discard_on_card [OF card, of ?tmp r4 c4 r c' p] have "r \<noteq> OK" "same_at p c4 c'" by auto
        with swap(1) show ?thesis by (auto intro: went_trans elim!: went_mono simp: went_def)
      qed (use swap in simp)
    qed
  qed
qed


lemma finish_of: "sb_finish (sb_of cap S) = Inr t \<longleftrightarrow> length S < cap \<and> t = S"
  by (auto simp: sb_finish_def sb_simps)

text \<open>A text argument of a path, NULL as nothing.\<close>

definition arg_text :: "bytes option \<Rightarrow> bytes" where
  "arg_text a = (case a of None \<Rightarrow> [] | Some s \<Rightarrow> cstr s)"

lemma add_arg: "daemoon_strbuf_add (sb_of cap S) a = sb_of cap (S @ arg_text a)"
  by (cases a) (simp_all add: arg_text_def sb_simps)

lemma nul_free_arg [simp]: "nul_free (arg_text a)"
  by (simp add: arg_text_def split: option.split)

lemma state_paths:
  assumes "state_path env p tid cap = Inr path"
  shows "nul_free path" "join_path cap' (env_work_dir env) (Some ''state'') None = Inr dir \<Longrightarrow> length dir < length path"
    "with_suffix cap' path ''.tmp'' = Inr tmp \<Longrightarrow> tmp = path @ ''.tmp''"
proof -
  have lit: "cstr ''state'' = ''state''" "cstr ''.tmp'' = ''.tmp''" by (simp_all add: cstr_Cons)
  from assms obtain leaf where "join_path cap (env_work_dir env) (Some ''state'') (Some leaf) = Inr path"
    by (auto simp: state_path_def bind_sum_def split: sum.splits)
  then have path: "path = arg_text (env_work_dir env) @ ''/'' @ ''state'' @ ''/'' @ cstr leaf"
    by (auto simp: join_path_def Let_def sb_simps add_arg finish_of lit arg_text_def)
  then show free: "nul_free path" by simp
  show "length dir < length path" if "join_path cap' (env_work_dir env) (Some ''state'') None = Inr dir"
    using that by (auto simp: join_path_def Let_def sb_simps add_arg finish_of lit path arg_text_def)
  show "tmp = path @ ''.tmp''" if "with_suffix cap' path ''.tmp'' = Inr tmp"
    using that by (simp add: with_suffix_def sb_simps finish_of lit free)
qed

lemma state_json_not_empty:
  "lo_base_version st < 2 ^ 32 \<Longrightarrow> sb_finish (state_json p tid st) = Inr js \<Longrightarrow> js \<noteq> []"
  by (auto simp: state_json_def Let_def sb_simps finish_of cstr_Cons)

section \<open>Reading a file back\<close>

lemma working_call: "cd_faults c = [] \<Longrightarrow> c_call f g c = f c"
  by (simp add: c_call_def next_fault_def)

lemma move_faults [simp]: "cd_faults (move h g c) = cd_faults c" "cd_faults (drop_stream h c) = cd_faults c"
  by (simp_all add: move_def drop_stream_def split: option.split)

lemma unread_move: "unread h (move h (\<lambda>p. p + length (take n (unread h c))) c) = drop n (unread h c)"
  by (auto simp: unread_def move_def update_conv' min_def add.commute split: option.split node.split)

lemma working_read:
  assumes "cd_faults c = []" "0 < cap"
  shows "sd_read f cap c = ((OK, take cap (unread (sf_fp f) c)), move (sf_fp f) (\<lambda>p. p + length (take cap (unread (sf_fp f) c))) c)"
  using assms by (simp add: sd_read_def c_fread_def c_seq_def c_ret_def working_call Let_def)

lemma working_open_read:
  assumes "cd_faults c = []" "node_at c q = Some (Data bs)"
  shows "\<exists>c1. newlib_open q OPEN_READ c = ((OK, Some (sd_stream \<lparr>sf_fp = cd_next c, sf_writable = False\<rparr> (length bs))), c1) \<and>
    cd_faults c1 = [] \<and> cd_nodes c1 = cd_nodes c \<and> unread (cd_next c) c1 = bs"
  using assms
  by (auto simp: newlib_open_def c_fopen_rb_def c_calloc_def c_stat_def c_seq_def c_ret_def working_call add_stream_def
      unread_def)

lemma working_stat: "cd_faults c = [] \<Longrightarrow> newlib_exists q c = (node_at c q \<noteq> None, c)"
  by (auto simp: newlib_exists_def c_stat_def c_seq_def c_ret_def working_call split: option.split)

lemma state_save_atomic_step:
  assumes card: "env_fs env = Some (daemoon_fs_newlib_backend free)"
    and path: "state_path env p tid SYNC_PATH_MAX = Inr path" and version: "lo_base_version st < 2 ^ 32"
    and run: "daemoon_sync_state_save env p tid st c = Some (r, c')"
  shows "went path {node_at c path, None, Some (Data (sb_buf (state_json p tid st)))} c c' \<and>
    (r = OK \<longrightarrow> node_at c' path = Some (Data (sb_buf (state_json p tid st))))"
proof (cases "join_path SYNC_PATH_MAX (env_work_dir env) (Some ''state'') None")
  case (Inl e)
  then have "e \<noteq> OK" by (auto simp: join_path_def Let_def sb_finish_def split: if_splits)
  with Inl run show ?thesis by (auto simp: daemoon_sync_state_save_def return_io_def intro: went_quiet)
next
  case (Inr dir)
  obtain m c1 where m: "newlib_mkdir_p dir c = (m, c1)" by (metis prod.exhaust)
  have made: "same_at path c c1"
    using sparesD [OF spares_mkdir_p, of dir path c m c1] state_paths(2) [OF path Inr] m by (simp add: newlib_mkdir_p_def)
  show ?thesis
  proof (cases "m = OK \<and> (\<exists>tmp js. with_suffix SYNC_PATH_MAX path ''.tmp'' = Inr tmp \<and> sb_finish (state_json p tid st) = Inr js)")
    case True
    then obtain tmp js where built: "with_suffix SYNC_PATH_MAX path ''.tmp'' = Inr tmp" "sb_finish (state_json p tid st) = Inr js"
      by blast
    note tmp = state_paths(3) [OF path built(1)]
    have js: "js = (sb_buf (state_json p tid st))" using built(2) by (auto simp: sb_finish_def split: if_splits)
    from run Inr m True built path tmp have "write_then_rename env (path @ ''.tmp'') path js c1 = Some (r, c')"
      by (simp add: daemoon_sync_state_save_def on_card [OF card] bind_call_eq TRY_def)
    from swap_on_card [OF card this state_json_not_empty [OF version built(2)]]
    have "went path {node_at c path, None, Some (Data (sb_buf (state_json p tid st)))} c1 c' \<and>
        (r = OK \<longrightarrow> node_at c' path = Some (Data (sb_buf (state_json p tid st))))"
      using made js by (simp add: went_node)
    with same_at_trans [OF made, of "{node_at c path, None, Some (Data (sb_buf (state_json p tid st)))}" c'] show ?thesis by simp
  next
    case False
    with run Inr m path have "r \<noteq> OK \<and> c' = c1"
      by (auto simp: daemoon_sync_state_save_def on_card [OF card] bind_call_eq TRY_def return_io_def sb_finish_def with_suffix_def
          split: sum.splits if_splits)
    with made show ?thesis by (auto elim: went_mono)
  qed
qed

section \<open>An example card\<close>

definition blank_card :: card where
  "blank_card = \<lparr>cd_nodes = [(''d'', Folder)], cd_open = [], cd_next = 0, cd_faults = [], cd_log = []\<rparr>"

definition card_env :: "card env" where
  "card_env = \<lparr>env_save = None, env_net = None, env_ui = None, env_fs = Some (daemoon_fs_newlib_backend (\<lambda>c. (0, c))),
    env_clock = None, env_server_url = None, env_token = None, env_device_label = None, env_work_dir = Some ''d'', env_scratch = None\<rparr>"

definition first_state :: local_state where
  "first_state = no_local\<lparr>lo_base_version := 7\<rparr>"

lemma card_example:
  "case daemoon_sync_state_save card_env PLATFORM_3DS ''A'' first_state blank_card of None \<Rightarrow> False
   | Some (r, c) \<Rightarrow> r = OK \<and> cd_faults c = []"
  by code_simp

lemma card_example_run: "\<exists>c. daemoon_sync_state_save card_env PLATFORM_3DS ''A'' first_state blank_card = Some (OK, c) \<and> cd_faults c = []"
  using card_example by (auto split: option.splits)

lemma card_example_facts:
  "env_fs card_env = Some (daemoon_fs_newlib_backend (\<lambda>c. (0, c)))" "lo_base_version first_state < 2 ^ 32"
  "state_path card_env PLATFORM_3DS ''A'' SYNC_PATH_MAX = Inr ''d/state/3ds_A.json''" "state_ok ''A'' first_state"
  by (simp add: card_env_def, simp add: first_state_def no_local_def, code_simp,
      simp add: state_ok_def first_state_def no_local_def plain_key_def json_escape_def u8_def TITLE_ID_MAX_def)

section \<open>Properties\<close>

text \<open>C9 On the card of a console the state of a title is swapped in as a whole. Whatever fails on the way, and
  whenever the console is switched off, the state file is the one that was there, the complete new one, or
  missing (the old one is removed before the new one takes its name); never a part of one. A save
  that reports success has left the new one.\<close>
theorem state_save_atomic:
  assumes card: "env_fs env = Some (daemoon_fs_newlib_backend free)"
    and path: "state_path env p tid SYNC_PATH_MAX = Inr path" and version: "lo_base_version st < 2 ^ 32"
    and run: "daemoon_sync_state_save env p tid st c = Some (r, c')"
  shows "\<exists>log. cd_log c' = log @ cd_log c \<and>
      (\<forall>ns \<in> set (cd_nodes c' # log). map_of ns path \<in> {node_at c path, None, Some (Data (sb_buf (state_json p tid st)))}) \<and>
      (r = OK \<longrightarrow> node_at c' path = Some (Data (sb_buf (state_json p tid st))))"
  using state_save_atomic_step [OF assms] by (auto simp: went_def)

theorem state_save_atomic_witness:
  "\<exists>c :: card. node_at c ''d/state/3ds_A.json'' = Some (Data (sb_buf (state_json PLATFORM_3DS ''A'' first_state)))"
proof -
  obtain c where "daemoon_sync_state_save card_env PLATFORM_3DS ''A'' first_state blank_card = Some (OK, c)"
    using card_example_run by blast
  from state_save_atomic [OF card_example_facts(1,3,2) this] show ?thesis by auto
qed

text \<open>C10 What a console remembers of a title survives on its card: after a save that reported success, a load
  that the card answers finds the file and gives back the version and the digest that were saved, whatever was
  on the card before and whatever failed and was retried on the way.\<close>
theorem state_survives_card:
  assumes card: "env_fs env = Some (daemoon_fs_newlib_backend free)" and state: "state_ok tid st"
    and run: "daemoon_sync_state_save env p tid st c = Some (OK, c')" and works: "cd_faults c' = []"
  shows "\<exists>c''. daemoon_sync_state_load env p tid out c' =
    Some ((OK, out\<lparr>lo_base_version := lo_base_version st, lo_base_sha256 := lo_base_sha256 st\<rparr>), c'')"
proof -
  let ?js = "json_flat (state_members p tid st)"
  have version: "lo_base_version st < 2 ^ 32" using state_ok_facts [OF state] by simp
  have built: "sb_finish (state_json p tid st) = Inr ?js" "sb_buf (state_json p tid st) = ?js"
    using state_json_fits [OF state, of p] by (simp_all add: sb_finish_def state_json_text [OF state] sb_simps)
  obtain path where path: "state_path env p tid SYNC_PATH_MAX = Inr path"
  proof (cases "state_path env p tid SYNC_PATH_MAX")
    case (Inl e)
    then have "e \<noteq> OK"
      by (auto simp: state_path_def bind_sum_def join_path_def title_key_def with_suffix_def Let_def sb_finish_def
          split: sum.splits if_splits)
    with Inl run show ?thesis
      by (auto simp: daemoon_sync_state_save_def TRY_def on_card [OF card] bind_call_eq return_io_def join_path_def Let_def sb_finish_def
          split: sum.splits if_splits)
  qed (rule that)
  have there: "node_at c' path = Some (Data ?js)"
    using state_save_atomic_step [OF card path version run] built(2) by simp
  let ?f = "\<lparr>sf_fp = cd_next c', sf_writable = False\<rparr>"
  obtain c1 where opened: "newlib_open path OPEN_READ c' = ((OK, Some (sd_stream ?f (length ?js))), c1)"
      "cd_faults c1 = []" "unread (cd_next c') c1 = ?js"
    using working_open_read [OF works there] by blast
  show ?thesis
  proof (rule state_file_roundtrip [OF state path, where J = "\<lambda>c. cd_faults c = []" and rest = "unread (cd_next c')"])
    show "fs_file_exists env path c' = Some (True, c')"
      using there by (simp add: on_card [OF card] working_stat [OF works] call_io_def)
    show "fs_open_file env path OPEN_READ c' = Some ((OK, Some (sd_stream ?f (length ?js))), c1)"
      by (simp add: on_card [OF card] opened(1) call_io_def)
    show "sb_finish (state_json p tid st) = Inr (unread (cd_next c') c1)" by (simp add: built(1) opened(3))
    show "st_read (sd_stream ?f (length ?js)) = Some (sd_read ?f)" by (simp add: sd_stream_def)
    show "\<exists>n c2. sd_read ?f cap d = ((OK, take n (unread (cd_next c') d)), c2) \<and> cd_faults c2 = [] \<and>
        unread (cd_next c') c2 = drop n (unread (cd_next c') d) \<and> (unread (cd_next c') d \<noteq> [] \<longrightarrow> 0 < n)"
      if "0 < cap" "cd_faults d = []" for cap d
      using working_read [OF that(2,1), of ?f] that unread_move [of "cd_next c'" cap d] by auto
    show "\<exists>c2. daemoon_stream_close (Some (sd_stream ?f (length ?js))) d = Some (OK, c2)" if "cd_faults d = []" for d
      using that by (simp add: card_stream sd_close_def c_fclose_def c_seq_def c_ret_def working_call call_io_def)
  qed (rule opened(2))
qed

theorem state_survives_card_witness:
  "\<exists>c c'. daemoon_sync_state_load card_env PLATFORM_3DS ''A'' no_local c =
    Some ((OK, no_local\<lparr>lo_base_version := 7, lo_base_sha256 := []\<rparr>), c')"
proof -
  obtain c where "daemoon_sync_state_save card_env PLATFORM_3DS ''A'' first_state blank_card = Some (OK, c)" "cd_faults c = []"
    using card_example_run by blast
  from state_survives_card [OF card_example_facts(1,4) this, of no_local] show ?thesis
    by (auto simp: first_state_def no_local_def)
qed

end
