(* ===== verification/Console.thy ===== *)
theory Console
  imports Sync
begin

text \<open>
  What the console builds decide without the console: title identifiers as text
  (\<open>platform/3ds/source/title_id.c\<close>, \<open>platform/nx/source/title_id.c\<close>), what a run over a whole
  library may do (\<open>batch_steps.c\<close>), what a sync at startup may do and what it writes down
  (\<open>autosync_steps.c\<close>), and what the first run says (\<open>welcome_steps.c\<close>). Pointers that are
  written through are never NULL.
\<close>

section \<open>Title identifiers\<close>

type_synonym u64 = "64 word"

text \<open>What the caller's buffer holds afterwards; \<open>None\<close> if it is not written.\<close>

definition daemoon_3ds_format_title_id :: "u64 \<Rightarrow> nat \<Rightarrow> bytes option" where
  "daemoon_3ds_format_title_id n cap =
    (if cap < 17 then (if cap > 0 then Some [] else None)
     else Some (map (\<lambda>i. ''0123456789ABCDEF'' ! unat (drop_bit ((15 - i) * 4) n AND 0xf)) [0..<16]))"

text \<open>\<open>printf\<close>'s \<open>%X\<close>, and \<open>%016llX\<close>.\<close>

fun upper_hex :: "nat \<Rightarrow> bytes" where
  "upper_hex n = (if n < 16 then [''0123456789ABCDEF'' ! n] else upper_hex (n div 16) @ [''0123456789ABCDEF'' ! (n mod 16)])"

declare upper_hex.simps [simp del]

definition padded_hex :: "nat \<Rightarrow> u64 \<Rightarrow> bytes" where
  "padded_hex width n = (let digits = upper_hex (unat n) in replicate (width - length digits) CHR ''0'' @ digits)"

definition daemoon_nx_format_title_id :: "u64 \<Rightarrow> nat \<Rightarrow> bytes option" where
  "daemoon_nx_format_title_id n cap = (if cap = 0 then None else Some (take (cap - 1) (padded_hex 16 n)))"

fun title_id_loop :: "u64 \<Rightarrow> bytes \<Rightarrow> result + u64" where
  "title_id_loop value [] = Inr value"
| "title_id_loop value (c # s) =
    (if CHR ''0'' \<le> c \<and> c \<le> CHR ''9'' then title_id_loop (push_bit 4 value OR of_nat (u8 c - 0x30)) s
     else if CHR ''A'' \<le> c \<and> c \<le> CHR ''F'' then title_id_loop (push_bit 4 value OR of_nat (u8 c - 0x41 + 10)) s
     else if CHR ''a'' \<le> c \<and> c \<le> CHR ''f'' then title_id_loop (push_bit 4 value OR of_nat (u8 c - 0x61 + 10)) s
     else Inl ERR_INVALID_REQUEST)"

definition daemoon_3ds_parse_title_id :: "bytes option \<Rightarrow> result + u64" where
  "daemoon_3ds_parse_title_id txt =
    (case txt of None \<Rightarrow> Inl ERR_INVALID_REQUEST
     | Some s \<Rightarrow> if length (cstr s) \<noteq> 16 then Inl ERR_INVALID_REQUEST else title_id_loop 0 (cstr s))"

definition daemoon_nx_parse_title_id :: "bytes option \<Rightarrow> result + u64" where
  "daemoon_nx_parse_title_id txt =
    (case txt of None \<Rightarrow> Inl ERR_INVALID_REQUEST
     | Some s \<Rightarrow> if length (cstr s) \<noteq> 16 then Inl ERR_INVALID_REQUEST else title_id_loop 0 (cstr s))"

section \<open>A run over a library\<close>

abbreviation (input) STR_BATCH_BACKUP :: str_id where "STR_BATCH_BACKUP \<equiv> 17"
abbreviation (input) STR_BATCH_SYNC :: str_id where "STR_BATCH_SYNC \<equiv> 35"
abbreviation (input) STR_BATCH_BACKUP_HINT :: str_id where "STR_BATCH_BACKUP_HINT \<equiv> 19"
abbreviation (input) STR_BATCH_SYNC_HINT :: str_id where "STR_BATCH_SYNC_HINT \<equiv> 36"
abbreviation (input) STR_BATCH_POLICY_ASK :: str_id where "STR_BATCH_POLICY_ASK \<equiv> 27"
abbreviation (input) STR_BATCH_POLICY_LOCAL :: str_id where "STR_BATCH_POLICY_LOCAL \<equiv> 29"
abbreviation (input) STR_BATCH_POLICY_SERVER :: str_id where "STR_BATCH_POLICY_SERVER \<equiv> 31"
abbreviation (input) STR_BATCH_POLICY_ASK_HINT :: str_id where "STR_BATCH_POLICY_ASK_HINT \<equiv> 28"
abbreviation (input) STR_BATCH_POLICY_LOCAL_HINT :: str_id where "STR_BATCH_POLICY_LOCAL_HINT \<equiv> 30"
abbreviation (input) STR_BATCH_POLICY_SERVER_HINT :: str_id where "STR_BATCH_POLICY_SERVER_HINT \<equiv> 32"
abbreviation (input) STR_WELCOME_WHAT :: str_id where "STR_WELCOME_WHAT \<equiv> 181"
abbreviation (input) STR_WELCOME_SAFE :: str_id where "STR_WELCOME_SAFE \<equiv> 179"
abbreviation (input) STR_WELCOME_WHEN :: str_id where "STR_WELCOME_WHEN \<equiv> 182"
abbreviation (input) STR_WELCOME_OPT_QR :: str_id where "STR_WELCOME_OPT_QR \<equiv> 176"
abbreviation (input) STR_WELCOME_OPT_CODE :: str_id where "STR_WELCOME_OPT_CODE \<equiv> 172"
abbreviation (input) STR_WELCOME_OPT_LATER :: str_id where "STR_WELCOME_OPT_LATER \<equiv> 174"
abbreviation (input) STR_WELCOME_OPT_QR_HINT :: str_id where "STR_WELCOME_OPT_QR_HINT \<equiv> 177"
abbreviation (input) STR_WELCOME_OPT_CODE_HINT :: str_id where "STR_WELCOME_OPT_CODE_HINT \<equiv> 173"
abbreviation (input) STR_WELCOME_OPT_LATER_HINT :: str_id where "STR_WELCOME_OPT_LATER_HINT \<equiv> 175"

definition k_op_labels :: "str_id list" where "k_op_labels = [STR_BATCH_BACKUP, STR_BATCH_SYNC]"
definition k_op_hints :: "str_id list" where "k_op_hints = [STR_BATCH_BACKUP_HINT, STR_BATCH_SYNC_HINT]"

definition k_policy_labels :: "str_id list" where
  "k_policy_labels = [STR_BATCH_POLICY_ASK, STR_BATCH_POLICY_LOCAL, STR_BATCH_POLICY_SERVER]"

definition k_policy_hints :: "str_id list" where
  "k_policy_hints = [STR_BATCH_POLICY_ASK_HINT, STR_BATCH_POLICY_LOCAL_HINT, STR_BATCH_POLICY_SERVER_HINT]"

definition k_policies :: "conflict_policy list" where
  "k_policies = [POLICY_ASK, POLICY_KEEP_LOCAL, POLICY_KEEP_SERVER]"

definition daemoon_3ds_batch_ops :: nat where "daemoon_3ds_batch_ops = length k_op_labels"
definition daemoon_3ds_batch_policies :: nat where "daemoon_3ds_batch_policies = length k_policy_labels"

definition daemoon_3ds_batch_op_label :: "nat \<Rightarrow> str_id" where
  "daemoon_3ds_batch_op_label i = k_op_labels ! (if i < daemoon_3ds_batch_ops then i else 0)"

definition daemoon_3ds_batch_op_hint :: "nat \<Rightarrow> str_id" where
  "daemoon_3ds_batch_op_hint i = k_op_hints ! (if i < daemoon_3ds_batch_ops then i else 0)"

definition daemoon_3ds_batch_policy_label :: "nat \<Rightarrow> str_id" where
  "daemoon_3ds_batch_policy_label i = k_policy_labels ! (if i < daemoon_3ds_batch_policies then i else 0)"

definition daemoon_3ds_batch_policy_hint :: "nat \<Rightarrow> str_id" where
  "daemoon_3ds_batch_policy_hint i = k_policy_hints ! (if i < daemoon_3ds_batch_policies then i else 0)"

definition daemoon_3ds_batch_policy :: "nat \<Rightarrow> conflict_policy" where
  "daemoon_3ds_batch_policy i = k_policies ! (if i < daemoon_3ds_batch_policies then i else 0)"

section \<open>A sync at startup\<close>

definition daemoon_3ds_autosync_opts :: sync_opts where
  "daemoon_3ds_autosync_opts = \<lparr>so_conflict = POLICY_DEFER, so_upload_confirmed = True, so_restore_confirmed = True\<rparr>"

definition daemoon_3ds_autosync_due :: "bool \<Rightarrow> bool \<Rightarrow> bool \<Rightarrow> bool \<Rightarrow> bool" where
  "daemoon_3ds_autosync_due enabled can_sync cancel_held unattended \<longleftrightarrow>
    enabled \<and> can_sync \<and> \<not> cancel_held \<and> \<not> unattended"

record autosync_report =
  ar_titles :: nat
  ar_sync :: sync_stats
  ar_failed :: nat
  ar_network :: bool

text \<open>The text of the report, cut to its buffer of 256 bytes as \<open>snprintf\<close> does.\<close>

definition report_text :: "bytes option \<Rightarrow> autosync_report \<Rightarrow> bytes" where
  "report_text when rep = take 255
    (''when='' @ (case when of None \<Rightarrow> ''unknown'' | Some t \<Rightarrow> cstr t) @ [CHR 0x0a] @
     ''titles='' @ dec (ar_titles rep) @ [CHR 0x0a] @
     ''uploaded='' @ dec (ss_uploaded (ar_sync rep)) @ [CHR 0x0a] @
     ''downloaded='' @ dec (ss_downloaded (ar_sync rep)) @ [CHR 0x0a] @
     ''unchanged='' @ dec (ss_skipped (ar_sync rep)) @ [CHR 0x0a] @
     ''deferred='' @ dec (ss_conflicts (ar_sync rep)) @ [CHR 0x0a] @
     ''failed='' @ dec (to_uint (ss_failed (ar_sync rep) + ar_failed rep)) @ [CHR 0x0a] @
     ''network='' @ (if ar_network rep then ''ok'' else ''unreachable'') @ [CHR 0x0a])"

definition daemoon_3ds_autosync_write_report ::
  "'w env \<Rightarrow> bytes \<Rightarrow> bytes option \<Rightarrow> autosync_report \<Rightarrow> ('w, result) prog" where
  "daemoon_3ds_autosync_write_report env path when rep =
    bind_io (fs_open_file env path OPEN_WRITE) (\<lambda>(r, out).
      if r \<noteq> OK then return_io r
      else bind_io (daemoon_stream_write out (report_text when rep)) (\<lambda>r.
        bind_io (daemoon_stream_close out) (\<lambda>cr. return_io (if r = OK then cr else r))))"

section \<open>The first run\<close>

definition k_pages :: "str_id list" where "k_pages = [STR_WELCOME_WHAT, STR_WELCOME_SAFE, STR_WELCOME_WHEN]"

definition k_choice_labels :: "str_id list" where
  "k_choice_labels = [STR_WELCOME_OPT_QR, STR_WELCOME_OPT_CODE, STR_WELCOME_OPT_LATER]"

definition k_choice_hints :: "str_id list" where
  "k_choice_hints = [STR_WELCOME_OPT_QR_HINT, STR_WELCOME_OPT_CODE_HINT, STR_WELCOME_OPT_LATER_HINT]"

definition daemoon_3ds_welcome_pages :: nat where "daemoon_3ds_welcome_pages = length k_pages"
definition daemoon_3ds_welcome_choices :: nat where "daemoon_3ds_welcome_choices = length k_choice_labels"

definition daemoon_3ds_welcome_page :: "nat \<Rightarrow> str_id" where
  "daemoon_3ds_welcome_page i = (if i \<ge> daemoon_3ds_welcome_pages then STR_WELCOME_WHAT else k_pages ! i)"

definition daemoon_3ds_welcome_choice_label :: "nat \<Rightarrow> str_id" where
  "daemoon_3ds_welcome_choice_label i =
    (if i \<ge> daemoon_3ds_welcome_choices then STR_WELCOME_OPT_LATER else k_choice_labels ! i)"

definition daemoon_3ds_welcome_choice_hint :: "nat \<Rightarrow> str_id" where
  "daemoon_3ds_welcome_choice_hint i =
    (if i \<ge> daemoon_3ds_welcome_choices then STR_WELCOME_OPT_LATER_HINT else k_choice_hints ! i)"


section \<open>Title identifiers read back\<close>

text \<open>The hexadecimal digits of a number, most significant first, and the value of digits.\<close>

fun hex_of :: "nat \<Rightarrow> nat \<Rightarrow> nat list" where
  "hex_of 0 n = []"
| "hex_of (Suc k) n = hex_of k (n div 16) @ [n mod 16]"

definition hex_value :: "nat \<Rightarrow> nat list \<Rightarrow> nat" where
  "hex_value v ds = foldl (\<lambda>v d. 16 * v + d) v ds"

definition hex_char :: "nat \<Rightarrow> char" where
  "hex_char d = ''0123456789ABCDEF'' ! d"

lemma hex_value_simps [simp]:
  "hex_value v [] = v"
  "hex_value v (d # ds) = hex_value (16 * v + d) ds"
  "hex_value v (ds @ [d]) = 16 * hex_value v ds + d"
  by (simp_all add: hex_value_def)

lemma length_hex_of [simp]: "length (hex_of k n) = k"
  by (induction k arbitrary: n) auto

lemma hex_of_digits: "\<forall>d \<in> set (hex_of k n). d < 16"
  by (induction k arbitrary: n) auto

lemma hex_of_value: "hex_value 0 (hex_of k n) = n mod 16 ^ k"
proof (induction k arbitrary: n)
  case (Suc k)
  have "n mod 16 ^ Suc k = 16 * (n div 16 mod 16 ^ k) + n mod 16"
    using mod_mult2_eq [of n 16 "16 ^ k"] by simp
  then show ?case using Suc by simp
qed simp

lemma hex_of_unique: "\<forall>d \<in> set ds. d < 16 \<Longrightarrow> hex_of (length ds) (hex_value 0 ds) = ds"
  by (induction ds rule: rev_induct) auto

lemma hex_of_map: "hex_of k n = map (\<lambda>i. n div 16 ^ (k - 1 - i) mod 16) [0..<k]"
proof (induction k arbitrary: n)
  case (Suc k)
  have "n div 16 div 16 ^ (k - 1 - i) = n div 16 ^ (k - i)" if "i < k" for i
  proof -
    from that have "k - i = Suc (k - 1 - i)" by simp
    then show ?thesis by (simp add: div_mult2_eq)
  qed
  then show ?case using Suc [of "n div 16"] by simp
qed simp

lemma upper_hex_padded:
  assumes "n < 16 ^ k" "0 < k"
  shows "length (upper_hex n) \<le> k \<and> replicate (k - length (upper_hex n)) CHR ''0'' @ upper_hex n = map hex_char (hex_of k n)"
  using assms
proof (induction k arbitrary: n)
  case (Suc k)
  show ?case
  proof (cases "n < 16")
    case True
    have "hex_of k 0 = replicate k 0" by (induction k) (auto simp: replicate_append_same)
    with True show ?thesis by (simp add: upper_hex.simps [of n] hex_char_def)
  next
    case False
    with Suc.prems have "0 < k" by (cases k) auto
    moreover have "n div 16 < 16 ^ k" using Suc.prems by (simp add: less_mult_imp_div_less mult.commute)
    ultimately show ?thesis
      using Suc.IH [of "n div 16"] False by (simp add: upper_hex.simps [of n] hex_char_def)
  qed
qed simp

lemma format_hex:
  "17 \<le> cap \<Longrightarrow> daemoon_3ds_format_title_id n cap = Some (map hex_char (hex_of 16 (unat n)))"
  "17 \<le> cap \<Longrightarrow> daemoon_nx_format_title_id n cap = Some (map hex_char (hex_of 16 (unat n)))"
proof -
  have "unat (drop_bit ((15 - i) * 4) n AND 0xf) = unat n div 16 ^ (15 - i) mod 16" for i
  proof -
    have "(2::nat) ^ ((15 - i) * 4) = 16 ^ (15 - i)" by (simp add: power_mult mult.commute [of _ 4])
    moreover have "unat (drop_bit m n) = unat n div 2 ^ m" for m
      by (simp add: unat_drop_bit_eq drop_bit_eq_div [of m "unat n"])
    ultimately show ?thesis
      by (simp add: unsigned_and_eq mask_simps)

  qed

  then show "17 \<le> cap \<Longrightarrow> daemoon_3ds_format_title_id n cap = Some (map hex_char (hex_of 16 (unat n)))"
    by (simp add: daemoon_3ds_format_title_id_def hex_of_map hex_char_def)
  have "unat n < 16 ^ 16" using unsigned_less [of n] by simp
  from upper_hex_padded [OF this]
  show "17 \<le> cap \<Longrightarrow> daemoon_nx_format_title_id n cap = Some (map hex_char (hex_of 16 (unat n)))"
    by (simp add: daemoon_nx_format_title_id_def padded_hex_def Let_def)
qed


text \<open>A hexadecimal digit of either case, and its canonical spelling.\<close>

definition nibble :: "char \<Rightarrow> nat option" where
  "nibble c = (if CHR ''0'' \<le> c \<and> c \<le> CHR ''9'' then Some (u8 c - 0x30)
    else if CHR ''A'' \<le> c \<and> c \<le> CHR ''F'' then Some (u8 c - 0x41 + 10)
    else if CHR ''a'' \<le> c \<and> c \<le> CHR ''f'' then Some (u8 c - 0x61 + 10) else None)"

definition canonical :: "char \<Rightarrow> char" where
  "canonical c = (if CHR ''a'' \<le> c \<and> c \<le> CHR ''f'' then byte (u8 c - 32) else c)"

lemma u8_hex_char: "d < 16 \<Longrightarrow> u8 (hex_char d) = (if d < 10 then 48 + d else 55 + d)"
proof -
  have "\<forall>d \<in> set [0..<16]. u8 (hex_char d) = (if d < 10 then 48 + d else 55 + d)"
    by (simp add: upt_rec hex_char_def u8_def)
  then show "d < 16 \<Longrightarrow> ?thesis" by simp
qed

lemma u8_canonical: "u8 (canonical c) = (if 97 \<le> u8 c \<and> u8 c \<le> 102 then u8 c - 32 else u8 c)"
proof -
  have "(CHR ''a'' \<le> c \<and> c \<le> CHR ''f'') = (97 \<le> u8 c \<and> u8 c \<le> 102)" by (simp add: less_eq_char_def u8_def)
  moreover have "(u8 c - 32) mod 256 = u8 c - 32" by (rule mod_less, rule less_imp_diff_less, rule u8_less)
  ultimately show ?thesis by (auto simp: canonical_def)
qed

lemma nibble_u8: "nibble c = (if 48 \<le> u8 c \<and> u8 c \<le> 57 then Some (u8 c - 48)
    else if 65 \<le> u8 c \<and> u8 c \<le> 70 then Some (u8 c - 55)
    else if 97 \<le> u8 c \<and> u8 c \<le> 102 then Some (u8 c - 87) else None)"
  by (auto simp: nibble_def less_eq_char_def u8_def)

lemma nibble_iff: "nibble c = Some d \<longleftrightarrow> d < 16 \<and> canonical c = hex_char d"
proof (cases "d < 16")
  case True
  have "canonical c = hex_char d \<longleftrightarrow> u8 (canonical c) = u8 (hex_char d)" by simp
  with True show ?thesis by (auto simp: u8_canonical u8_hex_char nibble_u8)
qed (auto simp: nibble_u8 split: if_splits)

lemma shift_in_digit: "d < 16 \<Longrightarrow> push_bit 4 (of_nat v :: u64) OR of_nat d = of_nat (16 * v + d)"
proof -
  assume "d < 16"
  have "(push_bit 4 (of_nat v :: u64) AND of_nat d) = 0"
  proof (rule bit_eqI)
    fix i assume "possible_bit TYPE(u64) i"
    show "bit (push_bit 4 (of_nat v :: u64) AND of_nat d) i = bit (0 :: u64) i"
    proof (cases "i < 4")
      case False
      with \<open>d < 16\<close> have "d < 2 ^ i" using power_increasing [of 4 i "2::nat"] by simp
      then have "\<not> bit d i" by (simp add: bit_iff_odd)
      then show ?thesis by (simp add: bit_simps)
    qed (simp add: bit_simps)
  qed
  from disjunctive_add_eq_or [OF this] show ?thesis by (simp add: push_bit_eq_mult mult.commute)
qed

lemma title_id_loop_cons:
  "title_id_loop (of_nat v) (c # s) =
    (case nibble c of None \<Rightarrow> Inl ERR_INVALID_REQUEST | Some d \<Rightarrow> title_id_loop (of_nat (16 * v + d)) s)"
proof -
  have "nibble c = Some d \<Longrightarrow> push_bit 4 (of_nat v :: u64) OR of_nat d = of_nat (16 * v + d)" for d
    by (rule shift_in_digit) (simp add: nibble_iff)
  then show ?thesis by (auto simp: nibble_def)
qed

lemma title_id_loop_iff:
  "title_id_loop (of_nat v) s = Inr n \<longleftrightarrow>
    (\<exists>ds. list_all2 (\<lambda>c d. nibble c = Some d) s ds \<and> n = of_nat (hex_value v ds))"
proof (induction s arbitrary: v)
  case (Cons c s)
  show ?case
    by (cases "nibble c") (auto simp: title_id_loop_cons Cons.IH list_all2_Cons1 simp del: title_id_loop.simps of_nat_add of_nat_mult)
qed auto

lemma hex_value_less: "\<forall>d \<in> set ds. d < 16 \<Longrightarrow> hex_value 0 ds < 16 ^ length ds"
proof (induction ds rule: rev_induct)
  case (snoc d ds)
  then have "hex_value 0 ds < 16 ^ length ds" "d < 16" by auto
  then have "Suc (hex_value 0 ds) \<le> 16 ^ length ds" by simp
  then have "16 * Suc (hex_value 0 ds) \<le> 16 * 16 ^ length ds" by (rule mult_le_mono2)
  with \<open>d < 16\<close> show ?case by simp
qed simp

lemma parse_title_id_iff:
  "daemoon_3ds_parse_title_id (Some t) = Inr n \<longleftrightarrow>
    map canonical (cstr t) = map hex_char (hex_of 16 (unat n))" (is "?p \<longleftrightarrow> ?c")
proof
  assume ?p
  then obtain ds where ds: "length (cstr t) = 16" "list_all2 (\<lambda>c d. nibble c = Some d) (cstr t) ds"
      "n = of_nat (hex_value 0 ds)"
    using title_id_loop_iff [of 0 "cstr t" n] by (auto simp: daemoon_3ds_parse_title_id_def split: if_splits)
  then have len: "length ds = 16" by (simp add: list_all2_lengthD)
  have small: "\<forall>d \<in> set ds. d < 16" using ds(2) by (auto simp: list_all2_conv_all_nth in_set_conv_nth nibble_iff)
  have "unat n = hex_value 0 ds"
    using hex_value_less [OF small] by (simp add: ds(3) len unat_of_nat take_bit_eq_mod)
  then have "hex_of 16 (unat n) = ds" using hex_of_unique [OF small] len by simp
  moreover have "map canonical (cstr t) = map hex_char ds"
    using ds(2) by (auto simp: list_all2_conv_all_nth nibble_iff intro: nth_equalityI)
  ultimately show ?c by simp
next
  assume c: ?c
  then have len: "length (cstr t) = 16" by (metis length_hex_of length_map)
  have "list_all2 (\<lambda>c d. nibble c = Some d) (cstr t) (hex_of 16 (unat n))"
    unfolding list_all2_conv_all_nth nibble_iff
  proof (intro conjI allI impI)
    fix i assume "i < length (cstr t)"
    then show "hex_of 16 (unat n) ! i < 16" using hex_of_digits [of 16 "unat n"] len by simp
    have "map canonical (cstr t) ! i = map hex_char (hex_of 16 (unat n)) ! i" by (simp only: c)
    with \<open>i < length (cstr t)\<close> len show "canonical (cstr t ! i) = hex_char (hex_of 16 (unat n) ! i)" by simp
  qed (simp add: len)
  moreover have "unat n < 16 ^ 16" using unsigned_less [of n] by simp
  then have "n = of_nat (hex_value 0 (hex_of 16 (unat n)))" by (simp add: hex_of_value)
  ultimately show ?p
    using title_id_loop_iff [of 0 "cstr t" n] len by (auto simp: daemoon_3ds_parse_title_id_def)
qed


section \<open>Properties\<close>

text \<open>C23 A title identifier survives its text, on both consoles alike: what either build writes into a buffer of at
  least 17 bytes is the same 16 digits, is an identifier a manifest accepts, and is read back as the same number;
  and a text is read as a number exactly when it is those digits in either case, so nothing shorter,
  longer or signed is taken for an identifier.\<close>
theorem title_id_roundtrip:
  assumes "17 \<le> cap"
  shows "(\<exists>s. daemoon_3ds_format_title_id n cap = Some s \<and> daemoon_nx_format_title_id n cap = Some s \<and>
      length s = 16 \<and> is_valid_title_id s \<and>
      daemoon_3ds_parse_title_id (Some s) = Inr n \<and> daemoon_nx_parse_title_id (Some s) = Inr n \<and>
      (\<forall>t. daemoon_3ds_parse_title_id (Some t) = Inr n \<longleftrightarrow> map canonical (cstr t) = s)) \<and>
    (\<forall>t. daemoon_nx_parse_title_id t = daemoon_3ds_parse_title_id t)"
proof -
  let ?s = "map hex_char (hex_of 16 (unat n))"
  have digit: "nul_free [hex_char d]" "canonical (hex_char d) = hex_char d"
      "CHR ''0'' \<le> hex_char d \<and> hex_char d \<le> CHR ''9'' \<or> CHR ''A'' \<le> hex_char d \<and> hex_char d \<le> CHR ''Z''"
    if "d < 16" for d
  proof -
    have u: "u8 (hex_char d) = (if d < 10 then 48 + d else 55 + d)" using that by (rule u8_hex_char)
    then have "hex_char d \<noteq> NUL" by (auto simp: u8_def split: if_splits)
    then show "nul_free [hex_char d]" by simp
    have "u8 (canonical (hex_char d)) = u8 (hex_char d)" using u that by (simp add: u8_canonical)
    then show "canonical (hex_char d) = hex_char d" by simp
    show "CHR ''0'' \<le> hex_char d \<and> hex_char d \<le> CHR ''9'' \<or> CHR ''A'' \<le> hex_char d \<and> hex_char d \<le> CHR ''Z''"
      using u that by (simp add: less_eq_char_def u8_def split: if_splits)
  qed
  have "nul_free ?s" using hex_of_digits [of 16 "unat n"] digit(1) by (auto simp: nul_free_def)
  then have "cstr ?s = ?s" by simp
  moreover have "map canonical ?s = ?s" using hex_of_digits [of 16 "unat n"] digit(2) by auto
  moreover have "is_valid_title_id ?s"
    using hex_of_digits [of 16 "unat n"] digit(3) by (auto simp: is_valid_title_id_def TITLE_ID_MAX_def list_all_iff)
  moreover have "daemoon_nx_parse_title_id t = daemoon_3ds_parse_title_id t" for t
    by (simp add: daemoon_nx_parse_title_id_def daemoon_3ds_parse_title_id_def)
  ultimately show ?thesis
    using format_hex [OF assms, of n] parse_title_id_iff [of _ n] by simp
qed

theorem title_id_roundtrip_witness:
  "daemoon_3ds_format_title_id 0x0004000000055D00 17 = daemoon_nx_format_title_id 0x0004000000055D00 17"
  using title_id_roundtrip [of 17 "0x0004000000055D00"] by auto

text \<open>Which policy a row of the list stands for; a row that is not there asks about every conflict.\<close>

lemma batch_policy_rows:
  "daemoon_3ds_batch_policy i = (if i = 1 then POLICY_KEEP_LOCAL else if i = 2 then POLICY_KEEP_SERVER else POLICY_ASK)"
proof -
  consider "i = 0" | "i = 1" | "i = 2" | "3 \<le> i" by linarith
  then show ?thesis
    by cases (simp_all add: daemoon_3ds_batch_policy_def daemoon_3ds_batch_policies_def k_policies_def k_policy_labels_def)
qed

end
