(* ===== verification/Config.thy ===== *)
theory Config
  imports Newlib Console
begin

text \<open>
  The settings of a console on its card: the line reader both builds share
  (\<open>platform/common/config_lines.c\<close>), and the records, the defaults, the keys and the
  writer of each build (\<open>platform/3ds/source/config.c\<close>, \<open>platform/nx/source/config.c\<close>). A 3DS has
  what a Switch has and three settings more.
\<close>

declare next_fault_fields [simp del]

section \<open>Lines of key and value\<close>

definition trim :: "bytes \<Rightarrow> bytes" where
  "trim s =
    (let s = rev (dropWhile (\<lambda>c. c = CHR 0x0a \<or> c = CHR 0x0d \<or> c = CHR '' '' \<or> c = CHR 0x09) (rev s))
     in dropWhile (\<lambda>c. c = CHR '' '' \<or> c = CHR 0x09) s)"

text \<open>One line, as \<open>fgets\<close> leaves it in the buffer.\<close>

definition config_line :: "('u \<Rightarrow> bytes \<Rightarrow> bytes \<Rightarrow> 'u) \<Rightarrow> 'u \<Rightarrow> bytes \<Rightarrow> 'u" where
  "config_line cb user buf =
    (let line = trim (cstr buf)
     in if line = [] \<or> hd line = CHR ''#'' then user
        else if CHR ''='' \<notin> set line then user
        else cb user (trim (takeWhile (\<lambda>c. c \<noteq> CHR ''='') line)) (trim (tl (dropWhile (\<lambda>c. c \<noteq> CHR ''='') line))))"

lemma unread_advance: "unread h (move h (\<lambda>p. p + n) c) = drop n (unread h c)"
  by (auto simp: unread_def move_def update_conv' add.commute split: option.split node.split)

lemma line_of_Nil [simp]: "line_of n [] = []"
  by (cases n) simp_all

lemma next_fault_unread: "next_fault c = (x, c1) \<Longrightarrow> unread h c1 = unread h c"
  unfolding unread_def using next_fault_fields(1,3) [of c x c1] by (simp only:)

lemma fgets_Some:
  assumes "c_fgets h cap c = (Some line, c')"
  shows "line = line_of (cap - 1) (unread h c) \<and> line \<noteq> [] \<and> unread h c' = drop (length line) (unread h c)"
proof -
  obtain x c1 where step: "next_fault c = (x, c1)" by (cases "next_fault c")
  from assms show ?thesis
    by (cases x) (auto simp: c_fgets_def c_call_def step Let_def next_fault_unread [OF step] unread_advance split: if_splits)
qed

lemma unread_shrinks: "c_fgets h cap c = (Some line, c') \<Longrightarrow> length (unread h c') < length (unread h c)"
  by (drule fgets_Some, cases "unread h c") (auto simp: neq_Nil_conv)

function config_lines :: "('u \<Rightarrow> bytes \<Rightarrow> bytes \<Rightarrow> 'u) \<Rightarrow> nat \<Rightarrow> 'u \<Rightarrow> 'x card_scheme \<Rightarrow> 'u \<times> 'x card_scheme" where
  "config_lines cb fp user c =
    (case c_fgets fp 512 c of (None, c) \<Rightarrow> (user, c)
     | (Some line, c) \<Rightarrow> config_lines cb fp (config_line cb user line) c)"
  by pat_completeness auto
termination
  by (relation "measure (\<lambda>(cb, fp, user, c). length (unread fp c))") (auto dest: unread_shrinks sym)

declare config_lines.simps [simp del]

definition daemoon_config_read_lines ::
  "bytes option \<Rightarrow> ('u \<Rightarrow> bytes \<Rightarrow> bytes \<Rightarrow> 'u) option \<Rightarrow> 'u \<Rightarrow> 'x card_scheme \<Rightarrow> (result \<times> 'u) \<times> 'x card_scheme" where
  "daemoon_config_read_lines path cb user =
    (case (path, cb) of
      (Some path, Some cb) \<Rightarrow>
        c_seq (c_fopen_rb path) (\<lambda>opened.
          case opened of Inl e \<Rightarrow> c_ret (ERR_NOT_FOUND, user)
          | Inr fp \<Rightarrow> c_seq (config_lines cb fp user) (\<lambda>user. c_seq (c_fclose fp) (\<lambda>_. c_ret (OK, user))))
    | _ \<Rightarrow> c_ret (ERR_INVALID_REQUEST, user))"

section \<open>The settings\<close>

definition DEVICE_ID_MAX :: nat where "DEVICE_ID_MAX = 65"

record nx_config =
  cf_server_url :: bytes
  cf_token :: bytes
  cf_device_label :: bytes
  cf_ca_bundle :: bytes
  cf_device_id :: bytes
  cf_language :: bytes

record config = nx_config +
  cf_token_on_card :: bool
  cf_welcomed :: bool
  cf_autosync :: bool

text \<open>What a field of \<open>cap\<close> bytes holds after \<open>daemoon_strlcpy\<close>, whose result is dropped.\<close>

definition strlcpy_void :: "nat \<Rightarrow> bytes \<Rightarrow> bytes" where
  "strlcpy_void cap s = the (snd (daemoon_strlcpy (Some []) cap (Some s)))"

definition strip_slashes :: "bytes \<Rightarrow> bytes" where
  "strip_slashes url = rev (dropWhile (\<lambda>c. c = CHR ''/'') (rev url))"

definition daemoon_3ds_config_defaults :: config where
  "daemoon_3ds_config_defaults = \<lparr>cf_server_url = [], cf_token = [], cf_device_label = strlcpy_void LABEL_MAX ''3DS'',
    cf_ca_bundle = [], cf_device_id = [], cf_language = [], cf_token_on_card = False, cf_welcomed = False, cf_autosync = False\<rparr>"

definition daemoon_nx_config_defaults :: nx_config where
  "daemoon_nx_config_defaults = \<lparr>cf_server_url = [], cf_token = [], cf_device_label = strlcpy_void LABEL_MAX ''Switch'',
    cf_ca_bundle = [], cf_device_id = [], cf_language = []\<rparr>"

text \<open>\<open>value[0]\<close> of a C string is NUL when there is nothing in it.\<close>

definition first_char :: "bytes \<Rightarrow> char" where
  "first_char s = (case s of [] \<Rightarrow> NUL | c # _ \<Rightarrow> c)"

definition config_pair :: "config \<Rightarrow> bytes \<Rightarrow> bytes \<Rightarrow> config" where
  "config_pair cfg key v =
    (if key = ''server'' then cfg\<lparr>cf_server_url := strip_slashes (strlcpy_void 256 v)\<rparr>
     else if key = ''token'' then cfg\<lparr>cf_token := strlcpy_void TOKEN_MAX v\<rparr>
     else if key = ''label'' then
       (if first_char v \<noteq> NUL \<and> daemoon_utf8_valid (Some v) then cfg\<lparr>cf_device_label := strlcpy_void LABEL_MAX v\<rparr> else cfg)
     else if key = ''device'' then cfg\<lparr>cf_device_id := strlcpy_void DEVICE_ID_MAX v\<rparr>
     else if key = ''language'' then
       (if fst (daemoon_i18n_language_from_code (Some v) 0) = OK then cfg\<lparr>cf_language := strlcpy_void 12 v\<rparr> else cfg)
     else if key = ''autosync'' then cfg\<lparr>cf_autosync := (first_char v = CHR ''1'')\<rparr>
     else if key = ''welcomed'' then cfg\<lparr>cf_welcomed := (first_char v = CHR ''1'')\<rparr>
     else if key = ''ca_bundle'' then cfg\<lparr>cf_ca_bundle := strlcpy_void PATH_MAX v\<rparr>
     else cfg)"

definition nx_config_pair :: "nx_config \<Rightarrow> bytes \<Rightarrow> bytes \<Rightarrow> nx_config" where
  "nx_config_pair cfg key v =
    (if key = ''server'' then cfg\<lparr>cf_server_url := strip_slashes (strlcpy_void 256 v)\<rparr>
     else if key = ''token'' then cfg\<lparr>cf_token := strlcpy_void TOKEN_MAX v\<rparr>
     else if key = ''label'' then
       (if first_char v \<noteq> NUL \<and> daemoon_utf8_valid (Some v) then cfg\<lparr>cf_device_label := strlcpy_void LABEL_MAX v\<rparr> else cfg)
     else if key = ''device'' then cfg\<lparr>cf_device_id := strlcpy_void DEVICE_ID_MAX v\<rparr>
     else if key = ''language'' then
       (if fst (daemoon_i18n_language_from_code (Some v) 0) = OK then cfg\<lparr>cf_language := strlcpy_void 12 v\<rparr> else cfg)
     else if key = ''ca_bundle'' then cfg\<lparr>cf_ca_bundle := strlcpy_void PATH_MAX v\<rparr>
     else cfg)"

definition daemoon_3ds_config_load :: "bytes \<Rightarrow> 'x card_scheme \<Rightarrow> (result \<times> config) \<times> 'x card_scheme" where
  "daemoon_3ds_config_load path = daemoon_config_read_lines (Some path) (Some config_pair) daemoon_3ds_config_defaults"

definition daemoon_nx_config_load :: "bytes \<Rightarrow> 'x card_scheme \<Rightarrow> (result \<times> nx_config) \<times> 'x card_scheme" where
  "daemoon_nx_config_load path = daemoon_config_read_lines (Some path) (Some nx_config_pair) daemoon_nx_config_defaults"

definition daemoon_3ds_config_can_sync :: "config \<Rightarrow> bool" where
  "daemoon_3ds_config_can_sync cfg \<longleftrightarrow> cf_server_url cfg \<noteq> [] \<and> cf_token cfg \<noteq> []"

definition daemoon_nx_config_can_sync :: "nx_config \<Rightarrow> bool" where
  "daemoon_nx_config_can_sync cfg \<longleftrightarrow> cf_server_url cfg \<noteq> [] \<and> cf_token cfg \<noteq> []"

definition daemoon_3ds_welcome_needed :: "config option \<Rightarrow> bool" where
  "daemoon_3ds_welcome_needed cfg = (case cfg of None \<Rightarrow> False | Some cfg \<Rightarrow> \<not> cf_welcomed cfg)"

section \<open>Writing them\<close>

text \<open>\<open>fprintf\<close> of a text, as \<open>> 0\<close> tests it.\<close>

definition c_fprintf :: "nat \<Rightarrow> bytes \<Rightarrow> 'x card_scheme \<Rightarrow> bool \<times> 'x card_scheme" where
  "c_fprintf fp s = c_seq (c_fwrite fp s) (\<lambda>(n, errno). c_ret (n = length s \<and> n > 0))"

definition print_if :: "nat \<Rightarrow> bool \<Rightarrow> bytes \<Rightarrow> bool \<Rightarrow> 'x card_scheme \<Rightarrow> bool \<times> 'x card_scheme" where
  "print_if fp test s ok = (if ok \<and> test then c_fprintf fp s else c_ret ok)"

definition key_line :: "bytes \<Rightarrow> bytes \<Rightarrow> bytes" where
  "key_line key v = key @ '' = '' @ v @ [CHR 0x0a]"

text \<open>The lines that are written when the test in front of them holds.\<close>

definition config_extra :: "config \<Rightarrow> (bool \<times> bytes) list" where
  "config_extra cfg =
    [(cf_token_on_card cfg \<and> cf_token cfg \<noteq> [], key_line ''token'' (cf_token cfg)),
     (cf_device_id cfg \<noteq> [], key_line ''device'' (cf_device_id cfg)),
     (cf_language cfg \<noteq> [], key_line ''language'' (cf_language cfg)),
     (cf_autosync cfg, key_line ''autosync'' ''1''),
     (cf_welcomed cfg, key_line ''welcomed'' ''1''),
     (cf_ca_bundle cfg \<noteq> [], key_line ''ca_bundle'' (cf_ca_bundle cfg))]"

definition nx_config_extra :: "nx_config \<Rightarrow> (bool \<times> bytes) list" where
  "nx_config_extra cfg =
    [(cf_token cfg \<noteq> [], key_line ''token'' (cf_token cfg)),
     (cf_device_id cfg \<noteq> [], key_line ''device'' (cf_device_id cfg)),
     (cf_language cfg \<noteq> [], key_line ''language'' (cf_language cfg)),
     (cf_ca_bundle cfg \<noteq> [], key_line ''ca_bundle'' (cf_ca_bundle cfg))]"

primrec print_extra :: "nat \<Rightarrow> (bool \<times> bytes) list \<Rightarrow> bool \<Rightarrow> 'x card_scheme \<Rightarrow> bool \<times> 'x card_scheme" where
  "print_extra fp [] ok = c_ret ok"
| "print_extra fp (x # xs) ok = c_seq (print_if fp (fst x) (snd x) ok) (print_extra fp xs)"

text \<open>What both writers do with a text of these lines.\<close>

definition config_write :: "bytes \<Rightarrow> bytes \<Rightarrow> (bool \<times> bytes) list \<Rightarrow> 'x card_scheme \<Rightarrow> result \<times> 'x card_scheme" where
  "config_write path head extra =
    (case with_suffix PATH_MAX path ''.tmp'' of Inl r \<Rightarrow> c_ret r
     | Inr temp \<Rightarrow>
        c_seq (c_fopen_wb temp) (\<lambda>opened.
        case opened of Inl e \<Rightarrow> c_ret ERR_IO_ERROR
        | Inr fp \<Rightarrow>
          c_seq (c_fprintf fp head) (\<lambda>ok.
          c_seq (print_extra fp extra ok) (\<lambda>ok.
          c_seq (c_fclose fp) (\<lambda>closed.
          if closed \<noteq> None \<or> \<not> ok then c_seq (c_unlink temp) (\<lambda>_. c_ret ERR_IO_ERROR)
          else c_seq (c_unlink path) (\<lambda>_.
          c_seq (c_rename temp path) (\<lambda>renamed.
          if renamed \<noteq> None then c_seq (c_unlink temp) (\<lambda>_. c_ret ERR_IO_ERROR)
          else c_ret OK)))))))"

definition config_head :: "'y nx_config_scheme \<Rightarrow> bytes" where
  "config_head cfg = key_line ''server'' (cf_server_url cfg) @ key_line ''label'' (cf_device_label cfg)"

definition daemoon_3ds_config_save :: "bytes \<Rightarrow> config \<Rightarrow> 'x card_scheme \<Rightarrow> result \<times> 'x card_scheme" where
  "daemoon_3ds_config_save path cfg = config_write path (config_head cfg) (config_extra cfg)"

definition daemoon_nx_config_save :: "bytes \<Rightarrow> nx_config \<Rightarrow> 'x card_scheme \<Rightarrow> result \<times> 'x card_scheme" where
  "daemoon_nx_config_save path cfg = config_write path (config_head cfg) (nx_config_extra cfg)"


section \<open>The file that is written\<close>

definition at_end :: "nat \<Rightarrow> bytes \<Rightarrow> bytes \<Rightarrow> 'x card_scheme \<Rightarrow> bool" where
  "at_end h q bs c \<longleftrightarrow> map_of (cd_open c) h = Some \<lparr>fp_path = q, fp_pos = length bs\<rparr> \<and> node_at c q = Some (Data bs)"

lemma overlay_end: "overlay (length bs) s bs = bs @ s"
  by (simp add: overlay_def)

lemma put_bytes_end:
  assumes "at_end h q bs c"
  shows "at_end h q (bs @ s) (put_bytes h s c)" "q \<noteq> p \<Longrightarrow> same_at p c (put_bytes h s c)"
  using assms by (auto simp: at_end_def put_bytes_def overlay_end move_def update_conv' intro: went_change)

lemma went_next: "next_fault c = (x, c1) \<Longrightarrow> went p V c1 d \<longleftrightarrow> went p V c d"
  by (simp add: went_def next_fault_fields)

lemma went_same: "went p V c d \<Longrightarrow> same_at p d e \<Longrightarrow> went p V c e"
  by (rule went_trans, assumption, erule went_mono) (simp add: went_def)

lemma fprintf_end:
  assumes "at_end h q bs c" "c_fprintf h s c = (ok, c')" "q \<noteq> p"
  shows "same_at p c c' \<and> (ok \<longrightarrow> at_end h q (bs @ s) c')"
proof -
  obtain x c1 where step: "next_fault c = (x, c1)" by (cases "next_fault c")
  note fields = next_fault_fields [OF step]
  have here: "at_end h q bs c1" using assms(1) fields by (simp add: at_end_def)
  have same: "same_at p c (put_bytes h t c1)" for t
    using put_bytes_end(2) [OF here assms(3), of t] fields(1) went_next [OF step] by simp
  show ?thesis
  proof (cases x)
    case Works
    then have "c_fwrite h s c = ((length s, EIO), put_bytes h s c1)" by (simp add: c_fwrite_def c_call_def step)
    with assms(2) have "c' = put_bytes h s c1" by (simp add: c_fprintf_def c_seq_def c_ret_def)
    with same [of s] put_bytes_end(1) [OF here, of s] show ?thesis by simp
  next
    case (Fails e k)
    let ?n = "min k (length s - 1)"
    from Fails have "c_fwrite h s c = ((?n, e), put_bytes h (take ?n s) c1)"
      by (simp only: c_fwrite_def c_call_def step Let_def prod.case fault.case)
    then have "c_fprintf h s c = (?n = length s \<and> ?n > 0, put_bytes h (take ?n s) c1)"
      by (simp only: c_fprintf_def c_seq_def c_ret_def prod.case)
    moreover have "\<not> (?n = length s \<and> ?n > 0)" by linarith
    ultimately have "c' = put_bytes h (take ?n s) c1" "\<not> ok" using assms(2) by (metis prod.inject)+
    with same show ?thesis by simp
  qed
qed

lemma same_at_refl: "same_at p c c"
  by (simp add: went_quiet)

lemma print_extra_end:
  assumes "ok \<longrightarrow> at_end h q bs c" "print_extra h xs ok c = (ok', c')" "q \<noteq> p"
  shows "same_at p c c' \<and> (ok' \<longrightarrow> at_end h q (bs @ concat (map snd (filter fst xs))) c')"
  using assms(1,2)
proof (induction xs arbitrary: ok bs c)
  case Nil
  then show ?case by (auto simp: c_run same_at_refl)
next
  case (Cons x xs)
  from Cons.prems(2) obtain ok1 c1 where step: "print_if h (fst x) (snd x) ok c = (ok1, c1)" "print_extra h xs ok1 c1 = (ok', c')"
    by (auto simp: c_run)
  have "same_at p c c1 \<and> (ok1 \<longrightarrow> at_end h q (bs @ (if fst x then snd x else [])) c1)"
  proof (cases "ok \<and> fst x")
    case True
    with step(1) Cons.prems(1) fprintf_end [OF _ _ assms(3), of h bs c "snd x" ok1 c1] show ?thesis by (simp add: print_if_def)
  next
    case False
    with step(1) Cons.prems(1) show ?thesis by (auto simp: print_if_def c_run same_at_refl)
  qed
  then have "same_at p c c1" "same_at p c1 c' \<and> (ok' \<longrightarrow> at_end h q ((bs @ (if fst x then snd x else [])) @ concat (map snd (filter fst xs))) c')"
    using Cons.IH [OF _ step(2), of "bs @ (if fst x then snd x else [])"] by blast+
  then show ?case by (auto intro: same_at_same)
qed

lemma suffix_ok:
  assumes "nul_free path" "with_suffix cap path ''.tmp'' = Inr temp"
  shows "temp = path @ ''.tmp''"
  using assms by (simp add: with_suffix_def sb_simps finish_of cstr_Cons)

text \<open>The whole writer: whoever looks at the path on the way sees the old file, none, or all of the new one.\<close>

lemma config_write_swap:
  assumes run: "config_write path head extra c = (r, c')" and path: "nul_free path"
  defines "new \<equiv> Some (Data (head @ concat (map snd (filter fst extra))))"
  shows "went path {node_at c path, None, new} c c' \<and> (r = OK \<longrightarrow> node_at c' path = new)"
proof -
  let ?tmp = "path @ ''.tmp''" and ?V = "{node_at c path, None, new}"
  have V: "went path ?V c d" if "same_at path c d" for d using that by (auto elim: went_mono)
  have unlink: "same_at path d d'" if "c_unlink ?tmp d = (e, d')" for d d' and e
    using sparesD [OF spares_names(2) that] by simp
  show ?thesis
  proof (cases "with_suffix PATH_MAX path ''.tmp''")
    case (Inl e)
    then have "e \<noteq> OK" by (auto simp: with_suffix_def sb_finish_def split: if_splits)
    with Inl run show ?thesis by (auto simp: config_write_def c_run intro: V same_at_refl)
  next
    case (Inr temp)
    with suffix_ok [OF path] have temp: "with_suffix PATH_MAX path ''.tmp'' = Inr ?tmp" by simp
    obtain x c1 where opened: "c_fopen_wb ?tmp c = (x, c1)" by (metis prod.exhaust)
    have same1: "same_at path c c1" using sparesD [OF spares_names(3) opened] by simp
    show ?thesis
    proof (cases x)
      case (Inl e)
      with run temp opened same1 show ?thesis by (auto simp: config_write_def c_run intro: V)
    next
      case (Inr h)
      with fopen_wb_open opened have start: "at_end h ?tmp [] c1" by (force simp: at_end_def)
      from run temp opened Inr obtain ok1 c2 ok2 c3 closed c4 where
        steps: "c_fprintf h head c1 = (ok1, c2)" "print_extra h extra ok1 c2 = (ok2, c3)" "c_fclose h c3 = (closed, c4)"
        and rest: "(if closed \<noteq> None \<or> \<not> ok2 then \<exists>u. c_unlink ?tmp c4 = (u, c') \<and> r = ERR_IO_ERROR
          else \<exists>u c5 m c6. c_unlink path c4 = (u, c5) \<and> c_rename ?tmp path c5 = (m, c6) \<and>
            (m = None \<and> r = OK \<and> c' = c6 \<or> m \<noteq> None \<and> r = ERR_IO_ERROR \<and> (\<exists>u. c_unlink ?tmp c6 = (u, c'))))"
      proof -
        obtain ok1 c2 where 1: "c_fprintf h head c1 = (ok1, c2)" by (metis prod.exhaust)
        obtain ok2 c3 where 2: "print_extra h extra ok1 c2 = (ok2, c3)" by (metis prod.exhaust)
        obtain closed c4 where 3: "c_fclose h c3 = (closed, c4)" by (metis prod.exhaust)
        show ?thesis
          by (rule that [OF 1 2 3]) (use run temp opened Inr 1 2 3 in \<open>auto simp: config_write_def c_run split: if_splits\<close>)
      qed
      have first: "same_at path c1 c2 \<and> (ok1 \<longrightarrow> at_end h ?tmp head c2)"
        using fprintf_end [OF start steps(1), of path] by simp
      have all: "same_at path c2 c3 \<and> (ok2 \<longrightarrow> at_end h ?tmp (head @ concat (map snd (filter fst extra))) c3)"
        by (rule print_extra_end [OF _ steps(2)]) (use first in auto)
      have "same_at path c3 c4" "same_at ?tmp c3 c4" using steps(3) by (auto intro: sparesD spares_intros)
      with same1 first all have same4: "same_at path c c4" and tmp4: "ok2 \<Longrightarrow> node_at c4 ?tmp = new"
        by (blast intro: same_at_same, auto simp: at_end_def went_def new_def)
      show ?thesis
      proof (cases "closed \<noteq> None \<or> \<not> ok2")
        case True
        from rest True unlink same4 have "same_at path c c'" "r \<noteq> OK" by (auto intro: same_at_same)
        with V show ?thesis by simp
      next
        case False
        with rest obtain u c5 m c6 where swap: "c_unlink path c4 = (u, c5)" "c_rename ?tmp path c5 = (m, c6)"
          "m = None \<and> r = OK \<and> c' = c6 \<or> m \<noteq> None \<and> r = ERR_IO_ERROR \<and> (\<exists>u. c_unlink ?tmp c6 = (u, c'))" by (auto simp del: not_None_eq)
        have 5: "went path ?V c4 c5" using unlink_target [OF swap(1)] same4 by (auto simp: went_node elim!: went_mono)
        have "same_at ?tmp c4 c5" using sparesD [OF spares_names(2) swap(1)] by simp
        with tmp4 False have "node_at c5 ?tmp = new" by (auto simp: went_def)
        with rename_target [OF swap(2)] 5 have 6: "went path ?V c5 c6" "m = None \<longrightarrow> node_at c6 path = new"
          by (auto simp: went_def)
        have "went path ?V c c6" using same_at_trans [OF same4 went_trans [OF 5 6(1)]] by simp
        with swap(3) 6(2) unlink show ?thesis by (auto intro: went_same simp del: not_None_eq)
      qed
    qed
  qed
qed


section \<open>The file that is read back\<close>

abbreviation blank :: "char \<Rightarrow> bool" where
  "blank c \<equiv> c = CHR '' '' \<or> c = CHR 0x09"

abbreviation line_end :: "char \<Rightarrow> bool" where
  "line_end c \<equiv> c = CHR 0x0a \<or> c = CHR 0x0d \<or> c = CHR '' '' \<or> c = CHR 0x09"

text \<open>A value a line can carry: one line, with nothing for \<open>trim\<close> to take away.\<close>

definition clean :: "bytes \<Rightarrow> bool" where
  "clean v \<longleftrightarrow> nul_free v \<and> CHR 0x0a \<notin> set v \<and> (v \<noteq> [] \<longrightarrow> \<not> blank (hd v) \<and> \<not> line_end (last v))"

definition plain_name :: "bytes \<Rightarrow> bool" where
  "plain_name k \<longleftrightarrow> k \<noteq> [] \<and> nul_free k \<and> hd k \<noteq> CHR ''#'' \<and> (\<forall>c \<in> set k. \<not> line_end c \<and> c \<noteq> CHR ''='')"

lemma trim_strips: "trim s = dropWhile blank (rev (dropWhile line_end (rev s)))"
  by (simp add: trim_def)

lemma rstrip_snoc: "line_end c \<Longrightarrow> rev (dropWhile line_end (rev (s @ [c]))) = rev (dropWhile line_end (rev s))"
  by auto

lemma rstrip_end: "s = [] \<or> \<not> line_end (last s) \<Longrightarrow> rev (dropWhile line_end (rev s)) = s"
  by (cases s rule: rev_cases) auto

lemma lstrip_end: "s = [] \<or> \<not> blank (hd s) \<Longrightarrow> dropWhile blank s = s"
  by (cases s) auto

lemma trim_clean: "clean v \<Longrightarrow> trim v = v"
  using rstrip_end [of v] lstrip_end [of v] by (auto simp: trim_strips clean_def)

lemma trim_space: "clean v \<Longrightarrow> trim (CHR '' '' # v) = v"
proof (cases "v = []")
  case False
  moreover assume "clean v"
  ultimately have "rev (dropWhile line_end (rev (CHR '' '' # v))) = CHR '' '' # v"
    by (intro rstrip_end) (simp add: clean_def)
  with \<open>clean v\<close> False show ?thesis by (simp add: trim_strips lstrip_end clean_def)
qed (simp add: trim_strips)

lemma trim_name: "plain_name k \<Longrightarrow> trim (k @ '' '') = k"
  using rstrip_snoc [of "CHR '' ''" k] by (simp add: trim_strips plain_name_def rstrip_end lstrip_end)

lemma config_line_key:
  assumes "plain_name k" "clean v"
  shows "config_line cb user (key_line k v) = cb user k v"
proof -
  have free: "cstr (key_line k v) = key_line k v" using assms by (simp add: key_line_def plain_name_def clean_def)
  have "trim (key_line k v) = k @ '' ='' @ (if v = [] then [] else CHR '' '' # v)" (is "_ = ?line")
  proof -
    have "rev (dropWhile line_end (rev (key_line k v))) = rev (dropWhile line_end (rev (k @ '' = '' @ v)))"
      using rstrip_snoc [of "CHR 0x0a" "k @ '' = '' @ v"] by (simp add: key_line_def)
    also have "\<dots> = ?line"
    proof (cases "v = []")
      case True
      then show ?thesis using rstrip_snoc [of "CHR '' ''" "k @ '' =''"] rstrip_end [of "k @ '' =''"] by simp
    next
      case False
      with assms(2) show ?thesis by (subst rstrip_end) (auto simp: clean_def)
    qed
    finally show ?thesis using assms(1) by (simp add: trim_strips lstrip_end plain_name_def)
  qed
  moreover have "takeWhile (\<lambda>c. c \<noteq> CHR ''='') ?line = k @ '' ''"
    using assms(1) by (subst takeWhile_append2) (auto simp: plain_name_def)
  moreover have "dropWhile (\<lambda>c. c \<noteq> CHR ''='') ?line = CHR ''='' # (if v = [] then [] else CHR '' '' # v)"
    using assms(1) by (subst dropWhile_append2) (auto simp: plain_name_def)
  moreover have "trim (if v = [] then [] else CHR '' '' # v) = v"
    using trim_space [OF assms(2)] by (simp add: trim_strips)
  ultimately show ?thesis
    using assms(1) by (simp add: config_line_def free trim_name plain_name_def)
qed

lemma line_of_line: "CHR 0x0a \<notin> set l \<Longrightarrow> length l < n \<Longrightarrow> line_of n (l @ CHR 0x0a # rest) = l @ [CHR 0x0a]"
proof (induction l arbitrary: n)
  case Nil
  then show ?case by (cases n) auto
next
  case (Cons c l)
  then show ?case by (cases n) auto
qed

definition one_line :: "bytes \<Rightarrow> bool" where
  "one_line l \<longleftrightarrow> (\<exists>b. l = b @ [CHR 0x0a] \<and> CHR 0x0a \<notin> set b \<and> length b < 511)"

lemma config_lines_all:
  "list_all one_line ls \<Longrightarrow> cd_faults c = [] \<Longrightarrow> unread fp c = concat ls \<Longrightarrow>
    \<exists>c'. config_lines cb fp user c = (foldl (config_line cb) user ls, c') \<and> cd_faults c' = []"
proof (induction ls arbitrary: user c)
  case Nil
  then have "c_fgets fp 512 c = (None, c)" by (simp add: c_fgets_def working_call)
  with Nil show ?case by (subst config_lines.simps) simp
next
  case (Cons l ls)
  then obtain b where l: "l = b @ [CHR 0x0a]" "CHR 0x0a \<notin> set b" "length b < 511" by (auto simp: one_line_def)
  have line: "line_of 511 (unread fp c) = l"
    using line_of_line [OF l(2,3), of "concat ls"] Cons.prems(3) by (simp add: l(1))
  let ?c = "move fp (\<lambda>p. p + length l) c"
  have "c_fgets fp 512 c = (Some l, ?c)"
    using line l(1) by (simp add: c_fgets_def working_call [OF Cons.prems(2)] Let_def)
  moreover have "unread fp ?c = concat ls" by (simp add: unread_advance Cons.prems(3))
  with Cons.IH [of ?c "config_line cb user l"] Cons.prems obtain c' where
    "config_lines cb fp (config_line cb user l) ?c = (foldl (config_line cb) (config_line cb user l) ls, c')" "cd_faults c' = []"
    by auto
  ultimately show ?case by (subst config_lines.simps) simp
qed

lemma one_line_key:
  assumes "plain_name k" "clean v" "length k + length v < 508"
  shows "one_line (key_line k v)"
proof -
  have "CHR 0x0a \<notin> set (k @ '' = '' @ v)" using assms by (auto simp: plain_name_def clean_def)
  moreover have "length (k @ '' = '' @ v) < 511" using assms(3) by simp
  ultimately show ?thesis unfolding one_line_def key_line_def by (intro exI [of _ "k @ '' = '' @ v"]) simp
qed

lemma read_lines_back:
  assumes "cd_faults c = []" "node_at c path = Some (Data (concat (map (\<lambda>(k, v). key_line k v) kvs)))"
    and "list_all (\<lambda>(k, v). plain_name k \<and> clean v \<and> length k + length v < 508) kvs"
  shows "\<exists>c'. daemoon_config_read_lines (Some path) (Some cb) user c = ((OK, foldl (\<lambda>u (k, v). cb u k v) user kvs), c')"
proof -
  let ?ls = "map (\<lambda>(k, v). key_line k v) kvs" and ?c = "snd (add_stream path c)"
  have opened: "c_fopen_rb path c = (Inr (cd_next c), ?c)" "cd_faults ?c = []" "unread (cd_next c) ?c = concat ?ls"
  proof -
    show "c_fopen_rb path c = (Inr (cd_next c), ?c)"
      by (simp only: c_fopen_rb_def working_call [OF assms(1)] assms(2) option.case node.case) (simp add: add_stream_def)
    show "cd_faults ?c = []" using assms(1) by (simp add: add_stream_def)
    have "map_of (cd_open ?c) (cd_next c) = Some \<lparr>fp_path = path, fp_pos = 0\<rparr>" by (simp add: add_stream_def)
    moreover have "node_at ?c path = node_at c path" by simp
    ultimately show "unread (cd_next c) ?c = concat ?ls" using assms(2) by (simp only: unread_def option.case node.case fp.select_convs drop0)
  qed
  have "list_all one_line ?ls" using assms(3) by (auto simp: list_all_iff intro: one_line_key)
  from config_lines_all [OF this opened(2,3), of cb user] obtain c1 where
    lines: "config_lines cb (cd_next c) user ?c = (foldl (config_line cb) user ?ls, c1)" by blast
  have "foldl (config_line cb) user ?ls = foldl (\<lambda>u (k, v). cb u k v) user kvs"
    using assms(3)
    by (induction kvs arbitrary: user) (auto simp: config_line_key split: prod.splits)
  with opened(1) lines show ?thesis
    by (simp add: daemoon_config_read_lines_def c_seq_def c_ret_def split: prod.split)
qed


section \<open>Settings that fit\<close>

text \<open>Settings as the program makes them: each value fits its field and is one trimmed line, the label is
  text, the language is known, the address does not end in a slash.\<close>

definition config_ok :: "'y nx_config_scheme \<Rightarrow> bool" where
  "config_ok cfg \<longleftrightarrow>
    clean (cf_server_url cfg) \<and> length (cf_server_url cfg) < 256 \<and> strip_slashes (cf_server_url cfg) = cf_server_url cfg \<and>
    clean (cf_token cfg) \<and> length (cf_token cfg) < TOKEN_MAX \<and>
    clean (cf_device_label cfg) \<and> length (cf_device_label cfg) < LABEL_MAX \<and> cf_device_label cfg \<noteq> [] \<and>
    daemoon_utf8_valid (Some (cf_device_label cfg)) \<and>
    clean (cf_ca_bundle cfg) \<and> length (cf_ca_bundle cfg) < PATH_MAX \<and>
    clean (cf_device_id cfg) \<and> length (cf_device_id cfg) < DEVICE_ID_MAX \<and>
    clean (cf_language cfg) \<and> length (cf_language cfg) < 12 \<and>
    (cf_language cfg \<noteq> [] \<longrightarrow> fst (daemoon_i18n_language_from_code (Some (cf_language cfg)) 0) = OK)"

lemma strlcpy_void_fits: "clean v \<Longrightarrow> length v < cap \<Longrightarrow> strlcpy_void cap v = v"
  by (simp add: strlcpy_void_def daemoon_strlcpy_def clean_def)

lemma first_char_clean: "clean v \<Longrightarrow> v \<noteq> [] \<Longrightarrow> first_char v \<noteq> NUL"
  by (cases v) (auto simp: first_char_def clean_def)

definition head_keys :: "'y nx_config_scheme \<Rightarrow> (bool \<times> bytes \<times> bytes) list" where
  "head_keys cfg = [(True, ''server'', cf_server_url cfg), (True, ''label'', cf_device_label cfg)]"

definition config_keys :: "config \<Rightarrow> (bool \<times> bytes \<times> bytes) list" where
  "config_keys cfg =
    [(cf_token_on_card cfg \<and> cf_token cfg \<noteq> [], ''token'', cf_token cfg), (cf_device_id cfg \<noteq> [], ''device'', cf_device_id cfg),
     (cf_language cfg \<noteq> [], ''language'', cf_language cfg), (cf_autosync cfg, ''autosync'', ''1''),
     (cf_welcomed cfg, ''welcomed'', ''1''), (cf_ca_bundle cfg \<noteq> [], ''ca_bundle'', cf_ca_bundle cfg)]"

definition nx_config_keys :: "nx_config \<Rightarrow> (bool \<times> bytes \<times> bytes) list" where
  "nx_config_keys cfg =
    [(cf_token cfg \<noteq> [], ''token'', cf_token cfg), (cf_device_id cfg \<noteq> [], ''device'', cf_device_id cfg),
     (cf_language cfg \<noteq> [], ''language'', cf_language cfg), (cf_ca_bundle cfg \<noteq> [], ''ca_bundle'', cf_ca_bundle cfg)]"

definition chosen :: "(bool \<times> bytes \<times> bytes) list \<Rightarrow> (bytes \<times> bytes) list" where
  "chosen xs = map snd (filter fst xs)"

abbreviation file_of :: "(bool \<times> bytes \<times> bytes) list \<Rightarrow> bytes" where
  "file_of xs \<equiv> concat (map (\<lambda>(k, v). key_line k v) (chosen xs))"

lemma config_files:
  "config_head cfg @ concat (map snd (filter fst (config_extra cfg))) = file_of (head_keys cfg @ config_keys cfg)"
  "config_head nx @ concat (map snd (filter fst (nx_config_extra nx))) = file_of (head_keys nx @ nx_config_keys nx)"
  by (simp_all add: config_head_def config_extra_def nx_config_extra_def head_keys_def config_keys_def nx_config_keys_def chosen_def)

lemma foldl_chosen:
  "foldl (\<lambda>u (k, v). cb u k v) user (chosen xs) = foldl (\<lambda>u (t, k, v). if t then cb u k v else u) user xs"
  by (induction xs arbitrary: user) (auto simp: chosen_def)

lemma plain_names: "list_all plain_name [''server'', ''label'', ''token'', ''device'', ''language'', ''autosync'', ''welcomed'', ''ca_bundle'']"
  by (simp add: plain_name_def)

lemma keys_readable:
  assumes "config_ok cfg"
  shows "list_all (\<lambda>(k, v). plain_name k \<and> clean v \<and> length k + length v < 508) (chosen (head_keys cfg))"
  using assms plain_names
  by (auto simp: head_keys_def chosen_def config_ok_def TOKEN_MAX_def LABEL_MAX_def PATH_MAX_def DEVICE_ID_MAX_def)

lemma keys_readable_3ds:
  assumes "config_ok cfg"
  shows "list_all (\<lambda>(k, v). plain_name k \<and> clean v \<and> length k + length v < 508) (chosen (head_keys cfg @ config_keys cfg))"
  using keys_readable [OF assms] assms plain_names
  by (auto simp: config_keys_def chosen_def config_ok_def TOKEN_MAX_def LABEL_MAX_def PATH_MAX_def DEVICE_ID_MAX_def clean_def)

lemma keys_readable_nx:
  assumes "config_ok cfg"
  shows "list_all (\<lambda>(k, v). plain_name k \<and> clean v \<and> length k + length v < 508) (chosen (head_keys cfg @ nx_config_keys cfg))"
  using keys_readable [OF assms] assms plain_names
  by (auto simp: nx_config_keys_def chosen_def config_ok_def TOKEN_MAX_def LABEL_MAX_def PATH_MAX_def DEVICE_ID_MAX_def)

lemma config_fits:
  assumes "config_ok cfg"
  shows "strlcpy_void 256 (cf_server_url cfg) = cf_server_url cfg" "strip_slashes (cf_server_url cfg) = cf_server_url cfg"
    "strlcpy_void TOKEN_MAX (cf_token cfg) = cf_token cfg" "strlcpy_void LABEL_MAX (cf_device_label cfg) = cf_device_label cfg"
    "strlcpy_void PATH_MAX (cf_ca_bundle cfg) = cf_ca_bundle cfg" "strlcpy_void DEVICE_ID_MAX (cf_device_id cfg) = cf_device_id cfg"
    "strlcpy_void 12 (cf_language cfg) = cf_language cfg" "first_char (cf_device_label cfg) \<noteq> NUL"
    "daemoon_utf8_valid (Some (cf_device_label cfg))"
    "cf_language cfg \<noteq> [] \<longrightarrow> fst (daemoon_i18n_language_from_code (Some (cf_language cfg)) 0) = OK"
  using assms by (simp_all add: config_ok_def strlcpy_void_fits first_char_clean)

lemma pairs_3ds:
  assumes "config_ok cfg"
  shows "foldl (\<lambda>u (t, k, v). if t then config_pair u k v else u) daemoon_3ds_config_defaults (head_keys cfg @ config_keys cfg) =
    cfg\<lparr>cf_token := if cf_token_on_card cfg then cf_token cfg else [], cf_token_on_card := False\<rparr>"
  using config_fits [OF assms]
  by (auto intro!: config.equality simp: head_keys_def config_keys_def config_pair_def daemoon_3ds_config_defaults_def first_char_def)

lemma pairs_nx:
  assumes "config_ok cfg"
  shows "foldl (\<lambda>u (t, k, v). if t then nx_config_pair u k v else u) daemoon_nx_config_defaults (head_keys cfg @ nx_config_keys cfg) = cfg"
  using config_fits [OF assms]
  by (auto intro!: nx_config.equality simp: head_keys_def nx_config_keys_def nx_config_pair_def daemoon_nx_config_defaults_def)

lemma load_3ds_back:
  assumes "config_ok cfg" "cd_faults c = []" "node_at c path = Some (Data (file_of (head_keys cfg @ config_keys cfg)))"
  shows "\<exists>c'. daemoon_3ds_config_load path c =
    ((OK, cfg\<lparr>cf_token := if cf_token_on_card cfg then cf_token cfg else [], cf_token_on_card := False\<rparr>), c')"
  using read_lines_back [OF assms(2,3) keys_readable_3ds [OF assms(1)], of config_pair daemoon_3ds_config_defaults]
  by (simp add: daemoon_3ds_config_load_def foldl_chosen pairs_3ds [OF assms(1)] del: foldl_append)

lemma load_nx_back:
  assumes "config_ok cfg" "cd_faults c = []" "node_at c path = Some (Data (file_of (head_keys cfg @ nx_config_keys cfg)))"
  shows "\<exists>c'. daemoon_nx_config_load path c = ((OK, cfg), c')"
  using read_lines_back [OF assms(2,3) keys_readable_nx [OF assms(1)], of nx_config_pair daemoon_nx_config_defaults]
  by (simp add: daemoon_nx_config_load_def foldl_chosen pairs_nx [OF assms(1)] del: foldl_append)

section \<open>An example\<close>

definition example_config :: config where
  "example_config = \<lparr>cf_server_url = ''https://h'', cf_token = ''t'', cf_device_label = ''3DS'', cf_ca_bundle = [],
    cf_device_id = ''d'', cf_language = [], cf_token_on_card = False, cf_welcomed = True, cf_autosync = False\<rparr>"

lemma example_config_ok: "config_ok example_config"
proof -
  have "daemoon_utf8_valid (Some ''3DS'')"
    by (simp add: daemoon_utf8_valid_def utf8_valid_loop.simps seq_len_def utf8_lead_def utf8_overlong_def
        utf8_out_of_range_def u8_def)
  moreover have "clean ''https://h''" "clean ''t''" "clean ''3DS''" "clean ''d''" "clean []"
    by (simp_all add: clean_def)
  moreover have "strip_slashes ''https://h'' = ''https://h''" by (simp add: strip_slashes_def)
  ultimately show ?thesis
    by (simp add: config_ok_def example_config_def TOKEN_MAX_def LABEL_MAX_def PATH_MAX_def DEVICE_ID_MAX_def)
qed

lemma example_config_saved: "\<exists>c. daemoon_3ds_config_save ''d/c'' example_config blank_card = (OK, c) \<and> cd_faults c = []"
proof -
  have "case daemoon_3ds_config_save ''d/c'' example_config blank_card of (r, c) \<Rightarrow> r = OK \<and> cd_faults c = []" by code_simp
  then show ?thesis by (auto split: prod.splits)
qed

section \<open>Properties\<close>

text \<open>C11 The settings of a console survive on its card. At every moment of a save, whatever fails, the file is the
  old one, the complete new one, or missing; and after a save that reported success the file is read back as the settings
  that were saved, for every setting that fits its field, except that a 3DS leaves out a token that is kept in
  its save archive, and forgets where it was kept.\<close>
theorem config_survives:
  assumes "nul_free path" "config_ok cfg" "daemoon_3ds_config_save path cfg c = (r, c')"
  shows "(\<exists>log. cd_log c' = log @ cd_log c \<and> (\<forall>ns \<in> set (cd_nodes c' # log).
        map_of ns path \<in> {node_at c path, None, Some (Data (file_of (head_keys cfg @ config_keys cfg)))})) \<and>
    (r = OK \<and> cd_faults c' = [] \<longrightarrow> (\<exists>c''. daemoon_3ds_config_load path c' =
      ((OK, cfg\<lparr>cf_token := if cf_token_on_card cfg then cf_token cfg else [], cf_token_on_card := False\<rparr>), c'')))"
proof -
  have "went path {node_at c path, None, Some (Data (file_of (head_keys cfg @ config_keys cfg)))} c c' \<and>
      (r = OK \<longrightarrow> node_at c' path = Some (Data (file_of (head_keys cfg @ config_keys cfg))))"
    using config_write_swap [of path "config_head cfg" "config_extra cfg" c r c'] assms(1,3)
    unfolding daemoon_3ds_config_save_def config_files(1) by blast
  with load_3ds_back [OF assms(2), of c' path] show ?thesis by (auto simp: went_def)
qed

theorem config_survives_witness:
  "\<exists>c c''. daemoon_3ds_config_load ''d/c'' (c :: card) = ((OK, example_config\<lparr>cf_token := []\<rparr>), c'')"
proof -
  obtain c where "daemoon_3ds_config_save ''d/c'' example_config blank_card = (OK, c)" "cd_faults c = []"
    using example_config_saved by blast
  with config_survives [OF _ example_config_ok this(1)] show ?thesis by (auto simp: example_config_def)
qed

text \<open>C12 A token that the save archive keeps is not on the card: nothing a save of the settings does to the card,
  at any moment and whatever fails, depends on the token. Therefore a console that starts from the file alone
  has no token and cannot synchronise until it has read the archive.\<close>
theorem token_off_card:
  assumes "\<not> cf_token_on_card cfg" "nul_free path" "config_ok cfg"
  shows "daemoon_3ds_config_save path cfg c = daemoon_3ds_config_save path (cfg\<lparr>cf_token := t\<rparr>) c \<and>
    (\<forall>c'. daemoon_3ds_config_save path cfg c = (OK, c') \<and> cd_faults c' = [] \<longrightarrow>
      \<not> daemoon_3ds_config_can_sync (snd (fst (daemoon_3ds_config_load path c'))))"
proof (intro conjI allI impI)
  have head: "config_head (cfg\<lparr>cf_token := t\<rparr>) = config_head cfg" by (simp add: config_head_def)
  have extra: "print_extra h (config_extra (cfg\<lparr>cf_token := t\<rparr>)) ok = print_extra h (config_extra cfg) ok" for h ok
    using assms(1) by (cases ok) (simp_all add: config_extra_def print_if_def c_seq_def c_ret_def)
  show "daemoon_3ds_config_save path cfg c = daemoon_3ds_config_save path (cfg\<lparr>cf_token := t\<rparr>) c"
    unfolding daemoon_3ds_config_save_def config_write_def head extra ..
next
  fix c' assume saved: "daemoon_3ds_config_save path cfg c = (OK, c') \<and> cd_faults c' = []"
  have "node_at c' path = Some (Data (file_of (head_keys cfg @ config_keys cfg)))"
    using config_write_swap [of path "config_head cfg" "config_extra cfg" c OK c'] assms(2) saved
    unfolding daemoon_3ds_config_save_def config_files(1) by blast
  with load_3ds_back [OF assms(3), of c' path] saved assms(1) obtain d where
    "daemoon_3ds_config_load path c' = ((OK, cfg\<lparr>cf_token := [], cf_token_on_card := False\<rparr>), d)" by auto
  then show "\<not> daemoon_3ds_config_can_sync (snd (fst (daemoon_3ds_config_load path c')))"
    by (simp add: daemoon_3ds_config_can_sync_def)
qed

theorem token_off_card_witness:
  "daemoon_3ds_config_save ''d/c'' example_config blank_card = daemoon_3ds_config_save ''d/c'' (example_config\<lparr>cf_token := ''x''\<rparr>) blank_card"
  using token_off_card [OF _ _ example_config_ok, of "''d/c''" blank_card "''x''"] by (simp add: example_config_def)

text \<open>The Switch writes and reads its settings the same way, the token included.\<close>

lemma nx_config_survives:
  assumes "nul_free path" "config_ok cfg" "daemoon_nx_config_save path cfg c = (OK, c')" "cd_faults c' = []"
  shows "\<exists>c''. daemoon_nx_config_load path c' = ((OK, cfg), c'')"
  using config_write_swap [of path "config_head cfg" "nx_config_extra cfg" c OK c'] assms load_nx_back [OF assms(2), of c' path]
  unfolding daemoon_nx_config_save_def config_files(2) by blast

end
