(* ===== verification/Runs.thy ===== *)
theory Runs
  imports Console Guarantees Config
begin

text \<open>
  The screens of the 3DS build that run the engine over whole libraries: the sync at startup
  (\<open>platform/3ds/source/autosync.c\<close>), the run a person starts (\<open>batch.c\<close>), the first run
  (\<open>welcome.c\<close>), and what \<open>main.c\<close> lends them. A screen is drawn and read through a record of the
  console's services (\<open>screen\<close>): whether the application goes on, the keys, one frame with the
  texts on it, a line in the trace. Where things are on the screen is left out.
\<close>

section \<open>The console around the program\<close>

datatype key = KEY_A | KEY_B | KEY_X | KEY_Y | KEY_L | KEY_R | KEY_START | KEY_UP | KEY_DOWN | KEY_LEFT | KEY_RIGHT

record 'w screen =
  sc_main_loop :: "'w \<Rightarrow> bool \<times> 'w"
  sc_keys_down :: "'w \<Rightarrow> key set \<times> 'w"
  sc_keys_held :: "'w \<Rightarrow> key set \<times> 'w"
  sc_frame :: "str_id list \<Rightarrow> bytes list \<Rightarrow> 'w \<Rightarrow> unit \<times> 'w"
  sc_trace :: "bytes \<Rightarrow> bytes option \<Rightarrow> 'w \<Rightarrow> unit \<times> 'w"

definition aptMainLoop :: "'w screen \<Rightarrow> ('w, bool) prog" where
  "aptMainLoop sc = call_io (sc_main_loop sc)"

definition hidKeysDown :: "'w screen \<Rightarrow> ('w, key set) prog" where
  "hidKeysDown sc = call_io (sc_keys_down sc)"

definition hidKeysHeld :: "'w screen \<Rightarrow> ('w, key set) prog" where
  "hidKeysHeld sc = call_io (sc_keys_held sc)"

text \<open>One frame with these messages and these texts on it.\<close>

definition draw :: "'w screen \<Rightarrow> str_id list \<Rightarrow> bytes list \<Rightarrow> ('w, unit) prog" where
  "draw sc ids texts = call_io (sc_frame sc ids texts)"

definition trace :: "'w screen \<Rightarrow> bytes \<Rightarrow> bytes option \<Rightarrow> ('w, unit) prog" where
  "trace sc step detail = call_io (sc_trace sc step detail)"

text \<open>A message with arguments, in a buffer of \<open>cap\<close> bytes.\<close>

definition strf_text :: "lang_table \<Rightarrow> lang \<Rightarrow> nat \<Rightarrow> str_id \<Rightarrow> bytes list \<Rightarrow> bytes" where
  "strf_text tbl lg cap sid args = the (snd (daemoon_strf tbl lg (Some []) cap sid (map Some args)))"

abbreviation (input) STR_AUTOSYNC_TITLE :: str_id where "STR_AUTOSYNC_TITLE \<equiv> 8"
abbreviation (input) STR_AUTOSYNC_STARTING :: str_id where "STR_AUTOSYNC_STARTING \<equiv> 7"
abbreviation (input) STR_AUTOSYNC_NETWORK :: str_id where "STR_AUTOSYNC_NETWORK \<equiv> 3"
abbreviation (input) STR_AUTOSYNC_NO_NETWORK :: str_id where "STR_AUTOSYNC_NO_NETWORK \<equiv> 4"
abbreviation (input) STR_AUTOSYNC_RETURNING :: str_id where "STR_AUTOSYNC_RETURNING \<equiv> 6"
abbreviation (input) STR_AUTOSYNC_LEFT :: str_id where "STR_AUTOSYNC_LEFT \<equiv> 2"
abbreviation (input) STR_AUTOSYNC_NOTHING :: str_id where "STR_AUTOSYNC_NOTHING \<equiv> 5"
abbreviation (input) STR_SYNC_RESULT :: str_id where "STR_SYNC_RESULT \<equiv> 155"
abbreviation (input) STR_BATCH_EMPTY :: str_id where "STR_BATCH_EMPTY \<equiv> 23"
abbreviation (input) STR_BATCH_TITLE :: str_id where "STR_BATCH_TITLE \<equiv> 37"
abbreviation (input) STR_BATCH_POLICY :: str_id where "STR_BATCH_POLICY \<equiv> 26"
abbreviation (input) STR_ERR_NO_SERVER :: str_id where "STR_ERR_NO_SERVER \<equiv> 67"
abbreviation (input) STR_BATCH_CONFIRM_SYNC_SERVER :: str_id where "STR_BATCH_CONFIRM_SYNC_SERVER \<equiv> 22"
abbreviation (input) STR_BATCH_CONFIRM_SYNC :: str_id where "STR_BATCH_CONFIRM_SYNC \<equiv> 21"
abbreviation (input) STR_BATCH_CONFIRM_BACKUP :: str_id where "STR_BATCH_CONFIRM_BACKUP \<equiv> 20"
abbreviation (input) STR_BATCH_STOPPED :: str_id where "STR_BATCH_STOPPED \<equiv> 34"
abbreviation (input) STR_BATCH_RUNNING :: str_id where "STR_BATCH_RUNNING \<equiv> 33"
abbreviation (input) STR_BATCH_BACKUP_DONE :: str_id where "STR_BATCH_BACKUP_DONE \<equiv> 18"
abbreviation (input) STR_WELCOME_TITLE :: str_id where "STR_WELCOME_TITLE \<equiv> 180"
abbreviation (input) STR_WELCOME_CONNECT :: str_id where "STR_WELCOME_CONNECT \<equiv> 167"
abbreviation (input) STR_WELCOME_READY :: str_id where "STR_WELCOME_READY \<equiv> 178"
abbreviation (input) STR_WELCOME_LATER :: str_id where "STR_WELCOME_LATER \<equiv> 171"
abbreviation (input) STR_BATCH_HINT :: str_id where "STR_BATCH_HINT \<equiv> 24"
abbreviation (input) STR_BATCH_HINT_RUNNING :: str_id where "STR_BATCH_HINT_RUNNING \<equiv> 25"
abbreviation (input) STR_WELCOME_CONNECT_HOW :: str_id where "STR_WELCOME_CONNECT_HOW \<equiv> 168"
abbreviation (input) STR_WELCOME_HINT_CHOOSE :: str_id where "STR_WELCOME_HINT_CHOOSE \<equiv> 169"
abbreviation (input) STR_WELCOME_HINT_INTRO :: str_id where "STR_WELCOME_HINT_INTRO \<equiv> 170"
abbreviation (input) STR_APP_TITLE :: str_id where "STR_APP_TITLE \<equiv> 0"

section \<open>The sync at startup\<close>

text \<open>\<open>ac_env\<close> is read through a pointer: it is the environment as it is at that moment.\<close>

record 'w autosync_ctx =
  ac_env :: "'w \<Rightarrow> 'w env"
  ac_when :: "(nat \<Rightarrow> ('w, bytes) prog) option"
  ac_count :: "nat \<Rightarrow> ('w, nat) prog"
  ac_name :: "nat \<Rightarrow> nat \<Rightarrow> ('w, bytes) prog"
  ac_sync_one :: "nat \<Rightarrow> nat \<Rightarrow> sync_opts \<Rightarrow> sync_stats \<Rightarrow> ('w, result \<times> sync_stats) prog"
  ac_wait_for_network :: "('w, bool) prog"

definition AUTOSYNC_GRACE_FRAMES :: nat where "AUTOSYNC_GRACE_FRAMES = 180"
definition AUTOSYNC_LINGER_SECS :: nat where "AUTOSYNC_LINGER_SECS = 5"
definition AUTOSYNC_REPORT :: bytes where "AUTOSYNC_REPORT = ''sdmc:/DaeMoon/autosync.txt''"

text \<open>\<open>n\<close> frames are left.\<close>

primrec grace_loop :: "'w screen \<Rightarrow> nat \<Rightarrow> ('w, bool) prog" where
  "grace_loop sc 0 = return_io True"
| "grace_loop sc (Suc n) =
    bind_io (aptMainLoop sc) (\<lambda>go.
    if \<not> go then return_io False
    else bind_io (hidKeysHeld sc) (\<lambda>held.
    if KEY_B \<in> held then return_io False
    else bind_io (draw sc [STR_AUTOSYNC_TITLE, STR_AUTOSYNC_STARTING] []) (\<lambda>_. grace_loop sc n)))"

definition grace_period :: "'w screen \<Rightarrow> ('w, bool) prog" where
  "grace_period sc = grace_loop sc AUTOSYNC_GRACE_FRAMES"

text \<open>Whether the wait goes on after \<open>n\<close> frames with this line at the bottom.\<close>

primrec linger_frames :: "'w screen \<Rightarrow> str_id \<Rightarrow> bytes list \<Rightarrow> nat \<Rightarrow> ('w, bool) prog" where
  "linger_frames sc body texts 0 = return_io True"
| "linger_frames sc body texts (Suc n) =
    bind_io (aptMainLoop sc) (\<lambda>go.
    if \<not> go then return_io False
    else bind_io (hidKeysDown sc) (\<lambda>down.
    if KEY_A \<in> down \<or> KEY_B \<in> down \<or> KEY_START \<in> down then return_io False
    else bind_io (draw sc [STR_AUTOSYNC_TITLE, body] texts) (\<lambda>_. linger_frames sc body texts n)))"

primrec linger_loop :: "'w screen \<Rightarrow> lang_table \<Rightarrow> lang \<Rightarrow> str_id \<Rightarrow> bytes list \<Rightarrow> nat \<Rightarrow> ('w, unit) prog" where
  "linger_loop sc tbl lg body detail 0 = return_io ()"
| "linger_loop sc tbl lg body detail (Suc secs) =
    bind_io (linger_frames sc body (detail @ [strf_text tbl lg 96 STR_AUTOSYNC_RETURNING [take 7 (dec (Suc secs))]]) 60) (\<lambda>go.
    if go then linger_loop sc tbl lg body detail secs else return_io ())"

definition linger :: "'w screen \<Rightarrow> lang_table \<Rightarrow> lang \<Rightarrow> str_id \<Rightarrow> bytes option \<Rightarrow> ('w, unit) prog" where
  "linger sc tbl lg body detail =
    linger_loop sc tbl lg body (case detail of None \<Rightarrow> [] | Some d \<Rightarrow> [d]) AUTOSYNC_LINGER_SECS"

text \<open>The titles of a library from index \<open>i\<close> on, of which \<open>n\<close> are left.\<close>

primrec autosync_titles ::
  "'w screen \<Rightarrow> 'w autosync_ctx \<Rightarrow> sync_opts \<Rightarrow> nat \<Rightarrow> nat \<Rightarrow> nat \<Rightarrow> autosync_report \<Rightarrow> ('w, autosync_report) prog" where
  "autosync_titles sc ctx opts library 0 i rep = return_io rep"
| "autosync_titles sc ctx opts library (Suc n) i rep =
    bind_io (aptMainLoop sc) (\<lambda>go.
    if \<not> go then bind_io (trace sc ''autosync/interrupted'' None) (\<lambda>_. return_io rep)
    else bind_io (ac_name ctx library i) (\<lambda>name.
    bind_io (draw sc [STR_AUTOSYNC_TITLE, STR_AUTOSYNC_TITLE] [name]) (\<lambda>_.
    bind_io (ac_sync_one ctx library i opts (ar_sync rep)) (\<lambda>(r, stats).
    let rep = rep\<lparr>ar_sync := stats, ar_titles := bump (ar_titles rep)\<rparr>;
        rep = (if r \<noteq> OK \<and> r \<noteq> ERR_USER_CANCELLED then rep\<lparr>ar_failed := bump (ar_failed rep)\<rparr> else rep)
    in autosync_titles sc ctx opts library n (Suc i) rep))))"

primrec autosync_libraries ::
  "'w screen \<Rightarrow> 'w autosync_ctx \<Rightarrow> sync_opts \<Rightarrow> nat list \<Rightarrow> autosync_report \<Rightarrow> ('w, autosync_report) prog" where
  "autosync_libraries sc ctx opts [] rep = return_io rep"
| "autosync_libraries sc ctx opts (library # ls) rep =
    bind_io (ac_count ctx library) (\<lambda>count.
    bind_io (autosync_titles sc ctx opts library count 0 rep) (\<lambda>rep. autosync_libraries sc ctx opts ls rep))"

definition no_stats :: sync_stats where
  "no_stats = \<lparr>ss_uploaded = 0, ss_downloaded = 0, ss_skipped = 0, ss_conflicts = 0, ss_failed = 0\<rparr>"

text \<open>The summary of the run, in a buffer of 192 bytes.\<close>

definition autosync_detail :: "lang_table \<Rightarrow> lang \<Rightarrow> sync_stats \<Rightarrow> bytes" where
  "autosync_detail tbl lg s =
    (let detail = strf_text tbl lg 192 STR_SYNC_RESULT
           (map (\<lambda>n. take 11 (dec n)) [ss_uploaded s, ss_downloaded s, ss_skipped s, ss_conflicts s])
     in if ss_conflicts s > 0
        then take 191 (detail @ CHR 0x0a # strf_text tbl lg 128 STR_AUTOSYNC_LEFT [take 11 (dec (ss_conflicts s))])
        else detail)"

definition report_run :: "'w autosync_ctx \<Rightarrow> bytes \<Rightarrow> autosync_report \<Rightarrow> ('w, result) prog" where
  "report_run ctx when rep =
    (\<lambda>w. daemoon_3ds_autosync_write_report (ac_env ctx w) AUTOSYNC_REPORT (Some when) rep w)"

definition daemoon_3ds_autosync_run ::
  "'w screen \<Rightarrow> lang_table \<Rightarrow> lang \<Rightarrow> 'w autosync_ctx \<Rightarrow> ('w, bool) prog" where
  "daemoon_3ds_autosync_run sc tbl lg ctx =
    bind_io (case ac_when ctx of None \<Rightarrow> return_io [] | Some when \<Rightarrow> when 40) (\<lambda>when.
    bind_io (trace sc ''autosync/begin'' None) (\<lambda>_.
    bind_io (grace_period sc) (\<lambda>go.
    if \<not> go then bind_io (trace sc ''autosync/cancelled'' None) (\<lambda>_. return_io False)
    else bind_io (draw sc [STR_AUTOSYNC_TITLE, STR_AUTOSYNC_NETWORK] []) (\<lambda>_.
    bind_io (ac_wait_for_network ctx) (\<lambda>network.
    let rep = \<lparr>ar_titles = 0, ar_sync = no_stats, ar_failed = 0, ar_network = network\<rparr> in
    if \<not> network then
      bind_io (trace sc ''autosync/no-network'' None) (\<lambda>_.
      bind_io (report_run ctx when rep) (\<lambda>_.
      bind_io (linger sc tbl lg STR_AUTOSYNC_NO_NETWORK None) (\<lambda>_. return_io True)))
    else
      bind_io (autosync_libraries sc ctx daemoon_3ds_autosync_opts [0, 1] rep) (\<lambda>rep.
      bind_io (trace sc ''autosync/done'' None) (\<lambda>_.
      bind_io (report_run ctx when rep) (\<lambda>wr.
      bind_io (trace sc ''autosync/report'' (Some (daemoon_result_code wr))) (\<lambda>_.
      bind_io (if ar_titles rep > 0 then linger sc tbl lg STR_AUTOSYNC_TITLE (Some (autosync_detail tbl lg (ar_sync rep)))
               else linger sc tbl lg STR_AUTOSYNC_NOTHING None) (\<lambda>_. return_io True)))))))))) "

section \<open>A run over the library\<close>

datatype accent = GFX_WARN | GFX_OK | GFX_DANGER | GFX_ACCENT | GFX_PANEL

record 'w batch_ctx =
  bc_count :: "nat \<Rightarrow> ('w, nat) prog"
  bc_name :: "nat \<Rightarrow> nat \<Rightarrow> ('w, bytes) prog"
  bc_backup_one :: "nat \<Rightarrow> nat \<Rightarrow> ('w, unit) prog"
  bc_sync_one :: "nat \<Rightarrow> nat \<Rightarrow> conflict_policy \<Rightarrow> ('w, unit) prog"
  bc_can_sync :: "('w, bool) prog"
  bc_confirm :: "str_ref \<Rightarrow> ('w, int) prog"
  bc_message :: "str_id \<Rightarrow> accent \<Rightarrow> ('w, unit) prog"

text \<open>The list with a cursor: whether it was left with A, and the cursor. A person may look at it for ever.\<close>

partial_function (option) pick_loop ::
  "'w screen \<Rightarrow> str_id \<Rightarrow> nat \<Rightarrow> (nat \<Rightarrow> str_id) \<Rightarrow> (nat \<Rightarrow> str_id) \<Rightarrow> nat \<Rightarrow> 'w \<Rightarrow> ((bool \<times> nat) \<times> 'w) option" where
  "pick_loop sc title cnt label hint selected w =
    Option.bind (aptMainLoop sc w) (\<lambda>(go, w).
    if \<not> go then Some ((False, selected), w)
    else Option.bind (hidKeysDown sc w) (\<lambda>(down, w).
    Option.bind (draw sc (title # hint selected # map label [0..<cnt] @ [STR_BATCH_HINT]) [] w) (\<lambda>(_, w).
    if KEY_B \<in> down then Some ((False, selected), w)
    else if KEY_A \<in> down then Some ((True, selected), w)
    else
      let selected = (if KEY_DOWN \<in> down then (selected + 1) mod cnt else selected);
          selected = (if KEY_UP \<in> down then (selected + cnt - 1) mod cnt else selected)
      in pick_loop sc title cnt label hint selected w)))"

definition batch_pick ::
  "'w screen \<Rightarrow> str_id \<Rightarrow> nat \<Rightarrow> (nat \<Rightarrow> str_id) \<Rightarrow> (nat \<Rightarrow> str_id) \<Rightarrow> nat \<Rightarrow> ('w, bool \<times> nat) prog" where
  "batch_pick sc title cnt label hint selected = pick_loop sc title cnt label hint selected"

definition draw_progress :: "'w screen \<Rightarrow> lang_table \<Rightarrow> lang \<Rightarrow> str_id \<Rightarrow> bytes \<Rightarrow> nat \<Rightarrow> nat \<Rightarrow> ('w, unit) prog" where
  "draw_progress sc tbl lg op name finished whole =
    draw sc [op, STR_BATCH_HINT_RUNNING] [strf_text tbl lg 64 STR_BATCH_RUNNING [take 11 (dec (to_uint finished)), take 11 (dec (to_uint whole))], name]"

text \<open>The titles of a library from \<open>i\<close> on: how many are finished, and whether the run was stopped.\<close>

primrec batch_titles ::
  "'w screen \<Rightarrow> lang_table \<Rightarrow> lang \<Rightarrow> 'w batch_ctx \<Rightarrow> nat \<Rightarrow> conflict_policy \<Rightarrow> nat \<Rightarrow> nat \<Rightarrow> nat \<Rightarrow> nat \<Rightarrow> nat \<Rightarrow>
    ('w, nat \<times> bool) prog" where
  "batch_titles sc tbl lg ctx op policy library whole 0 i finished = return_io (finished, False)"
| "batch_titles sc tbl lg ctx op policy library whole (Suc n) i finished =
    bind_io (hidKeysDown sc) (\<lambda>down.
    bind_io (if KEY_B \<in> down then return_io False else aptMainLoop sc) (\<lambda>go.
    if \<not> go then return_io (finished, True)
    else bind_io (bc_name ctx library i) (\<lambda>name.
    bind_io (draw_progress sc tbl lg (daemoon_3ds_batch_op_label op) name finished whole) (\<lambda>_.
    bind_io (if daemoon_3ds_batch_op_label op = STR_BATCH_SYNC then bc_sync_one ctx library i policy
             else bc_backup_one ctx library i) (\<lambda>_.
    batch_titles sc tbl lg ctx op policy library whole n (Suc i) (finished + 1))))))"

primrec batch_libraries ::
  "'w screen \<Rightarrow> lang_table \<Rightarrow> lang \<Rightarrow> 'w batch_ctx \<Rightarrow> nat \<Rightarrow> conflict_policy \<Rightarrow> nat \<Rightarrow> (nat \<times> nat) list \<Rightarrow> nat \<Rightarrow>
    ('w, bool) prog" where
  "batch_libraries sc tbl lg ctx op policy whole [] finished = return_io False"
| "batch_libraries sc tbl lg ctx op policy whole (x # xs) finished =
    bind_io (batch_titles sc tbl lg ctx op policy (fst x) whole (snd x) 0 finished) (\<lambda>(finished, stopped).
    if stopped then return_io True else batch_libraries sc tbl lg ctx op policy whole xs finished)"

text \<open>The question asked before anything runs.\<close>

definition batch_question :: "lang_table \<Rightarrow> lang \<Rightarrow> nat \<Rightarrow> nat \<Rightarrow> nat \<Rightarrow> conflict_policy \<Rightarrow> str_ref" where
  "batch_question tbl lg whole op policy_row policy =
    (let count_text = take 11 (dec (to_uint whole)) in
     if daemoon_3ds_batch_op_label op = STR_BATCH_SYNC then
       (if policy = POLICY_KEEP_SERVER then \<lparr>sr_id = STR_BATCH_CONFIRM_SYNC_SERVER, sr_args = [count_text]\<rparr>
        else \<lparr>sr_id = STR_BATCH_CONFIRM_SYNC, sr_args = [count_text, daemoon_str tbl lg (daemoon_3ds_batch_policy_label policy_row)]\<rparr>)
     else \<lparr>sr_id = STR_BATCH_CONFIRM_BACKUP, sr_args = [count_text]\<rparr>)"

text \<open>From the question on; \<open>counts\<close> are the libraries and their sizes.\<close>

definition batch_confirmed ::
  "'w screen \<Rightarrow> lang_table \<Rightarrow> lang \<Rightarrow> 'w batch_ctx \<Rightarrow> nat \<Rightarrow> nat \<Rightarrow> conflict_policy \<Rightarrow> (nat \<times> nat) list \<Rightarrow> nat \<Rightarrow> ('w, int) prog" where
  "batch_confirmed sc tbl lg ctx op policy_row policy counts whole =
    bind_io (bc_confirm ctx (batch_question tbl lg whole op policy_row policy)) (\<lambda>yes.
    if yes = 0 then return_io 0
    else bind_io (trace sc ''batch/begin'' (Some (if daemoon_3ds_batch_op_label op = STR_BATCH_SYNC then ''sync'' else ''backup''))) (\<lambda>_.
    bind_io (batch_libraries sc tbl lg ctx op policy whole counts 0) (\<lambda>stopped.
    bind_io (trace sc ''batch/done'' (Some (if stopped then ''stopped'' else ''all''))) (\<lambda>_.
    bind_io (if stopped then bc_message ctx STR_BATCH_STOPPED GFX_WARN else return_io ()) (\<lambda>_. return_io 1)))))"

text \<open>From what the two lists were left with: the policy, and before it the operation.\<close>

definition batch_with_policy ::
  "'w screen \<Rightarrow> lang_table \<Rightarrow> lang \<Rightarrow> 'w batch_ctx \<Rightarrow> nat \<Rightarrow> (nat \<times> nat) list \<Rightarrow> nat \<Rightarrow> bool \<times> nat \<Rightarrow> ('w, int) prog" where
  "batch_with_policy sc tbl lg ctx op counts whole = (\<lambda>(chosen, policy_row).
    if \<not> chosen then return_io 0
    else batch_confirmed sc tbl lg ctx op policy_row (daemoon_3ds_batch_policy policy_row) counts whole)"

definition batch_with_op ::
  "'w screen \<Rightarrow> lang_table \<Rightarrow> lang \<Rightarrow> 'w batch_ctx \<Rightarrow> (nat \<times> nat) list \<Rightarrow> nat \<Rightarrow> bool \<times> nat \<Rightarrow> ('w, int) prog" where
  "batch_with_op sc tbl lg ctx counts whole = (\<lambda>(chosen, op).
    if \<not> chosen then return_io 0
    else if daemoon_3ds_batch_op_label op = STR_BATCH_SYNC then
      bind_io (bc_can_sync ctx) (\<lambda>can.
      if \<not> can then bind_io (bc_message ctx STR_ERR_NO_SERVER GFX_WARN) (\<lambda>_. return_io 0)
      else bind_io (batch_pick sc STR_BATCH_POLICY daemoon_3ds_batch_policies daemoon_3ds_batch_policy_label daemoon_3ds_batch_policy_hint 0)
        (batch_with_policy sc tbl lg ctx op counts whole))
    else batch_confirmed sc tbl lg ctx op 0 POLICY_ASK counts whole)"

definition daemoon_3ds_batch_run :: "'w screen \<Rightarrow> lang_table \<Rightarrow> lang \<Rightarrow> 'w batch_ctx \<Rightarrow> ('w, int) prog" where
  "daemoon_3ds_batch_run sc tbl lg ctx =
    bind_io (bc_count ctx 0) (\<lambda>count0.
    bind_io (bc_count ctx 1) (\<lambda>count1.
    if count0 + count1 = 0 then bind_io (bc_message ctx STR_BATCH_EMPTY GFX_WARN) (\<lambda>_. return_io 0)
    else bind_io (batch_pick sc STR_BATCH_TITLE daemoon_3ds_batch_ops daemoon_3ds_batch_op_label daemoon_3ds_batch_op_hint 0)
      (batch_with_op sc tbl lg ctx [(0, count0), (1, count1)] (count0 + count1))))"

section \<open>The first run\<close>

record 'w welcome_actions =
  wa_pair_qr :: "('w, bool) prog option"
  wa_pair_manual :: "('w, bool) prog option"

abbreviation (input) WELCOME_QR :: nat where "WELCOME_QR \<equiv> 0"
abbreviation (input) WELCOME_MANUAL :: nat where "WELCOME_MANUAL \<equiv> 1"
abbreviation (input) WELCOME_LATER :: nat where "WELCOME_LATER \<equiv> 2"

partial_function (option) welcome_intro_loop :: "'w screen \<Rightarrow> nat \<Rightarrow> 'w \<Rightarrow> (bool \<times> 'w) option" where
  "welcome_intro_loop sc page w =
    Option.bind (aptMainLoop sc w) (\<lambda>(go, w).
    if \<not> go then Some (False, w)
    else Option.bind (hidKeysDown sc w) (\<lambda>(down, w).
    Option.bind (draw sc [STR_WELCOME_TITLE, daemoon_3ds_welcome_page page, STR_WELCOME_HINT_INTRO] [] w) (\<lambda>(_, w).
    if KEY_START \<in> down then Some (False, w)
    else if KEY_A \<in> down \<and> page + 1 \<ge> daemoon_3ds_welcome_pages then Some (True, w)
    else
      let page = (if KEY_A \<in> down then page + 1 else page);
          page = (if KEY_B \<in> down \<and> page > 0 then page - 1 else page)
      in welcome_intro_loop sc page w)))"

definition welcome_intro :: "'w screen \<Rightarrow> ('w, bool) prog" where
  "welcome_intro sc = welcome_intro_loop sc 0"

partial_function (option) welcome_choose_loop :: "'w screen \<Rightarrow> nat \<Rightarrow> nat \<Rightarrow> 'w \<Rightarrow> (nat \<times> 'w) option" where
  "welcome_choose_loop sc cnt selected w =
    Option.bind (aptMainLoop sc w) (\<lambda>(go, w).
    if \<not> go then Some (cnt - 1, w)
    else Option.bind (hidKeysDown sc w) (\<lambda>(down, w).
    Option.bind (draw sc ([STR_WELCOME_CONNECT, STR_WELCOME_CONNECT_HOW, daemoon_3ds_welcome_choice_hint selected] @
      map daemoon_3ds_welcome_choice_label [0..<cnt] @ [STR_WELCOME_HINT_CHOOSE]) [] w) (\<lambda>(_, w).
    if KEY_START \<in> down then Some (cnt - 1, w)
    else if KEY_A \<in> down then Some (selected, w)
    else
      let selected = (if KEY_DOWN \<in> down then (selected + 1) mod cnt else selected);
          selected = (if KEY_UP \<in> down then (selected + cnt - 1) mod cnt else selected)
      in welcome_choose_loop sc cnt selected w)))"

definition welcome_choose :: "'w screen \<Rightarrow> ('w, nat) prog" where
  "welcome_choose sc = welcome_choose_loop sc daemoon_3ds_welcome_choices 0"

text \<open>The body of the loop: the pairing the choice stands for, or what it was before.\<close>

definition welcome_try :: "'w welcome_actions \<Rightarrow> nat \<Rightarrow> bool \<Rightarrow> ('w, bool) prog" where
  "welcome_try acts choice paired =
    (case (if choice = WELCOME_QR then wa_pair_qr acts else None) of Some pair \<Rightarrow> pair
     | None \<Rightarrow>
        (case (if choice = WELCOME_MANUAL then wa_pair_manual acts else None) of Some pair \<Rightarrow> pair
         | None \<Rightarrow> return_io paired))"

partial_function (option) welcome_loop :: "'w screen \<Rightarrow> 'w welcome_actions \<Rightarrow> bool \<Rightarrow> 'w \<Rightarrow> (bool \<times> 'w) option" where
  "welcome_loop sc acts paired w =
    Option.bind (welcome_choose sc w) (\<lambda>(choice, w).
    if choice = WELCOME_LATER then Option.bind (trace sc ''welcome/later'' None w) (\<lambda>(_, w). Some (paired, w))
    else Option.bind (welcome_try acts choice paired w) (\<lambda>(paired, w).
    if paired then Some (paired, w)
    else Option.bind (trace sc ''welcome/retry'' None w) (\<lambda>(_, w). welcome_loop sc acts paired w)))"

definition daemoon_3ds_welcome_run :: "'w screen \<Rightarrow> 'w welcome_actions \<Rightarrow> ('w, bool) prog" where
  "daemoon_3ds_welcome_run sc acts =
    bind_io (trace sc ''welcome/begin'' None) (\<lambda>_.
    bind_io (welcome_intro sc) (\<lambda>go.
    if \<not> go then bind_io (trace sc ''welcome/skipped'' None) (\<lambda>_. return_io False)
    else bind_io (welcome_loop sc acts False) (\<lambda>paired.
    bind_io (trace sc ''welcome/done'' (Some (if paired then ''paired'' else ''later''))) (\<lambda>_. return_io paired))))"

section \<open>What the runs leave alone\<close>

definition quiet_screen :: "('w \<Rightarrow> bool) \<Rightarrow> 'w screen \<Rightarrow> bool" where
  "quiet_screen I sc \<longleftrightarrow>
    (\<forall>w. I w \<longrightarrow> I (snd (sc_main_loop sc w)) \<and> I (snd (sc_keys_down sc w)) \<and> I (snd (sc_keys_held sc w))) \<and>
    (\<forall>ids texts w. I w \<longrightarrow> I (snd (sc_frame sc ids texts w))) \<and> (\<forall>step detail w. I w \<longrightarrow> I (snd (sc_trace sc step detail w)))"

lemma safe_or: "safe I m \<Longrightarrow> safe (\<lambda>w. I w \<or> P) m"
  by (cases P) (auto simp: keeps_def)

lemma quiet_screen_or: "quiet_screen I sc \<Longrightarrow> quiet_screen (\<lambda>w. I w \<or> P) sc"
  by (auto simp: quiet_screen_def)

lemma safe_screen [keeps_intros]:
  assumes "quiet_screen I sc"
  shows "safe I (aptMainLoop sc)" "safe I (hidKeysDown sc)" "safe I (hidKeysHeld sc)" "safe I (draw sc ids texts)"
    "safe I (trace sc step detail)"
  using assms
  by (auto simp: aptMainLoop_def hidKeysDown_def hidKeysHeld_def draw_def trace_def quiet_screen_def intro!: keeps_call)

text \<open>The same for the loops that end when a person says so, which are written with \<open>Option.bind\<close>.\<close>

definition lands :: "('w \<Rightarrow> bool) \<Rightarrow> ('a \<times> 'w) option \<Rightarrow> bool" where
  "lands I x \<longleftrightarrow> (\<forall>a w. x = Some (a, w) \<longrightarrow> I w)"

lemma lands_Some: "I w \<Longrightarrow> lands I (Some (a, w))"
  by (simp add: lands_def)

lemma lands_bind:
  assumes "safe I m" "I w" "\<And>a w. I w \<Longrightarrow> lands I (f a w)"
  shows "lands I (Option.bind (m w) (\<lambda>(a, w). f a w))"
proof (cases "m w")
  case None
  then show ?thesis by (simp add: lands_def)
next
  case (Some x)
  obtain a w' where "x = (a, w')" by (cases x)
  with Some assms keepsD [OF assms(1,2)] show ?thesis by simp
qed

lemma lands_if: "(c \<Longrightarrow> lands I x) \<Longrightarrow> (\<not> c \<Longrightarrow> lands I y) \<Longrightarrow> lands I (if c then x else y)"
  by simp

lemma landsD: "x = Some y \<Longrightarrow> lands I x \<Longrightarrow> I (snd y)"
  by (cases y) (simp add: lands_def)

lemma landsI: "(\<And>a w. x = Some (a, w) \<Longrightarrow> I w) \<Longrightarrow> lands I x"
  by (simp add: lands_def)

lemmas lands_intros = lands_Some lands_bind lands_if

text \<open>And about what such a loop ends with.\<close>

definition ends :: "('a \<Rightarrow> bool) \<Rightarrow> ('a \<times> 'w) option \<Rightarrow> bool" where
  "ends P x \<longleftrightarrow> (\<forall>a w. x = Some (a, w) \<longrightarrow> P a)"

lemma ends_Some: "P a \<Longrightarrow> ends P (Some (a, w))"
  by (simp add: ends_def)

lemma ends_bind: "(\<And>a w'. m w = Some (a, w') \<Longrightarrow> ends P (f a w')) \<Longrightarrow> ends P (Option.bind (m w) (\<lambda>(a, w). f a w))"
  by (cases "m w") (auto simp: ends_def)

lemma ends_if: "(c \<Longrightarrow> ends P x) \<Longrightarrow> (\<not> c \<Longrightarrow> ends P y) \<Longrightarrow> ends P (if c then x else y)"
  by simp

lemma endsD: "x = Some y \<Longrightarrow> ends P x \<Longrightarrow> P (fst y)"
  by (cases y) (simp add: ends_def)

lemmas ends_intros = ends_Some ends_bind ends_if

lemma safe_grace [keeps_intros]: "quiet_screen I sc \<Longrightarrow> safe I (grace_loop sc n)"
  and safe_linger_frames [keeps_intros]: "quiet_screen I sc \<Longrightarrow> safe I (linger_frames sc body texts n)"
  by (induction n) (auto intro!: keeps_intros)

lemma safe_linger_loop [keeps_intros]: "quiet_screen I sc \<Longrightarrow> safe I (linger_loop sc tbl lg body texts n)"
  by (induction n) (auto intro!: keeps_intros)

lemma safe_linger [keeps_intros]: "quiet_screen I sc \<Longrightarrow> safe I (linger sc tbl lg body detail)"
  unfolding linger_def by (rule safe_linger_loop)

lemma safe_pick_loop [keeps_intros]:
  assumes "quiet_screen I sc"
  shows "safe I (pick_loop sc title cnt label hint selected)"
proof (rule safe_loop)
  fix w a w'
  assume I: "I w" and run: "pick_loop sc title cnt label hint selected w = Some (a, w')"
  have "quiet_screen I sc \<longrightarrow> I w \<longrightarrow> I (snd y)" if "pick_loop sc title cnt label hint selected w = Some y" for y
    using that
  proof (induction sc title cnt label hint selected w y rule: pick_loop.raw_induct [rotated 1, consumes 1, case_names step])
    case (step loop sc title cnt label hint selected w y)
    show ?case
    proof (intro impI)
      assume hyps: "quiet_screen I sc" "I w"
      have again: "I w \<Longrightarrow> lands I (loop sc title cnt label hint s w)" for s w
        using step(1) hyps(1) by (fastforce intro: landsI)
      show "I (snd y)"
        by (rule landsD [OF step(2)]) (auto intro!: lands_intros safe_screen hyps again simp: Let_def)
    qed
  qed
  with I run assms show "I w'" by fastforce
qed


lemma safe_batch_pick [keeps_intros]: "quiet_screen I sc \<Longrightarrow> safe I (batch_pick sc title cnt label hint selected)"
  unfolding batch_pick_def by (rule safe_pick_loop)

lemma safe_report [keeps_intros]: "\<forall>w. quiet I (ac_env ctx w) \<Longrightarrow> safe I (report_run ctx when rep)"
proof (rule safe_loop)
  fix w a w'
  assume "\<forall>w. quiet I (ac_env ctx w)" "I w" "report_run ctx when rep w = Some (a, w')"
  moreover have "safe I (daemoon_3ds_autosync_write_report (ac_env ctx w) AUTOSYNC_REPORT (Some when) rep)"
    if "quiet I (ac_env ctx w)"
    unfolding daemoon_3ds_autosync_write_report_def using that by (auto intro!: keeps_intros)
  ultimately show "I w'" by (metis report_run_def keepsD)
qed

text \<open>What a run borrows keeps \<open>I\<close>, except for synchronising a title.\<close>

definition quiet_autosync :: "('w \<Rightarrow> bool) \<Rightarrow> 'w autosync_ctx \<Rightarrow> bool" where
  "quiet_autosync I ctx \<longleftrightarrow>
    (\<forall>w. quiet I (ac_env ctx w)) \<and> (\<forall>when n. ac_when ctx = Some when \<longrightarrow> safe I (when n)) \<and>
    (\<forall>l. safe I (ac_count ctx l)) \<and> (\<forall>l i. safe I (ac_name ctx l i)) \<and> safe I (ac_wait_for_network ctx)"

definition quiet_batch :: "('w \<Rightarrow> bool) \<Rightarrow> 'w batch_ctx \<Rightarrow> bool" where
  "quiet_batch I ctx \<longleftrightarrow>
    (\<forall>l. safe I (bc_count ctx l)) \<and> (\<forall>l i. safe I (bc_name ctx l i)) \<and> (\<forall>l i. safe I (bc_backup_one ctx l i)) \<and>
    safe I (bc_can_sync ctx) \<and> (\<forall>q. safe I (bc_confirm ctx q)) \<and> (\<forall>m a. safe I (bc_message ctx m a))"

lemma quiet_run_or:
  "quiet_autosync I ctx \<Longrightarrow> quiet_autosync (\<lambda>w. I w \<or> P) ctx" "quiet_batch I bctx \<Longrightarrow> quiet_batch (\<lambda>w. I w \<or> P) bctx"
  by (simp_all add: quiet_autosync_def quiet_batch_def quiet_or safe_or)

text \<open>Synchronising one title of these libraries destroys \<open>I\<close>.\<close>

definition title_broke :: "('w \<Rightarrow> bool) \<Rightarrow> (nat \<Rightarrow> nat \<Rightarrow> 'a \<Rightarrow> ('w, 'b) prog) \<Rightarrow> nat set \<Rightarrow> bool" where
  "title_broke I one libs \<longleftrightarrow> (\<exists>l i x w y w'. l \<in> libs \<and> one l i x w = Some (y, w') \<and> I w \<and> \<not> I w')"

lemma title_brokeI: "l \<in> libs \<Longrightarrow> safe (\<lambda>w. I w \<or> title_broke I one libs) (one l i x)"
  unfolding keeps_def title_broke_def by blast

lemma autosync_titles_safe:
  assumes "quiet_screen I sc" "quiet_autosync I ctx" "\<And>i st. safe I (ac_sync_one ctx l i opts st)"
  shows "safe I (autosync_titles sc ctx opts l n i rep)"
  using assms
  by (induction n arbitrary: i rep) (auto simp: quiet_autosync_def Let_def intro!: keeps_intros split: prod.split)

lemma autosync_libraries_safe:
  assumes "quiet_screen I sc" "quiet_autosync I ctx" "\<And>l i st. l \<in> set ls \<Longrightarrow> safe I (ac_sync_one ctx l i opts st)"
  shows "safe I (autosync_libraries sc ctx opts ls rep)"
  using assms
  by (induction ls arbitrary: rep) (auto simp: quiet_autosync_def intro!: keeps_intros autosync_titles_safe)

lemma autosync_run_safe:
  assumes "quiet_screen I sc" "quiet_autosync I ctx"
    and "\<And>l i st. l \<in> {0, 1} \<Longrightarrow> safe I (ac_sync_one ctx l i daemoon_3ds_autosync_opts st)"
  shows "safe I (daemoon_3ds_autosync_run sc tbl lg ctx)"
proof -
  have "safe I (case ac_when ctx of None \<Rightarrow> return_io [] | Some when \<Rightarrow> when 40)"
    using assms(2) by (auto simp: quiet_autosync_def intro!: keeps_intros split: option.split)
  moreover have "safe I (ac_wait_for_network ctx)" "\<forall>w. quiet I (ac_env ctx w)"
    using assms(2) by (simp_all add: quiet_autosync_def)
  moreover have "safe I (autosync_libraries sc ctx daemoon_3ds_autosync_opts [0, 1] rep)" for rep
    by (rule autosync_libraries_safe [OF assms(1,2)]) (rule assms(3), simp)
  ultimately show ?thesis
    unfolding daemoon_3ds_autosync_run_def grace_period_def Let_def using assms(1) by (auto intro!: keeps_intros simp del: autosync_libraries.simps)
qed

lemma autosync_breaks:
  assumes "quiet_screen I sc" "quiet_autosync I ctx"
  shows "safe (\<lambda>w. I w \<or> title_broke I (\<lambda>l i. ac_sync_one ctx l i daemoon_3ds_autosync_opts) {0, 1})
    (daemoon_3ds_autosync_run sc tbl lg ctx)"
  by (intro autosync_run_safe quiet_screen_or quiet_run_or title_brokeI assms)

lemma batch_titles_safe:
  assumes "quiet_screen I sc" "quiet_batch I ctx"
    and "\<And>i. daemoon_3ds_batch_op_label op = STR_BATCH_SYNC \<Longrightarrow> safe I (bc_sync_one ctx l i policy)"
  shows "safe I (batch_titles sc tbl lg ctx op policy l whole n i finished)"
  using assms
  by (induction n arbitrary: i finished)
     (auto simp: quiet_batch_def draw_progress_def intro!: keeps_intros split: prod.split)

lemma batch_libraries_safe:
  assumes "quiet_screen I sc" "quiet_batch I ctx"
    and "\<And>l i. daemoon_3ds_batch_op_label op = STR_BATCH_SYNC \<Longrightarrow> l \<in> fst ` set xs \<Longrightarrow> safe I (bc_sync_one ctx l i policy)"
  shows "safe I (batch_libraries sc tbl lg ctx op policy whole xs finished)"
  using assms(3)
  by (induction xs arbitrary: finished) (auto intro!: keeps_intros batch_titles_safe [OF assms(1,2)] split: prod.split)

text \<open>From the question on, \<open>I\<close> is lost only after a yes, and in a synchronisation.\<close>

definition batch_broke :: "('w \<Rightarrow> bool) \<Rightarrow> 'w batch_ctx \<Rightarrow> conflict_policy \<Rightarrow> nat set \<Rightarrow> bool" where
  "batch_broke I ctx policy libs \<longleftrightarrow> title_broke I (\<lambda>l i (_ :: unit). bc_sync_one ctx l i policy) libs"

lemma batch_confirmed_breaks:
  assumes "quiet_screen I sc" "quiet_batch I ctx" "I w"
    and "batch_confirmed sc tbl lg ctx op row policy counts whole w = Some (r, w')" "\<not> I w'"
  shows "r = 1 \<and> daemoon_3ds_batch_op_label op = STR_BATCH_SYNC \<and> batch_broke I ctx policy (fst ` set counts) \<and>
    (\<exists>yes u. bc_confirm ctx (batch_question tbl lg whole op row policy) w = Some (yes, u) \<and> yes \<noteq> 0 \<and> I u)"
proof -
  obtain yes u where yes: "bc_confirm ctx (batch_question tbl lg whole op row policy) w = Some (yes, u)"
    using assms(4) by (auto simp: batch_confirmed_def bind_io_Some_iff)
  then have u: "I u" using assms(2,3) unfolding quiet_batch_def by (meson keepsD)
  let ?rest = "bind_io (trace sc ''batch/begin'' (Some (if daemoon_3ds_batch_op_label op = STR_BATCH_SYNC then ''sync'' else ''backup''))) (\<lambda>_.
    bind_io (batch_libraries sc tbl lg ctx op policy whole counts 0) (\<lambda>stopped.
    bind_io (trace sc ''batch/done'' (Some (if stopped then ''stopped'' else ''all''))) (\<lambda>_.
    bind_io (if stopped then bc_message ctx STR_BATCH_STOPPED GFX_WARN else return_io ()) (\<lambda>_. return_io 1))))"
  have run: "yes \<noteq> 0" "?rest u = Some (r, w')"
    using assms(3-5) u yes by (auto simp: batch_confirmed_def bind_io_Some_iff [of "bc_confirm _ _"] return_io_def split: if_splits)
  let ?P = "daemoon_3ds_batch_op_label op = STR_BATCH_SYNC \<and> batch_broke I ctx policy (fst ` set counts)"
  have sync: "safe (\<lambda>w. I w \<or> ?P) (bc_sync_one ctx l i policy)"
    if "l \<in> fst ` set counts" "daemoon_3ds_batch_op_label op = STR_BATCH_SYNC" for l i
    using title_brokeI [OF that(1), of I "\<lambda>l i (_ :: unit). bc_sync_one ctx l i policy"] that(2) by (simp add: batch_broke_def)
  have "safe (\<lambda>w. I w \<or> ?P) (batch_libraries sc tbl lg ctx op policy whole counts 0)"
    by (intro batch_libraries_safe quiet_screen_or quiet_run_or sync assms)
  then have "keeps (\<lambda>w. I w \<or> ?P) ?rest (\<lambda>r. r = 1)"
    using quiet_screen_or [OF assms(1), of ?P] quiet_run_or(2) [OF assms(2), of ?P]
    by (auto simp: quiet_batch_def intro!: keeps_intros)
  from keepsD [OF this _ run(2)] u assms(5) yes run(1) show ?thesis by blast
qed


text \<open>One step of a program that keeps \<open>I\<close>, seen from its end.\<close>

lemma bind_keepsE:
  assumes "bind_io m f w = Some (r, w')" "safe I m" "I w"
  obtains a u where "m w = Some (a, u)" "I u" "f a u = Some (r, w')"
  using assms by (auto simp: bind_io_Some_iff dest: keepsD)

lemma bind_return_keeps: "bind_io m (\<lambda>_. return_io x) w = Some (r, w') \<Longrightarrow> safe I m \<Longrightarrow> I w \<Longrightarrow> I w'"
  by (erule bind_keepsE) (auto simp: return_io_def)

definition batch_answer ::
  "('w \<Rightarrow> bool) \<Rightarrow> lang_table \<Rightarrow> lang \<Rightarrow> 'w batch_ctx \<Rightarrow> nat set \<Rightarrow> nat \<Rightarrow> nat \<Rightarrow> nat \<Rightarrow> bool" where
  "batch_answer I tbl lg ctx libs whole op row \<longleftrightarrow>
    daemoon_3ds_batch_op_label op = STR_BATCH_SYNC \<and> batch_broke I ctx (daemoon_3ds_batch_policy row) libs \<and>
    (\<exists>v yes u. bc_confirm ctx (batch_question tbl lg whole op row (daemoon_3ds_batch_policy row)) v = Some (yes, u) \<and>
      yes \<noteq> 0 \<and> I v \<and> I u)"

lemma batch_with_op_breaks:
  assumes quiet: "quiet_screen I sc" "quiet_batch I ctx" and I: "I w"
    and run: "batch_with_op sc tbl lg ctx counts whole x w = Some (r, w')" "\<not> I w'"
  shows "r = 1 \<and> (\<exists>row y y'. bc_can_sync ctx y = Some (True, y') \<and> batch_answer I tbl lg ctx (fst ` set counts) whole (snd x) row)"
proof -
  note q = quiet(2) [unfolded quiet_batch_def]
  have msg: "safe I (bc_message ctx m a)" for m a using q by blast
  obtain chosen op where x: "x = (chosen, op)" by (cases x)
  have chosen using run I x by (cases chosen) (simp_all add: batch_with_op_def return_io_def)
  show ?thesis
  proof (cases "daemoon_3ds_batch_op_label op = STR_BATCH_SYNC")
    case False
    with run x \<open>chosen\<close> have "batch_confirmed sc tbl lg ctx op 0 POLICY_ASK counts whole w = Some (r, w')"
      by (simp add: batch_with_op_def)
    from batch_confirmed_breaks [OF quiet I this run(2)] False show ?thesis by simp
  next
    case True
    let ?pick = "batch_pick sc STR_BATCH_POLICY daemoon_3ds_batch_policies daemoon_3ds_batch_policy_label daemoon_3ds_batch_policy_hint 0"
    from run(1) x \<open>chosen\<close> True have "bind_io (bc_can_sync ctx) (\<lambda>can.
        if \<not> can then bind_io (bc_message ctx STR_ERR_NO_SERVER GFX_WARN) (\<lambda>_. return_io 0)
        else bind_io ?pick (batch_with_policy sc tbl lg ctx op counts whole)) w = Some (r, w')"
      by (simp add: batch_with_op_def)
    then obtain can u where can: "bc_can_sync ctx w = Some (can, u)" "I u"
      "(if \<not> can then bind_io (bc_message ctx STR_ERR_NO_SERVER GFX_WARN) (\<lambda>_. return_io 0)
        else bind_io ?pick (batch_with_policy sc tbl lg ctx op counts whole)) u = Some (r, w')"
      using q I by (elim bind_keepsE [where I = I]) auto
    have can_sync: can
    proof (rule ccontr)
      assume "\<not> can"
      with can(3) have "bind_io (bc_message ctx STR_ERR_NO_SERVER GFX_WARN) (\<lambda>_. return_io 0) u = Some (r, w')" by simp
      from bind_return_keeps [OF this msg can(2)] run(2) show False by contradiction
    qed
    with can(3) have "bind_io ?pick (batch_with_policy sc tbl lg ctx op counts whole) u = Some (r, w')" by simp
    then obtain y v where v: "I v" "batch_with_policy sc tbl lg ctx op counts whole y v = Some (r, w')"
      using can(2) safe_batch_pick [OF quiet(1)] by (elim bind_keepsE [where I = I]) blast+
    obtain row where "batch_confirmed sc tbl lg ctx op row (daemoon_3ds_batch_policy row) counts whole v = Some (r, w')"
      using v run(2) by (auto simp: batch_with_policy_def return_io_def split: prod.splits if_splits)
    from batch_confirmed_breaks [OF quiet v(1) this run(2)] can(1) can_sync True x v(1) show ?thesis
      by (auto simp: batch_answer_def)
  qed
qed

lemma batch_run_breaks:
  assumes quiet: "quiet_screen I sc" "quiet_batch I ctx" and I: "I w"
    and run: "daemoon_3ds_batch_run sc tbl lg ctx w = Some (r, w')" "\<not> I w'"
  shows "r = 1 \<and> (\<exists>n0 n1 w1 w2 op row y y'. bc_count ctx 0 w = Some (n0, w1) \<and> bc_count ctx 1 w1 = Some (n1, w2) \<and>
    bc_can_sync ctx y = Some (True, y') \<and> batch_answer I tbl lg ctx {0, 1} (n0 + n1) op row)"
proof -
  note q = quiet(2) [unfolded quiet_batch_def]
  have msg: "safe I (bc_message ctx m a)" for m a using q by blast
  let ?pick = "batch_pick sc STR_BATCH_TITLE daemoon_3ds_batch_ops daemoon_3ds_batch_op_label daemoon_3ds_batch_op_hint 0"
  from run(1) obtain n0 w1 n1 w2 where counts: "bc_count ctx 0 w = Some (n0, w1)" "bc_count ctx 1 w1 = Some (n1, w2)" "I w2"
    and rest: "(if n0 + n1 = 0 then bind_io (bc_message ctx STR_BATCH_EMPTY GFX_WARN) (\<lambda>_. return_io 0)
      else bind_io ?pick (batch_with_op sc tbl lg ctx [(0, n0), (1, n1)] (n0 + n1))) w2 = Some (r, w')"
    unfolding daemoon_3ds_batch_run_def using q I by (elim bind_keepsE [where I = I]) auto
  have "n0 + n1 \<noteq> 0"
  proof
    assume "n0 + n1 = 0"
    with rest have "bind_io (bc_message ctx STR_BATCH_EMPTY GFX_WARN) (\<lambda>_. return_io 0) w2 = Some (r, w')" by simp
    from bind_return_keeps [OF this msg counts(3)] run(2) show False by contradiction
  qed
  with rest have "bind_io ?pick (batch_with_op sc tbl lg ctx [(0, n0), (1, n1)] (n0 + n1)) w2 = Some (r, w')" by (simp only: if_False)
  then obtain x v where v: "I v" "batch_with_op sc tbl lg ctx [(0, n0), (1, n1)] (n0 + n1) x v = Some (r, w')"
    using counts(3) safe_batch_pick [OF quiet(1)] by (elim bind_keepsE [where I = I]) blast+
  from batch_with_op_breaks [OF quiet v run(2)] counts(1,2) show ?thesis by auto
qed


section \<open>What the first run and a failure say\<close>

text \<open>The first run ends as paired only because one of the pairings did.\<close>

definition pairs_with :: "'w welcome_actions \<Rightarrow> bool" where
  "pairs_with acts \<longleftrightarrow> (\<exists>pair w w'. (wa_pair_qr acts = Some pair \<or> wa_pair_manual acts = Some pair) \<and> pair w = Some (True, w'))"

lemma welcome_try_paired: "welcome_try acts choice False w = Some (True, w') \<Longrightarrow> pairs_with acts"
  by (auto simp: welcome_try_def pairs_with_def return_io_def split: if_splits option.splits)

lemma welcome_loop_paired: "welcome_loop sc acts paired w = Some y \<Longrightarrow> \<not> paired \<longrightarrow> fst y \<longrightarrow> pairs_with acts"
proof (induction sc acts paired w y rule: welcome_loop.raw_induct [rotated 1, consumes 1, case_names step])
  case (step loop sc acts paired w y)
  from step(2) show ?case
    by (auto simp: bind_eq_Some_conv split: if_splits dest!: step(1) intro: welcome_try_paired)
qed

lemma welcome_paired:
  "daemoon_3ds_welcome_run sc acts w = Some (True, w') \<Longrightarrow> pairs_with acts"
  by (auto simp: daemoon_3ds_welcome_run_def bind_io_Some_iff return_io_def split: if_splits dest: welcome_loop_paired)

text \<open>
  A title that fails in a sync at startup is counted by the engine and again by the run, and the
  report adds the two: one failure reads as two.
\<close>

lemma failure_reported_twice:
  assumes "aptMainLoop sc w = Some (True, w)" "ac_name ctx l i w = Some (name, w)"
    "draw sc [STR_AUTOSYNC_TITLE, STR_AUTOSYNC_TITLE] [name] w = Some ((), w)"
    "ac_sync_one ctx l i opts no_stats w = Some ((ERR_NETWORK_ERROR, no_stats\<lparr>ss_failed := 1\<rparr>), w)"
  shows "\<exists>rep. autosync_titles sc ctx opts l 1 i \<lparr>ar_titles = 0, ar_sync = no_stats, ar_failed = 0, ar_network = True\<rparr> w =
      Some (rep, w) \<and> ar_titles rep = 1 \<and> to_uint (ss_failed (ar_sync rep) + ar_failed rep) = 2"
  using assms by (simp add: bind_io_def return_io_def bump_def to_uint_def no_stats_def Let_def)

end
