(* ===== verification/BackupList.thy ===== *)
theory BackupList
  imports Newlib Runs
begin

text \<open>
  The backups of a title on the card (\<open>platform/3ds/source/backup_list.c\<close>) and the screen that
  lets a person choose or delete one (\<open>backups.c\<close>). The world holds a card; the directory is read
  through the C library, the packages and the questions through the interfaces of the core.
\<close>

section \<open>The list\<close>

record backup_row =
  br_name :: bytes
  br_size :: nat
  br_created_at :: bytes
  br_device_label :: bytes
  br_sha256 :: bytes
  br_readable :: bool
  br_is_current :: bool

text \<open>\<open>unsigned long\<close> has 32 bits on the console.\<close>

definition daemoon_3ds_backup_size_text :: "nat \<Rightarrow> nat \<Rightarrow> bytes" where
  "daemoon_3ds_backup_size_text n cap = take (cap - 1)
    (if n \<ge> 1024 * 1024 then
       dec (to_uint (n div (1024 * 1024))) @ ''.'' @ dec (to_uint (n mod (1024 * 1024) * 10 div (1024 * 1024))) @ '' MB''
     else if n \<ge> 1024 then dec (to_uint (n div 1024)) @ '' KB''
     else dec (to_uint n) @ '' B'')"

text \<open>A name in the directory, as both files build it.\<close>

definition row_path :: "nat \<Rightarrow> bytes \<Rightarrow> bytes \<Rightarrow> result + bytes" where
  "row_path cap dir name = sb_finish (sb_add (daemoon_strbuf_addc (sb_add (daemoon_strbuf_init cap) dir) CHR ''/'') name)"

definition read_row :: "'w env \<Rightarrow> 'z miniz \<Rightarrow> bytes \<Rightarrow> backup_row \<Rightarrow> ('w, backup_row) prog" where
  "read_row env mz dir row =
    (case row_path PATH_MAX dir (br_name row) of Inl r \<Rightarrow> return_io row
     | Inr path \<Rightarrow>
        bind_io (fs_open_file env path OPEN_READ) (\<lambda>(r, pkg).
        if r \<noteq> OK then return_io row
        else bind_io (daemoon_archive_read_manifest mz pkg) (\<lambda>x.
        bind_io (daemoon_stream_close pkg) (\<lambda>_.
        case x of Inl r \<Rightarrow> return_io row
        | Inr m \<Rightarrow> return_io (row\<lparr>br_size := mf_size m, br_created_at := strlcpy_void TIMESTAMP_MAX (mf_created_at m),
            br_device_label := strlcpy_void LABEL_MAX (mf_device_label m), br_sha256 := strlcpy_void SHA256_HEX (mf_sha256 m),
            br_readable := True\<rparr>)))))"

text \<open>Whether the row \<open>key\<close> goes before \<open>prev\<close>.\<close>

definition worse :: "backup_row \<Rightarrow> backup_row \<Rightarrow> bool" where
  "worse prev key =
    (if br_readable prev \<noteq> br_readable key then \<not> br_readable prev
     else let prev_dated = daemoon_manifest_has_date (Some (br_created_at prev));
              key_dated = daemoon_manifest_has_date (Some (br_created_at key))
          in if prev_dated \<noteq> key_dated then \<not> prev_dated
             else br_created_at prev < br_created_at key)"

text \<open>
  The inner loop moves \<open>key\<close> down over the sorted rows, which are here in reverse, as long as
  they are worse.
\<close>

fun sift :: "backup_row \<Rightarrow> backup_row list \<Rightarrow> backup_row list" where
  "sift key [] = [key]"
| "sift key (prev # before) = (if \<not> worse prev key then key # prev # before else prev # sift key before)"

fun sort_loop :: "backup_row list \<Rightarrow> backup_row list \<Rightarrow> backup_row list" where
  "sort_loop before [] = rev before"
| "sort_loop before (key # rows) = sort_loop (sift key before) rows"

definition sort_rows :: "backup_row list \<Rightarrow> backup_row list" where
  "sort_rows rows = sort_loop [] rows"

text \<open>\<open>opendir\<close> and \<open>readdir\<close>: the names in a directory of the card, in its order, or NULL.\<close>

definition c_readdir :: "bytes \<Rightarrow> 'x card_scheme \<Rightarrow> bytes list option \<times> 'x card_scheme" where
  "c_readdir dir = c_call
    (\<lambda>c. if node_at c dir = Some Folder
         then (Some (map (\<lambda>(p, _). drop (length dir + 1) p) (filter (\<lambda>(p, _). parent_of p = Some dir) (cd_nodes c))), c)
         else (None, c))
    (\<lambda>e k c. (None, c))"

definition blank_row :: "bytes \<Rightarrow> backup_row" where
  "blank_row name = \<lparr>br_name = strlcpy_void 96 name, br_size = 0, br_created_at = [], br_device_label = [], br_sha256 = [],
    br_readable = False, br_is_current = False\<rparr>"

primrec read_rows ::
  "'w screen \<Rightarrow> 'w env \<Rightarrow> 'z miniz \<Rightarrow> bytes \<Rightarrow> bytes option \<Rightarrow> backup_row list \<Rightarrow> ('w, backup_row list) prog" where
  "read_rows sc env mz dir current [] = return_io []"
| "read_rows sc env mz dir current (row # rows) =
    bind_io (trace sc ''pick/manifest'' (Some (br_name row))) (\<lambda>_.
    bind_io (read_row env mz dir row) (\<lambda>row.
    let row = (case current of None \<Rightarrow> row
               | Some d \<Rightarrow> if cstr d \<noteq> [] \<and> br_readable row then row\<lparr>br_is_current := (br_sha256 row = cstr d)\<rparr> else row)
    in bind_io (read_rows sc env mz dir current rows) (\<lambda>rows. return_io (row # rows))))"

definition daemoon_3ds_backup_list ::
  "('x card_scheme) screen \<Rightarrow> ('x card_scheme) env \<Rightarrow> 'z miniz \<Rightarrow> bytes \<Rightarrow> title \<Rightarrow> bytes option \<Rightarrow> nat \<Rightarrow>
    ('x card_scheme, backup_row list) prog" where
  "daemoon_3ds_backup_list sc env mz dir title current cap =
    (case title_key (TITLE_ID_MAX + 16) (ti_platform title) (ti_id title) of Inl r \<Rightarrow> return_io []
     | Inr pre \<Rightarrow>
        bind_io (call_io (c_readdir dir)) (\<lambda>names.
        case names of None \<Rightarrow> return_io []
        | Some names \<Rightarrow>
            bind_io (read_rows sc env mz dir current (take cap (map blank_row (filter (\<lambda>n. take (length pre) n = pre) names))))
              (\<lambda>rows. return_io (sort_rows rows))))"

section \<open>The screen\<close>

definition MAX_SHOWN :: nat where "MAX_SHOWN = 32"
definition ROWS_PAGE :: nat where "ROWS_PAGE = 6"

abbreviation (input) STR_CONFIRM_DELETE_BACKUP :: str_id where "STR_CONFIRM_DELETE_BACKUP \<equiv> 47"
abbreviation (input) STR_BACKUP_DELETED :: str_id where "STR_BACKUP_DELETED \<equiv> 11"
abbreviation (input) STR_BACKUP_LIST :: str_id where "STR_BACKUP_LIST \<equiv> 13"
abbreviation (input) STR_BACKUP_NO_DATE :: str_id where "STR_BACKUP_NO_DATE \<equiv> 14"
abbreviation (input) STR_BACKUP_SAME_AS_CONSOLE :: str_id where "STR_BACKUP_SAME_AS_CONSOLE \<equiv> 16"
abbreviation (input) STR_BACKUP_CLOCK_NOTE :: str_id where "STR_BACKUP_CLOCK_NOTE \<equiv> 9"
abbreviation (input) STR_HINT_BACKUPS :: str_id where "STR_HINT_BACKUPS \<equiv> 88"

definition short_digest :: "backup_row \<Rightarrow> nat \<Rightarrow> bytes" where
  "short_digest row cap =
    (if br_readable row then take (cap - 1) (take 12 (br_sha256 row)) else strlcpy_void cap ''unreadable'')"

text \<open>What is drawn of a row at the top and in the list.\<close>

definition details_texts :: "lang_table \<Rightarrow> lang \<Rightarrow> backup_row \<Rightarrow> title \<Rightarrow> bytes list" where
  "details_texts tbl lg row title =
    [strf_text tbl lg 160 STR_BACKUP_LIST [ti_name title],
     if br_readable row then daemoon_3ds_backup_size_text (br_size row) 32 else ''unreadable package''] @
    (if br_readable row then
       [take 159 ((if daemoon_manifest_has_date (Some (br_created_at row)) then br_created_at row
                   else daemoon_str tbl lg STR_BACKUP_NO_DATE) @ ''   '' @ br_device_label row)] else []) @
    [short_digest row 160] @
    (if br_is_current row then [daemoon_str tbl lg STR_BACKUP_SAME_AS_CONSOLE] else [])"

definition row_texts :: "lang_table \<Rightarrow> lang \<Rightarrow> backup_row \<Rightarrow> bytes list" where
  "row_texts tbl lg row =
    [if br_readable row then take 95 (take 10 (if daemoon_manifest_has_date (Some (br_created_at row)) then br_created_at row
        else daemoon_str tbl lg STR_BACKUP_NO_DATE) @ ''   '' @ daemoon_3ds_backup_size_text (br_size row) 32)
     else strlcpy_void 96 ''unreadable package'', short_digest row 96]"

definition delete_row :: "'w env \<Rightarrow> bytes \<Rightarrow> backup_row \<Rightarrow> ('w, result) prog" where
  "delete_row env dir row =
    bind_io (call_fn (env_ui env) ui_confirm (\<lambda>f. f \<lparr>sr_id = STR_CONFIRM_DELETE_BACKUP, sr_args = []\<rparr>)) (\<lambda>yes.
    if yes = 0 then return_io ERR_USER_CANCELLED
    else case row_path PATH_MAX dir (br_name row) of Inl r \<Rightarrow> return_io r | Inr path \<Rightarrow> fs_remove_file env path)"

text \<open>The row is deleted, and the list is read again: where the screen stands, or why it ends.\<close>

definition delete_shown ::
  "('x card_scheme) screen \<Rightarrow> ('x card_scheme) env \<Rightarrow> 'z miniz \<Rightarrow> bytes \<Rightarrow> title \<Rightarrow> bytes option \<Rightarrow> backup_row list \<Rightarrow> nat \<Rightarrow>
    ('x card_scheme, result + backup_row list \<times> nat) prog" where
  "delete_shown sc env mz dir title current rows selected =
    bind_io (delete_row env dir (rows ! selected)) (\<lambda>r.
    if r \<noteq> OK then return_io (Inr (rows, selected))
    else bind_io (case env_ui env of None \<Rightarrow> (\<lambda>_. None)
        | Some ui \<Rightarrow> (case ui_notify ui of None \<Rightarrow> return_io () | Some f \<Rightarrow> call_io (f \<lparr>sr_id = STR_BACKUP_DELETED, sr_args = []\<rparr>))) (\<lambda>_.
      bind_io (daemoon_3ds_backup_list sc env mz dir title current MAX_SHOWN) (\<lambda>rows.
      if rows = [] then return_io (Inl ERR_NOT_FOUND)
      else return_io (Inr (rows, if selected \<ge> length rows then length rows - 1 else selected)))))"

definition move_row :: "key set \<Rightarrow> nat \<Rightarrow> nat \<Rightarrow> nat" where
  "move_row down cnt selected =
    (let selected = (if KEY_UP \<in> down \<and> selected > 0 then selected - 1 else selected)
     in if KEY_DOWN \<in> down \<and> selected + 1 < cnt then selected + 1 else selected)"

definition scroll_to :: "nat \<Rightarrow> nat \<Rightarrow> nat" where
  "scroll_to selected scroll =
    (if selected < scroll then selected
     else if selected \<ge> scroll + ROWS_PAGE then selected - ROWS_PAGE + 1 else scroll)"

definition draw_backups ::
  "'w screen \<Rightarrow> lang_table \<Rightarrow> lang \<Rightarrow> title \<Rightarrow> backup_row list \<Rightarrow> nat \<Rightarrow> nat \<Rightarrow> ('w, unit) prog" where
  "draw_backups sc tbl lg title rows selected scroll =
    draw sc [STR_BACKUP_CLOCK_NOTE, STR_HINT_BACKUPS]
      (details_texts tbl lg (rows ! selected) title @ concat (map (row_texts tbl lg) (take ROWS_PAGE (drop scroll rows))))"

partial_function (option) backups_loop ::
  "('x card_scheme) screen \<Rightarrow> lang_table \<Rightarrow> lang \<Rightarrow> ('x card_scheme) env \<Rightarrow> 'z miniz \<Rightarrow> bytes \<Rightarrow> title \<Rightarrow> bytes option \<Rightarrow>
    backup_row list \<Rightarrow> nat \<Rightarrow> nat \<Rightarrow> bool \<Rightarrow> 'x card_scheme \<Rightarrow> ((result + bytes) \<times> 'x card_scheme) option" where
  "backups_loop sc tbl lg env mz dir title current rows selected scroll drew w =
    Option.bind (aptMainLoop sc w) (\<lambda>(go, w).
    if \<not> go then Option.bind (trace sc ''pick/apt-exit'' None w) (\<lambda>(_, w). Some (Inl ERR_USER_CANCELLED, w))
    else Option.bind (hidKeysDown sc w) (\<lambda>(down, w).
    Option.bind (draw_backups sc tbl lg title rows selected scroll w) (\<lambda>(_, w).
    Option.bind ((if drew then return_io () else trace sc ''pick/drew'' None) w) (\<lambda>(_, w).
    if KEY_B \<in> down then Some (Inl ERR_USER_CANCELLED, w)
    else if KEY_A \<in> down then Some (Inr (br_name (rows ! selected)), w)
    else Option.bind ((if KEY_X \<in> down then delete_shown sc env mz dir title current rows selected
                       else return_io (Inr (rows, selected))) w) (\<lambda>(x, w).
      case x of Inl r \<Rightarrow> Some (Inl r, w)
      | Inr y \<Rightarrow>
          let selected = move_row down (length (fst y)) (snd y)
          in backups_loop sc tbl lg env mz dir title current (fst y) selected (scroll_to selected scroll) True w)))))"

definition daemoon_3ds_pick_backup ::
  "('x card_scheme) screen \<Rightarrow> lang_table \<Rightarrow> lang \<Rightarrow> ('x card_scheme) env \<Rightarrow> 'z miniz \<Rightarrow> bytes \<Rightarrow> title \<Rightarrow> bytes option \<Rightarrow> nat \<Rightarrow>
    ('x card_scheme, result + bytes) prog" where
  "daemoon_3ds_pick_backup sc tbl lg env mz dir title current cap =
    bind_io (trace sc ''pick/gather'' (Some dir)) (\<lambda>_.
    bind_io (daemoon_3ds_backup_list sc env mz dir title current MAX_SHOWN) (\<lambda>rows.
    bind_io (trace sc ''pick/rows'' (Some (dec (length rows)))) (\<lambda>_.
    if rows = [] then return_io (Inl ERR_NOT_FOUND)
    else bind_io (backups_loop sc tbl lg env mz dir title current rows 0 0 False) (\<lambda>x.
    case x of Inl r \<Rightarrow> return_io (Inl r)
    | Inr name \<Rightarrow> bind_io (trace sc ''pick/chose'' (Some name)) (\<lambda>_. return_io (row_path cap dir name))))))"

section \<open>Its order\<close>

text \<open>Before the other in the list: readable, then dated, then by the date.\<close>

lemma worse_irrefl: "\<not> worse a a"
  by (simp add: worse_def)

lemma worse_asym: "worse a b \<Longrightarrow> \<not> worse b a"
  by (auto simp: worse_def Let_def split: if_splits)

lemma not_worse_trans: "\<not> worse a b \<Longrightarrow> \<not> worse b c \<Longrightarrow> \<not> worse a c"
  by (auto simp: worse_def Let_def not_less split: if_splits)

abbreviation in_order :: "backup_row list \<Rightarrow> bool" where
  "in_order \<equiv> sorted_wrt (\<lambda>a b. \<not> worse a b)"

lemma mset_sift [simp]: "mset (sift key before) = add_mset key (mset before)"
  by (induction key before rule: sift.induct) auto

lemma set_sift [simp]: "set (sift key before) = insert key (set before)"
  by (metis mset_sift set_mset_add_mset_insert set_mset_mset)

lemma sift_sorted: "sorted_wrt (\<lambda>b a. \<not> worse a b) before \<Longrightarrow> sorted_wrt (\<lambda>b a. \<not> worse a b) (sift key before)"
  by (induction key before rule: sift.induct) (auto dest: worse_asym not_worse_trans)

lemma sort_loop_sorted: "sorted_wrt (\<lambda>b a. \<not> worse a b) before \<Longrightarrow> in_order (sort_loop before rows)"
  by (induction before rows rule: sort_loop.induct) (auto simp: sift_sorted sorted_wrt_rev)

lemma mset_sort_loop: "mset (sort_loop before rows) = mset before + mset rows"
  by (induction before rows rule: sort_loop.induct) auto

lemma sort_rows_correct: "in_order (sort_rows rows)" "mset (sort_rows rows) = mset rows"
  by (simp_all add: sort_rows_def sort_loop_sorted mset_sort_loop)


section \<open>What the list holds\<close>

text \<open>A name the list shows for this title: one that begins with its key, cut to the buffer of a row.\<close>

definition listed :: "title \<Rightarrow> bytes \<Rightarrow> bool" where
  "listed title name \<longleftrightarrow> (\<exists>pre entry. title_key (TITLE_ID_MAX + 16) (ti_platform title) (ti_id title) = Inr pre \<and>
    take (length pre) entry = pre \<and> name = strlcpy_void 96 entry)"

lemma read_row_name: "ensures (read_row env mz dir row) (\<lambda>r. br_name r = br_name row)"
  unfolding read_row_def by (auto intro!: ensures_return ensures_bind_any split: sum.split prod.split)

lemma read_rows_names: "ensures (read_rows sc env mz dir current rows) (\<lambda>rs. map br_name rs = map br_name rows)"
proof (induction rows)
  case Nil
  then show ?case by (simp add: ensures_return)
next
  case (Cons row rows)
  then show ?case
    by (auto simp: Let_def split: option.split intro!: ensures_bind_any ensures_bind [OF read_row_name] ensures_bind [OF Cons.IH] ensures_return)
qed

lemma sort_rows_names: "set (sort_rows rows) = set rows" "length (sort_rows rows) = length rows"
  using sort_rows_correct(2) [of rows] by (metis set_mset_mset, metis size_mset)

lemma backup_list_step:
  assumes "daemoon_3ds_backup_list sc env mz dir title current cap w = Some (rows, w')" "rows \<noteq> []"
  shows "\<exists>pre names w1. title_key (TITLE_ID_MAX + 16) (ti_platform title) (ti_id title) = Inr pre \<and>
    c_readdir dir w = (Some names, w1) \<and> in_order rows \<and>
    mset (map br_name rows) = mset (map (strlcpy_void 96) (take cap (filter (\<lambda>n. take (length pre) n = pre) names)))"
proof -
  obtain pre where pre: "title_key (TITLE_ID_MAX + 16) (ti_platform title) (ti_id title) = Inr pre"
    using assms by (auto simp: daemoon_3ds_backup_list_def return_io_def split: sum.splits)
  obtain x w1 where read: "c_readdir dir w = (x, w1)" by (cases "c_readdir dir w")
  then obtain names where names: "c_readdir dir w = (Some names, w1)"
    using assms pre by (cases x) (simp_all add: daemoon_3ds_backup_list_def return_io_def bind_io_def call_io_def)
  let ?blank = "take cap (map blank_row (filter (\<lambda>n. take (length pre) n = pre) names))"
  have "daemoon_3ds_backup_list sc env mz dir title current cap w =
      (case read_rows sc env mz dir current ?blank w1 of None \<Rightarrow> None | Some (rs, w) \<Rightarrow> Some (sort_rows rs, w))"
    unfolding daemoon_3ds_backup_list_def pre sum.case bind_io_def call_io_def names option.case return_io_def
    by (simp split: option.split)
  then obtain rs w2 where rs: "read_rows sc env mz dir current ?blank w1 = Some (rs, w2)" "rows = sort_rows rs"
    using assms(1) by (auto split: option.splits)
  have "map br_name rs = map br_name ?blank" by (rule ensuresD [OF read_rows_names rs(1)])
  moreover have "mset (map br_name rows) = mset (map br_name rs)"
    unfolding rs(2) mset_map sort_rows_correct(2) ..
  moreover have "map br_name ?blank = map (strlcpy_void 96) (take cap (filter (\<lambda>n. take (length pre) n = pre) names))"
    by (simp add: take_map blank_row_def)
  ultimately show ?thesis using pre names rs(2) sort_rows_correct(1) by metis
qed

lemma backup_list_listed:
  assumes "daemoon_3ds_backup_list sc env mz dir title current cap w = Some (rows, w')" "r \<in> set rows"
  shows "listed title (br_name r)"
proof -
  from assms(2) have "rows \<noteq> []" by auto
  from backup_list_step [OF assms(1) this] obtain pre names where pre: "title_key (TITLE_ID_MAX + 16) (ti_platform title) (ti_id title) = Inr pre"
    and names: "mset (map br_name rows) = mset (map (strlcpy_void 96) (take cap (filter (\<lambda>n. take (length pre) n = pre) names)))"
    by blast
  have "br_name r \<in> set (map br_name rows)" using assms(2) by simp
  then have "br_name r \<in> set (map (strlcpy_void 96) (take cap (filter (\<lambda>n. take (length pre) n = pre) names)))"
    using names by (metis set_mset_mset)
  then obtain e where "e \<in> set (take cap (filter (\<lambda>n. take (length pre) n = pre) names))" "br_name r = strlcpy_void 96 e" by auto
  then have "take (length pre) e = pre" by (auto dest: in_set_takeD)
  with pre \<open>br_name r = strlcpy_void 96 e\<close> show ?thesis unfolding listed_def by blast
qed

text \<open>Where the screen stands: some row is selected, and all rows are backups of the title.\<close>

definition shown :: "title \<Rightarrow> backup_row list \<Rightarrow> nat \<Rightarrow> bool" where
  "shown title rows selected \<longleftrightarrow> selected < length rows \<and> (\<forall>r \<in> set rows. listed title (br_name r))"

lemma move_row_less: "selected < cnt \<Longrightarrow> move_row down cnt selected < cnt"
  by (auto simp: move_row_def Let_def)

lemma delete_shown_shown:
  assumes "delete_shown sc env mz dir title current rows selected w = Some (Inr y, w')" "shown title rows selected"
  shows "shown title (fst y) (snd y)"
  using assms by (auto simp: delete_shown_def bind_io_Some_iff return_io_def shown_def split: if_splits dest: backup_list_listed)

lemma backups_loop_listed:
  "backups_loop sc tbl lg env mz dir title current rows selected scroll drew w = Some y \<Longrightarrow>
    shown title rows selected \<longrightarrow> (\<forall>name. fst y = Inr name \<longrightarrow> listed title name)"
proof (induction sc tbl lg env mz dir title current rows selected scroll drew w y rule:
    backups_loop.raw_induct [rotated 1, consumes 1, case_names step])
  case (step loop sc tbl lg env mz dir title current rows selected scroll drew w y)
  have again: "shown title (fst z) (move_row down (length (fst z)) (snd z))" if "shown title (fst z) (snd z)" for z down
    using that by (simp add: shown_def move_row_less)
  show ?case
  proof (intro impI)
    assume shown: "shown title rows selected"
    have rest: "ends (\<lambda>x. \<forall>name. x = Inr name \<longrightarrow> listed title name)
        (loop sc tbl lg env mz dir title current rs (move_row down (length rs) k) sl True w)" if "shown title rs k" for rs k down sl w
      unfolding ends_def using step(1) again [of "(rs, k)" down] that by fastforce
    have next_rows: "shown title rs k"
      if "(if del then delete_shown sc env mz dir title current rows selected else return_io (Inr (rows, selected))) w = Some (Inr (rs, k), w')"
      for del rs k w w'
      using that shown delete_shown_shown [of sc env mz dir title current rows selected w "(rs, k)"]
      by (cases del) (auto simp: return_io_def)
    have "listed title (br_name (rows ! selected))" using shown by (simp add: shown_def)
    then show "\<forall>name. fst y = Inr name \<longrightarrow> listed title name"
      by (intro endsD [OF step(2), of "\<lambda>x. \<forall>name. x = Inr name \<longrightarrow> listed title name"])
         (auto simp: Let_def intro!: ends_intros rest split: sum.split dest: next_rows)
  qed
qed


lemma pick_backup_listed:
  "ensures (daemoon_3ds_pick_backup sc tbl lg env mz dir title current cap)
    (\<lambda>x. case x of Inl r \<Rightarrow> True | Inr path \<Rightarrow> \<exists>name. listed title name \<and> row_path cap dir name = Inr path)"
proof -
  have list: "ensures (daemoon_3ds_backup_list sc env mz dir title current MAX_SHOWN) (\<lambda>rows. rows \<noteq> [] \<longrightarrow> shown title rows 0)"
    unfolding ensures_def shown_def by (auto dest: backup_list_listed)
  have loop: "ensures (backups_loop sc tbl lg env mz dir title current rows 0 0 False) (\<lambda>x. \<forall>name. x = Inr name \<longrightarrow> listed title name)"
    if "shown title rows 0" for rows
    unfolding ensures_def using backups_loop_listed that by fastforce
  show ?thesis
    unfolding daemoon_3ds_pick_backup_def
  proof (rule ensures_bind_any, rule ensures_bind [OF list], rule ensures_bind_any)
    fix rows
    assume rows: "rows \<noteq> [] \<longrightarrow> shown title rows 0"
    show "ensures (if rows = [] then return_io (Inl ERR_NOT_FOUND) else bind_io (backups_loop sc tbl lg env mz dir title current rows 0 0 False)
        (\<lambda>x. case x of Inl r \<Rightarrow> return_io (Inl r)
          | Inr name \<Rightarrow> bind_io (trace sc ''pick/chose'' (Some name)) (\<lambda>_. return_io (row_path cap dir name))))
      (\<lambda>x. case x of Inl r \<Rightarrow> True | Inr path \<Rightarrow> \<exists>name. listed title name \<and> row_path cap dir name = Inr path)"
      using rows by (intro ensures_if ensures_bind [OF loop])
        (auto intro!: ensures_bind_any ensures_return split: sum.split)
  qed
qed

section \<open>What the screen leaves alone\<close>

text \<open>Reading a directory takes a step of the card; \<open>I\<close> does not speak of those.\<close>

definition quiet_card :: "('x card_scheme \<Rightarrow> bool) \<Rightarrow> bool" where
  "quiet_card I \<longleftrightarrow> (\<forall>dir c. I c \<longrightarrow> I (snd (c_readdir dir c)))"

lemma safe_read_row [keeps_intros]: "quiet I env \<Longrightarrow> safe I (read_row env mz dir row)"
  unfolding read_row_def by (auto intro!: keeps_intros split: sum.split)

lemma safe_read_rows [keeps_intros]: "quiet_screen I sc \<Longrightarrow> quiet I env \<Longrightarrow> safe I (read_rows sc env mz dir current rows)"
  by (induction rows) (auto simp: Let_def intro!: keeps_intros)

lemma safe_backup_list [keeps_intros]:
  "quiet_screen I sc \<Longrightarrow> quiet I env \<Longrightarrow> quiet_card I \<Longrightarrow> safe I (daemoon_3ds_backup_list sc env mz dir title current cap)"
  unfolding daemoon_3ds_backup_list_def
  by (auto simp: quiet_card_def intro!: keeps_intros keeps_call split: sum.split option.split)

lemma safe_delete_row [keeps_intros]: "quiet I env \<Longrightarrow> safe I (delete_row env dir row)"
  unfolding delete_row_def
  by (auto simp: quiet_def quiet_ui_def intro!: keeps_intros safe_call_fn split: sum.split)

lemma safe_delete_shown [keeps_intros]:
  assumes "quiet_screen I sc" "quiet I env" "quiet_card I"
  shows "safe I (delete_shown sc env mz dir title current rows selected)"
proof -
  have "safe I (case env_ui env of None \<Rightarrow> (\<lambda>_. None)
      | Some ui \<Rightarrow> (case ui_notify ui of None \<Rightarrow> return_io () | Some f \<Rightarrow> call_io (f \<lparr>sr_id = STR_BACKUP_DELETED, sr_args = []\<rparr>)))"
    using assms(2) by (auto simp: quiet_def quiet_ui_def intro!: keeps_intros keeps_call split: option.split)
  with assms show ?thesis unfolding delete_shown_def by (auto intro!: keeps_intros)
qed

lemma safe_backups_loop [keeps_intros]:
  assumes "quiet_screen I sc" "quiet I env" "quiet_card I"
  shows "safe I (backups_loop sc tbl lg env mz dir title current rows selected scroll drew)"
proof (rule safe_loop)
  fix w a w'
  assume I: "I w" and run: "backups_loop sc tbl lg env mz dir title current rows selected scroll drew w = Some (a, w')"
  have "quiet_screen I sc \<longrightarrow> quiet I env \<longrightarrow> I w \<longrightarrow> I (snd y)"
    if "backups_loop sc tbl lg env mz dir title current rows selected scroll drew w = Some y" for y
    using that
  proof (induction sc tbl lg env mz dir title current rows selected scroll drew w y rule:
      backups_loop.raw_induct [rotated 1, consumes 1, case_names step])
    case (step loop sc tbl lg env mz dir title current rows selected scroll drew w y)
    show ?case
    proof (intro impI)
      assume hyps: "quiet_screen I sc" "quiet I env" "I w"
      have again: "I w \<Longrightarrow> lands I (loop sc tbl lg env mz dir title current rs k sl True w)" for rs k sl w
        using step(1) hyps(1,2) by (fastforce intro: landsI)
      have pieces: "safe I (draw_backups sc tbl lg title rows selected scroll)" "safe I (if drew then return_io () else trace sc ''pick/drew'' None)"
        "safe I (if del then delete_shown sc env mz dir title current rows selected else return_io (Inr (rows, selected)))" for del
        using hyps assms(3) by (auto simp: draw_backups_def intro!: keeps_intros)
      show "I (snd y)"
        by (rule landsD [OF step(2)]) (auto intro!: lands_intros safe_screen pieces hyps again keeps_return simp: Let_def split: sum.split)
    qed
  qed
  with I run assms show "I w'" by fastforce
qed

lemma safe_pick_backup [keeps_intros]:
  "quiet_screen I sc \<Longrightarrow> quiet I env \<Longrightarrow> quiet_card I \<Longrightarrow>
    safe I (daemoon_3ds_pick_backup sc tbl lg env mz dir title current cap)"
  unfolding daemoon_3ds_pick_backup_def by (auto intro!: keeps_intros split: sum.split)

text \<open>
  A title whose id begins like another's: every backup of the second is listed for the first, where
  it can be deleted. The ids of DS saves without a ROM are made from file names.
\<close>

lemma other_title_listed:
  "\<exists>k k'. title_key (TITLE_ID_MAX + 16) PLATFORM_NDS ''MARIO'' = Inr k \<and> title_key (TITLE_ID_MAX + 16) PLATFORM_NDS ''MARIO_2'' = Inr k' \<and>
    take (length k) (k' @ rest) = k"
  by (simp add: title_key_def sb_finish_def sb_simps TITLE_ID_MAX_def cstr_Cons Let_def)

end
