(* ===== verification/App.thy ===== *)
theory App
  imports BackupList
begin

text \<open>
  The 3DS application around the engine (\<open>platform/3ds/source/main.c\<close>): its two libraries and the
  backend of the one at work, the messages, the sync at startup, the run over the libraries, and
  the actions on one title. The world holds a card and what the file keeps in variables; the backends
  and the console's services are a record of functions over it.
\<close>

section \<open>The variables\<close>

text \<open>\<open>lb_titles\<close> is \<open>None\<close> while the pointer is NULL.\<close>

record library =
  lb_titles :: "title list option"
  lb_loaded :: bool
  lb_selected :: int
  lb_scroll :: int

record tally =
  tl_ok :: nat
  tl_skipped :: nat
  tl_failed :: nat
  tl_sync :: sync_stats

text \<open>
  \<open>ap_save_nds\<close> says which backend \<open>g_env.save\<close> points to, and \<open>ap_has_token\<close> whether
  \<open>g_env.token\<close> points to the buffer in the settings or is NULL.
\<close>

record app = card +
  ap_lib_3ds :: library
  ap_lib_nds :: library
  ap_source_nds :: bool
  ap_save_nds :: bool
  ap_has_token :: bool
  ap_config :: config
  ap_lang :: lang
  ap_batch :: tally

text \<open>
  What the application calls. \<open>ma_keyboard\<close> is the software keyboard: what was typed, or \<open>None\<close>
  when it was cancelled. \<open>ma_touched\<close> is the button the pen is on.
\<close>

record 'w machine =
  ma_save :: "'w save_backend"
  ma_nds :: "'w save_backend"
  ma_net :: "'w net_backend"
  ma_ui :: "'w ui_backend"
  ma_fs :: "'w fs_backend"
  ma_clock :: "nat \<Rightarrow> 'w \<Rightarrow> (result \<times> bytes) \<times> 'w"
  ma_screen :: "'w screen"
  ma_net_init :: "'w \<Rightarrow> result \<times> 'w"
  ma_sleep :: "'w \<Rightarrow> unit \<times> 'w"
  ma_icon :: "bool \<Rightarrow> title \<Rightarrow> 'w \<Rightarrow> unit \<times> 'w"
  ma_cache_flush :: "'w \<Rightarrow> unit \<times> 'w"
  ma_keyboard :: "bytes \<Rightarrow> bytes \<Rightarrow> nat \<Rightarrow> 'w \<Rightarrow> bytes option \<times> 'w"
  ma_touched :: "key set \<Rightarrow> 'w \<Rightarrow> nat option \<times> 'w"

definition WORK_DIR :: bytes where "WORK_DIR = ''sdmc:/DaeMoon''"
definition MAX_ICONS :: nat where "MAX_ICONS = 128"

definition g_env :: "('x app_scheme) machine \<Rightarrow> 'x app_scheme \<Rightarrow> ('x app_scheme) env" where
  "g_env ma a = \<lparr>env_save = Some (if ap_save_nds a then ma_nds ma else ma_save ma), env_net = Some (ma_net ma),
    env_ui = Some (ma_ui ma), env_fs = Some (ma_fs ma), env_clock = Some (ma_clock ma),
    env_server_url = Some (cf_server_url (ap_config a)),
    env_token = (if ap_has_token a then Some (cf_token (ap_config a)) else None),
    env_device_label = Some (cf_device_label (ap_config a)), env_work_dir = Some WORK_DIR, env_scratch = Some 65536\<rparr>"

text \<open>A program that looks at the variables, and one that writes to them.\<close>

definition with_app :: "('w \<Rightarrow> ('w, 'a) prog) \<Rightarrow> ('w, 'a) prog" where
  "with_app f = (\<lambda>a. f a a)"

definition set_app :: "('w \<Rightarrow> 'w) \<Rightarrow> ('w, unit) prog" where
  "set_app f = (\<lambda>a. Some ((), f a))"

lemma bind_set_app: "bind_io (set_app f) g a = g () (f a)"
  by (simp add: bind_io_def set_app_def)

lemma bind_SomeE: "bind_io m f w = Some y \<Longrightarrow> (\<And>a w'. m w = Some (a, w') \<Longrightarrow> f a w' = Some y \<Longrightarrow> P) \<Longrightarrow> P"
  by (auto simp: bind_io_def split: option.splits)

definition lib_of :: "nat \<Rightarrow> 'x app_scheme \<Rightarrow> library" where
  "lib_of l a = (if l = 1 then ap_lib_nds a else ap_lib_3ds a)"

definition set_lib :: "nat \<Rightarrow> (library \<Rightarrow> library) \<Rightarrow> 'x app_scheme \<Rightarrow> 'x app_scheme" where
  "set_lib l f a = (if l = 1 then a\<lparr>ap_lib_nds := f (ap_lib_nds a)\<rparr> else a\<lparr>ap_lib_3ds := f (ap_lib_3ds a)\<rparr>)"

definition lib_titles :: "nat \<Rightarrow> 'x app_scheme \<Rightarrow> title list" where
  "lib_titles l a = (case lb_titles (lib_of l a) of None \<Rightarrow> [] | Some ts \<Rightarrow> ts)"

definition lib_index :: "bool \<Rightarrow> nat" where
  "lib_index nds = (if nds then 1 else 0)"

text \<open>\<open>CUR\<close>, its titles and the one the cursor is on.\<close>

definition cur :: "'x app_scheme \<Rightarrow> nat" where
  "cur a = lib_index (ap_source_nds a)"

definition cur_title :: "'x app_scheme \<Rightarrow> title" where
  "cur_title a = lib_titles (cur a) a ! nat (lb_selected (lib_of (cur a) a))"

section \<open>Texts on the screen\<close>

abbreviation (input) STR_HINT_CONTINUE :: str_id where "STR_HINT_CONTINUE \<equiv> 90"
abbreviation (input) STR_REPORT_OK :: str_id where "STR_REPORT_OK \<equiv> 130"
abbreviation (input) STR_REPORT_FAILED :: str_id where "STR_REPORT_FAILED \<equiv> 129"
abbreviation (input) STR_LOADING_ICONS :: str_id where "STR_LOADING_ICONS \<equiv> 98"
abbreviation (input) STR_LOADING_BACKUPS :: str_id where "STR_LOADING_BACKUPS \<equiv> 97"
abbreviation (input) STR_OP_BACKUP :: str_id where "STR_OP_BACKUP \<equiv> 110"
abbreviation (input) STR_OP_RESTORE :: str_id where "STR_OP_RESTORE \<equiv> 111"
abbreviation (input) STR_OP_SYNC :: str_id where "STR_OP_SYNC \<equiv> 114"
abbreviation (input) STR_CONFIRM_BACKUP :: str_id where "STR_CONFIRM_BACKUP \<equiv> 46"
abbreviation (input) STR_BACKUP_NONE :: str_id where "STR_BACKUP_NONE \<equiv> 15"

definition draw_loading :: "'w screen \<Rightarrow> lang_table \<Rightarrow> lang \<Rightarrow> str_id \<Rightarrow> nat \<Rightarrow> nat \<Rightarrow> ('w, unit) prog" where
  "draw_loading sc tbl lg what k whole =
    draw sc [STR_APP_TITLE]
      [if to_uint whole > 0 then take 159 (daemoon_str tbl lg what @ ''  '' @ dec (to_uint k) @ ''/'' @ dec (to_uint whole))
       else strlcpy_void 160 (daemoon_str tbl lg what)]"

partial_function (option) message_loop :: "'w screen \<Rightarrow> bytes \<Rightarrow> bytes \<Rightarrow> 'w \<Rightarrow> (unit \<times> 'w) option" where
  "message_loop sc title body w =
    Option.bind (aptMainLoop sc w) (\<lambda>(go, w).
    if \<not> go then Some ((), w)
    else Option.bind (hidKeysDown sc w) (\<lambda>(down, w).
    Option.bind (draw sc [STR_HINT_CONTINUE] [title, body] w) (\<lambda>(_, w).
    if KEY_A \<in> down \<or> KEY_B \<in> down then Some ((), w) else message_loop sc title body w)))"

definition message :: "'w screen \<Rightarrow> bytes \<Rightarrow> bytes \<Rightarrow> accent \<Rightarrow> ('w, unit) prog" where
  "message sc title body accent = bind_io (trace sc ''ui/message'' (Some body)) (\<lambda>_. message_loop sc title body)"

definition app_message :: "('x app_scheme) machine \<Rightarrow> lang_table \<Rightarrow> str_id \<Rightarrow> accent \<Rightarrow> ('x app_scheme, unit) prog" where
  "app_message ma tbl body accent =
    with_app (\<lambda>a. message (ma_screen ma) (daemoon_str tbl (ap_lang a) STR_APP_TITLE) (daemoon_str tbl (ap_lang a) body) accent)"

definition report_body :: "lang_table \<Rightarrow> lang \<Rightarrow> str_id \<Rightarrow> result \<Rightarrow> bytes" where
  "report_body tbl lg op r =
    (if r = OK then strf_text tbl lg 320 STR_REPORT_OK [daemoon_str tbl lg op]
     else take 319 (strf_text tbl lg 320 STR_REPORT_FAILED [daemoon_str tbl lg op, daemoon_str tbl lg (daemoon_result_str_id r)] @
       ''  ['' @ daemoon_result_code r @ '']''))"

definition report :: "('x app_scheme) machine \<Rightarrow> lang_table \<Rightarrow> str_id \<Rightarrow> result \<Rightarrow> ('x app_scheme, unit) prog" where
  "report ma tbl op r =
    with_app (\<lambda>a. message (ma_screen ma) (daemoon_str tbl (ap_lang a) STR_APP_TITLE) (report_body tbl (ap_lang a) op r)
      (if r = OK then GFX_OK else GFX_DANGER))"

section \<open>The libraries\<close>

definition select_backend :: "bool \<Rightarrow> 'x app_scheme \<Rightarrow> 'x app_scheme" where
  "select_backend nds a = a\<lparr>ap_save_nds := nds\<rparr>"

definition free_library :: "nat \<Rightarrow> 'x app_scheme \<Rightarrow> 'x app_scheme" where
  "free_library l a =
    (let a = (if lb_titles (lib_of l a) \<noteq> None then set_lib l (\<lambda>lb. lb\<lparr>lb_titles := None\<rparr>) (select_backend (l = 1) a) else a)
     in set_lib l (\<lambda>lb. lb\<lparr>lb_loaded := False\<rparr>) a)"

text \<open>The icons of the titles from index \<open>i\<close> on.\<close>

primrec load_icons ::
  "('x app_scheme) machine \<Rightarrow> lang_table \<Rightarrow> bool \<Rightarrow> nat \<Rightarrow> title list \<Rightarrow> nat \<Rightarrow> ('x app_scheme, unit) prog" where
  "load_icons ma tbl nds whole [] i = return_io ()"
| "load_icons ma tbl nds whole (t # ts) i =
    bind_io (with_app (\<lambda>a. draw_loading (ma_screen ma) tbl (ap_lang a) STR_LOADING_ICONS i whole)) (\<lambda>_.
    bind_io (call_io (ma_icon ma nds t)) (\<lambda>_. load_icons ma tbl nds whole ts (Suc i)))"

definition clamp_selected :: "library \<Rightarrow> library" where
  "clamp_selected lb =
    (let cnt = (case lb_titles lb of None \<Rightarrow> 0 | Some ts \<Rightarrow> int (length ts))
     in if lb_selected lb \<ge> cnt then lb\<lparr>lb_selected := if cnt > 0 then cnt - 1 else 0\<rparr> else lb)"

definition load_library :: "('x app_scheme) machine \<Rightarrow> lang_table \<Rightarrow> bool \<Rightarrow> ('x app_scheme, result) prog" where
  "load_library ma tbl nds =
    (let l = lib_index nds in
     bind_io (set_app (free_library l)) (\<lambda>_.
     bind_io (set_app (select_backend nds)) (\<lambda>_.
     bind_io (with_app (\<lambda>a. call_fn (env_save (g_env ma a)) sv_list_titles (\<lambda>f. f))) (\<lambda>(r, ts).
     if r \<noteq> OK then return_io r
     else bind_io (set_app (set_lib l (\<lambda>lb. lb\<lparr>lb_titles := Some ts\<rparr>))) (\<lambda>_.
       bind_io (load_icons ma tbl nds (length ts) (take MAX_ICONS ts) 0) (\<lambda>_.
       bind_io (if \<not> nds then call_io (ma_cache_flush ma) else return_io ()) (\<lambda>_.
       bind_io (set_app (set_lib l (\<lambda>lb. (clamp_selected lb)\<lparr>lb_loaded := True\<rparr>))) (\<lambda>_. return_io OK))))))))"

definition show_library :: "('x app_scheme) machine \<Rightarrow> lang_table \<Rightarrow> bool \<Rightarrow> ('x app_scheme, result) prog" where
  "show_library ma tbl nds =
    bind_io (set_app (\<lambda>a. select_backend nds (a\<lparr>ap_source_nds := nds\<rparr>))) (\<lambda>_.
    with_app (\<lambda>a. if lb_loaded (lib_of (lib_index nds) a) then return_io OK else load_library ma tbl nds))"

definition reload_titles :: "('x app_scheme) machine \<Rightarrow> lang_table \<Rightarrow> ('x app_scheme, result) prog" where
  "reload_titles ma tbl = with_app (\<lambda>a. load_library ma tbl (ap_source_nds a))"

text \<open>What both runs borrow: the size of a library once it has been read, and a name in it.\<close>

definition lib_count :: "('x app_scheme) machine \<Rightarrow> lang_table \<Rightarrow> nat \<Rightarrow> ('x app_scheme, nat) prog" where
  "lib_count ma tbl l =
    bind_io (show_library ma tbl (l = 1)) (\<lambda>r.
    if r \<noteq> OK then return_io 0 else with_app (\<lambda>a. return_io (length (lib_titles l a))))"

definition lib_name :: "nat \<Rightarrow> nat \<Rightarrow> ('x app_scheme, bytes) prog" where
  "lib_name l i = with_app (\<lambda>a. return_io (ti_name (lib_titles l a ! i)))"


section \<open>The sync at startup\<close>

definition autosync_sync_one ::
  "('x app_scheme) machine \<Rightarrow> 'z miniz \<Rightarrow> nat \<Rightarrow> nat \<Rightarrow> sync_opts \<Rightarrow> sync_stats \<Rightarrow> ('x app_scheme, result \<times> sync_stats) prog" where
  "autosync_sync_one ma mz l i opts stats =
    bind_io (set_app (select_backend (l = 1))) (\<lambda>_.
    bind_io (with_app (\<lambda>a. trace (ma_screen ma) ''autosync/title'' (Some (ti_id (lib_titles l a ! i))))) (\<lambda>_.
    bind_io (with_app (\<lambda>a. daemoon_sync_title_with (g_env ma a) mz (lib_titles l a ! i) (Some opts) stats)) (\<lambda>(r, stats).
    bind_io (trace (ma_screen ma) ''autosync/title-done'' (Some (daemoon_result_code r))) (\<lambda>_. return_io (r, stats)))))"

definition autosync_when :: "('x app_scheme) machine \<Rightarrow> nat \<Rightarrow> ('x app_scheme, bytes) prog" where
  "autosync_when ma len =
    bind_io (call_io (ma_clock ma len)) (\<lambda>(r, when). return_io (if r \<noteq> OK then strlcpy_void len ''unknown'' else when))"

definition AUTOSYNC_NET_TRIES :: nat where "AUTOSYNC_NET_TRIES = 10"

text \<open>\<open>n\<close> tries are left.\<close>

primrec probe_loop :: "('x app_scheme) machine \<Rightarrow> nat \<Rightarrow> ('x app_scheme, bool) prog" where
  "probe_loop ma 0 = return_io False"
| "probe_loop ma (Suc n) =
    bind_io (aptMainLoop (ma_screen ma)) (\<lambda>go.
    if \<not> go then return_io False
    else bind_io (with_app (\<lambda>a. daemoon_api_get_latest (g_env ma a) PLATFORM_3DS ''0000000000000000'')) (\<lambda>x.
    let r = (case x of Inl r \<Rightarrow> r | Inr _ \<Rightarrow> OK) in
    bind_io (trace (ma_screen ma) ''autosync/net-probe''
      (Some (take 31 (dec (AUTOSYNC_NET_TRIES - Suc n) @ '' '' @ daemoon_result_code r)))) (\<lambda>_.
    if r = OK \<or> r = ERR_NOT_FOUND then return_io True
    else if r = ERR_UNAUTHORIZED \<or> r = ERR_DEVICE_REVOKED then return_io False
    else bind_io (call_io (ma_sleep ma)) (\<lambda>_. probe_loop ma n))))"

definition autosync_wait_for_network :: "('x app_scheme) machine \<Rightarrow> ('x app_scheme, bool) prog" where
  "autosync_wait_for_network ma =
    bind_io (call_io (ma_net_init ma)) (\<lambda>r.
    if r \<noteq> OK then bind_io (trace (ma_screen ma) ''autosync/net-init'' (Some ''failed'')) (\<lambda>_. return_io False)
    else probe_loop ma AUTOSYNC_NET_TRIES)"

definition autosync_borrowed :: "('x app_scheme) machine \<Rightarrow> lang_table \<Rightarrow> 'z miniz \<Rightarrow> ('x app_scheme) autosync_ctx" where
  "autosync_borrowed ma tbl mz = \<lparr>ac_env = g_env ma, ac_when = Some (autosync_when ma), ac_count = lib_count ma tbl,
    ac_name = lib_name, ac_sync_one = autosync_sync_one ma mz, ac_wait_for_network = autosync_wait_for_network ma\<rparr>"

definition run_autosync :: "('x app_scheme) machine \<Rightarrow> lang_table \<Rightarrow> 'z miniz \<Rightarrow> ('x app_scheme, bool) prog" where
  "run_autosync ma tbl mz =
    with_app (\<lambda>a. daemoon_3ds_autosync_run (ma_screen ma) tbl (ap_lang a) (autosync_borrowed ma tbl mz))"

section \<open>A run over the libraries\<close>

definition batch_backup_one :: "('x app_scheme) machine \<Rightarrow> 'z miniz \<Rightarrow> nat \<Rightarrow> nat \<Rightarrow> ('x app_scheme, unit) prog" where
  "batch_backup_one ma mz l i =
    bind_io (set_app (select_backend (l = 1))) (\<lambda>_.
    bind_io (with_app (\<lambda>a. trace (ma_screen ma) ''batch/backup'' (Some (ti_id (lib_titles l a ! i))))) (\<lambda>_.
    bind_io (with_app (\<lambda>a. daemoon_sync_backup_local (g_env ma a) mz (lib_titles l a ! i) None 0)) (\<lambda>(r, _).
    bind_io (trace (ma_screen ma) ''batch/backup-done'' (Some (daemoon_result_code r))) (\<lambda>_.
    set_app (\<lambda>a. a\<lparr>ap_batch :=
      (if r = OK then (ap_batch a)\<lparr>tl_ok := bump (tl_ok (ap_batch a))\<rparr>
       else if r = ERR_NOT_FOUND \<or> r = ERR_UNSUPPORTED then (ap_batch a)\<lparr>tl_skipped := bump (tl_skipped (ap_batch a))\<rparr>
       else (ap_batch a)\<lparr>tl_failed := bump (tl_failed (ap_batch a))\<rparr>)\<rparr>)))))"

definition batch_opts :: "conflict_policy \<Rightarrow> sync_opts" where
  "batch_opts policy = \<lparr>so_conflict = policy, so_upload_confirmed = True, so_restore_confirmed = True\<rparr>"

definition batch_sync_one ::
  "('x app_scheme) machine \<Rightarrow> 'z miniz \<Rightarrow> nat \<Rightarrow> nat \<Rightarrow> conflict_policy \<Rightarrow> ('x app_scheme, unit) prog" where
  "batch_sync_one ma mz l i policy =
    bind_io (set_app (select_backend (l = 1))) (\<lambda>_.
    bind_io (with_app (\<lambda>a. trace (ma_screen ma) ''batch/sync'' (Some (ti_id (lib_titles l a ! i))))) (\<lambda>_.
    bind_io (with_app (\<lambda>a. daemoon_sync_title_with (g_env ma a) mz (lib_titles l a ! i) (Some (batch_opts policy)) (tl_sync (ap_batch a)))) (\<lambda>(r, stats).
    bind_io (set_app (\<lambda>a. a\<lparr>ap_batch := (ap_batch a)\<lparr>tl_sync := stats\<rparr>\<rparr>)) (\<lambda>_.
    bind_io (trace (ma_screen ma) ''batch/sync-done'' (Some (daemoon_result_code r))) (\<lambda>_.
    if r \<noteq> OK \<and> r \<noteq> ERR_USER_CANCELLED
    then set_app (\<lambda>a. a\<lparr>ap_batch := (ap_batch a)\<lparr>tl_failed := bump (tl_failed (ap_batch a))\<rparr>\<rparr>)
    else return_io ())))))"

definition batch_borrowed :: "('x app_scheme) machine \<Rightarrow> lang_table \<Rightarrow> 'z miniz \<Rightarrow> ('x app_scheme) batch_ctx" where
  "batch_borrowed ma tbl mz = \<lparr>bc_count = lib_count ma tbl, bc_name = lib_name, bc_backup_one = batch_backup_one ma mz,
    bc_sync_one = batch_sync_one ma mz,
    bc_can_sync = with_app (\<lambda>a. return_io (daemoon_3ds_config_can_sync (ap_config a))),
    bc_confirm = (\<lambda>ask. call_fn (Some (ma_ui ma)) ui_confirm (\<lambda>f. f ask)), bc_message = app_message ma tbl\<rparr>"

lemma batch_borrowed_sel [simp]:
  "bc_count (batch_borrowed ma tbl mz) = lib_count ma tbl" "bc_sync_one (batch_borrowed ma tbl mz) = batch_sync_one ma mz"
  "bc_can_sync (batch_borrowed ma tbl mz) = with_app (\<lambda>a. return_io (daemoon_3ds_config_can_sync (ap_config a)))"
  "bc_confirm (batch_borrowed ma tbl mz) = (\<lambda>ask. call_fn (Some (ma_ui ma)) ui_confirm (\<lambda>f. f ask))"
  by (simp_all add: batch_borrowed_def)

definition no_tally :: tally where
  "no_tally = \<lparr>tl_ok = 0, tl_skipped = 0, tl_failed = 0, tl_sync = no_stats\<rparr>"

definition batch_body :: "lang_table \<Rightarrow> lang \<Rightarrow> tally \<Rightarrow> bytes" where
  "batch_body tbl lg t =
    (let s = tl_sync t; texts = map (\<lambda>n. take 11 (dec n)) in
     if ss_uploaded s \<noteq> 0 \<or> ss_downloaded s \<noteq> 0 \<or> ss_skipped s \<noteq> 0 \<or> ss_conflicts s \<noteq> 0
     then strf_text tbl lg 256 STR_SYNC_RESULT (texts [ss_uploaded s, ss_downloaded s, ss_skipped s, ss_conflicts s])
     else strf_text tbl lg 256 STR_BATCH_BACKUP_DONE (texts [tl_ok t, tl_skipped t, tl_failed t]))"

text \<open>What follows the run: the library that was on screen, and one tally.\<close>

definition batch_after ::
  "('x app_scheme) machine \<Rightarrow> lang_table \<Rightarrow> bool \<Rightarrow> int \<Rightarrow> ('x app_scheme, bool) prog" where
  "batch_after ma tbl was_nds went_on =
    bind_io (show_library ma tbl was_nds) (\<lambda>_.
    if went_on = 0 then return_io False
    else bind_io (with_app (\<lambda>a. message (ma_screen ma) (daemoon_str tbl (ap_lang a) STR_APP_TITLE)
        (batch_body tbl (ap_lang a) (ap_batch a)) (if tl_failed (ap_batch a) > 0 then GFX_WARN else GFX_OK))) (\<lambda>_.
      with_app (\<lambda>a. return_io (ss_downloaded (tl_sync (ap_batch a)) > 0))))"

definition action_batch :: "('x app_scheme) machine \<Rightarrow> lang_table \<Rightarrow> 'z miniz \<Rightarrow> ('x app_scheme, bool) prog" where
  "action_batch ma tbl mz = with_app (\<lambda>before.
    bind_io (set_app (\<lambda>a. a\<lparr>ap_batch := no_tally\<rparr>)) (\<lambda>_.
    bind_io (daemoon_3ds_batch_run (ma_screen ma) tbl (ap_lang before) (batch_borrowed ma tbl mz))
      (batch_after ma tbl (ap_source_nds before))))"

section \<open>The actions on one title\<close>

definition action_backup :: "('x app_scheme) machine \<Rightarrow> lang_table \<Rightarrow> 'z miniz \<Rightarrow> ('x app_scheme, unit) prog" where
  "action_backup ma tbl mz = with_app (\<lambda>a.
    if lib_titles (cur a) a = [] then return_io ()
    else bind_io (trace (ma_screen ma) ''backup/begin'' (Some (ti_id (cur_title a)))) (\<lambda>_.
    bind_io (call_fn (Some (ma_ui ma)) ui_confirm (\<lambda>f. f \<lparr>sr_id = STR_CONFIRM_BACKUP, sr_args = [ti_name (cur_title a)]\<rparr>)) (\<lambda>yes.
    if yes = 0 then return_io ()
    else bind_io (with_app (\<lambda>a. daemoon_sync_backup_local (g_env ma a) mz (cur_title a) (Some []) (PATH_MAX * 2))) (\<lambda>(r, _).
    bind_io (trace (ma_screen ma) ''backup/done'' (Some (daemoon_result_code r))) (\<lambda>_. report ma tbl STR_OP_BACKUP r)))))"

text \<open>What is on the console now, or the empty text.\<close>

definition current_digest :: "('x app_scheme) machine \<Rightarrow> title \<Rightarrow> nat \<Rightarrow> ('x app_scheme, bytes) prog" where
  "current_digest ma title cap = with_app (\<lambda>a.
    if cap < SHA256_HEX then return_io []
    else bind_io (open_save (g_env ma a) title) (\<lambda>(r, save).
    if r \<noteq> OK then return_io []
    else bind_io (daemoon_archive_hash_save (g_env ma a) save) (\<lambda>(r, es, hex, n).
    bind_io (close_save (g_env ma a) save) (\<lambda>_. return_io (if r \<noteq> OK then [] else hex)))))"

text \<open>What follows the screen with the backups.\<close>

definition restore_picked ::
  "('x app_scheme) machine \<Rightarrow> lang_table \<Rightarrow> 'z miniz \<Rightarrow> 'x app_scheme \<Rightarrow> result + bytes \<Rightarrow> ('x app_scheme, unit) prog" where
  "restore_picked ma tbl mz a picked =
    (let title = cur_title a; sc = ma_screen ma; lg = ap_lang a in
     bind_io (trace sc ''restore/picked'' (Some (daemoon_result_code (case picked of Inl r \<Rightarrow> r | Inr _ \<Rightarrow> OK)))) (\<lambda>_.
     case picked of
       Inl r \<Rightarrow>
         if r = ERR_NOT_FOUND
         then message sc (daemoon_str tbl lg STR_APP_TITLE) (strf_text tbl lg 256 STR_BACKUP_NONE [ti_name title]) GFX_PANEL
         else return_io ()
     | Inr pick \<Rightarrow>
         bind_io (trace sc ''restore/core'' (Some pick)) (\<lambda>_.
         bind_io (daemoon_sync_restore_package (g_env ma a) mz title pick) (\<lambda>r.
         bind_io (trace sc ''restore/core-done'' (Some (daemoon_result_code r))) (\<lambda>_. report ma tbl STR_OP_RESTORE r)))))"

definition restore_begin :: "('x app_scheme) machine \<Rightarrow> lang_table \<Rightarrow> 'z miniz \<Rightarrow> bytes \<Rightarrow> 'x app_scheme \<Rightarrow> ('x app_scheme, unit) prog" where
  "restore_begin ma tbl mz dir a =
    bind_io (trace (ma_screen ma) ''restore/begin'' (Some (ti_id (cur_title a)))) (\<lambda>_.
    bind_io (draw_loading (ma_screen ma) tbl (ap_lang a) STR_LOADING_BACKUPS 0 0) (\<lambda>_.
    bind_io (current_digest ma (cur_title a) SHA256_HEX) (\<lambda>digest.
    bind_io (trace (ma_screen ma) ''restore/digest'' (Some (if digest \<noteq> [] then digest else ''-''))) (\<lambda>_.
    bind_io (daemoon_3ds_pick_backup (ma_screen ma) tbl (ap_lang a) (g_env ma a) mz dir (cur_title a) (Some digest) (PATH_MAX * 2))
      (restore_picked ma tbl mz a)))))"

definition action_restore :: "('x app_scheme) machine \<Rightarrow> lang_table \<Rightarrow> 'z miniz \<Rightarrow> ('x app_scheme, unit) prog" where
  "action_restore ma tbl mz = with_app (\<lambda>a.
    if lib_titles (cur a) a = [] then return_io ()
    else case sb_finish (sb_add (sb_add (daemoon_strbuf_init (PATH_MAX * 2)) WORK_DIR) ''/backups'') of Inl r \<Rightarrow> return_io ()
    | Inr dir \<Rightarrow> restore_begin ma tbl mz dir a)"

definition action_sync :: "('x app_scheme) machine \<Rightarrow> lang_table \<Rightarrow> 'z miniz \<Rightarrow> ('x app_scheme, unit) prog" where
  "action_sync ma tbl mz = with_app (\<lambda>a.
    if lib_titles (cur a) a = [] then return_io ()
    else if \<not> daemoon_3ds_config_can_sync (ap_config a) then app_message ma tbl STR_ERR_NO_SERVER GFX_WARN
    else bind_io (trace (ma_screen ma) ''sync/begin'' (Some (ti_id (cur_title a)))) (\<lambda>_.
    bind_io (with_app (\<lambda>a. daemoon_sync_title (g_env ma a) mz (cur_title a) no_stats)) (\<lambda>(r, stats).
    bind_io (trace (ma_screen ma) ''sync/done'' (Some (daemoon_result_code r))) (\<lambda>_.
    if r \<noteq> OK then report ma tbl STR_OP_SYNC r
    else with_app (\<lambda>a. message (ma_screen ma) (daemoon_str tbl (ap_lang a) STR_APP_TITLE)
      (strf_text tbl (ap_lang a) 256 STR_SYNC_RESULT
        (map (\<lambda>n. take 11 (dec n)) [ss_uploaded stats, ss_downloaded stats, ss_skipped stats, ss_conflicts stats])) GFX_OK)))))"


section \<open>What the application leaves alone\<close>

text \<open>\<open>I\<close> does not speak of the variables, and of all services only writing to a save destroys it.\<close>

definition apart :: "('x app_scheme \<Rightarrow> bool) \<Rightarrow> bool" where
  "apart I \<longleftrightarrow> (\<forall>a. (\<forall>v. I (a\<lparr>ap_lib_3ds := v\<rparr>) = I a) \<and> (\<forall>v. I (a\<lparr>ap_lib_nds := v\<rparr>) = I a) \<and>
    (\<forall>v. I (a\<lparr>ap_source_nds := v\<rparr>) = I a) \<and> (\<forall>v. I (a\<lparr>ap_save_nds := v\<rparr>) = I a) \<and> (\<forall>v. I (a\<lparr>ap_batch := v\<rparr>) = I a))"

definition quiet_library :: "('w \<Rightarrow> bool) \<Rightarrow> 'w save_backend \<Rightarrow> bool" where
  "quiet_library I b \<longleftrightarrow> quiet_save I b \<and> (\<forall>f w. sv_list_titles b = Some f \<longrightarrow> I w \<longrightarrow> I (snd (f w)))"

definition quiet_machine :: "('w \<Rightarrow> bool) \<Rightarrow> 'w machine \<Rightarrow> bool" where
  "quiet_machine I ma \<longleftrightarrow> quiet_library I (ma_save ma) \<and> quiet_library I (ma_nds ma) \<and> quiet_net I (ma_net ma) \<and>
    quiet_ui I (ma_ui ma) \<and> quiet_fs I (ma_fs ma) \<and> (\<forall>n w. I w \<longrightarrow> I (snd (ma_clock ma n w))) \<and>
    quiet_screen I (ma_screen ma) \<and> (\<forall>w. I w \<longrightarrow> I (snd (ma_net_init ma w))) \<and> (\<forall>w. I w \<longrightarrow> I (snd (ma_sleep ma w))) \<and>
    (\<forall>nds t w. I w \<longrightarrow> I (snd (ma_icon ma nds t w))) \<and> (\<forall>w. I w \<longrightarrow> I (snd (ma_cache_flush ma w)))"

lemma safe_with_app [keeps_intros]: "(\<And>a. keeps I (f a) Q) \<Longrightarrow> keeps I (with_app f) Q"
  by (simp add: keeps_def with_app_def)

lemma safe_set_app: "(\<And>a. I a \<Longrightarrow> I (f a)) \<Longrightarrow> safe I (set_app f)"
  by (simp add: keeps_def set_app_def)

lemma apart_updates:
  assumes "apart I"
  shows "I (select_backend nds a) = I a" "I (set_lib l f a) = I a" "I (free_library l a) = I a"
    "I (a\<lparr>ap_batch := t\<rparr>) = I a" "I (a\<lparr>ap_source_nds := s\<rparr>) = I a"
  using assms by (auto simp: apart_def select_backend_def set_lib_def free_library_def Let_def)

lemma apart_or: "apart I \<Longrightarrow> apart (\<lambda>a. I a \<or> P)"
  by (simp add: apart_def)

lemma safe_sets [keeps_intros]:
  assumes "apart I"
  shows "safe I (set_app (select_backend nds))" "safe I (set_app (set_lib l f))" "safe I (set_app (free_library l))"
    "safe I (set_app (\<lambda>a. a\<lparr>ap_batch := g a\<rparr>))" "safe I (set_app (\<lambda>a. select_backend nds (a\<lparr>ap_source_nds := nds\<rparr>)))"
  using assms by (auto intro!: safe_set_app simp: apart_updates)

lemma quiet_g_env [keeps_intros]: "quiet_machine I ma \<Longrightarrow> quiet I (g_env ma a)"
  by (auto simp: quiet_machine_def quiet_library_def quiet_def g_env_def)

lemma quiet_machine_screen [keeps_intros]: "quiet_machine I ma \<Longrightarrow> quiet_screen I (ma_screen ma)"
  by (simp add: quiet_machine_def)

lemma safe_services [keeps_intros]:
  assumes "quiet_machine I ma"
  shows "safe I (call_io (ma_clock ma n))" "safe I (call_io (ma_net_init ma))" "safe I (call_io (ma_sleep ma))"
    "safe I (call_io (ma_icon ma nds t))" "safe I (call_io (ma_cache_flush ma))"
    "safe I (call_fn (env_save (g_env ma a)) sv_list_titles (\<lambda>f. f))" "safe I (call_fn (Some (ma_ui ma)) ui_confirm (\<lambda>f. f m))"
  using assms
  by (auto simp: quiet_machine_def quiet_library_def quiet_ui_def g_env_def intro!: keeps_call safe_call_fn)

lemma safe_draw_loading [keeps_intros]: "quiet_screen I sc \<Longrightarrow> safe I (draw_loading sc tbl lg what k whole)"
  by (simp add: draw_loading_def safe_screen)

lemma safe_message_loop [keeps_intros]:
  assumes "quiet_screen I sc"
  shows "safe I (message_loop sc title body)"
proof (rule safe_loop)
  fix w a w'
  assume I: "I w" and run: "message_loop sc title body w = Some (a, w')"
  have "quiet_screen I sc \<longrightarrow> I w \<longrightarrow> I (snd y)" if "message_loop sc title body w = Some y" for y
    using that
  proof (induction sc title body w y rule: message_loop.raw_induct [rotated 1, consumes 1, case_names step])
    case (step loop sc title body w y)
    show ?case
    proof (intro impI)
      assume hyps: "quiet_screen I sc" "I w"
      have again: "I w \<Longrightarrow> lands I (loop sc title body w)" for w
        using step(1) hyps(1) by (fastforce intro: landsI)
      show "I (snd y)"
        by (rule landsD [OF step(2)]) (auto intro!: lands_intros safe_screen hyps again)
    qed
  qed
  with I run assms show "I w'" by fastforce
qed

lemma safe_message [keeps_intros]: "quiet_screen I sc \<Longrightarrow> safe I (message sc title body accent)"
  unfolding message_def by (auto intro!: keeps_intros)

lemma safe_app_message [keeps_intros]: "quiet_machine I ma \<Longrightarrow> safe I (app_message ma tbl body accent)"
  and safe_report_app [keeps_intros]: "quiet_machine I ma \<Longrightarrow> safe I (report ma tbl op r)"
  unfolding app_message_def report_def by (auto intro!: keeps_intros)

lemma safe_load_icons [keeps_intros]: "quiet_machine I ma \<Longrightarrow> safe I (load_icons ma tbl nds whole ts i)"
  by (induction ts arbitrary: i) (auto intro!: keeps_intros)

lemma safe_load_library [keeps_intros]: "quiet_machine I ma \<Longrightarrow> apart I \<Longrightarrow> safe I (load_library ma tbl nds)"
  unfolding load_library_def Let_def by (auto intro!: keeps_intros)

lemma safe_show_library [keeps_intros]: "quiet_machine I ma \<Longrightarrow> apart I \<Longrightarrow> safe I (show_library ma tbl nds)"
  and safe_lib_count [keeps_intros]: "quiet_machine I ma \<Longrightarrow> apart I \<Longrightarrow> safe I (lib_count ma tbl l)"
  and safe_lib_name [keeps_intros]: "safe I (lib_name l i)"
  unfolding show_library_def lib_count_def lib_name_def by (auto intro!: keeps_intros)

lemma safe_probe_loop [keeps_intros]: "quiet_machine I ma \<Longrightarrow> safe I (probe_loop ma n)"
  by (induction n) (auto simp: Let_def intro!: keeps_intros)

lemma safe_wait [keeps_intros]: "quiet_machine I ma \<Longrightarrow> safe I (autosync_wait_for_network ma)"
  and safe_when [keeps_intros]: "quiet_machine I ma \<Longrightarrow> safe I (autosync_when ma n)"
  unfolding autosync_wait_for_network_def autosync_when_def by (auto intro!: keeps_intros)

lemma safe_batch_backup [keeps_intros]: "quiet_machine I ma \<Longrightarrow> apart I \<Longrightarrow> safe I (batch_backup_one ma mz l i)"
  unfolding batch_backup_one_def by (auto intro!: keeps_intros)

lemma borrowed_quiet:
  assumes "quiet_machine I ma" "apart I"
  shows "quiet_autosync I (autosync_borrowed ma tbl mz)" "quiet_batch I (batch_borrowed ma tbl mz)"
  using assms by (auto simp: quiet_autosync_def quiet_batch_def autosync_borrowed_def batch_borrowed_def intro!: keeps_intros)


section \<open>When a save is overwritten\<close>

text \<open>The trace does not move the backend.\<close>

definition steady :: "('x app_scheme) machine \<Rightarrow> bool" where
  "steady ma \<longleftrightarrow> (\<forall>step detail a. ap_save_nds (snd (sc_trace (ma_screen ma) step detail a)) = ap_save_nds a)"

text \<open>A synchronisation of a title of library \<open>l\<close> through the backend of that library destroys \<open>I\<close>.\<close>

definition sync_broke :: "('x app_scheme \<Rightarrow> bool) \<Rightarrow> ('x app_scheme) machine \<Rightarrow> 'z miniz \<Rightarrow> nat \<Rightarrow> sync_opts \<Rightarrow> bool" where
  "sync_broke I ma mz l opts \<longleftrightarrow> (\<exists>u x u' i stats.
    env_save (g_env ma u) = Some (if l = 1 then ma_nds ma else ma_save ma) \<and>
    daemoon_sync_title_with (g_env ma u) mz (lib_titles l u ! i) (Some opts) stats u = Some (x, u') \<and> I u \<and> \<not> I u')"

text \<open>Before it, the backend is selected and a line is traced; after it, only lines and counters are written.\<close>

lemma sync_step_breaks:
  assumes quiet: "quiet_machine I ma" "apart I" "steady ma" and I: "I w"
    and run: "bind_io (set_app (select_backend (l = 1))) (\<lambda>_.
      bind_io (with_app (\<lambda>a. trace (ma_screen ma) step (Some (ti_id (lib_titles l a ! i))))) (\<lambda>_.
      bind_io (with_app (\<lambda>a. daemoon_sync_title_with (g_env ma a) mz (lib_titles l a ! i) (Some opts) (st a))) rest)) w = Some (y, w')"
    and rest: "\<And>x. safe I (rest x)" and lost: "\<not> I w'"
  shows "sync_broke I ma mz l opts"
proof -
  let ?a1 = "select_backend (l = 1) w"
  have a1: "I ?a1" using I apart_updates(1) [OF quiet(2)] by simp
  obtain a2 where a2: "trace (ma_screen ma) step (Some (ti_id (lib_titles l ?a1 ! i))) ?a1 = Some ((), a2)"
    and run2: "bind_io (with_app (\<lambda>a. daemoon_sync_title_with (g_env ma a) mz (lib_titles l a ! i) (Some opts) (st a))) rest a2 = Some (y, w')"
  proof -
    from run have "bind_io (with_app (\<lambda>a. trace (ma_screen ma) step (Some (ti_id (lib_titles l a ! i))))) (\<lambda>_.
        bind_io (with_app (\<lambda>a. daemoon_sync_title_with (g_env ma a) mz (lib_titles l a ! i) (Some opts) (st a))) rest) ?a1 = Some (y, w')"
      by (simp add: bind_set_app)
    then show ?thesis by (rule bind_SomeE) (simp add: that with_app_def)
  qed
  have I2: "I a2" using safe_screen(5) [OF quiet_machine_screen [OF quiet(1)]] a1 a2 by (meson keepsD)
  have "ap_save_nds a2 = ap_save_nds ?a1"
    using a2 quiet(3) unfolding steady_def trace_def call_io_def by (metis option.inject snd_conv)
  then have "ap_save_nds a2 = (l = 1)" by (simp add: select_backend_def)
  then have backend: "env_save (g_env ma a2) = Some (if l = 1 then ma_nds ma else ma_save ma)"
    by (simp add: g_env_def)
  obtain x a3 where sync: "daemoon_sync_title_with (g_env ma a2) mz (lib_titles l a2 ! i) (Some opts) (st a2) a2 = Some (x, a3)"
    and run3: "rest x a3 = Some (y, w')"
    using run2 by (auto simp: bind_io_Some_iff with_app_def)
  have "\<not> I a3" using keepsD [OF rest _ run3] lost by blast
  with backend sync I2 show ?thesis unfolding sync_broke_def by blast
qed

lemma autosync_one_breaks:
  assumes "quiet_machine I ma" "apart I" "steady ma" "I w" "autosync_sync_one ma mz l i opts stats w = Some (y, w')" "\<not> I w'"
  shows "sync_broke I ma mz l opts"
  by (rule sync_step_breaks [OF assms(1-4) assms(5) [unfolded autosync_sync_one_def] _ assms(6)])
     (use assms(1) in \<open>auto intro!: keeps_intros\<close>)

lemma batch_one_breaks:
  assumes "quiet_machine I ma" "apart I" "steady ma" "I w" "batch_sync_one ma mz l i policy w = Some (y, w')" "\<not> I w'"
  shows "sync_broke I ma mz l (batch_opts policy)"
  by (rule sync_step_breaks [OF assms(1-4) assms(5) [unfolded batch_sync_one_def] _ assms(6)])
     (use assms(1,2) in \<open>auto intro!: keeps_intros\<close>)

lemma sync_broke_restore:
  assumes "quiet_machine I ma" "sync_broke I ma mz l opts"
  shows "\<exists>u title path v r v'. restore_package (g_env ma u) mz title path (so_restore_confirmed opts) v = Some (r, v') \<and> I v \<and> \<not> I v'"
  using assms(2) sync_title_breaks [OF quiet_g_env [OF assms(1)]] unfolding sync_broke_def restore_broke_def by blast

lemma autosync_app_breaks:
  assumes "quiet_machine I ma" "apart I" "steady ma" "I a" "run_autosync ma tbl mz a = Some (r, a')" "\<not> I a'"
  shows "\<exists>l \<in> {0, 1}. sync_broke I ma mz l daemoon_3ds_autosync_opts"
proof -
  let ?one = "\<lambda>l i. ac_sync_one (autosync_borrowed ma tbl mz) l i daemoon_3ds_autosync_opts"
  have "safe (\<lambda>a. I a \<or> title_broke I ?one {0, 1}) (daemoon_3ds_autosync_run (ma_screen ma) tbl (ap_lang a) (autosync_borrowed ma tbl mz))"
    by (rule autosync_breaks) (use assms(1,2) in \<open>auto intro!: keeps_intros borrowed_quiet\<close>)
  from keepsD [OF this, of a] assms(4-6) have "title_broke I ?one {0, 1}"
    by (auto simp: run_autosync_def with_app_def)
  then show ?thesis unfolding title_broke_def autosync_borrowed_def
    using autosync_one_breaks [OF assms(1-3)] by fastforce
qed


text \<open>A run over the libraries: the question that was answered with yes, and the title.\<close>

definition batch_said_yes ::
  "('x app_scheme \<Rightarrow> bool) \<Rightarrow> ('x app_scheme) machine \<Rightarrow> lang_table \<Rightarrow> conflict_policy \<Rightarrow> bool" where
  "batch_said_yes I ma tbl policy \<longleftrightarrow> (\<exists>w w1 w2 n0 n1 q v yes u x.
    lib_count ma tbl 0 w = Some (n0, w1) \<and> lib_count ma tbl 1 w1 = Some (n1, w2) \<and>
    sr_id q = (if policy = POLICY_KEEP_SERVER then STR_BATCH_CONFIRM_SYNC_SERVER else STR_BATCH_CONFIRM_SYNC) \<and>
    hd (sr_args q) = take 11 (dec (to_uint (n0 + n1))) \<and> daemoon_3ds_config_can_sync (ap_config (x :: 'x app_scheme)) \<and>
    call_fn (Some (ma_ui ma)) ui_confirm (\<lambda>f. f q) v = Some (yes, u) \<and> yes \<noteq> 0 \<and> I v \<and> I u)"

lemma batch_said_yesI:
  fixes x :: "'x app_scheme" and I :: "'x app_scheme \<Rightarrow> bool"
  assumes "lib_count ma tbl 0 w = Some (n0, w1)" "lib_count ma tbl 1 w1 = Some (n1, w2)"
    "sr_id q = (if policy = POLICY_KEEP_SERVER then STR_BATCH_CONFIRM_SYNC_SERVER else STR_BATCH_CONFIRM_SYNC)"
    "hd (sr_args q) = take 11 (dec (to_uint (n0 + n1)))" "daemoon_3ds_config_can_sync (ap_config x)"
    "call_fn (Some (ma_ui ma)) ui_confirm (\<lambda>f. f q) v = Some (yes, u)" "yes \<noteq> 0" "I v" "I u"
  shows "batch_said_yes I ma tbl policy"
  unfolding batch_said_yes_def by (intro exI conjI) (rule assms)+

lemma batch_app_breaks:
  fixes a :: "'x app_scheme"
  assumes quiet: "quiet_machine I ma" "apart I" "steady ma" and I: "I a"
    and run: "action_batch ma tbl mz a = Some (r, a')" "\<not> I a'"
  shows "\<exists>row l. l \<in> {0, 1} \<and> batch_said_yes I ma tbl (daemoon_3ds_batch_policy row) \<and>
    sync_broke I ma mz l (batch_opts (daemoon_3ds_batch_policy row))"
proof -
  let ?a1 = "a\<lparr>ap_batch := no_tally\<rparr>" and ?ctx = "batch_borrowed ma tbl mz"
  from run(1) obtain went_on a2 where went_on: "daemoon_3ds_batch_run (ma_screen ma) tbl (ap_lang a) ?ctx ?a1 = Some (went_on, a2)"
    and rest: "batch_after ma tbl (ap_source_nds a) went_on a2 = Some (r, a')"
    unfolding action_batch_def with_app_def bind_set_app by (rule bind_SomeE)
  have "safe I (batch_after ma tbl (ap_source_nds a) went_on)"
    unfolding batch_after_def using quiet(1,2) by (auto intro!: keeps_intros)
  with rest run(2) have a2: "\<not> I a2" by (meson keepsD)
  have a1: "I ?a1" using I apart_updates(4) [OF quiet(2)] by simp
  from batch_run_breaks [OF quiet_machine_screen [OF quiet(1)] borrowed_quiet(2) [OF quiet(1,2)] a1 went_on a2]
  obtain n0 n1 w1 w2 op row and y y' :: "'x app_scheme" where counts: "lib_count ma tbl 0 ?a1 = Some (n0, w1)" "lib_count ma tbl 1 w1 = Some (n1, w2)"
    and can: "with_app (\<lambda>a. return_io (daemoon_3ds_config_can_sync (ap_config a))) y = Some (True, y')"
    and answer: "batch_answer I tbl (ap_lang a) ?ctx {0, 1} (n0 + n1) op row"
    unfolding batch_borrowed_sel by (elim exE conjE) (rule that)
  let ?p = "daemoon_3ds_batch_policy row"
  from answer obtain v yes u where sync: "daemoon_3ds_batch_op_label op = STR_BATCH_SYNC" "batch_broke I ?ctx ?p {0, 1}"
    and yes: "bc_confirm ?ctx (batch_question tbl (ap_lang a) (n0 + n1) op row ?p) v = Some (yes, u)" "yes \<noteq> 0" "I v" "I u"
    unfolding batch_answer_def by blast
  let ?q = "batch_question tbl (ap_lang a) (n0 + n1) op row ?p"
  have "sr_id ?q = (if ?p = POLICY_KEEP_SERVER then STR_BATCH_CONFIRM_SYNC_SERVER else STR_BATCH_CONFIRM_SYNC)"
    "hd (sr_args ?q) = take 11 (dec (to_uint (n0 + n1)))"
    using sync(1) by (simp_all add: batch_question_def Let_def)
  moreover have "daemoon_3ds_config_can_sync (ap_config y)" using can by (auto simp: with_app_def return_io_def)
  ultimately have said: "batch_said_yes I ma tbl ?p"
    using batch_said_yesI [OF counts _ _ _ yes [unfolded batch_borrowed_sel]] by blast
  obtain l i z z' x where one: "l \<in> {0, 1}" "batch_sync_one ma mz l i ?p z = Some (x, z')" "I z" "\<not> I z'"
    using sync(2) unfolding batch_broke_def title_broke_def batch_borrowed_sel by (elim exE conjE) (rule that)
  show ?thesis
    by (intro exI conjI, rule one(1), rule said, rule batch_one_breaks [OF quiet one(3,2,4)])
qed


text \<open>The backup and the synchronisation of one title, and a restore of a backup that was picked.\<close>

lemma safe_current_digest [keeps_intros]: "quiet_machine I ma \<Longrightarrow> safe I (current_digest ma title cap)"
  unfolding current_digest_def by (auto intro!: keeps_intros)

lemma backup_app_safe: "quiet_machine I ma \<Longrightarrow> safe I (action_backup ma tbl mz)"
  unfolding action_backup_def by (auto intro!: keeps_intros)

definition restore_broke_here ::
  "('x app_scheme \<Rightarrow> bool) \<Rightarrow> ('x app_scheme) machine \<Rightarrow> 'z miniz \<Rightarrow> 'x app_scheme \<Rightarrow> bool" where
  "restore_broke_here I ma mz a \<longleftrightarrow> (\<exists>name path u r u'. listed (cur_title a) name \<and>
    row_path (PATH_MAX * 2) ''sdmc:/DaeMoon/backups'' name = Inr path \<and>
    restore_package (g_env ma a) mz (cur_title a) path False u = Some (r, u') \<and> I u \<and> \<not> I u')"

lemma backups_dir: "sb_finish (sb_add (sb_add (daemoon_strbuf_init (PATH_MAX * 2)) WORK_DIR) ''/backups'') = Inr ''sdmc:/DaeMoon/backups''"
  by (simp add: sb_finish_def sb_simps WORK_DIR_def PATH_MAX_def cstr_Cons)

lemma keeps_ensures: "safe I m \<Longrightarrow> ensures m Q \<Longrightarrow> keeps I m Q"
  by (simp add: keeps_def ensures_def)

lemma pick_keeps_listed:
  assumes "quiet_screen I sc" "quiet I env" "quiet_card I"
  shows "keeps I (daemoon_3ds_pick_backup sc tbl lg env mz dir title current cap)
    (\<lambda>x. case x of Inl r \<Rightarrow> True | Inr path \<Rightarrow> \<exists>name. listed title name \<and> row_path cap dir name = Inr path)"
  by (rule keeps_ensures [OF safe_pick_backup [OF assms] pick_backup_listed])

lemma restore_app_breaks:
  assumes "quiet_machine I ma" "quiet_card I" "I a" "action_restore ma tbl mz a = Some (r, a')" "\<not> I a'"
  shows "restore_broke_here I ma mz a"
proof (rule ccontr)
  assume unbroken: "\<not> restore_broke_here I ma mz a"
  let ?sc = "ma_screen ma" and ?env = "g_env ma a" and ?title = "cur_title a"
  have restore: "safe I (daemoon_sync_restore_package ?env mz ?title path)"
    if "\<exists>name. listed ?title name \<and> row_path (PATH_MAX * 2) ''sdmc:/DaeMoon/backups'' name = Inr path" for path
    using unbroken that unfolding restore_broke_here_def keeps_def daemoon_sync_restore_package_def by blast
  have pick: "keeps I (daemoon_3ds_pick_backup ?sc tbl (ap_lang a) ?env mz ''sdmc:/DaeMoon/backups'' ?title (Some digest) (PATH_MAX * 2))
      (\<lambda>x. case x of Inl r \<Rightarrow> True | Inr path \<Rightarrow> \<exists>name. listed ?title name \<and> row_path (PATH_MAX * 2) ''sdmc:/DaeMoon/backups'' name = Inr path)" for digest
    by (rule pick_keeps_listed) (use assms(1,2) in \<open>auto intro!: keeps_intros\<close>)
  have "safe I (restore_picked ma tbl mz a x)"
    if "case x of Inl r \<Rightarrow> True | Inr path \<Rightarrow> \<exists>name. listed ?title name \<and> row_path (PATH_MAX * 2) ''sdmc:/DaeMoon/backups'' name = Inr path" for x
    unfolding restore_picked_def using restore that assms(1) by (cases x) (auto simp: Let_def intro!: keeps_intros)
  then have pick': "safe I (bind_io (daemoon_3ds_pick_backup ?sc tbl (ap_lang a) ?env mz ''sdmc:/DaeMoon/backups'' ?title (Some digest) (PATH_MAX * 2))
      (restore_picked ma tbl mz a))" for digest
    by (rule keeps_bind [OF pick])
  have "safe I (restore_begin ma tbl mz ''sdmc:/DaeMoon/backups'' a)"
    unfolding restore_begin_def using assms(1) by (auto intro!: keeps_intros pick')
  then have "safe I (if lib_titles (cur a) a = [] then return_io () else restore_begin ma tbl mz ''sdmc:/DaeMoon/backups'' a)"
    by (auto intro!: keeps_intros)
  moreover have "(if lib_titles (cur a) a = [] then return_io () else restore_begin ma tbl mz ''sdmc:/DaeMoon/backups'' a) a = Some (r, a')"
    using assms(4) unfolding action_restore_def with_app_def backups_dir sum.case .
  ultimately show False using assms(3,5) by (meson keepsD)
qed

lemma sync_title_default: "daemoon_sync_title env mz title stats = daemoon_sync_title_with env mz title (Some k_ask_everything) stats"
  by (simp add: daemoon_sync_title_def daemoon_sync_title_with_def)


section \<open>A console for the examples\<close>

text \<open>
  The rest of the world says whether the save is intact and whether the cursor has been moved: the
  console presses down once and then A.
\<close>

type_synonym example_app = "(bool \<times> bool) app_scheme"

definition ruin :: "example_app \<Rightarrow> example_app" where
  "ruin a = a\<lparr>app.more := (False, snd (app.more a))\<rparr>"

abbreviation intact :: "example_app \<Rightarrow> bool" where
  "intact a \<equiv> fst (app.more a)"

definition example_screen :: "example_app screen" where
  "example_screen = \<lparr>sc_main_loop = (\<lambda>a. (True, a)),
    sc_keys_down = (\<lambda>a. (if snd (app.more a) then {KEY_A} else {KEY_DOWN}, a\<lparr>app.more := (intact a, True)\<rparr>)),
    sc_keys_held = (\<lambda>a. ({}, a)), sc_frame = (\<lambda>ids texts a. ((), a)), sc_trace = (\<lambda>step detail a. ((), a))\<rparr>"

definition example_machine :: "example_app machine" where
  "example_machine = (let env = fetch_env_by ruin in
    \<lparr>ma_save = the (env_save env), ma_nds = the (env_save env), ma_net = the (env_net env), ma_ui = the (env_ui env),
     ma_fs = the (env_fs env), ma_clock = the (env_clock env), ma_screen = example_screen, ma_net_init = (\<lambda>a. (OK, a)),
     ma_sleep = (\<lambda>a. ((), a)), ma_icon = (\<lambda>nds t a. ((), a)), ma_cache_flush = (\<lambda>a. ((), a)),
     ma_keyboard = (\<lambda>hint v cap a. (None, a)), ma_touched = (\<lambda>down a. (None, a))\<rparr>)"

text \<open>One title of the console, no DS saves.\<close>

definition example_settings :: config where
  "example_settings = \<lparr>cf_server_url = ''http://s'', cf_token = ''t'', cf_device_label = ''label'', cf_ca_bundle = [],
    cf_device_id = [], cf_language = [], cf_token_on_card = False, cf_welcomed = True, cf_autosync = True\<rparr>"

definition example_app :: "nodes \<Rightarrow> bool \<Rightarrow> example_app" where
  "example_app ns moved = \<lparr>cd_nodes = ns, cd_open = [], cd_next = 0, cd_faults = [], cd_log = [],
    ap_lib_3ds = \<lparr>lb_titles = Some [example_title], lb_loaded = True, lb_selected = 0, lb_scroll = 0\<rparr>,
    ap_lib_nds = \<lparr>lb_titles = Some [], lb_loaded = True, lb_selected = 0, lb_scroll = 0\<rparr>,
    ap_source_nds = False, ap_save_nds = False, ap_has_token = True, ap_config = example_settings, ap_lang = 0,
    ap_batch = no_tally, \<dots> = (True, moved)\<rparr>"

lemma example_g_env:
  assumes "ap_config a = example_settings" "ap_has_token a"
  shows "g_env example_machine a = fetch_env_by ruin"
  using assms
  by (simp add: g_env_def example_machine_def example_env_by_def idle_env_def example_settings_def WORK_DIR_def Let_def)

lemma example_screen_calls [simp]:
  "aptMainLoop example_screen = return_io True" "hidKeysHeld example_screen = return_io {}"
  "draw example_screen ids texts = return_io ()" "trace example_screen step detail = return_io ()"
  "ma_screen example_machine = example_screen" "call_io (ma_net_init example_machine) = return_io OK"
  "call_io (ma_clock example_machine n) = return_io (ERR_UNSUPPORTED, [])"
  "call_fn (Some (ma_ui example_machine)) ui_confirm (\<lambda>f. f q) = return_io 1"
  by (auto simp: example_screen_def aptMainLoop_def hidKeysHeld_def draw_def trace_def call_io_def return_io_def
      example_machine_def Let_def example_env_by_def idle_env_def idle_ui_def call_fn_def)

lemma example_keys: "hidKeysDown example_screen a =
    Some (if snd (app.more a) then {KEY_A} else {KEY_DOWN}, a\<lparr>app.more := (intact a, True)\<rparr>)"
  by (simp add: example_screen_def hidKeysDown_def call_io_def)

lemma example_machine_quiet: "quiet_machine intact example_machine" "apart intact" "steady example_machine" "quiet_card intact"
proof -
  have "quiet intact (fetch_env_by ruin)" by (rule example_quiet)
  then show "quiet_machine intact example_machine"
    by (simp add: quiet_machine_def quiet_library_def quiet_def example_machine_def Let_def example_env_by_def idle_env_def
        idle_save_def quiet_screen_def example_screen_def)
  show "apart intact" by (simp add: apart_def)
  show "steady example_machine" by (simp add: steady_def example_machine_def Let_def example_screen_def)
  show "quiet_card intact"
    by (auto simp: quiet_card_def c_readdir_def c_call_def next_fault_def split: list.split fault.split)
qed


section \<open>Runs on it\<close>

definition ready :: "example_app \<Rightarrow> bool" where
  "ready a \<longleftrightarrow> ap_config a = example_settings \<and> ap_has_token a \<and>
    lib_titles 0 a = [example_title] \<and> lib_titles 1 a = [] \<and> lb_loaded (ap_lib_3ds a) \<and> lb_loaded (ap_lib_nds a)"

lemma ready_steps [simp]:
  "ready a \<Longrightarrow> ready (ruin a)" "ready a \<Longrightarrow> ready (select_backend nds a)" "ready a \<Longrightarrow> ready (a\<lparr>ap_source_nds := nds\<rparr>)"
  "ready a \<Longrightarrow> ready (a\<lparr>ap_batch := t\<rparr>)" "ready a \<Longrightarrow> ready (a\<lparr>app.more := v\<rparr>)"
  by (simp_all add: ready_def ruin_def select_backend_def lib_titles_def lib_of_def)

lemma example_ready: "ready (example_app ns moved)"
  by (simp add: ready_def example_app_def lib_titles_def lib_of_def)

lemma rest_of_world [simp]:
  "app.more (select_backend nds a) = app.more a" "app.more (ruin a) = (False, snd (app.more a))"
  by (simp_all add: select_backend_def ruin_def)

lemma example_show: "ready a \<Longrightarrow> show_library example_machine tbl nds a = Some (OK, select_backend nds (a\<lparr>ap_source_nds := nds\<rparr>))"
  by (simp add: show_library_def bind_set_app with_app_def return_io_def select_backend_def ready_def lib_of_def lib_index_def)

lemma example_count:
  "ready a \<Longrightarrow> lib_count example_machine tbl 0 a = Some (1, select_backend False (a\<lparr>ap_source_nds := False\<rparr>))"
  "ready a \<Longrightarrow> lib_count example_machine tbl 1 a = Some (0, select_backend True (a\<lparr>ap_source_nds := True\<rparr>))"
  by (simp_all add: lib_count_def bind_io_def example_show with_app_def return_io_def)
     (simp_all add: ready_def lib_titles_def lib_of_def select_backend_def)

lemma example_sync_step:
  assumes "ready a"
  shows "\<exists>x. daemoon_sync_title_with (g_env example_machine a) example_zip (lib_titles 0 a ! 0) (Some opts) stats a = Some (x, ruin a)"
  using assms example_g_env [of a] example_sync [of ruin opts stats a] by (simp add: ready_def)

lemma example_autosync_one:
  assumes "ready a"
  shows "\<exists>x. autosync_sync_one example_machine example_zip 0 0 opts stats a = Some (x, ruin (select_backend False a))"
  using example_sync_step [of "select_backend False a" opts stats] assms
  by (auto simp: autosync_sync_one_def set_app_def with_app_def bind_io_def return_io_def)

lemma example_batch_one:
  assumes "ready a"
  shows "\<exists>a'. batch_sync_one example_machine example_zip 0 0 policy a = Some ((), a') \<and> ready a' \<and> app.more a' = (False, snd (app.more a))"
proof -
  obtain r s where "daemoon_sync_title_with (g_env example_machine (select_backend False a)) example_zip (lib_titles 0 (select_backend False a) ! 0)
      (Some (batch_opts policy)) (tl_sync (ap_batch (select_backend False a))) (select_backend False a) = Some ((r, s), ruin (select_backend False a))"
    using example_sync_step [of "select_backend False a"] assms by fastforce
  then show ?thesis using assms
    by (simp add: batch_sync_one_def with_app_def bind_io_def return_io_def set_app_def)
qed

lemma example_grace: "grace_loop example_screen n = return_io True"
  by (induction n) (simp_all add: fun_eq_iff)

lemma example_linger: "snd (app.more a) \<Longrightarrow> \<exists>a'. linger example_screen tbl lg body detail a = Some ((), a') \<and> app.more a' = app.more a"
  by (cases "app.more a") (simp add: linger_def AUTOSYNC_LINGER_SECS_def numeral_eq_Suc bind_io_def example_keys return_io_def)

lemma example_wait: "ready a \<Longrightarrow> autosync_wait_for_network example_machine a = Some (True, a)"
  using example_latest_of [of "''0000000000000000''" ruin] example_g_env [of a]
  by (simp add: autosync_wait_for_network_def AUTOSYNC_NET_TRIES_def numeral_eq_Suc with_app_def bind_io_def return_io_def ready_def)

lemma example_autosync_titles:
  assumes "ready a"
  shows "\<exists>rep'. autosync_titles example_screen (autosync_borrowed example_machine tbl example_zip) opts 0 1 0 rep a =
    Some (rep', ruin (select_backend False a)) \<and> ar_titles rep' = bump (ar_titles rep)"
proof -
  obtain r s where "autosync_sync_one example_machine example_zip 0 0 opts (ar_sync rep) a = Some ((r, s), ruin (select_backend False a))"
    using example_autosync_one [OF assms] by fastforce
  then show ?thesis
    by (simp add: autosync_borrowed_def lib_name_def with_app_def bind_io_def return_io_def Let_def)
qed


lemma example_report:
  assumes "ready a"
  shows "report_run (autosync_borrowed example_machine tbl mz) when rep a = Some (OK, a)"
proof -
  have "daemoon_3ds_autosync_write_report (fetch_env_by ruin) AUTOSYNC_REPORT (Some when) rep = return_io OK"
    by (simp add: daemoon_3ds_autosync_write_report_def)
  then show ?thesis using assms example_g_env [of a]
    by (simp add: report_run_def autosync_borrowed_def ready_def return_io_def)
qed

lemma example_autosync_libraries:
  assumes "ready a"
  shows "\<exists>rep' a'. autosync_libraries example_screen (autosync_borrowed example_machine tbl example_zip) opts [0, 1] rep a = Some (rep', a') \<and>
    ready a' \<and> app.more a' = (False, snd (app.more a)) \<and> ar_titles rep' = bump (ar_titles rep)"
proof -
  let ?a1 = "select_backend False (a\<lparr>ap_source_nds := False\<rparr>)"
  obtain rep' where "autosync_titles example_screen (autosync_borrowed example_machine tbl example_zip) opts 0 1 0 rep ?a1 =
      Some (rep', ruin (select_backend False ?a1))" "ar_titles rep' = bump (ar_titles rep)"
    using example_autosync_titles [of ?a1] assms by fastforce
  moreover have "ac_count (autosync_borrowed example_machine tbl example_zip) = lib_count example_machine tbl"
    by (simp add: autosync_borrowed_def)
  ultimately show ?thesis
    using assms example_count [of a] example_count(2) [of "ruin (select_backend False ?a1)"]
    by (simp add: bind_io_def return_io_def del: autosync_titles.simps(2))
qed

lemma example_autosync_from:
  assumes "ready a" "snd (app.more a)"
  shows "\<exists>a'. run_autosync example_machine tbl example_zip a = Some (True, a') \<and> \<not> intact a'"
proof -
  let ?a = a and ?ctx = "autosync_borrowed example_machine tbl example_zip"
  let ?rep = "\<lparr>ar_titles = 0, ar_sync = no_stats, ar_failed = 0, ar_network = True\<rparr>"
  obtain rep a1 where libs: "autosync_libraries example_screen ?ctx daemoon_3ds_autosync_opts [0, 1] ?rep ?a = Some (rep, a1)"
    "ready a1" "app.more a1 = (False, snd (app.more ?a))" "ar_titles rep = bump 0"
    using example_autosync_libraries [OF assms(1), of tbl daemoon_3ds_autosync_opts ?rep] by auto
  then have moved: "app.more a1 = (False, True)" using assms(2) by simp
  note rep = example_report [OF libs(2), of tbl example_zip "strlcpy_void 40 ''unknown''" rep]
  let ?lg = "ap_lang ?a"
  obtain a2 where linger: "linger example_screen tbl ?lg STR_AUTOSYNC_TITLE (Some (autosync_detail tbl ?lg (ar_sync rep))) a1 = Some ((), a2)"
    "app.more a2 = (False, True)"
    using example_linger [of a1] moved by (metis snd_conv)
  have "ac_when ?ctx = Some (autosync_when example_machine)" "ac_wait_for_network ?ctx = autosync_wait_for_network example_machine"
    by (simp_all add: autosync_borrowed_def)
  moreover have "autosync_when example_machine 40 = return_io (strlcpy_void 40 ''unknown'')"
    by (simp add: autosync_when_def)
  moreover have "autosync_wait_for_network example_machine ?a = Some (True, ?a)" by (rule example_wait [OF assms(1)])
  moreover have "ar_titles rep > 0" using libs(4) by (simp add: bump_def to_uint_def)
  ultimately have "run_autosync example_machine tbl example_zip ?a = Some (True, a2)"
    using libs(1) rep linger(1)
    by (simp add: run_autosync_def with_app_def daemoon_3ds_autosync_run_def grace_period_def example_grace Let_def
        del: autosync_libraries.simps) (simp add: bind_io_def return_io_def del: autosync_libraries.simps)
  moreover have "\<not> intact a2" using linger(2) by simp
  ultimately show ?thesis by blast
qed

lemma example_autosync_run:
  "\<exists>r a'. run_autosync example_machine tbl example_zip (example_app [] True) = Some (r, a') \<and> \<not> intact a'"
proof -
  have "snd (app.more (example_app [] True))" by (simp add: example_app_def)
  from example_autosync_from [OF example_ready this] show ?thesis by blast
qed


text \<open>The run over the libraries: down and A choose to synchronise, A the first policy.\<close>

lemma example_pick:
  "\<not> snd (app.more a) \<Longrightarrow> batch_pick example_screen title 2 label hint 0 a = Some ((True, 1), a\<lparr>app.more := (intact a, True)\<rparr>)"
  "snd (app.more a) \<Longrightarrow> batch_pick example_screen title n label hint k a = Some ((True, k), a)"
  unfolding batch_pick_def
  by (subst pick_loop.simps, simp add: return_io_def example_keys Let_def, subst pick_loop.simps, simp add: return_io_def example_keys)
     (subst pick_loop.simps, cases "app.more a", simp add: return_io_def example_keys)

lemma example_message: "snd (app.more a) \<Longrightarrow> message example_screen title body accent a = Some ((), a)"
  by (simp add: message_def, subst message_loop.simps, cases "app.more a") (simp add: return_io_def example_keys)

lemma example_batch_libraries:
  assumes "ready a" "snd (app.more a)" "op = 1"
  shows "\<exists>a'. batch_libraries example_screen tbl lg (batch_borrowed example_machine tbl example_zip) op policy whole
    [(0, 1), (1, 0)] 0 a = Some (False, a') \<and> ready a' \<and> app.more a' = (False, True)"
proof -
  let ?ctx = "batch_borrowed example_machine tbl example_zip"
  have keys: "hidKeysDown example_screen a = Some ({KEY_A}, a)"
    using assms(2) by (cases "app.more a") (simp add: example_keys)
  obtain a' where one: "batch_sync_one example_machine example_zip 0 0 policy a = Some ((), a')" "ready a'" "app.more a' = (False, True)"
    using example_batch_one [OF assms(1)] assms(2) by fastforce
  have "bc_name ?ctx = lib_name" by (simp add: batch_borrowed_def)
  moreover have "daemoon_3ds_batch_op_label op = STR_BATCH_SYNC"
    using assms(3) by (simp add: daemoon_3ds_batch_op_label_def daemoon_3ds_batch_ops_def k_op_labels_def)
  ultimately have "batch_libraries example_screen tbl lg ?ctx op policy whole [(0, 1), (1, 0)] 0 a = Some (False, a')"
    using one(1) keys
    by (simp add: bind_io_def return_io_def lib_name_def with_app_def draw_progress_def)
  with one(2,3) show ?thesis by blast
qed

text \<open>A run in which every question is answered and every title tried, step by step.\<close>

lemma batch_run_through:
  assumes "bc_count ctx 0 w = Some (n0, w1)" "bc_count ctx 1 w1 = Some (n1, w2)" "n0 + n1 \<noteq> 0"
    and "batch_pick sc STR_BATCH_TITLE daemoon_3ds_batch_ops daemoon_3ds_batch_op_label daemoon_3ds_batch_op_hint 0 w2 = Some ((True, op), w3)"
    and "daemoon_3ds_batch_op_label op = STR_BATCH_SYNC" "bc_can_sync ctx w3 = Some (True, w4)"
    and "batch_pick sc STR_BATCH_POLICY daemoon_3ds_batch_policies daemoon_3ds_batch_policy_label daemoon_3ds_batch_policy_hint 0 w4 =
      Some ((True, row), w5)"
    and "batch_confirmed sc tbl lg ctx op row (daemoon_3ds_batch_policy row) [(0, n0), (1, n1)] (n0 + n1) w5 = Some y"
  shows "daemoon_3ds_batch_run sc tbl lg ctx w = Some y"
proof -
  have "batch_with_op sc tbl lg ctx [(0, n0), (1, n1)] (n0 + n1) (True, op) w3 = Some y"
    by (simp only: batch_with_op_def prod.case assms(5-7) bind_io_def option.case not_True_eq_False if_False if_True
        batch_with_policy_def assms(8) simp_thms)
  then show ?thesis
    unfolding daemoon_3ds_batch_run_def using assms(1-4) by (simp only: bind_io_def option.case prod.case if_False)
qed

lemma batch_confirmed_through:
  assumes "bc_confirm ctx = (\<lambda>q. return_io 1)" "batch_libraries example_screen tbl lg ctx op policy whole counts 0 a = Some (False, a')"
  shows "batch_confirmed example_screen tbl lg ctx op row policy counts whole a = Some (1, a')"
  using assms by (simp add: batch_confirmed_def) (simp add: bind_io_def return_io_def)

lemma example_batch_run:
  "\<exists>r a'. action_batch example_machine tbl example_zip (example_app [] False) = Some (r, a') \<and> \<not> intact a'"
proof -
  let ?a = "example_app [] False" and ?ctx = "batch_borrowed example_machine tbl example_zip"
  let ?b = "?a\<lparr>ap_batch := no_tally\<rparr>"
  let ?a1 = "select_backend False (?b\<lparr>ap_source_nds := False\<rparr>)"
  let ?a2 = "select_backend True (?a1\<lparr>ap_source_nds := True\<rparr>)"
  let ?a3 = "?a2\<lparr>app.more := (intact ?a2, True)\<rparr>"
  have ready: "ready ?b" "ready ?a1" "ready ?a3" by (simp_all add: example_ready)
  have counts: "bc_count ?ctx 0 ?b = Some (1, ?a1)" "bc_count ?ctx 1 ?a1 = Some (0, ?a2)"
    using example_count(1) [OF ready(1), of tbl] example_count(2) [OF ready(2), of tbl] by simp_all
  have ops: "daemoon_3ds_batch_ops = 2" "daemoon_3ds_batch_op_label 1 = STR_BATCH_SYNC"
    by (simp_all add: daemoon_3ds_batch_op_label_def daemoon_3ds_batch_ops_def k_op_labels_def)
  have picks: "batch_pick example_screen STR_BATCH_TITLE daemoon_3ds_batch_ops daemoon_3ds_batch_op_label daemoon_3ds_batch_op_hint 0 ?a2 =
      Some ((True, 1), ?a3)"
    "batch_pick example_screen STR_BATCH_POLICY daemoon_3ds_batch_policies daemoon_3ds_batch_policy_label daemoon_3ds_batch_policy_hint 0 ?a3 =
      Some ((True, 0), ?a3)"
    unfolding ops(1) by (rule example_pick, simp add: example_app_def)+
  have can: "bc_can_sync ?ctx ?a3 = Some (True, ?a3)"
    using ready(3) by (simp add: with_app_def return_io_def ready_def daemoon_3ds_config_can_sync_def example_settings_def)
  obtain a4 where libs: "batch_libraries example_screen tbl (ap_lang ?a) ?ctx 1 (daemoon_3ds_batch_policy 0) (1 + 0) [(0, 1), (1, 0)] 0 ?a3 =
      Some (False, a4)" "ready a4" "app.more a4 = (False, True)"
    using example_batch_libraries [OF ready(3) _ refl] by fastforce
  have "batch_confirmed example_screen tbl (ap_lang ?a) ?ctx 1 0 (daemoon_3ds_batch_policy 0) [(0, 1), (1, 0)] (1 + 0) ?a3 = Some (1, a4)"
    by (rule batch_confirmed_through [OF _ libs(1)]) simp
  from batch_run_through [OF counts _ picks(1) ops(2) can picks(2) this]
  have "daemoon_3ds_batch_run example_screen tbl (ap_lang ?a) ?ctx ?b = Some (1, a4)" by simp
  moreover obtain r a5 where "batch_after example_machine tbl (ap_source_nds ?a) 1 a4 = Some (r, a5)" "app.more a5 = app.more a4"
    using example_show [OF libs(2)] libs(3)
    by (simp add: batch_after_def bind_io_def with_app_def example_message return_io_def)
  ultimately have "action_batch example_machine tbl example_zip ?a = Some (r, a5)"
    by (simp add: action_batch_def with_app_def bind_set_app) (simp add: bind_io_def)
  moreover have "\<not> intact a5" using \<open>app.more a5 = app.more a4\<close> libs(3) by simp
  ultimately show ?thesis by blast
qed


text \<open>A restore: one backup on the card, which A picks.\<close>

definition example_nodes :: nodes where
  "example_nodes = [(''sdmc:/DaeMoon/backups/3ds_0004000000055D00_0123456789ab.zip'', Data []), (''sdmc:/DaeMoon/backups'', Folder)]"

abbreviation example_card :: example_app where
  "example_card \<equiv> example_app example_nodes True"

lemma example_readdir:
  "c_readdir ''sdmc:/DaeMoon/backups'' example_card = (Some [''3ds_0004000000055D00_0123456789ab.zip''], example_card)"
  by (simp add: c_readdir_def c_call_def next_fault_def example_app_def example_nodes_def parent_of_def)

lemma example_backup_list:
  "\<exists>row. daemoon_3ds_backup_list example_screen (fetch_env_by ruin) example_zip ''sdmc:/DaeMoon/backups'' example_title (Some current) 32
      example_card = Some ([row], example_card) \<and> br_name row = ''3ds_0004000000055D00_0123456789ab.zip''"
proof -
  have row: "\<exists>row. read_row (fetch_env_by ruin) example_zip dir r a = Some (row, a) \<and> br_name row = br_name r" for dir r a
    by (cases "row_path PATH_MAX dir (br_name r)") (simp_all add: read_row_def example_manifest return_io_def bind_io_def)
  have name: "br_name (blank_row ''3ds_0004000000055D00_0123456789ab.zip'') = ''3ds_0004000000055D00_0123456789ab.zip''"
    by (simp add: blank_row_def strlcpy_void_def daemoon_strlcpy_def cstr_Cons)
  have rows: "\<exists>row. read_rows example_screen (fetch_env_by ruin) example_zip dir current [r] a = Some ([row], a) \<and> br_name row = br_name r"
    for dir current r a
  proof -
    obtain row where "read_row (fetch_env_by ruin) example_zip dir r a = Some (row, a)" "br_name row = br_name r" using row by blast
    then show ?thesis by (cases current) (simp_all add: Let_def bind_io_def return_io_def)
  qed
  have sort: "sort_rows [row] = [row]" for row by (simp add: sort_rows_def)
  obtain row where "read_rows example_screen (fetch_env_by ruin) example_zip ''sdmc:/DaeMoon/backups'' (Some current)
      [blank_row ''3ds_0004000000055D00_0123456789ab.zip''] example_card = Some ([row], example_card)"
    "br_name row = ''3ds_0004000000055D00_0123456789ab.zip''"
    using rows name by metis
  then show ?thesis
    by (simp add: daemoon_3ds_backup_list_def example_key call_io_def bind_io_def example_readdir return_io_def sort)
qed

lemma example_picked:
  "daemoon_3ds_pick_backup example_screen tbl lg (fetch_env_by ruin) example_zip ''sdmc:/DaeMoon/backups'' example_title (Some current)
    (PATH_MAX * 2) example_card = Some (Inr ''sdmc:/DaeMoon/backups/3ds_0004000000055D00_0123456789ab.zip'', example_card)"
proof -
  obtain row where row: "daemoon_3ds_backup_list example_screen (fetch_env_by ruin) example_zip ''sdmc:/DaeMoon/backups'' example_title
      (Some current) 32 example_card = Some ([row], example_card)" "br_name row = ''3ds_0004000000055D00_0123456789ab.zip''"
    using example_backup_list by blast
  have same: "example_card\<lparr>app.more := (intact example_card, True)\<rparr> = example_card" "snd (app.more example_card)"
    by (simp_all add: example_app_def)
  have "row_path (PATH_MAX * 2) ''sdmc:/DaeMoon/backups'' (br_name row) = Inr ''sdmc:/DaeMoon/backups/3ds_0004000000055D00_0123456789ab.zip''"
    by (simp add: row_path_def sb_finish_def sb_simps PATH_MAX_def cstr_Cons row(2))
  moreover have "backups_loop example_screen tbl lg (fetch_env_by ruin) example_zip dir t cur [row] 0 0 False example_card =
      Some (Inr (br_name row), example_card)" for dir t cur
    by (subst backups_loop.simps) (simp add: draw_backups_def return_io_def example_keys same)
  ultimately show ?thesis
    by (simp add: daemoon_3ds_pick_backup_def MAX_SHOWN_def) (simp add: bind_io_def row(1) return_io_def)
qed

lemma example_restore_run:
  "\<exists>a'. action_restore example_machine tbl example_zip example_card = Some ((), a') \<and> \<not> intact a'"
proof -
  let ?lg = "ap_lang example_card"
  have env: "g_env example_machine example_card = fetch_env_by ruin" by (rule example_g_env) (simp_all add: example_app_def)
  have title: "cur_title example_card = example_title" "lib_titles (cur example_card) example_card \<noteq> []"
    by (simp_all add: cur_title_def cur_def lib_titles_def lib_of_def lib_index_def example_app_def)
  have digest: "current_digest example_machine example_title SHA256_HEX example_card = Some ([], example_card)"
    by (simp add: current_digest_def with_app_def env bind_io_def return_io_def)
  have restored: "daemoon_sync_restore_package (fetch_env_by ruin) example_zip example_title path example_card = Some (OK, ruin example_card)" for path
    unfolding daemoon_sync_restore_package_def by (rule example_restore) simp
  have shown: "report example_machine tbl STR_OP_RESTORE OK (ruin example_card) = Some ((), ruin example_card)"
    by (simp add: report_def with_app_def example_message example_app_def)
  have picked: "restore_picked example_machine tbl example_zip example_card (Inr path) example_card = Some ((), ruin example_card)" for path
    by (simp add: restore_picked_def title(1) env) (simp add: bind_io_def restored shown)
  have "action_restore example_machine tbl example_zip example_card = Some ((), ruin example_card)"
    using title(2) by (simp add: action_restore_def with_app_def backups_dir restore_begin_def title(1) env draw_loading_def)
      (simp add: bind_io_def digest example_picked picked)
  then show ?thesis by simp
qed


section \<open>Properties\<close>

text \<open>C14 The run the console makes on its own cannot overwrite a save that has changed here: whatever the
  network, the card and the screens do, if a property only writing to a save can destroy is lost in
  it, it was lost by synchronising a title of one of the two libraries through the backend of that
  very library, in a restore, and the decision was to download and the save had not changed since it
  was last synchronised.\<close>
theorem autosync_never_blind:
  assumes "quiet_machine I ma" "apart I" "steady ma" "I a" "run_autosync ma tbl mz a = Some (r, a')" "\<not> I a'"
  shows "\<exists>l \<in> {0, 1}. \<exists>u i stats x u' path v s v' local remote w1 w2 w3.
    env_save (g_env ma u) = Some (if l = 1 then ma_nds ma else ma_save ma) \<and>
    daemoon_sync_title_with (g_env ma u) mz (lib_titles l u ! i) (Some daemoon_3ds_autosync_opts) stats u = Some (x, u') \<and> I u \<and> \<not> I u' \<and>
    restore_package (g_env ma u) mz (lib_titles l u ! i) path True v = Some (s, v') \<and> I v \<and> \<not> I v' \<and>
    daemoon_sync_scan_local (g_env ma u) (lib_titles l u ! i) w1 = Some ((OK, local), w2) \<and>
    daemoon_api_get_latest (g_env ma u) (ti_platform (lib_titles l u ! i)) (ti_id (lib_titles l u ! i)) w2 = Some (Inr remote, w3) \<and>
    daemoon_sync_decide (Some local) (Some remote) = SYNC_DOWNLOAD \<and> \<not> daemoon_sync_local_dirty (Some local)"
proof -
  obtain l u x u' i stats where l: "l \<in> {0, 1}" and backend: "env_save (g_env ma u) = Some (if l = 1 then ma_nds ma else ma_save ma)"
    and sync: "daemoon_sync_title_with (g_env ma u) mz (lib_titles l u ! i) (Some daemoon_3ds_autosync_opts) stats u = Some (x, u')"
    and I: "I u" "\<not> I u'"
    using autosync_app_breaks [OF assms] unfolding sync_broke_def by blast
  have opts: "so_conflict daemoon_3ds_autosync_opts = POLICY_DEFER" "so_restore_confirmed daemoon_3ds_autosync_opts"
    by (simp_all add: daemoon_3ds_autosync_opts_def)
  from sync_title_breaks [OF quiet_g_env [OF assms(1)] I(1) sync I(2)]
  obtain path v s v' local remote w1 w2 w3 where
    restore: "restore_package (g_env ma u) mz (lib_titles l u ! i) path True v = Some (s, v')" "I v" "\<not> I v'"
    and decided: "daemoon_sync_scan_local (g_env ma u) (lib_titles l u ! i) w1 = Some ((OK, local), w2)"
    "daemoon_api_get_latest (g_env ma u) (ti_platform (lib_titles l u ! i)) (ti_id (lib_titles l u ! i)) w2 = Some (Inr remote, w3)"
    "daemoon_sync_decide (Some local) (Some remote) = SYNC_DOWNLOAD"
    using opts unfolding restore_broke_def by auto
  show ?thesis
    by (intro bexI [OF _ l] exI conjI) (fact backend sync I restore decided download_not_dirty [OF decided(3)])+
qed

theorem autosync_never_blind_witness:
  "\<exists>(u :: example_app) title local remote w1 w2 w3.
    daemoon_sync_scan_local (g_env example_machine u) title w1 = Some ((OK, local), w2) \<and>
    daemoon_api_get_latest (g_env example_machine u) (ti_platform title) (ti_id title) w2 = Some (Inr remote, w3) \<and>
    \<not> daemoon_sync_local_dirty (Some local)"
proof -
  obtain r a' where run: "run_autosync example_machine (\<lambda>_ _. None) example_zip (example_app [] True) = Some (r, a')" "\<not> intact a'"
    using example_autosync_run by blast
  have "intact (example_app [] True)" by (simp add: example_app_def)
  from autosync_never_blind [OF example_machine_quiet(1-3) this run] show ?thesis by blast
qed








end
