(* ===== verification/Survey.thy ===== *)
theory Survey
  imports App
begin

text \<open>
  The report on the saves of a console (\<open>action_survey\<close> of \<open>platform/3ds/source/main.c\<close>), and the
  services of the console that it and the settings use (\<open>console\<close>). The report reads every save of
  the library on the screen and writes one file on the card; it leaves the saves as they are.
\<close>

text \<open>
  What else of the console is called. \<open>co_own\<close> is the save backend as \<open>secret.c\<close> calls it, for
  the application's own title only; \<open>co_fs_result\<close> the number behind its last failure;
  \<open>co_language\<close> the number of the language in the console's settings, \<open>None\<close> when it cannot be
  read; \<open>co_drawable\<close> and \<open>co_font\<close> whether there is a font and whether it could be loaded;
  \<open>co_scan\<close> the camera, which shows its own screen.
  \<open>co_smdh\<close> tells the save backend in which language to read the names of titles. \<open>co_stack\<close> is
  what a local buffer holds before anything is written to it, \<open>co_build\<close> the text of the build.
  For the survey: \<open>co_secure\<close> is the secure value of a title, \<open>co_name\<close> the lookup of a
  title's name and \<open>co_probe\<close> what its steps said, \<open>co_icon\<close> whether there is an icon at an index
  of the library, \<open>co_names\<close> how the save backend is to read names, \<open>co_font_source\<close> which font is
  in use, \<open>co_forget\<close> empties the cache of names.
\<close>

record name_probe =
  np_open_direct :: nat
  np_open_direct2 :: nat
  np_open_archive :: nat
  np_open_file :: nat
  np_read :: nat
  np_read_bytes :: nat
  np_name_lang :: int
  np_rejected_non_ascii :: bool

record 'w console =
  co_own :: "'w save_backend"
  co_program_id :: "'w \<Rightarrow> u64 option \<times> 'w"
  co_fs_result :: "'w \<Rightarrow> nat \<times> 'w"
  co_format :: "title \<Rightarrow> nat \<Rightarrow> 'w \<Rightarrow> result \<times> 'w"
  co_language :: "'w \<Rightarrow> nat option \<times> 'w"
  co_drawable :: "lang \<Rightarrow> 'w \<Rightarrow> bool \<times> 'w"
  co_font :: "lang \<Rightarrow> 'w \<Rightarrow> bool \<times> 'w"
  co_scan :: "nat \<Rightarrow> 'w \<Rightarrow> (result \<times> bytes) \<times> 'w"
  co_smdh :: "nat \<Rightarrow> 'w \<Rightarrow> unit \<times> 'w"
  co_secure :: "title \<Rightarrow> 'w \<Rightarrow> (result \<times> u64 option) \<times> 'w"
  co_name :: "u64 \<Rightarrow> nat \<Rightarrow> nat \<Rightarrow> 'w \<Rightarrow> (result \<times> bytes) \<times> 'w"
  co_probe :: "'w \<Rightarrow> name_probe \<times> 'w"
  co_icon :: "nat \<Rightarrow> 'w \<Rightarrow> bool \<times> 'w"
  co_names :: "'w \<Rightarrow> (nat \<times> nat) \<times> 'w"
  co_font_source :: "'w \<Rightarrow> nat \<times> 'w"
  co_forget :: "'w \<Rightarrow> unit \<times> 'w"
  co_stack :: bytes
  co_build :: bytes

section \<open>The file\<close>

abbreviation (input) STR_OP_SURVEY :: str_id where "STR_OP_SURVEY \<equiv> 113"

text \<open>The last digits of a number in hexadecimal.\<close>

definition hex_digits_of :: "nat \<Rightarrow> nat \<Rightarrow> bytes" where
  "hex_digits_of n v = map (\<lambda>k. ''0123456789ABCDEF'' ! (v div 16 ^ (n - 1 - k) mod 16)) [0..<n]"

definition append_hex32 :: "strbuf \<Rightarrow> nat \<Rightarrow> strbuf" where
  "append_hex32 sb v = sb_add sb (''0x'' @ hex_digits_of 8 v)"

definition tid_of :: "title \<Rightarrow> u64" where
  "tid_of t = (case daemoon_3ds_parse_title_id (Some (ti_id t)) of Inl r \<Rightarrow> 0 | Inr n \<Rightarrow> n)"

definition k_all :: "lang list" where "k_all = [0, 1, 2, 3, 4, 5, 6, 7]"

primrec survey_langs :: "'w console \<Rightarrow> lang list \<Rightarrow> strbuf \<Rightarrow> ('w, strbuf) prog" where
  "survey_langs co [] sb = return_io sb"
| "survey_langs co (l # ls) sb =
    bind_io (call_io (co_drawable co l)) (\<lambda>drawable.
    survey_langs co ls (if drawable then daemoon_strbuf_addc (sb_add sb (daemoon_lang_code l)) CHR '','' else sb))"

definition survey_header :: "'w console \<Rightarrow> ('w, bytes) prog" where
  "survey_header co =
    bind_io (call_io (co_font_source co)) (\<lambda>font.
    let sb = sb_add (sb_add (daemoon_strbuf_init 160) ''# DaeMoon build '') (co_build co);
        sb = sb_add (daemoon_strbuf_add_uint (sb_add sb '' font='') font) '' drawable='' in
    bind_io (survey_langs co k_all sb) (\<lambda>sb.
    bind_io (call_io (co_names co)) (\<lambda>(ascii, smdh).
    let sb = daemoon_strbuf_add_uint (sb_add sb '' ascii_names='') ascii;
        sb = daemoon_strbuf_add_uint (sb_add sb '' smdh_lang='') smdh in
    return_io (sb_buf (daemoon_strbuf_addc sb CHR 0x0a)))))"

text \<open>\<open>survey_count_cb\<close>, and the sum of the sizes in a save.\<close>

definition survey_count_cb :: "nat \<Rightarrow> bytes \<Rightarrow> nat \<Rightarrow> bool \<times> nat" where
  "survey_count_cb whole path sz = (False, (whole + sz) mod 2 ^ 64)"

definition survey_bytes :: "'w env \<Rightarrow> save_handle \<Rightarrow> ('w, nat) prog" where
  "survey_bytes env save w =
    (case env_save env of None \<Rightarrow> None
     | Some b \<Rightarrow>
      (case sv_list_entries b of None \<Rightarrow> None
       | Some list_entries \<Rightarrow> (case run_walk survey_count_cb (list_entries save w) 0 of ((r, n), w') \<Rightarrow> Some (n, w'))))"

definition survey_save :: "'w env \<Rightarrow> title \<Rightarrow> ('w, result \<times> nat) prog" where
  "survey_save env t =
    bind_io (call_fn (env_save env) sv_open_save (\<lambda>f. f t)) (\<lambda>(r, save).
    if r \<noteq> OK then return_io (r, 0)
    else bind_io (survey_bytes env save) (\<lambda>n.
      bind_io (call_fn (env_save env) sv_close_save (\<lambda>f. f save)) (\<lambda>_. return_io (OK, n))))"

definition survey_routes :: "name_probe \<Rightarrow> strbuf \<Rightarrow> strbuf" where
  "survey_routes pr sb =
    (let sb = append_hex32 (sb_add sb '' direct='') (np_open_direct pr);
         sb = append_hex32 (sb_add sb '' direct2='') (np_open_direct2 pr);
         sb = append_hex32 (sb_add sb '' archive='') (np_open_archive pr);
         sb = append_hex32 (sb_add sb '' file='') (np_open_file pr);
         sb = append_hex32 (sb_add sb '' read='') (np_read pr)
     in daemoon_strbuf_add_uint (sb_add sb '' got='') (np_read_bytes pr))"

definition survey_name :: "'w console \<Rightarrow> title \<Rightarrow> strbuf \<Rightarrow> ('w, strbuf) prog" where
  "survey_name co t sb =
    bind_io (call_io (co_names co)) (\<lambda>(ascii, smdh).
    bind_io (call_io (co_name co (tid_of t) smdh NAME_MAX)) (\<lambda>(nr, real).
    bind_io (call_io (co_probe co)) (\<lambda>pr.
    let sb = sb_add (sb_add sb (CHR 0x09 # ''name='')) (if nr = OK then ''smdh'' else daemoon_result_code nr);
        sb = daemoon_strbuf_add_int (sb_add sb '' lang='') (np_name_lang pr);
        sb = (if np_rejected_non_ascii pr then sb_add sb '' undrawable'' else sb);
        sb = (if nr \<noteq> OK then survey_routes pr sb else sb) in
    return_io (sb_add (sb_add sb (CHR 0x09 # ''real='')) (if nr = OK then real else ''-'')))))"

definition survey_line :: "'w console \<Rightarrow> 'w env \<Rightarrow> nat \<Rightarrow> title \<Rightarrow> ('w, bytes) prog" where
  "survey_line co env i t =
    bind_io (call_io (co_secure co t)) (\<lambda>(sr, secure).
    bind_io (survey_save env t) (\<lambda>(opened, n).
    let sb = sb_add (sb_add (daemoon_strbuf_init 512) (ti_id t)) (CHR 0x09 # ''save='');
        sb = sb_add sb (if opened = OK then ''yes'' else daemoon_result_code opened);
        sb = daemoon_strbuf_add_uint (sb_add sb (CHR 0x09 # ''bytes='')) n;
        sb = sb_add sb (CHR 0x09 # ''secure='');
        sb = sb_add sb (if sr \<noteq> OK then daemoon_result_code sr
          else case secure of Some v \<Rightarrow> hex_digits_of 16 (unat v) | None \<Rightarrow> ''none'') in
    bind_io (if i < MAX_ICONS then call_io (co_icon co i) else return_io False) (\<lambda>icon.
    bind_io (survey_name co t (sb_add (sb_add sb (CHR 0x09 # ''icon='')) (if icon then ''yes'' else ''no''))) (\<lambda>sb.
    return_io (sb_buf (daemoon_strbuf_addc (sb_add (sb_add sb [CHR 0x09]) (ti_name t)) CHR 0x0a))))))"

primrec survey_lines :: "'w console \<Rightarrow> 'w env \<Rightarrow> 'w stream_ptr \<Rightarrow> nat \<Rightarrow> title list \<Rightarrow> ('w, unit) prog" where
  "survey_lines co env out i [] = return_io ()"
| "survey_lines co env out i (t # ts) =
    bind_io (survey_line co env i t) (\<lambda>line.
    bind_io (daemoon_stream_write out line) (\<lambda>_. survey_lines co env out (Suc i) ts))"

definition action_survey :: "('x app_scheme) machine \<Rightarrow> ('x app_scheme) console \<Rightarrow> lang_table \<Rightarrow> ('x app_scheme, unit) prog" where
  "action_survey ma co tbl = with_app (\<lambda>a.
    let env = g_env ma a in
    bind_io (fs_open_file env (WORK_DIR @ ''/survey.txt'') OPEN_WRITE) (\<lambda>(r, out).
    if r \<noteq> OK then report ma tbl STR_OP_SURVEY r
    else
      bind_io (survey_header co) (\<lambda>header.
      bind_io (daemoon_stream_write out header) (\<lambda>_.
      bind_io (survey_lines co env out 0 (lib_titles (cur a) a)) (\<lambda>_.
      bind_io (daemoon_stream_close out) (\<lambda>r.
      bind_io (call_io (co_forget co)) (\<lambda>_.
      report ma tbl STR_OP_SURVEY r)))))))"

section \<open>What it leaves alone\<close>

definition quiet_own :: "('w \<Rightarrow> bool) \<Rightarrow> 'w save_backend \<Rightarrow> bool" where
  "quiet_own I b \<longleftrightarrow> quiet_save I b \<and>
    (\<forall>f t w. sv_open_save_write b = Some f \<longrightarrow> I w \<longrightarrow> I (snd (f t w))) \<and>
    (\<forall>f h p w. sv_open_file b = Some f \<longrightarrow> I w \<longrightarrow>
      I (snd (f h p OPEN_WRITE w)) \<and> quiet_stream I (snd (fst (f h p OPEN_WRITE w)))) \<and>
    (\<forall>f h w. sv_commit b = Some f \<longrightarrow> I w \<longrightarrow> I (snd (f h w)))"

definition quiet_console :: "('w \<Rightarrow> bool) \<Rightarrow> 'w machine \<Rightarrow> 'w console \<Rightarrow> bool" where
  "quiet_console I ma co \<longleftrightarrow> quiet_own I (co_own co) \<and> (\<forall>w. I w \<longrightarrow> I (snd (co_program_id co w))) \<and>
    (\<forall>w. I w \<longrightarrow> I (snd (co_fs_result co w))) \<and> (\<forall>t n w. I w \<longrightarrow> I (snd (co_format co t n w))) \<and>
    (\<forall>w. I w \<longrightarrow> I (snd (co_language co w))) \<and> (\<forall>l w. I w \<longrightarrow> I (snd (co_drawable co l w))) \<and>
    (\<forall>l w. I w \<longrightarrow> I (snd (co_font co l w))) \<and> (\<forall>n w. I w \<longrightarrow> I (snd (co_scan co n w))) \<and>
    (\<forall>t w. I w \<longrightarrow> I (snd (co_secure co t w))) \<and>
    (\<forall>n lg cap w. I w \<longrightarrow> I (snd (co_name co n lg cap w))) \<and> (\<forall>w. I w \<longrightarrow> I (snd (co_probe co w))) \<and>
    (\<forall>i w. I w \<longrightarrow> I (snd (co_icon co i w))) \<and> (\<forall>w. I w \<longrightarrow> I (snd (co_names co w))) \<and>
    (\<forall>w. I w \<longrightarrow> I (snd (co_font_source co w))) \<and> (\<forall>w. I w \<longrightarrow> I (snd (co_forget co w))) \<and> (\<forall>n w. I w \<longrightarrow> I (snd (co_smdh co n w))) \<and>
    (\<forall>hint v cap w. I w \<longrightarrow> I (snd (ma_keyboard ma hint v cap w)))"

lemma safe_console [keeps_intros]:
  assumes "quiet_console I ma co"
  shows "safe I (call_io (co_program_id co))" "safe I (call_io (co_fs_result co))" "safe I (call_io (co_format co t n))"
    "safe I (call_io (co_language co))" "safe I (call_io (co_drawable co l))" "safe I (call_io (co_font co l))"
    "safe I (call_io (co_scan co n))" "safe I (call_io (co_secure co t))" "safe I (call_io (co_name co m lg cap))" "safe I (call_io (co_probe co))"
    "safe I (call_io (co_icon co i))" "safe I (call_io (co_names co))" "safe I (call_io (co_font_source co))" "safe I (call_io (co_forget co))"
    "safe I (call_io (co_smdh co n))"
    "safe I (call_io (ma_keyboard ma hint v n))"
  using assms by (auto simp: quiet_console_def intro!: keeps_call)

lemma safe_own [keeps_intros]:
  assumes "quiet_own I b"
  shows "safe I (call_fn (Some b) sv_open_save (\<lambda>f. f self))" "safe I (call_fn (Some b) sv_close_save (\<lambda>f. f save))"
    "safe I (call_fn (Some b) sv_open_save_write (\<lambda>f. f self))" "safe I (call_fn (Some b) sv_commit (\<lambda>f. f save))"
    "keeps I (call_fn (Some b) sv_open_file (\<lambda>f. f save p mode)) (\<lambda>(r, s). quiet_stream I s)"
proof -
  show "safe I (call_fn (Some b) sv_open_save (\<lambda>f. f self))" "safe I (call_fn (Some b) sv_close_save (\<lambda>f. f save))"
    "safe I (call_fn (Some b) sv_open_save_write (\<lambda>f. f self))" "safe I (call_fn (Some b) sv_commit (\<lambda>f. f save))"
    using assms by (auto simp: quiet_own_def quiet_save_def intro!: safe_call_fn)
  have opened: "I (snd (f save p mode w)) \<and> quiet_stream I (snd (fst (f save p mode w)))" if "sv_open_file b = Some f" "I w" for f w
    using assms that by (cases mode) (auto simp: quiet_own_def quiet_save_def)
  show "keeps I (call_fn (Some b) sv_open_file (\<lambda>f. f save p mode)) (\<lambda>(r, s). quiet_stream I s)"
    by (auto simp: call_fn_def case_prod_beta opened intro!: keeps_intros keeps_call split: option.split)
       (metis opened snd_conv)
qed

lemma console_parts [keeps_intros]: "quiet_console I ma co \<Longrightarrow> quiet_own I (co_own co)"
  by (simp add: quiet_console_def)

lemma safe_survey_save [keeps_intros]:
  assumes "quiet I env"
  shows "safe I (survey_save env t)"
proof -
  have "safe I (survey_bytes env save)" for save
  proof (rule safe_loop)
    fix w a w'
    assume I: "I w" and run: "survey_bytes env save w = Some (a, w')"
    obtain b f where bf: "env_save env = Some b" "sv_list_entries b = Some f"
      using run by (auto simp: survey_bytes_def split: option.splits)
    then have "quiet_walk I (f save w)" using assms I by (auto simp: quiet_def quiet_save_def)
    from run_walk_quiet [OF this, of survey_count_cb 0] run bf show "I w'"
      by (auto simp: survey_bytes_def split: prod.splits)
  qed
  moreover have "safe I (call_fn (env_save env) sv_open_save (\<lambda>f. f t))" "safe I (call_fn (env_save env) sv_close_save (\<lambda>f. f save))" for save
    using assms by (auto simp: quiet_def quiet_save_def intro!: safe_call_fn)
  ultimately show ?thesis unfolding survey_save_def by (auto intro!: keeps_intros)
qed

lemma safe_survey_langs [keeps_intros]: "quiet_console I ma co \<Longrightarrow> safe I (survey_langs co ls sb)"
  by (induction ls arbitrary: sb) (auto intro!: keeps_intros)

lemma safe_survey_lines [keeps_intros]:
  assumes "quiet_console I ma co" "quiet I env" "quiet_stream I out"
  shows "safe I (survey_lines co env out i ts)"
proof -
  have "safe I (survey_line co env i t)" for i t
    unfolding survey_line_def survey_name_def Let_def using assms(1,2) by (auto intro!: keeps_intros)
  with assms(3) show ?thesis by (induction ts arbitrary: i) (auto intro!: keeps_intros)
qed

lemma safe_survey [keeps_intros]:
  assumes "quiet_machine I ma" "quiet_console I ma co"
  shows "safe I (action_survey ma co tbl)"
  unfolding action_survey_def survey_header_def Let_def using assms by (auto intro!: keeps_intros)

end
