(* ===== verification/Pairing.thy ===== *)
theory Pairing
  imports Survey
begin

text \<open>
  The credential of a 3DS and how it gets one: the file in the application's own save
  (\<open>platform/3ds/source/secret.c\<close>), and from \<open>main.c\<close> the language, the software keyboard,
  the exchange of a pairing code, the camera, the first run, the settings and the pairing without a
  person.
\<close>

section \<open>The token in the application's own save\<close>

definition SECRET_PATH :: bytes where "SECRET_PATH = ''token''"
definition SECRET_MAX :: nat where "SECRET_MAX = TOKEN_MAX + DEVICE_ID_MAX + 8"
definition k_blocks :: "nat list" where "k_blocks = [256, 128, 32, 8]"

text \<open>\<open>0x%08lX\<close> of an \<open>unsigned long\<close> of 32 bits.\<close>

definition hex32 :: "nat \<Rightarrow> bytes" where
  "hex32 n = (let s = upper_hex (to_uint n) in ''0x'' @ replicate (8 - length s) CHR ''0'' @ s)"

definition trace_step :: "'w machine \<Rightarrow> 'w console \<Rightarrow> bytes \<Rightarrow> result \<Rightarrow> ('w, unit) prog" where
  "trace_step ma co step r =
    (if r = OK then trace (ma_screen ma) step (Some ''ok'')
     else bind_io (call_io (co_fs_result co)) (\<lambda>n.
       trace (ma_screen ma) step (Some (take 47 (daemoon_result_code r @ '' '' @ hex32 n)))))"

definition own_title :: "'w console \<Rightarrow> ('w, result + title) prog" where
  "own_title co =
    bind_io (call_io (co_program_id co)) (\<lambda>x. return_io (case x of None \<Rightarrow> Inl ERR_BACKEND_ERROR
      | Some n \<Rightarrow> Inr \<lparr>ti_id = the (daemoon_3ds_format_title_id n TITLE_ID_MAX), ti_name = [], ti_platform = PLATFORM_3DS,
          ti_save_type = SAVE_SAVEDATA, ti_size_hint = 1, ti_has_save = True, ti_secure_value = False, ti_account_bound = False\<rparr>))"

text \<open>The two lines of the file, and what is read out of them.\<close>

definition secret_text :: "bytes \<Rightarrow> bytes \<Rightarrow> strbuf" where
  "secret_text token device_id =
    daemoon_strbuf_addc (sb_add (daemoon_strbuf_addc (sb_add (daemoon_strbuf_init SECRET_MAX) token) CHR 0x0a) device_id) CHR 0x0a"

definition secret_lines :: "bytes \<Rightarrow> nat \<Rightarrow> nat \<Rightarrow> bytes \<times> bytes" where
  "secret_lines buf token_len device_len =
    (let s = cstr buf in
     (strlcpy_void token_len (takeWhile (\<lambda>c. c \<noteq> CHR 0x0a) s),
      if CHR 0x0a \<in> set s
      then takeWhile (\<lambda>c. c \<noteq> CHR 0x0a) (strlcpy_void device_len (tl (dropWhile (\<lambda>c. c \<noteq> CHR 0x0a) s)))
      else []))"

text \<open>What is in the two buffers is part of the result only when it is \<open>OK\<close>, as both callers use it.\<close>

definition daemoon_3ds_secret_load :: "'w console \<Rightarrow> nat \<Rightarrow> nat \<Rightarrow> ('w, result + bytes \<times> bytes) prog" where
  "daemoon_3ds_secret_load co token_len device_len =
    (let own = Some (co_own co) in
     bind_io (own_title co) (\<lambda>x. case x of Inl r \<Rightarrow> return_io (Inl r)
     | Inr self \<Rightarrow>
       bind_io (call_fn own sv_open_save (\<lambda>f. f self)) (\<lambda>(r, save).
       if r \<noteq> OK then return_io (Inl r)
       else bind_io (call_fn own sv_open_file (\<lambda>f. f save SECRET_PATH OPEN_READ)) (\<lambda>(r, s).
         bind_io (if r = OK then bind_io (daemoon_stream_read s (SECRET_MAX - 1)) (\<lambda>(r, bs).
             bind_io (daemoon_stream_close s) (\<lambda>_. return_io (r, bs)))
           else return_io (r, [])) (\<lambda>(r, bs).
         bind_io (call_fn own sv_close_save (\<lambda>f. f save)) (\<lambda>_.
         if r \<noteq> OK then return_io (Inl r)
         else return_io (case secret_lines bs token_len device_len of (token, device_id) \<Rightarrow>
           if token \<noteq> [] then Inr (token, device_id) else Inl ERR_NOT_FOUND)))))))"

text \<open>The attempts to format the save; the last result.\<close>

primrec format_loop :: "'w machine \<Rightarrow> 'w console \<Rightarrow> title \<Rightarrow> nat list \<Rightarrow> result \<Rightarrow> ('w, result) prog" where
  "format_loop ma co self [] fr = return_io fr"
| "format_loop ma co self (n # ns) fr =
    bind_io (call_io (co_format co self n)) (\<lambda>fr.
    bind_io (trace_step ma co (take 31 (''secret/format'' @ dec n)) fr) (\<lambda>_.
    if fr = OK then return_io OK else format_loop ma co self ns fr))"

definition secret_open :: "'w machine \<Rightarrow> 'w console \<Rightarrow> title \<Rightarrow> ('w, result \<times> save_handle) prog" where
  "secret_open ma co self =
    bind_io (call_fn (Some (co_own co)) sv_open_save_write (\<lambda>f. f self)) (\<lambda>(r, save).
    bind_io (trace_step ma co ''secret/open'' r) (\<lambda>_.
    if r = OK then return_io (OK, save)
    else bind_io (format_loop ma co self k_blocks ERR_UNSUPPORTED) (\<lambda>fr.
      if fr \<noteq> OK then return_io (r, save)
      else bind_io (call_fn (Some (co_own co)) sv_open_save_write (\<lambda>f. f self)) (\<lambda>(r, save).
        bind_io (trace_step ma co ''secret/reopen'' r) (\<lambda>_. return_io (r, save))))))"

definition secret_write :: "'w console \<Rightarrow> save_handle \<Rightarrow> bytes \<Rightarrow> ('w, result) prog" where
  "secret_write co save buf =
    bind_io (call_fn (Some (co_own co)) sv_open_file (\<lambda>f. f save SECRET_PATH OPEN_WRITE)) (\<lambda>(r, s).
    if r \<noteq> OK then return_io r
    else bind_io (daemoon_stream_write s buf) (\<lambda>r.
      bind_io (daemoon_stream_close s) (\<lambda>cr. return_io (if r = OK then cr else r))))"

definition daemoon_3ds_secret_save :: "'w machine \<Rightarrow> 'w console \<Rightarrow> bytes \<Rightarrow> bytes \<Rightarrow> ('w, result) prog" where
  "daemoon_3ds_secret_save ma co token device_id =
    (let own = Some (co_own co) in
     bind_io (own_title co) (\<lambda>x. case x of Inl r \<Rightarrow> return_io r
     | Inr self \<Rightarrow>
       (case sb_finish (secret_text token device_id) of Inl r \<Rightarrow> return_io r
       | Inr buf \<Rightarrow>
         bind_io (secret_open ma co self) (\<lambda>(r, save).
         if r \<noteq> OK then return_io r
         else bind_io (secret_write co save buf) (\<lambda>r.
           bind_io (trace_step ma co ''secret/write'' r) (\<lambda>_.
           bind_io (if r = OK
             then bind_io (call_fn own sv_commit (\<lambda>f. f save)) (\<lambda>r.
               bind_io (trace_step ma co ''secret/commit'' r) (\<lambda>_. return_io r))
             else return_io r) (\<lambda>r.
           bind_io (call_fn own sv_close_save (\<lambda>f. f save)) (\<lambda>cr.
           return_io (if r = OK then cr else r)))))))))"


section \<open>The language\<close>

abbreviation (input) STR_SETTINGS_LANGUAGE_AUTO :: str_id where "STR_SETTINGS_LANGUAGE_AUTO \<equiv> 137"
abbreviation (input) STR_SETTINGS_LANGUAGE :: str_id where "STR_SETTINGS_LANGUAGE \<equiv> 136"
abbreviation (input) STR_SETTINGS_NO_FONT :: str_id where "STR_SETTINGS_NO_FONT \<equiv> 138"
abbreviation (input) STR_HINT_CHOOSE :: str_id where "STR_HINT_CHOOSE \<equiv> 89"

text \<open>The numbers are those of the console's settings (\<open>CFG_LANGUAGE_JP\<close> and so on).\<close>

definition system_lang :: "nat \<Rightarrow> lang" where
  "system_lang code =
    (let of_code = \<lambda>c. snd (daemoon_i18n_language_from_code (Some c) LANG_EN) in
     if code = 0 then of_code ''ja'' else if code = 2 then of_code ''fr'' else if code = 3 then of_code ''de''
     else if code = 5 then of_code ''es'' else if code = 6 then of_code ''zh-Hans'' else if code = 7 then of_code ''ko''
     else if code = 11 then of_code ''zh-Hant'' else LANG_EN)"

definition console_language :: "'w console \<Rightarrow> ('w, lang) prog" where
  "console_language co =
    bind_io (call_io (co_smdh co 1)) (\<lambda>_.
    bind_io (call_io (co_language co)) (\<lambda>x.
    case x of None \<Rightarrow> return_io LANG_EN
    | Some code \<Rightarrow> bind_io (call_io (co_smdh co code)) (\<lambda>_. return_io (system_lang code))))"

definition set_lang :: "lang \<Rightarrow> 'x app_scheme \<Rightarrow> 'x app_scheme" where
  "set_lang l a = a\<lparr>ap_lang := daemoon_i18n_set_language l (ap_lang a)\<rparr>"

text \<open>The language somebody chose, if the settings have one.\<close>

definition chosen_language :: "'x app_scheme \<Rightarrow> lang option" where
  "chosen_language a =
    (if cf_language (ap_config a) = [] then None
     else case daemoon_i18n_language_from_code (Some (cf_language (ap_config a))) LANG_EN of
       (r, l) \<Rightarrow> if r = OK then Some l else None)"

definition select_language :: "('x app_scheme) console \<Rightarrow> ('x app_scheme, lang) prog" where
  "select_language co =
    bind_io (console_language co) (\<lambda>system. with_app (\<lambda>a.
    let l = (case chosen_language a of None \<Rightarrow> system | Some m \<Rightarrow> m) in
    bind_io (set_app (set_lang l)) (\<lambda>_. return_io l)))"

definition LANG_ROWS :: nat where "LANG_ROWS = 9"

definition k_lang_order :: "lang list" where "k_lang_order = [0, 1, 2, 3, 4, 5, 6, 7]"

definition language_auto :: "lang_table \<Rightarrow> lang \<Rightarrow> nat \<Rightarrow> lang \<Rightarrow> bytes" where
  "language_auto tbl lg cap system = strf_text tbl lg cap STR_SETTINGS_LANGUAGE_AUTO [daemoon_lang_name tbl system]"

definition language_value :: "('x app_scheme) console \<Rightarrow> lang_table \<Rightarrow> nat \<Rightarrow> ('x app_scheme, bytes) prog" where
  "language_value co tbl cap = with_app (\<lambda>a.
    case chosen_language a of Some l \<Rightarrow> return_io (strlcpy_void cap (daemoon_lang_name tbl l))
    | None \<Rightarrow> bind_io (console_language co) (\<lambda>system. return_io (language_auto tbl (ap_lang a) cap system)))"

text \<open>The text of a row and whether the console could draw the language.\<close>

definition language_row_text :: "'w console \<Rightarrow> lang_table \<Rightarrow> lang \<Rightarrow> nat \<Rightarrow> nat \<Rightarrow> ('w, bytes \<times> bool) prog" where
  "language_row_text co tbl lg row cap =
    (if row = 0 then bind_io (console_language co) (\<lambda>system. return_io (language_auto tbl lg cap system, True))
     else let l = k_lang_order ! (row - 1) in
       bind_io (call_io (co_drawable co l)) (\<lambda>drawable.
       return_io (strlcpy_void cap (if drawable then daemoon_lang_name tbl l else daemoon_lang_code l), drawable)))"

primrec language_rows :: "'w console \<Rightarrow> lang_table \<Rightarrow> lang \<Rightarrow> nat list \<Rightarrow> ('w, bytes list) prog" where
  "language_rows co tbl lg [] = return_io []"
| "language_rows co tbl lg (row # rows) =
    bind_io (language_row_text co tbl lg row 96) (\<lambda>(text, drawable).
    bind_io (language_rows co tbl lg rows) (\<lambda>texts. return_io (text # texts)))"

definition language_current_row :: "'x app_scheme \<Rightarrow> nat" where
  "language_current_row a =
    (case chosen_language a of None \<Rightarrow> 0
     | Some l \<Rightarrow> if l \<in> set k_lang_order then Suc (length (takeWhile (\<lambda>m. m \<noteq> l) k_lang_order)) else 0)"

definition draw_languages :: "'w machine \<Rightarrow> 'w console \<Rightarrow> lang_table \<Rightarrow> lang \<Rightarrow> nat \<Rightarrow> ('w, unit) prog" where
  "draw_languages ma co tbl lg selected =
    bind_io (language_row_text co tbl lg selected 96) (\<lambda>(text, drawable).
    bind_io (language_rows co tbl lg [0..<LANG_ROWS]) (\<lambda>texts.
    draw (ma_screen ma) [STR_SETTINGS_LANGUAGE, STR_HINT_CHOOSE]
      (text # (if drawable then [] else [strf_text tbl lg 320 STR_SETTINGS_NO_FONT [daemoon_lang_code (k_lang_order ! (selected - 1))]]) @ texts)))"

text \<open>A on a row: whether the setting changed.\<close>

definition set_language_of :: "bytes \<Rightarrow> 'x app_scheme \<Rightarrow> 'x app_scheme" where
  "set_language_of code a = a\<lparr>ap_config := (ap_config a)\<lparr>cf_language := code\<rparr>\<rparr>"

definition pick_language :: "('x app_scheme) console \<Rightarrow> nat \<Rightarrow> ('x app_scheme, bool) prog" where
  "pick_language co selected =
    (if selected = 0 then
       bind_io (console_language co) (\<lambda>system.
       bind_io (set_app (set_language_of [])) (\<lambda>_.
       bind_io (call_io (co_font co system)) (\<lambda>_.
       bind_io (set_app (set_lang system)) (\<lambda>_. return_io True))))
     else let l = k_lang_order ! (selected - 1) in
       bind_io (call_io (co_drawable co l)) (\<lambda>drawable.
       if \<not> drawable then return_io False
       else bind_io (call_io (co_font co l)) (\<lambda>loaded.
       if \<not> loaded then return_io False
       else bind_io (set_app (set_language_of (strlcpy_void 12 (daemoon_lang_code l)))) (\<lambda>_.
         bind_io (set_app (set_lang l)) (\<lambda>_. return_io True)))))"

definition move_in_list :: "key set \<Rightarrow> nat \<Rightarrow> nat \<Rightarrow> nat" where
  "move_in_list down cnt selected =
    (let selected = (if KEY_UP \<in> down \<and> selected > 0 then selected - 1 else selected)
     in if KEY_DOWN \<in> down \<and> selected + 1 < cnt then selected + 1 else selected)"

partial_function (option) languages_loop ::
  "('x app_scheme) machine \<Rightarrow> ('x app_scheme) console \<Rightarrow> lang_table \<Rightarrow> nat \<Rightarrow> 'x app_scheme \<Rightarrow> (bool \<times> 'x app_scheme) option" where
  "languages_loop ma co tbl selected w =
    Option.bind (aptMainLoop (ma_screen ma) w) (\<lambda>(go, w).
    if \<not> go then Some (False, w)
    else Option.bind (hidKeysDown (ma_screen ma) w) (\<lambda>(down, w).
    Option.bind (draw_languages ma co tbl (ap_lang w) selected w) (\<lambda>(_, w).
    if KEY_B \<in> down then Some (False, w)
    else if KEY_A \<in> down then
      Option.bind (pick_language co selected w) (\<lambda>(changed, w).
      if changed then Some (True, w) else languages_loop ma co tbl selected w)
    else languages_loop ma co tbl (move_in_list down LANG_ROWS selected) w)))"

definition choose_language :: "('x app_scheme) machine \<Rightarrow> ('x app_scheme) console \<Rightarrow> lang_table \<Rightarrow> ('x app_scheme, bool) prog" where
  "choose_language ma co tbl = with_app (\<lambda>a.
    bind_io (trace (ma_screen ma) ''settings/language-open'' None) (\<lambda>_. languages_loop ma co tbl (language_current_row a)))"

section \<open>The keyboard and the exchange\<close>

abbreviation (input) STR_PAIR_AIM :: str_id where "STR_PAIR_AIM \<equiv> 115"
abbreviation (input) STR_PAIR_DONE :: str_id where "STR_PAIR_DONE \<equiv> 116"
abbreviation (input) STR_PAIR_ENTER_CODE :: str_id where "STR_PAIR_ENTER_CODE \<equiv> 117"
abbreviation (input) STR_PAIR_NO_CAMERA :: str_id where "STR_PAIR_NO_CAMERA \<equiv> 118"
abbreviation (input) STR_PAIR_NO_SERVER :: str_id where "STR_PAIR_NO_SERVER \<equiv> 119"
abbreviation (input) STR_PAIR_SCAN :: str_id where "STR_PAIR_SCAN \<equiv> 120"
abbreviation (input) STR_PAIR_TITLE :: str_id where "STR_PAIR_TITLE \<equiv> 122"
abbreviation (input) STR_PAIR_WRONG_CODE :: str_id where "STR_PAIR_WRONG_CODE \<equiv> 123"
abbreviation (input) STR_SETTINGS_SERVER :: str_id where "STR_SETTINGS_SERVER \<equiv> 143"

definition CONFIG_PATH :: bytes where "CONFIG_PATH = ''sdmc:/DaeMoon/config.txt''"
definition AUTOPAIR_PATH :: bytes where "AUTOPAIR_PATH = ''sdmc:/DaeMoon/AUTOPAIR''"

text \<open>What the field holds afterwards, or \<open>None\<close> when the keyboard was left without OK.\<close>

definition edit_field ::
  "('x app_scheme) machine \<Rightarrow> lang_table \<Rightarrow> str_id \<Rightarrow> bytes \<Rightarrow> bytes \<Rightarrow> nat \<Rightarrow> ('x app_scheme, bytes option) prog" where
  "edit_field ma tbl label hint v cap =
    (let cap = min cap 512 in
     bind_io (with_app (\<lambda>a. trace (ma_screen ma) ''settings/keyboard'' (Some (daemoon_str tbl (ap_lang a) label)))) (\<lambda>_.
     bind_io (call_io (ma_keyboard ma hint v cap)) (\<lambda>typed.
     return_io (case typed of None \<Rightarrow> None | Some buf \<Rightarrow> Some (strlcpy_void cap buf)))))"

definition set_config :: "(config \<Rightarrow> config) \<Rightarrow> ('x app_scheme, unit) prog" where
  "set_config f = set_app (\<lambda>a. a\<lparr>ap_config := f (ap_config a)\<rparr>)"

definition save_config :: "('x app_scheme, result) prog" where
  "save_config = with_app (\<lambda>a. call_io (daemoon_3ds_config_save CONFIG_PATH (ap_config a)))"

text \<open>After the exchange: the credential into the variables, into the archive, into the file.\<close>

definition pairing_store ::
  "('x app_scheme) machine \<Rightarrow> ('x app_scheme) console \<Rightarrow> lang_table \<Rightarrow> bytes \<Rightarrow> bytes \<Rightarrow> ('x app_scheme, bool) prog" where
  "pairing_store ma co tbl token device_id =
    bind_io (set_app (\<lambda>a. a\<lparr>ap_config := (ap_config a)\<lparr>cf_token := strlcpy_void TOKEN_MAX token,
      cf_device_id := strlcpy_void DEVICE_ID_MAX device_id\<rparr>, ap_has_token := True\<rparr>)) (\<lambda>_.
    bind_io (with_app (\<lambda>a. daemoon_3ds_secret_save ma co (cf_token (ap_config a)) (cf_device_id (ap_config a)))) (\<lambda>r.
    bind_io (trace (ma_screen ma) ''secret/saved'' (Some (daemoon_result_code r))) (\<lambda>_.
    bind_io (set_config (\<lambda>cfg. cfg\<lparr>cf_token_on_card := (r \<noteq> OK)\<rparr>)) (\<lambda>_.
    bind_io save_config (\<lambda>r.
    if r \<noteq> OK then bind_io (report ma tbl STR_PAIR_TITLE r) (\<lambda>_. return_io True)
    else bind_io (app_message ma tbl STR_PAIR_DONE GFX_OK) (\<lambda>_. return_io True))))))"

definition pairing_exchange ::
  "('x app_scheme) machine \<Rightarrow> ('x app_scheme) console \<Rightarrow> bytes \<Rightarrow> bytes \<Rightarrow> ('x app_scheme, result \<times> bytes option \<times> bytes option) prog" where
  "pairing_exchange ma co grant code = with_app (\<lambda>a.
    daemoon_api_pair (g_env ma a) (Some grant) (Some code) (Some (cf_device_label (ap_config a))) PLATFORM_3DS
      (Some (co_stack co)) TOKEN_MAX (Some (co_stack co)) DEVICE_ID_MAX)"

definition finish_pairing ::
  "('x app_scheme) machine \<Rightarrow> ('x app_scheme) console \<Rightarrow> lang_table \<Rightarrow> bytes \<Rightarrow> bytes \<Rightarrow> ('x app_scheme, bool) prog" where
  "finish_pairing ma co tbl grant code = with_app (\<lambda>a.
    let sc = ma_screen ma in
    if cf_server_url (ap_config a) = [] then bind_io (app_message ma tbl STR_PAIR_NO_SERVER GFX_WARN) (\<lambda>_. return_io False)
    else bind_io (call_io (ma_net_init ma)) (\<lambda>r.
    if r \<noteq> OK then bind_io (report ma tbl STR_OP_SYNC ERR_NETWORK_ERROR) (\<lambda>_. return_io False)
    else
      bind_io (trace sc ''pair/bearer'' (Some (if ap_has_token a \<and> cf_token (ap_config a) \<noteq> [] then ''yes'' else ''no''))) (\<lambda>_.
      bind_io (trace sc ''pair/exchange'' (Some grant)) (\<lambda>_.
      bind_io (draw_loading sc tbl (ap_lang a) STR_PAIR_TITLE 0 0) (\<lambda>_.
      bind_io (pairing_exchange ma co grant code) (\<lambda>(r, token, device_id).
      bind_io (trace sc ''pair/result'' (Some (daemoon_result_code r))) (\<lambda>_.
      if r \<noteq> OK then bind_io (report ma tbl STR_PAIR_TITLE r) (\<lambda>_. return_io False)
      else bind_io (with_app (\<lambda>a. trace sc ''pair/device''
          (Some (if cf_device_id (ap_config a) \<noteq> [] \<and> cf_device_id (ap_config a) = cstr (the device_id) then ''same'' else ''new'')))) (\<lambda>_.
        pairing_store ma co tbl (the token) (the device_id)))))))))"

definition pair_with_typed_code ::
  "('x app_scheme) machine \<Rightarrow> ('x app_scheme) console \<Rightarrow> lang_table \<Rightarrow> ('x app_scheme, bool) prog" where
  "pair_with_typed_code ma co tbl =
    bind_io (edit_field ma tbl STR_PAIR_TITLE ''000000'' [] PAIR_CODE_MAX) (\<lambda>code.
    case code of None \<Rightarrow> return_io False
    | Some code \<Rightarrow> if code = [] then return_io False else finish_pairing ma co tbl ''device_code'' code)"

definition no_payload :: pair_payload where "no_payload = \<lparr>pp_server = [], pp_code = []\<rparr>"

definition pair_by_scanning ::
  "('x app_scheme) machine \<Rightarrow> ('x app_scheme) console \<Rightarrow> lang_table \<Rightarrow> ('x app_scheme, bool) prog" where
  "pair_by_scanning ma co tbl =
    bind_io (trace (ma_screen ma) ''pair/scan'' None) (\<lambda>_.
    bind_io (call_io (co_scan co 512)) (\<lambda>(r, payload).
    bind_io (trace (ma_screen ma) ''pair/scan-done'' (Some (daemoon_result_code r))) (\<lambda>_.
    if r = ERR_USER_CANCELLED then return_io False
    else if r = ERR_BACKEND_ERROR then bind_io (app_message ma tbl STR_PAIR_NO_CAMERA GFX_DANGER) (\<lambda>_. return_io False)
    else if r \<noteq> OK then bind_io (report ma tbl STR_PAIR_TITLE r) (\<lambda>_. return_io False)
    else case daemoon_pair_parse (Some (cstr payload)) no_payload of (r, parsed) \<Rightarrow>
      if r \<noteq> OK then bind_io (app_message ma tbl STR_PAIR_WRONG_CODE GFX_WARN) (\<lambda>_. return_io False)
      else bind_io (set_config (\<lambda>cfg. cfg\<lparr>cf_server_url := strlcpy_void 256 (pp_server parsed)\<rparr>)) (\<lambda>_.
        finish_pairing ma co tbl ''qr'' (pp_code parsed)))))"

definition edit_server_url :: "('x app_scheme) machine \<Rightarrow> lang_table \<Rightarrow> ('x app_scheme, bool) prog" where
  "edit_server_url ma tbl = with_app (\<lambda>a.
    bind_io (edit_field ma tbl STR_SETTINGS_SERVER ''http://192.168.1.10:8080'' (cf_server_url (ap_config a)) 256) (\<lambda>typed.
    case typed of None \<Rightarrow> return_io False
    | Some url \<Rightarrow> bind_io (set_config (\<lambda>cfg. cfg\<lparr>cf_server_url := strip_slashes url\<rparr>)) (\<lambda>_. return_io True)))"

definition welcome_pair_manual ::
  "('x app_scheme) machine \<Rightarrow> ('x app_scheme) console \<Rightarrow> lang_table \<Rightarrow> ('x app_scheme, bool) prog" where
  "welcome_pair_manual ma co tbl =
    bind_io (edit_server_url ma tbl) (\<lambda>edited.
    if \<not> edited then return_io False
    else with_app (\<lambda>a.
      if cf_server_url (ap_config a) = [] then bind_io (app_message ma tbl STR_PAIR_NO_SERVER GFX_WARN) (\<lambda>_. return_io False)
      else pair_with_typed_code ma co tbl))"

definition run_welcome ::
  "('x app_scheme) machine \<Rightarrow> ('x app_scheme) console \<Rightarrow> lang_table \<Rightarrow> ('x app_scheme, unit) prog" where
  "run_welcome ma co tbl =
    bind_io (daemoon_3ds_welcome_run (ma_screen ma)
      \<lparr>wa_pair_qr = Some (pair_by_scanning ma co tbl), wa_pair_manual = Some (welcome_pair_manual ma co tbl)\<rparr>) (\<lambda>paired.
    bind_io (set_config (\<lambda>cfg. cfg\<lparr>cf_welcomed := True\<rparr>)) (\<lambda>_.
    bind_io save_config (\<lambda>r.
    bind_io (trace (ma_screen ma) ''welcome/save'' (Some (daemoon_result_code r))) (\<lambda>_.
    app_message ma tbl (if paired then STR_WELCOME_READY else STR_WELCOME_LATER) (if paired then GFX_OK else GFX_ACCENT)))))"


section \<open>The settings\<close>

abbreviation (input) STR_SETTINGS_AUTOSYNC :: str_id where "STR_SETTINGS_AUTOSYNC \<equiv> 134"
abbreviation (input) STR_SETTINGS_LABEL :: str_id where "STR_SETTINGS_LABEL \<equiv> 135"
abbreviation (input) STR_SETTINGS_OFF :: str_id where "STR_SETTINGS_OFF \<equiv> 139"
abbreviation (input) STR_SETTINGS_ON :: str_id where "STR_SETTINGS_ON \<equiv> 140"
abbreviation (input) STR_SETTINGS_SAVE_FAILED :: str_id where "STR_SETTINGS_SAVE_FAILED \<equiv> 141"
abbreviation (input) STR_SETTINGS_SAVED :: str_id where "STR_SETTINGS_SAVED \<equiv> 142"
abbreviation (input) STR_SETTINGS_SURVEY :: str_id where "STR_SETTINGS_SURVEY \<equiv> 144"
abbreviation (input) STR_SETTINGS_SURVEY_HINT :: str_id where "STR_SETTINGS_SURVEY_HINT \<equiv> 145"
abbreviation (input) STR_SETTINGS_TITLE :: str_id where "STR_SETTINGS_TITLE \<equiv> 146"
abbreviation (input) STR_SETTINGS_TOKEN :: str_id where "STR_SETTINGS_TOKEN \<equiv> 147"
abbreviation (input) STR_SETTINGS_UNSET :: str_id where "STR_SETTINGS_UNSET \<equiv> 148"
abbreviation (input) STR_SETTINGS_WELCOME :: str_id where "STR_SETTINGS_WELCOME \<equiv> 149"
abbreviation (input) STR_HINT_EDIT :: str_id where "STR_HINT_EDIT \<equiv> 91"

definition SETTINGS_ROWS :: nat where "SETTINGS_ROWS = 9"

definition k_settings_labels :: "str_id list" where
  "k_settings_labels = [STR_SETTINGS_SERVER, STR_SETTINGS_TOKEN, STR_SETTINGS_LABEL, STR_SETTINGS_LANGUAGE, STR_PAIR_SCAN,
    STR_PAIR_TITLE, STR_SETTINGS_WELCOME, STR_SETTINGS_AUTOSYNC, STR_SETTINGS_SURVEY]"

text \<open>What the screen shows of the token: six characters of it, and where it is kept.\<close>

definition masked_token :: "lang_table \<Rightarrow> lang \<Rightarrow> config \<Rightarrow> bytes" where
  "masked_token tbl lg cfg =
    (if cf_token cfg = [] then strlcpy_void 32 (daemoon_str tbl lg STR_SETTINGS_UNSET)
     else take 31 (take 6 (cf_token cfg) @ ''...  ('' @ (if cf_token_on_card cfg then ''SD card'' else ''save archive'') @ '')''))"

definition settings_values :: "lang_table \<Rightarrow> lang \<Rightarrow> config \<Rightarrow> bytes \<Rightarrow> bytes list" where
  "settings_values tbl lg cfg language =
    [if cf_server_url cfg \<noteq> [] then cf_server_url cfg else daemoon_str tbl lg STR_SETTINGS_UNSET, masked_token tbl lg cfg,
     cf_device_label cfg, language, daemoon_str tbl lg STR_PAIR_AIM, daemoon_str tbl lg STR_PAIR_ENTER_CODE,
     daemoon_str tbl lg STR_WELCOME_CONNECT_HOW, daemoon_str tbl lg (if cf_autosync cfg then STR_SETTINGS_ON else STR_SETTINGS_OFF),
     daemoon_str tbl lg STR_SETTINGS_SURVEY_HINT]"

definition draw_settings :: "('x app_scheme) machine \<Rightarrow> ('x app_scheme) console \<Rightarrow> lang_table \<Rightarrow> nat \<Rightarrow> ('x app_scheme, unit) prog" where
  "draw_settings ma co tbl selected =
    bind_io (language_value co tbl 64) (\<lambda>language. with_app (\<lambda>a.
    draw (ma_screen ma) (STR_SETTINGS_TITLE # k_settings_labels ! selected # k_settings_labels @ [STR_HINT_EDIT])
      [settings_values tbl (ap_lang a) (ap_config a) language ! selected, CONFIG_PATH]))"

text \<open>A token that was typed goes where a paired one goes.\<close>

definition settings_token :: "('x app_scheme) machine \<Rightarrow> ('x app_scheme) console \<Rightarrow> lang_table \<Rightarrow> ('x app_scheme, bool) prog" where
  "settings_token ma co tbl = with_app (\<lambda>a.
    bind_io (edit_field ma tbl STR_SETTINGS_TOKEN ''daemoonctl pair'' (cf_token (ap_config a)) TOKEN_MAX) (\<lambda>typed.
    case typed of None \<Rightarrow> return_io False
    | Some token \<Rightarrow>
      bind_io (set_config (\<lambda>cfg. cfg\<lparr>cf_token := token\<rparr>)) (\<lambda>_.
      bind_io (daemoon_3ds_secret_save ma co token (cf_device_id (ap_config a))) (\<lambda>sr.
      bind_io (trace (ma_screen ma) ''secret/typed'' (Some (daemoon_result_code sr))) (\<lambda>_.
      bind_io (set_app (\<lambda>a. a\<lparr>ap_config := (ap_config a)\<lparr>cf_token_on_card := (sr \<noteq> OK)\<rparr>,
        ap_has_token := cf_token (ap_config a) \<noteq> []\<rparr>)) (\<lambda>_. return_io True))))))"

definition settings_label :: "('x app_scheme) machine \<Rightarrow> lang_table \<Rightarrow> ('x app_scheme, bool) prog" where
  "settings_label ma tbl = with_app (\<lambda>a.
    bind_io (edit_field ma tbl STR_SETTINGS_LABEL ''3DS'' (cf_device_label (ap_config a)) LABEL_MAX) (\<lambda>typed.
    case typed of None \<Rightarrow> return_io False
    | Some label \<Rightarrow> bind_io (set_config (\<lambda>cfg. cfg\<lparr>cf_device_label := label\<rparr>)) (\<lambda>_. return_io True)))"

text \<open>A on a row: whether something was edited.\<close>

definition settings_row :: "('x app_scheme) machine \<Rightarrow> ('x app_scheme) console \<Rightarrow> lang_table \<Rightarrow> nat \<Rightarrow> ('x app_scheme, bool) prog" where
  "settings_row ma co tbl selected =
    (if selected = 0 then edit_server_url ma tbl
     else if selected = 1 then settings_token ma co tbl
     else if selected = 2 then settings_label ma tbl
     else if selected = 3 then choose_language ma co tbl
     else if selected = 4 then pair_by_scanning ma co tbl
     else if selected = 5 then pair_with_typed_code ma co tbl
     else if selected = 6 then bind_io (run_welcome ma co tbl) (\<lambda>_. return_io True)
     else if selected = 7 then bind_io (set_config (\<lambda>cfg. cfg\<lparr>cf_autosync := \<not> cf_autosync cfg\<rparr>)) (\<lambda>_. return_io True)
     else bind_io (action_survey ma co tbl) (\<lambda>_. return_io False))"

partial_function (option) settings_loop ::
  "('x app_scheme) machine \<Rightarrow> ('x app_scheme) console \<Rightarrow> lang_table \<Rightarrow> nat \<Rightarrow> bool \<Rightarrow> 'x app_scheme \<Rightarrow> (bool \<times> 'x app_scheme) option" where
  "settings_loop ma co tbl selected dirty w =
    Option.bind (aptMainLoop (ma_screen ma) w) (\<lambda>(go, w).
    if \<not> go then Some (dirty, w)
    else Option.bind (hidKeysDown (ma_screen ma) w) (\<lambda>(down, w).
    Option.bind (draw_settings ma co tbl selected w) (\<lambda>(_, w).
    if KEY_B \<in> down then Some (dirty, w)
    else Option.bind ((if KEY_A \<in> down then settings_row ma co tbl selected else return_io False) w) (\<lambda>(edited, w).
      settings_loop ma co tbl (move_in_list down SETTINGS_ROWS selected) (dirty \<or> edited) w))))"

text \<open>The token in the archive counts; one that is only in the file is moved there.\<close>

definition secret_adopt :: "('x app_scheme) machine \<Rightarrow> ('x app_scheme) console \<Rightarrow> ('x app_scheme, unit) prog" where
  "secret_adopt ma co =
    bind_io (daemoon_3ds_secret_load co TOKEN_MAX DEVICE_ID_MAX) (\<lambda>x. with_app (\<lambda>a.
    case x of Inr (token, device_id) \<Rightarrow>
      bind_io (set_config (\<lambda>cfg. cfg\<lparr>cf_token := strlcpy_void TOKEN_MAX token, cf_device_id := strlcpy_void DEVICE_ID_MAX device_id\<rparr>)) (\<lambda>_.
      trace (ma_screen ma) ''secret/loaded'' (Some device_id))
    | Inl _ \<Rightarrow>
      if cf_token (ap_config a) = [] then return_io ()
      else bind_io (daemoon_3ds_secret_save ma co (cf_token (ap_config a)) (cf_device_id (ap_config a))) (\<lambda>mr.
        bind_io (trace (ma_screen ma) ''secret/migrated'' (Some (daemoon_result_code mr))) (\<lambda>_.
        bind_io (set_config (\<lambda>cfg. cfg\<lparr>cf_token_on_card := (mr \<noteq> OK)\<rparr>)) (\<lambda>_.
        if mr = OK then bind_io save_config (\<lambda>_. return_io ()) else return_io ())))))"

definition token_now :: "'x app_scheme \<Rightarrow> 'x app_scheme" where
  "token_now a = a\<lparr>ap_has_token := cf_token (ap_config a) \<noteq> []\<rparr>"

definition settings_save :: "('x app_scheme) machine \<Rightarrow> ('x app_scheme) console \<Rightarrow> lang_table \<Rightarrow> ('x app_scheme, unit) prog" where
  "settings_save ma co tbl =
    bind_io save_config (\<lambda>r.
    bind_io (trace (ma_screen ma) ''settings/save'' (Some (daemoon_result_code r))) (\<lambda>_.
    if r \<noteq> OK then app_message ma tbl STR_SETTINGS_SAVE_FAILED GFX_DANGER
    else
      bind_io (set_app token_now) (\<lambda>_.
      bind_io (secret_adopt ma co) (\<lambda>_.
      bind_io (with_app (\<lambda>a. if daemoon_3ds_config_can_sync (ap_config a) then call_io (ma_net_init ma) else return_io OK)) (\<lambda>_.
      app_message ma tbl STR_SETTINGS_SAVED GFX_OK)))))"

definition action_settings :: "('x app_scheme) machine \<Rightarrow> ('x app_scheme) console \<Rightarrow> lang_table \<Rightarrow> ('x app_scheme, unit) prog" where
  "action_settings ma co tbl =
    bind_io (trace (ma_screen ma) ''settings/open'' None) (\<lambda>_.
    bind_io (settings_loop ma co tbl 0 False) (\<lambda>dirty.
    if \<not> dirty then return_io () else settings_save ma co tbl))"

section \<open>Pairing without a person\<close>

text \<open>The text of the file without the line ends after it.\<close>

definition autopair_read :: "('x app_scheme) machine \<Rightarrow> ('x app_scheme, bytes option) prog" where
  "autopair_read ma = with_app (\<lambda>a.
    bind_io (fs_open_file (g_env ma a) AUTOPAIR_PATH OPEN_READ) (\<lambda>(r, s).
    if r \<noteq> OK then return_io None
    else bind_io (daemoon_stream_read s 511) (\<lambda>(r, bs).
      bind_io (daemoon_stream_close s) (\<lambda>_.
      return_io (Some (if r \<noteq> OK then []
        else rev (dropWhile (\<lambda>c. c = CHR 0x0a \<or> c = CHR 0x0d) (rev bs))))))))"

text \<open>From the code on: the last result, and what the line in the report says of it.\<close>

definition autopair_exchange ::
  "('x app_scheme) machine \<Rightarrow> ('x app_scheme) console \<Rightarrow> bytes \<Rightarrow> ('x app_scheme, result \<times> bytes) prog" where
  "autopair_exchange ma co code =
    bind_io (call_io (ma_net_init ma)) (\<lambda>r.
    let net = '' net='' @ daemoon_result_code r in
    if r \<noteq> OK then return_io (r, net)
    else bind_io (pairing_exchange ma co ''qr'' code) (\<lambda>(r, token, device_id).
      let pair = net @ '' pair='' @ daemoon_result_code r in
      if r \<noteq> OK then return_io (r, pair)
      else bind_io (set_app (\<lambda>a. a\<lparr>ap_config := (ap_config a)\<lparr>cf_token := strlcpy_void TOKEN_MAX (the token),
          cf_device_id := strlcpy_void DEVICE_ID_MAX (the device_id)\<rparr>, ap_has_token := True\<rparr>)) (\<lambda>_.
        bind_io save_config (\<lambda>r.
        return_io (r, pair @ '' save='' @ daemoon_result_code r @ '' device='' @ cstr (the device_id))))))"

definition autopair_line :: "'w console \<Rightarrow> result \<Rightarrow> bytes \<Rightarrow> bytes" where
  "autopair_line co parsed rest =
    sb_buf (daemoon_strbuf_addc (sb_add (daemoon_strbuf_init 256) (''build='' @ co_build co @ '' parse='' @ daemoon_result_code parsed @ rest)) CHR 0x0a)"

definition run_autopair ::
  "('x app_scheme) machine \<Rightarrow> ('x app_scheme) console \<Rightarrow> lang_table \<Rightarrow> ('x app_scheme, unit) prog" where
  "run_autopair ma co tbl =
    bind_io (autopair_read ma) (\<lambda>x. case x of None \<Rightarrow> return_io ()
    | Some payload \<Rightarrow>
      (case daemoon_pair_parse (Some payload) no_payload of (pr, parsed) \<Rightarrow>
       bind_io (if pr \<noteq> OK then return_io (pr, [])
         else bind_io (set_config (\<lambda>cfg. cfg\<lparr>cf_server_url := strlcpy_void 256 (pp_server parsed)\<rparr>)) (\<lambda>_.
           autopair_exchange ma co (pp_code parsed))) (\<lambda>(r, rest).
       let line = autopair_line co pr rest in with_app (\<lambda>a.
       bind_io (fs_open_file (g_env ma a) (WORK_DIR @ ''/autopair.txt'') OPEN_WRITE) (\<lambda>(opened, out).
       bind_io (if opened = OK then bind_io (daemoon_stream_write out line) (\<lambda>_. bind_io (daemoon_stream_close out) (\<lambda>_. return_io ()))
         else return_io ()) (\<lambda>_.
       message (ma_screen ma) (daemoon_str tbl (ap_lang a) STR_APP_TITLE) line (if r = OK then GFX_OK else GFX_DANGER)))))))"


section \<open>What all this leaves alone\<close>

text \<open>
  The services keep \<open>I\<close>, those writing to the application's own save among them, and so does a
  save of the settings; \<open>I\<close> does not speak of the variables that are set here.
\<close>

definition quiet_settings :: "('x app_scheme \<Rightarrow> bool) \<Rightarrow> bool" where
  "quiet_settings I \<longleftrightarrow>
    (\<forall>cfg a. I a \<longrightarrow> I (snd (daemoon_3ds_config_save CONFIG_PATH cfg a))) \<and>
    (\<forall>a. I a \<longrightarrow> I (snd (daemoon_3ds_config_load CONFIG_PATH a))) \<and>
    (\<forall>a. (\<forall>v. I (a\<lparr>ap_config := v\<rparr>) = I a) \<and> (\<forall>v. I (a\<lparr>ap_has_token := v\<rparr>) = I a) \<and> (\<forall>v. I (a\<lparr>ap_lang := v\<rparr>) = I a))"

lemma safe_settings_vars [keeps_intros]:
  assumes "quiet_settings I"
  shows "safe I (set_config f)" "safe I save_config" "safe I (set_app (set_lang l))" "safe I (set_app (set_language_of code))"
    "safe I (set_app token_now)"
    "safe I (set_app (\<lambda>a. a\<lparr>ap_config := f (ap_config a), ap_has_token := t\<rparr>))"
    "safe I (set_app (\<lambda>a. a\<lparr>ap_config := f (ap_config a), ap_has_token := g (ap_config a)\<rparr>))"
  using assms
  by (auto simp: quiet_settings_def set_config_def save_config_def set_lang_def set_language_of_def token_now_def
      intro!: safe_set_app keeps_intros keeps_call)

lemma safe_trace_step [keeps_intros]: "quiet_machine I ma \<Longrightarrow> quiet_console I ma co \<Longrightarrow> safe I (trace_step ma co step r)"
  unfolding trace_step_def by (auto intro!: keeps_intros)

lemma safe_own_title [keeps_intros]: "quiet_console I ma co \<Longrightarrow> safe I (own_title co)"
  unfolding own_title_def by (auto intro!: keeps_intros)

lemma safe_secret_load [keeps_intros]:
  assumes "quiet_console I ma co"
  shows "safe I (daemoon_3ds_secret_load co n k)"
  unfolding daemoon_3ds_secret_load_def Let_def using assms
  by (auto intro!: keeps_intros keeps_bind [OF safe_own(5) [OF console_parts [OF assms]]] split: sum.split prod.split)


lemma safe_format_loop [keeps_intros]: "quiet_machine I ma \<Longrightarrow> quiet_console I ma co \<Longrightarrow> safe I (format_loop ma co self ns fr)"
  by (induction ns arbitrary: fr) (auto intro!: keeps_intros)

lemma safe_secret_save [keeps_intros]:
  assumes "quiet_machine I ma" "quiet_console I ma co"
  shows "safe I (daemoon_3ds_secret_save ma co token device_id)"
proof -
  have "safe I (secret_open ma co self)" for self
    unfolding secret_open_def using assms by (auto intro!: keeps_intros)
  moreover have "safe I (secret_write co save buf)" for save buf
    unfolding secret_write_def
    by (auto intro!: keeps_intros keeps_bind [OF safe_own(5) [OF console_parts [OF assms(2)]]] split: prod.split)
  ultimately show ?thesis
    unfolding daemoon_3ds_secret_save_def Let_def using assms
    by (auto intro!: keeps_intros split: sum.split)
qed

lemma safe_console_language [keeps_intros]: "quiet_console I ma co \<Longrightarrow> safe I (console_language co)"
  unfolding console_language_def by (auto intro!: keeps_intros split: option.split)

lemma safe_row_text [keeps_intros]: "quiet_console I ma co \<Longrightarrow> safe I (language_row_text co tbl lg row cap)"
  unfolding language_row_text_def Let_def by (auto intro!: keeps_intros)

lemma safe_language_rows [keeps_intros]: "quiet_console I ma co \<Longrightarrow> safe I (language_rows co tbl lg rows)"
  by (induction rows) (auto intro!: keeps_intros)

lemma safe_draw_languages [keeps_intros]:
  "quiet_machine I ma \<Longrightarrow> quiet_console I ma co \<Longrightarrow> safe I (draw_languages ma co tbl lg selected)"
  unfolding draw_languages_def by (auto intro!: keeps_intros)

lemma safe_pick_language [keeps_intros]:
  "quiet_console I ma co \<Longrightarrow> quiet_settings I \<Longrightarrow> safe I (pick_language co selected)"
  unfolding pick_language_def Let_def by (auto intro!: keeps_intros)

lemma safe_languages_loop [keeps_intros]:
  assumes "quiet_machine I ma" "quiet_console I ma co" "quiet_settings I"
  shows "safe I (languages_loop ma co tbl selected)"
proof (rule safe_loop)
  fix w a w'
  assume I: "I w" and run: "languages_loop ma co tbl selected w = Some (a, w')"
  have "quiet_machine I ma \<longrightarrow> quiet_console I ma co \<longrightarrow> I w \<longrightarrow> I (snd y)" if "languages_loop ma co tbl selected w = Some y" for y
    using that
  proof (induction ma co tbl selected w y rule: languages_loop.raw_induct [rotated 1, consumes 1, case_names step])
    case (step loop ma co tbl selected w y)
    show ?case
    proof (intro impI)
      assume hyps: "quiet_machine I ma" "quiet_console I ma co" "I w"
      have again: "I w \<Longrightarrow> lands I (loop ma co tbl s w)" for s w
        using step(1) hyps(1,2) by (fastforce intro: landsI)
      have drawn: "safe I (\<lambda>a. draw_languages ma co tbl (ap_lang a) selected a)"
        using safe_draw_languages [OF hyps(1,2)] by (auto simp: keeps_def)
      show "I (snd y)"
        by (rule landsD [OF step(2)])
           (auto intro!: lands_intros safe_screen quiet_machine_screen drawn safe_pick_language assms(3) hyps again)
    qed
  qed
  with I run assms show "I w'" by fastforce
qed

lemma safe_language_screens [keeps_intros]:
  assumes "quiet_machine I ma" "quiet_console I ma co" "quiet_settings I"
  shows "safe I (choose_language ma co tbl)" "safe I (select_language co)" "safe I (language_value co tbl cap)"
  using assms unfolding choose_language_def select_language_def language_value_def Let_def
  by (auto intro!: keeps_intros split: option.split)

lemma quiet_pair [keeps_intros]: "quiet I env \<Longrightarrow> safe I (daemoon_api_pair env g c l p t n d k)"
proof -
  have "quiet_body I (Some const_body_read) (\<lambda>_. True)"
    by (auto simp: quiet_body_def const_body_read_def Let_def intro!: keeps_intros)
  from api_do_safe [OF _ this] show "quiet I env \<Longrightarrow> ?thesis"
    unfolding daemoon_api_pair_def Let_def
    by (auto simp: mk_sink_def intro!: keeps_intros split: sum.split prod.split)
qed

lemma safe_edit_field [keeps_intros]:
  "quiet_machine I ma \<Longrightarrow> quiet_console I ma co \<Longrightarrow> safe I (edit_field ma tbl label hint v cap)"
  unfolding edit_field_def Let_def by (auto intro!: keeps_intros)

lemma safe_finish_pairing [keeps_intros]:
  assumes "quiet_machine I ma" "quiet_console I ma co" "quiet_settings I"
  shows "safe I (finish_pairing ma co tbl grant code)" "safe I (pairing_exchange ma co grant code)"
proof -
  show ex: "safe I (pairing_exchange ma co grant code)"
    unfolding pairing_exchange_def using assms by (auto intro!: keeps_intros)
  have vars: "safe I (set_app (\<lambda>a. a\<lparr>ap_config := (ap_config a)\<lparr>cf_token := t, cf_device_id := d\<rparr>, ap_has_token := True\<rparr>))" for t d
    by (rule safe_settings_vars(6) [OF assms(3)])
  have "safe I (pairing_store ma co tbl t d)" for t d
    unfolding pairing_store_def using assms by (auto intro!: keeps_intros vars)
  with ex assms show "safe I (finish_pairing ma co tbl grant code)"
    unfolding finish_pairing_def Let_def by (auto intro!: keeps_intros)
qed

lemma safe_pairing [keeps_intros]:
  assumes "quiet_machine I ma" "quiet_console I ma co" "quiet_settings I"
  shows "safe I (pair_with_typed_code ma co tbl)" "safe I (pair_by_scanning ma co tbl)" "safe I (edit_server_url ma tbl)"
    "safe I (welcome_pair_manual ma co tbl)"
proof -
  show code: "safe I (pair_with_typed_code ma co tbl)"
    unfolding pair_with_typed_code_def
    by (rule keeps_bind [OF safe_edit_field [OF assms(1,2)]]) (auto intro!: keeps_intros assms split: option.split)
  show "safe I (pair_by_scanning ma co tbl)"
    unfolding pair_by_scanning_def using assms by (auto intro!: keeps_intros split: prod.split)
  have url: "safe I (edit_server_url ma tbl)"
    unfolding edit_server_url_def
    by (rule safe_with_app, rule keeps_bind [OF safe_edit_field [OF assms(1,2)]]) (auto intro!: keeps_intros assms split: option.split)
  then show "safe I (edit_server_url ma tbl)" .
  with code show "safe I (welcome_pair_manual ma co tbl)"
    unfolding welcome_pair_manual_def using assms by (auto intro!: keeps_intros)
qed


text \<open>The screens of the first run, for actions that keep \<open>I\<close>.\<close>

lemma safe_intro_loop [keeps_intros]:
  assumes "quiet_screen I sc"
  shows "safe I (welcome_intro_loop sc page)"
proof (rule safe_loop)
  fix w a w'
  assume I: "I w" and run: "welcome_intro_loop sc page w = Some (a, w')"
  have "quiet_screen I sc \<longrightarrow> I w \<longrightarrow> I (snd y)" if "welcome_intro_loop sc page w = Some y" for y
    using that
  proof (induction sc page w y rule: welcome_intro_loop.raw_induct [rotated 1, consumes 1, case_names step])
    case (step loop sc page w y)
    show ?case
    proof (intro impI)
      assume hyps: "quiet_screen I sc" "I w"
      have again: "I w \<Longrightarrow> lands I (loop sc p w)" for p w
        using step(1) hyps(1) by (fastforce intro: landsI)
      show "I (snd y)"
        by (rule landsD [OF step(2)]) (auto intro!: lands_intros safe_screen hyps again simp: Let_def)
    qed
  qed
  with I run assms show "I w'" by fastforce
qed

lemma safe_choose_loop [keeps_intros]:
  assumes "quiet_screen I sc"
  shows "safe I (welcome_choose_loop sc cnt selected)"
proof (rule safe_loop)
  fix w a w'
  assume I: "I w" and run: "welcome_choose_loop sc cnt selected w = Some (a, w')"
  have "quiet_screen I sc \<longrightarrow> I w \<longrightarrow> I (snd y)" if "welcome_choose_loop sc cnt selected w = Some y" for y
    using that
  proof (induction sc cnt selected w y rule: welcome_choose_loop.raw_induct [rotated 1, consumes 1, case_names step])
    case (step loop sc cnt selected w y)
    show ?case
    proof (intro impI)
      assume hyps: "quiet_screen I sc" "I w"
      have again: "I w \<Longrightarrow> lands I (loop sc cnt s w)" for s w
        using step(1) hyps(1) by (fastforce intro: landsI)
      show "I (snd y)"
        by (rule landsD [OF step(2)]) (auto intro!: lands_intros safe_screen hyps again simp: Let_def)
    qed
  qed
  with I run assms show "I w'" by fastforce
qed

lemma safe_welcome_loop [keeps_intros]:
  assumes "quiet_screen I sc" "\<And>pair. wa_pair_qr acts = Some pair \<or> wa_pair_manual acts = Some pair \<Longrightarrow> safe I pair"
  shows "safe I (welcome_loop sc acts paired)"
proof (rule safe_loop)
  fix w a w'
  assume I: "I w" and run: "welcome_loop sc acts paired w = Some (a, w')"
  have "quiet_screen I sc \<longrightarrow> (\<forall>pair. wa_pair_qr acts = Some pair \<or> wa_pair_manual acts = Some pair \<longrightarrow> safe I pair) \<longrightarrow> I w \<longrightarrow> I (snd y)"
    if "welcome_loop sc acts paired w = Some y" for y
    using that
  proof (induction sc acts paired w y rule: welcome_loop.raw_induct [rotated 1, consumes 1, case_names step])
    case (step loop sc acts paired w y)
    show ?case
    proof (intro impI)
      assume hyps: "quiet_screen I sc" "\<forall>pair. wa_pair_qr acts = Some pair \<or> wa_pair_manual acts = Some pair \<longrightarrow> safe I pair" "I w"
      have again: "I w \<Longrightarrow> lands I (loop sc acts p w)" for p w
        using step(1) hyps(1,2) by (fastforce intro: landsI)
      have pieces: "safe I (welcome_choose sc)" "safe I (welcome_try acts choice p)" for choice p
        using hyps(1,2) unfolding welcome_choose_def welcome_try_def by (auto intro!: keeps_intros split: option.split)
      show "I (snd y)"
        by (rule landsD [OF step(2)]) (auto intro!: lands_intros safe_screen pieces hyps(1,3) again)
    qed
  qed
  with I run assms show "I w'" by fastforce
qed

lemma safe_welcome_run:
  assumes "quiet_screen I sc" "\<And>pair. wa_pair_qr acts = Some pair \<or> wa_pair_manual acts = Some pair \<Longrightarrow> safe I pair"
  shows "safe I (daemoon_3ds_welcome_run sc acts)"
  unfolding daemoon_3ds_welcome_run_def welcome_intro_def
  using assms(1) by (auto intro!: keeps_intros safe_welcome_loop [OF assms])

lemma safe_run_welcome [keeps_intros]:
  assumes "quiet_machine I ma" "quiet_console I ma co" "quiet_settings I"
  shows "safe I (run_welcome ma co tbl)"
  unfolding run_welcome_def
  by (rule keeps_bind [OF safe_welcome_run]) (use assms in \<open>auto intro!: keeps_intros\<close>)

lemma safe_settings_row [keeps_intros]:
  assumes "quiet_machine I ma" "quiet_console I ma co" "quiet_settings I"
  shows "safe I (settings_row ma co tbl selected)" "safe I (draw_settings ma co tbl selected)"
proof -
  have token: "safe I (settings_token ma co tbl)"
    unfolding settings_token_def
  proof (rule safe_with_app, rule keeps_bind [OF safe_edit_field [OF assms(1,2)]])
    fix a and typed :: "bytes option"
    have vars: "safe I (set_app (\<lambda>a. a\<lparr>ap_config := (ap_config a)\<lparr>cf_token_on_card := v\<rparr>, ap_has_token := cf_token (ap_config a) \<noteq> []\<rparr>))" for v
      by (rule safe_settings_vars(7) [OF assms(3)])
    show "safe I (case typed of None \<Rightarrow> return_io False
      | Some token \<Rightarrow> bind_io (set_config (\<lambda>cfg. cfg\<lparr>cf_token := token\<rparr>)) (\<lambda>_.
          bind_io (daemoon_3ds_secret_save ma co token (cf_device_id (ap_config a))) (\<lambda>sr.
          bind_io (trace (ma_screen ma) ''secret/typed'' (Some (daemoon_result_code sr))) (\<lambda>_.
          bind_io (set_app (\<lambda>a. a\<lparr>ap_config := (ap_config a)\<lparr>cf_token_on_card := (sr \<noteq> OK)\<rparr>,
            ap_has_token := cf_token (ap_config a) \<noteq> []\<rparr>)) (\<lambda>_. return_io True)))))"
      using assms by (auto intro!: keeps_intros vars split: option.split)
  qed
  have label: "safe I (settings_label ma tbl)"
    unfolding settings_label_def
    by (rule safe_with_app, rule keeps_bind [OF safe_edit_field [OF assms(1,2)]]) (auto intro!: keeps_intros assms split: option.split)
  show "safe I (settings_row ma co tbl selected)"
    unfolding settings_row_def using assms by (auto intro!: keeps_intros token label)
  show "safe I (draw_settings ma co tbl selected)"
    unfolding draw_settings_def using assms by (auto intro!: keeps_intros)
qed

lemma safe_settings_loop [keeps_intros]:
  assumes "quiet_machine I ma" "quiet_console I ma co" "quiet_settings I"
  shows "safe I (settings_loop ma co tbl selected dirty)"
proof (rule safe_loop)
  fix w a w'
  assume I: "I w" and run: "settings_loop ma co tbl selected dirty w = Some (a, w')"
  have "quiet_machine I ma \<longrightarrow> quiet_console I ma co \<longrightarrow> I w \<longrightarrow> I (snd y)" if "settings_loop ma co tbl selected dirty w = Some y" for y
    using that
  proof (induction ma co tbl selected dirty w y rule: settings_loop.raw_induct [rotated 1, consumes 1, case_names step])
    case (step loop ma co tbl selected dirty w y)
    show ?case
    proof (intro impI)
      assume hyps: "quiet_machine I ma" "quiet_console I ma co" "I w"
      have again: "I w \<Longrightarrow> lands I (loop ma co tbl s d w)" for s d w
        using step(1) hyps(1,2) by (fastforce intro: landsI)
      have row: "safe I (if c then settings_row ma co tbl selected else return_io False)" for c
        using hyps(1,2) assms(3) by (auto intro!: keeps_intros)
      show "I (snd y)"
        by (rule landsD [OF step(2)])
           (auto intro!: lands_intros safe_screen quiet_machine_screen row safe_settings_row(2) assms(3) hyps again)
    qed
  qed
  with I run assms show "I w'" by fastforce
qed

lemma safe_settings [keeps_intros]:
  assumes "quiet_machine I ma" "quiet_console I ma co" "quiet_settings I"
  shows "safe I (action_settings ma co tbl)"
proof -
  have "safe I (secret_adopt ma co)"
    unfolding secret_adopt_def
    by (rule keeps_bind [OF safe_secret_load [OF assms(2)]]) (use assms in \<open>auto intro!: keeps_intros split: sum.split prod.split\<close>)
  then have "safe I (settings_save ma co tbl)"
    unfolding settings_save_def using assms by (auto intro!: keeps_intros)
  with assms show ?thesis unfolding action_settings_def by (auto intro!: keeps_intros)
qed

lemma safe_autopair [keeps_intros]:
  assumes "quiet_machine I ma" "quiet_console I ma co" "quiet_settings I"
  shows "safe I (run_autopair ma co tbl)"
proof -
  have read: "safe I (autopair_read ma)"
    unfolding autopair_read_def using assms(1) by (auto intro!: keeps_intros)
  have vars: "safe I (set_app (\<lambda>a. a\<lparr>ap_config := (ap_config a)\<lparr>cf_token := t, cf_device_id := d\<rparr>, ap_has_token := True\<rparr>))" for t d
    by (rule safe_settings_vars(6) [OF assms(3)])
  have "safe I (autopair_exchange ma co code)" for code
    unfolding autopair_exchange_def Let_def using assms by (auto intro!: keeps_intros vars)
  with read show ?thesis
    unfolding run_autopair_def Let_def using assms by (auto intro!: keeps_intros split: option.split prod.split)
qed


section \<open>What pairing leaves behind\<close>

text \<open>Calls of the C library change the card and nothing else of the world.\<close>

definition card_only :: "('x card_scheme \<Rightarrow> 'a \<times> 'x card_scheme) \<Rightarrow> bool" where
  "card_only m \<longleftrightarrow> (\<forall>c. card.more (snd (m c)) = card.more c)"

named_theorems card_onlys

lemma card_only_ret [card_onlys]: "card_only (c_ret a)"
  by (simp add: card_only_def c_ret_def)

lemma card_only_seq [card_onlys]: "card_only m \<Longrightarrow> (\<And>a. card_only (f a)) \<Longrightarrow> card_only (c_seq m f)"
  by (simp add: card_only_def c_seq_def split: prod.split) (metis snd_conv)

lemma card_only_if [card_onlys]: "(b \<Longrightarrow> card_only m) \<Longrightarrow> (\<not> b \<Longrightarrow> card_only m') \<Longrightarrow> card_only (if b then m else m')"
  by simp

lemma card_only_call:
  assumes "\<And>c. card.more (snd (f c)) = card.more c" "\<And>e k c. card.more (snd (g e k c)) = card.more c"
  shows "card_only (c_call f g)"
  using assms by (auto simp: card_only_def c_call_def next_fault_def split: list.split fault.split)

lemma card_parts [simp]:
  "card.more (change ns c) = card.more c" "card.more (move h g c) = card.more c" "card.more (drop_stream h c) = card.more c"
  "card.more (snd (add_stream p c)) = card.more c" "card.more (put_bytes h bs c) = card.more c"
  by (simp_all add: change_def move_def drop_stream_def add_stream_def put_bytes_def split: option.split node.split)

lemma card_only_calls [card_onlys]:
  "card_only (c_fopen_rb p)" "card_only (c_fopen_wb p)" "card_only (c_fgets h n)" "card_only (c_fwrite h bs)"
  "card_only (c_fclose h)" "card_only (c_unlink p)" "card_only (c_rename p q)" "card_only (c_readdir p)"
  unfolding c_fopen_rb_def c_fopen_wb_def c_fgets_def c_fwrite_def c_fclose_def c_unlink_def c_rename_def c_readdir_def
  by (rule card_only_call; simp add: Let_def split: option.split node.split)+

lemma card_only_lines [card_onlys]: "card_only (config_lines cb fp user :: 'x card_scheme \<Rightarrow> _)"
proof -
  have "card.more (snd (config_lines cb fp user c)) = card.more c" for c :: "'x card_scheme"
  proof (induction cb fp user c rule: config_lines.induct)
    case (1 cb fp user c)
    obtain x c' where step: "c_fgets fp 512 c = (x, c')" by (cases "c_fgets fp 512 c")
    have "card.more c' = card.more c" using card_only_calls(3) [of fp 512] step by (metis card_only_def snd_conv)
    then show ?case using 1 [of x c'] step by (subst config_lines.simps) (cases x; simp)
  qed
  then show ?thesis by (simp add: card_only_def)
qed

lemma card_only_config [card_onlys]: "card_only (daemoon_3ds_config_save path cfg)" "card_only (daemoon_3ds_config_load path)"
proof -
  have extra: "card_only (print_extra fp xs ok)" for fp xs ok
    by (induction xs arbitrary: ok) (auto simp: print_if_def c_fprintf_def intro!: card_onlys split: prod.split)
  show "card_only (daemoon_3ds_config_save path cfg)"
    unfolding daemoon_3ds_config_save_def config_write_def c_fprintf_def
    by (auto intro!: card_onlys extra split: sum.split)
  show "card_only (daemoon_3ds_config_load path)"
    unfolding daemoon_3ds_config_load_def daemoon_config_read_lines_def
    by (auto intro!: card_onlys split: sum.split)
qed

lemma more_of_card: "card.more a = card.more a' \<Longrightarrow> app.more a = app.more a'"
  by (cases a, cases a') simp

text \<open>The services leave the settings alone.\<close>

definition leaves_settings :: "('x app_scheme) machine \<Rightarrow> ('x app_scheme) console \<Rightarrow> bool" where
  "leaves_settings ma co \<longleftrightarrow> (\<forall>cfg t. quiet_machine (\<lambda>a. ap_config a = cfg \<and> ap_has_token a = t) ma \<and>
    quiet_console (\<lambda>a. ap_config a = cfg \<and> ap_has_token a = t) ma co)"

lemma with_set: "with_app f a = f a a" "set_app g a = Some ((), g a)" "set_config h a = Some ((), a\<lparr>ap_config := h (ap_config a)\<rparr>)"
  by (simp_all add: with_app_def set_app_def set_config_def)

lemma pairing_store_keeps:
  fixes a :: "'x app_scheme"
  assumes "leaves_settings ma co" "pairing_store ma co tbl t d a = Some (b, a')"
  shows "\<exists>v r v' r' (w :: 'x app_scheme) w'. ap_config v = (ap_config a)\<lparr>cf_token := strlcpy_void TOKEN_MAX t, cf_device_id := strlcpy_void DEVICE_ID_MAX d\<rparr> \<and>
    daemoon_3ds_secret_save ma co (strlcpy_void TOKEN_MAX t) (strlcpy_void DEVICE_ID_MAX d) v = Some (r, v') \<and>
    ap_config a' = (ap_config a)\<lparr>cf_token := strlcpy_void TOKEN_MAX t, cf_device_id := strlcpy_void DEVICE_ID_MAX d,
      cf_token_on_card := (r \<noteq> OK)\<rparr> \<and> ap_has_token a' \<and>
    ap_config w = ap_config a' \<and> daemoon_3ds_config_save CONFIG_PATH (ap_config w) w = (r', w')"
proof -
  let ?cfg = "(ap_config a)\<lparr>cf_token := strlcpy_void TOKEN_MAX t, cf_device_id := strlcpy_void DEVICE_ID_MAX d\<rparr>"
  let ?a1 = "a\<lparr>ap_config := ?cfg, ap_has_token := True\<rparr>" and ?I = "\<lambda>a. ap_config a = ?cfg \<and> ap_has_token a = True"
  have quiet: "quiet_machine ?I ma" "quiet_console ?I ma co" using assms(1) unfolding leaves_settings_def by blast+
  obtain r a2 a3 where secret: "daemoon_3ds_secret_save ma co (cf_token ?cfg) (cf_device_id ?cfg) ?a1 = Some (r, a2)"
    and traced: "trace (ma_screen ma) ''secret/saved'' (Some (daemoon_result_code r)) a2 = Some ((), a3)"
    and rest: "bind_io save_config (\<lambda>r'. if r' \<noteq> OK then bind_io (report ma tbl STR_PAIR_TITLE r') (\<lambda>_. return_io True)
        else bind_io (app_message ma tbl STR_PAIR_DONE GFX_OK) (\<lambda>_. return_io True))
        (a3\<lparr>ap_config := (ap_config a3)\<lparr>cf_token_on_card := (r \<noteq> OK)\<rparr>\<rparr>) = Some (b, a')"
  proof -
    from assms(2) have "bind_io (with_app (\<lambda>a. daemoon_3ds_secret_save ma co (cf_token (ap_config a)) (cf_device_id (ap_config a)))) (\<lambda>r.
        bind_io (trace (ma_screen ma) ''secret/saved'' (Some (daemoon_result_code r))) (\<lambda>_.
        bind_io (set_config (\<lambda>cfg. cfg\<lparr>cf_token_on_card := (r \<noteq> OK)\<rparr>)) (\<lambda>_. bind_io save_config (\<lambda>r'.
        if r' \<noteq> OK then bind_io (report ma tbl STR_PAIR_TITLE r') (\<lambda>_. return_io True)
        else bind_io (app_message ma tbl STR_PAIR_DONE GFX_OK) (\<lambda>_. return_io True))))) ?a1 = Some (b, a')"
      unfolding pairing_store_def bind_set_app .
    then obtain r a2 where secret: "daemoon_3ds_secret_save ma co (cf_token ?cfg) (cf_device_id ?cfg) ?a1 = Some (r, a2)"
      and rest: "bind_io (trace (ma_screen ma) ''secret/saved'' (Some (daemoon_result_code r))) (\<lambda>_.
        bind_io (set_config (\<lambda>cfg. cfg\<lparr>cf_token_on_card := (r \<noteq> OK)\<rparr>)) (\<lambda>_. bind_io save_config (\<lambda>r'.
        if r' \<noteq> OK then bind_io (report ma tbl STR_PAIR_TITLE r') (\<lambda>_. return_io True)
        else bind_io (app_message ma tbl STR_PAIR_DONE GFX_OK) (\<lambda>_. return_io True)))) a2 = Some (b, a')"
      by (rule bind_SomeE) (simp add: that with_app_def)
    from rest show ?thesis
      by (rule bind_SomeE) (rule that [OF secret], auto simp: set_config_def bind_set_app)
  qed
  have a2: "?I a2" using keepsD [OF safe_secret_save [OF quiet] _ secret] by simp
  have a3: "?I a3"
    using keepsD [OF safe_screen(5) [OF quiet_machine_screen [OF quiet(1)]] a2 traced] by simp
  let ?w = "a3\<lparr>ap_config := (ap_config a3)\<lparr>cf_token_on_card := (r \<noteq> OK)\<rparr>\<rparr>" and ?final = "?cfg\<lparr>cf_token_on_card := (r \<noteq> OK)\<rparr>"
  have w: "ap_config ?w = ?final" "ap_has_token ?w" using a3 by simp_all
  let ?J = "\<lambda>a. ap_config a = ?final \<and> ap_has_token a = True"
  have quiet': "quiet_machine ?J ma" using assms(1) unfolding leaves_settings_def by blast
  from rest obtain r' w' where saving: "save_config ?w = Some (r', w')"
    and last: "(if r' \<noteq> OK then bind_io (report ma tbl STR_PAIR_TITLE r') (\<lambda>_. return_io True)
      else bind_io (app_message ma tbl STR_PAIR_DONE GFX_OK) (\<lambda>_. return_io True)) w' = Some (b, a')"
    by (rule bind_SomeE)
  have saved: "daemoon_3ds_config_save CONFIG_PATH (ap_config ?w) ?w = (r', w')"
    using saving unfolding save_config_def with_app_def call_io_def by (rule option.inject [THEN iffD1])
  have "card.more w' = card.more ?w" using card_only_config(1) saved by (metis card_only_def snd_conv)
  then have J: "?J w'" using w by (cases w'; cases ?w) simp
  have "safe ?J (if r' \<noteq> OK then bind_io (report ma tbl STR_PAIR_TITLE r') (\<lambda>_. return_io True)
      else bind_io (app_message ma tbl STR_PAIR_DONE GFX_OK) (\<lambda>_. return_io True))"
    using quiet' by (auto intro!: keeps_intros)
  from keepsD [OF this J last] have final: "ap_config a' = ?final" "ap_has_token a'" by simp_all
  have first: "ap_config ?a1 = ?cfg" by simp
  have secret': "daemoon_3ds_secret_save ma co (strlcpy_void TOKEN_MAX t) (strlcpy_void DEVICE_ID_MAX d) ?a1 = Some (r, a2)"
    using secret by simp
  have same: "ap_config ?w = ap_config a'" using w final by simp
  show ?thesis by (intro exI conjI, rule first, rule secret', rule final(1), rule final(2), rule same, rule saved)
qed

lemma finish_pairing_stores:
  fixes a :: "'x app_scheme"
  assumes "leaves_settings ma co" "finish_pairing ma co tbl grant code a = Some (True, a')"
  shows "\<exists>t d u u' v. cf_server_url (ap_config a) \<noteq> [] \<and> ap_config u = ap_config a \<and> ap_has_token u = ap_has_token a \<and>
    pairing_exchange ma co grant code u = Some ((OK, t, d), u') \<and> ap_config v = ap_config a \<and>
    pairing_store ma co tbl (the t) (the d) v = Some (True, a')"
proof -
  let ?sc = "ma_screen ma" and ?lg = "ap_lang a" and ?I = "\<lambda>u. ap_config u = ap_config a \<and> ap_has_token u = ap_has_token a"
  have quiet: "quiet_machine ?I ma" using assms(1) unfolding leaves_settings_def by blast
  have steps: "safe ?I (call_io (ma_net_init ma))" "safe ?I (trace ?sc st d)" "safe ?I (draw_loading ?sc tbl ?lg m 0 0)"
    "safe ?I (pairing_exchange ma co grant code)" for st d m
    using quiet by (auto simp: pairing_exchange_def intro!: keeps_intros)
  have url: "cf_server_url (ap_config a) \<noteq> []"
    using assms(2) by (auto simp: finish_pairing_def with_app_def bind_io_Some_iff return_io_def)
  from assms(2) url obtain r a1 where net: "call_io (ma_net_init ma) a = Some (r, a1)"
    and run1: "(if r \<noteq> OK then bind_io (report ma tbl STR_OP_SYNC ERR_NETWORK_ERROR) (\<lambda>_. return_io False)
    else
      bind_io (trace ?sc ''pair/bearer'' (Some (if ap_has_token a \<and> cf_token (ap_config a) \<noteq> [] then ''yes'' else ''no''))) (\<lambda>_.
      bind_io (trace ?sc ''pair/exchange'' (Some grant)) (\<lambda>_.
      bind_io (draw_loading ?sc tbl ?lg STR_PAIR_TITLE 0 0) (\<lambda>_.
      bind_io (pairing_exchange ma co grant code) (\<lambda>(r, token, device_id).
      bind_io (trace ?sc ''pair/result'' (Some (daemoon_result_code r))) (\<lambda>_.
      if r \<noteq> OK then bind_io (report ma tbl STR_PAIR_TITLE r) (\<lambda>_. return_io False)
      else bind_io (with_app (\<lambda>a. trace ?sc ''pair/device''
          (Some (if cf_device_id (ap_config a) \<noteq> [] \<and> cf_device_id (ap_config a) = cstr (the device_id) then ''same'' else ''new'')))) (\<lambda>_.
        pairing_store ma co tbl (the token) (the device_id)))))))) a1 = Some (True, a')"
    unfolding finish_pairing_def with_app_def Let_def if_not_P [OF url] by (elim bind_SomeE)
  have I1: "?I a1" using keepsD [OF steps(1) _ net] by simp
  have "r = OK" using run1 by (auto simp: bind_io_Some_iff return_io_def split: if_splits)
  from run1 [unfolded this simp_thms if_False not_True_eq_False]
  obtain b1 b2 a2 r t d a3 where to_ex: "trace ?sc ''pair/bearer'' (Some (if ap_has_token a \<and> cf_token (ap_config a) \<noteq> [] then ''yes'' else ''no'')) a1 = Some ((), b1)"
      "trace ?sc ''pair/exchange'' (Some grant) b1 = Some ((), b2)" "draw_loading ?sc tbl ?lg STR_PAIR_TITLE 0 0 b2 = Some ((), a2)"
    and ex: "pairing_exchange ma co grant code a2 = Some ((r, t, d), a3)"
    and run2: "bind_io (trace ?sc ''pair/result'' (Some (daemoon_result_code r))) (\<lambda>_.
      if r \<noteq> OK then bind_io (report ma tbl STR_PAIR_TITLE r) (\<lambda>_. return_io False)
      else bind_io (with_app (\<lambda>a. trace ?sc ''pair/device''
          (Some (if cf_device_id (ap_config a) \<noteq> [] \<and> cf_device_id (ap_config a) = cstr (the d) then ''same'' else ''new'')))) (\<lambda>_.
        pairing_store ma co tbl (the t) (the d))) a3 = Some (True, a')"
    by (elim bind_SomeE) (auto elim: that)
  have I2: "?I a2" using keepsD [OF steps(2) I1 to_ex(1)] keepsD [OF steps(2) _ to_ex(2)] keepsD [OF steps(3) _ to_ex(3)] by blast
  have I3: "?I a3" using keepsD [OF steps(4) I2 ex] by simp
  have "r = OK" using run2 by (auto simp: bind_io_Some_iff return_io_def split: if_splits)
  from run2 [unfolded this simp_thms if_False not_True_eq_False]
  obtain b3 a4 where to_store: "trace ?sc ''pair/result'' (Some (daemoon_result_code OK)) a3 = Some ((), b3)"
      "with_app (\<lambda>a. trace ?sc ''pair/device''
          (Some (if cf_device_id (ap_config a) \<noteq> [] \<and> cf_device_id (ap_config a) = cstr (the d) then ''same'' else ''new''))) b3 = Some ((), a4)"
    and stored: "pairing_store ma co tbl (the t) (the d) a4 = Some (True, a')"
    by (elim bind_SomeE) (auto elim: that)
  have "?I b3" using keepsD [OF steps(2) I3 to_store(1)] by simp
  then have "?I a4" using keepsD [OF steps(2) _ to_store(2) [unfolded with_app_def]] by blast
  with url ex \<open>r = OK\<close> stored I2 show ?thesis by blast
qed

text \<open>What speaks neither of the card nor of the variables is left alone by both.\<close>

lemma apart_from_all:
  fixes I :: "'x app_scheme \<Rightarrow> bool"
  assumes "\<And>a a'. app.more a = app.more a' \<Longrightarrow> I a = I a'"
  shows "quiet_settings I" "quiet_card I" "apart I"
proof -
  have card: "I (snd (m c)) = I c" if "card_only m" for m :: "'x app_scheme \<Rightarrow> 'b \<times> 'x app_scheme" and c
    by (rule assms, rule more_of_card) (use that in \<open>simp add: card_only_def\<close>)
  have vars: "I (a\<lparr>ap_config := c\<rparr>) = I a" "I (a\<lparr>ap_has_token := t\<rparr>) = I a" "I (a\<lparr>ap_lang := l\<rparr>) = I a"
    "I (a\<lparr>ap_lib_3ds := v\<rparr>) = I a" "I (a\<lparr>ap_lib_nds := v\<rparr>) = I a" "I (a\<lparr>ap_source_nds := t\<rparr>) = I a"
    "I (a\<lparr>ap_save_nds := t\<rparr>) = I a" "I (a\<lparr>ap_batch := x\<rparr>) = I a" for a c t l v x
    by (rule assms, simp)+
  show "quiet_settings I"
    unfolding quiet_settings_def by (simp add: card [OF card_only_config(1)] card [OF card_only_config(2)] vars)
  show "quiet_card I" unfolding quiet_card_def by (simp add: card [OF card_only_calls(8)])
  show "apart I" unfolding apart_def by (simp add: vars)
qed

section \<open>A console for the examples\<close>

definition no_probe :: name_probe where
  "no_probe = \<lparr>np_open_direct = 0, np_open_direct2 = 0, np_open_archive = 0, np_open_file = 0, np_read = 0, np_read_bytes = 0,
    np_name_lang = -1, np_rejected_non_ascii = False\<rparr>"

definition example_console :: "example_app console" where
  "example_console = \<lparr>co_own = the (env_save (fetch_env_by ruin)), co_program_id = (\<lambda>a. (Some 0x000400000DAE0000, a)),
    co_fs_result = (\<lambda>a. (0, a)), co_format = (\<lambda>t n a. (ERR_UNSUPPORTED, a)), co_language = (\<lambda>a. (None, a)),
    co_drawable = (\<lambda>l a. (True, a)), co_font = (\<lambda>l a. (True, a)), co_scan = (\<lambda>n a. ((ERR_BACKEND_ERROR, []), a)),
    co_smdh = (\<lambda>n a. ((), a)), co_secure = (\<lambda>t a. ((OK, None), a)), co_name = (\<lambda>n lg cap a. ((ERR_NOT_FOUND, []), a)),
    co_probe = (\<lambda>a. (no_probe, a)), co_icon = (\<lambda>i a. (False, a)), co_names = (\<lambda>a. ((0, 1), a)),
    co_font_source = (\<lambda>a. (0, a)), co_forget = (\<lambda>a. ((), a)), co_stack = [], co_build = ''0''\<rparr>"

definition answering_net :: "bytes \<Rightarrow> 'w net_backend" where
  "answering_net js = \<lparr>nt_request = Some (\<lambda>req w. XBody 200 js w
    (\<lambda>r w. XDone OK \<lparr>rs_status = 200, rs_sha256 = [], rs_content_length = -1\<rparr> w))\<rparr>"

definition pairing_machine :: "example_app machine" where
  "pairing_machine = example_machine\<lparr>ma_net := answering_net (json_flat [(''token'', JStr ''abc''), (''device_id'', JStr ''d1'')])\<rparr>"

abbreviation pairing_answer :: bytes where
  "pairing_answer \<equiv> json_flat [(''token'', JStr ''abc''), (''device_id'', JStr ''d1'')]"

lemma answering_exchange:
  assumes "env_net env = Some (answering_net js)"
  shows "run_request env req body (b, s) w =
    (case api_body_write s 200 js w of None \<Rightarrow> None
     | Some ((r, s), w) \<Rightarrow> Some ((OK, \<lparr>rs_status = 200, rs_sha256 = [], rs_content_length = -1\<rparr>, b, s), w))"
  using assms
  by (simp add: run_request_def answering_net_def push_body_def bind_io_def return_io_def split: option.split prod.split)

lemma pairing_answer_read:
  "daemoon_json_parse (Some pairing_answer) API_TOKENS = Inr (flat_toks [(''token'', JStr ''abc''), (''device_id'', JStr ''d1'')])"
  "daemoon_json_get_str pairing_answer (flat_toks [(''token'', JStr ''abc''), (''device_id'', JStr ''d1'')]) 0 ''token'' (Some []) TOKEN_MAX =
    (OK, Some ''abc'')"
  "daemoon_json_get_str pairing_answer (flat_toks [(''token'', JStr ''abc''), (''device_id'', JStr ''d1'')]) 0 ''device_id'' (Some []) DEVICE_ID_MAX =
    (OK, Some ''d1'')"
  "length pairing_answer < API_JSONBUF_MAX"
proof -
  let ?ms = "[(''token'', JStr ''abc''), (''device_id'', JStr ''d1'')]"
  have ok: "list_all (\<lambda>(k, v). plain_key k \<and> jval_ok v) ?ms" by code_simp
  show "daemoon_json_parse (Some pairing_answer) API_TOKENS = Inr (flat_toks ?ms)"
    by (rule flat_parse [OF _ ok]) (simp_all add: API_TOKENS_def)
  show "daemoon_json_get_str pairing_answer (flat_toks ?ms) 0 ''token'' (Some []) TOKEN_MAX = (OK, Some ''abc'')"
    by (rule flat_get_str [OF ok]) (simp_all add: TOKEN_MAX_def)
  show "daemoon_json_get_str pairing_answer (flat_toks ?ms) 0 ''device_id'' (Some []) DEVICE_ID_MAX = (OK, Some ''d1'')"
    by (rule flat_get_str [OF ok]) (simp_all add: DEVICE_ID_MAX_def)
  show "length pairing_answer < API_JSONBUF_MAX"
    using length_json_flat [of ?ms] by (simp add: jval_bound_def API_JSONBUF_MAX_def json_escape_def u8_def)
qed

lemma example_exchange_pair:
  fixes a :: example_app
  assumes "ap_config a = example_settings"
  shows "pairing_exchange pairing_machine example_console ''qr'' ''123456'' a = Some ((OK, Some ''abc'', Some ''d1''), a)"
proof -
  let ?env = "g_env pairing_machine a"
  have env: "env_net ?env = Some (answering_net pairing_answer)" "env_server_url ?env = Some ''http://s''"
    using assms by (simp_all add: g_env_def pairing_machine_def example_settings_def)
  have net: "net_available ?env" by (simp add: net_available_def env answering_net_def)
  obtain sb where sb: "pair_url ?env = Inr sb"
    by (simp add: pair_url_def build_base_text base_url_def env c_string_empty_def sb_simps Let_def cstr_Cons API_URL_MAX_def)
  have body: "daemoon_strbuf_result (pair_reqbody (Some ''qr'') (Some ''123456'') (Some ''label'') PLATFORM_3DS) = OK"
    using length_json_body [of "''qr''"] length_json_body [of "''123456''"] length_json_body [of "''label''"] length_json_body [of "''3ds''"]
    by (simp add: pair_reqbody_def sb_simps Let_def cstr_Cons)
  have ask: "run_request ?env req (Some const_body_read) (b, sink_reset (mk_sink None API_JSONBUF_MAX)) w =
      Some ((OK, \<lparr>rs_status = 200, rs_sha256 = [], rs_content_length = -1\<rparr>, b,
        (mk_sink None API_JSONBUF_MAX)\<lparr>sk_ok_body := \<lparr>am_cap = API_JSONBUF_MAX, am_buf = pairing_answer,
          am_truncated = False\<rparr>\<rparr>), w)" for req b w
    using pairing_answer_read(4)
    by (simp add: answering_exchange [OF env(1)] api_body_write_def sink_reset_def mk_sink_def membuf_append_def membuf_init_def
        status_ok_def return_io_def API_JSONBUF_MAX_def API_ERRBUF_MAX_def Let_def)
  have "cf_device_label (ap_config a) = ''label''" "co_stack example_console = []" "DEVICE_ID_MAX > 0"
    using assms by (simp_all add: example_settings_def example_console_def DEVICE_ID_MAX_def)
  then show ?thesis
    by (simp add: pairing_exchange_def with_app_def daemoon_api_pair_def sb body api_do_def net max_attempts_def)
       (simp add: bind_io_def ask [unfolded mk_sink_def] return_io_def mk_sink_def status_ok_def pairing_answer_read fun_eq_iff)
qed


lemma pairing_machine_leaves: "leaves_settings pairing_machine example_console"
proof -
  have "quiet_machine I pairing_machine \<and> quiet_console I pairing_machine example_console"
    if "\<And>a. I (ruin a) = I a" "\<And>a v. I (a\<lparr>app.more := v\<rparr>) = I a" for I
    using that
    by (auto simp: quiet_machine_def quiet_library_def quiet_console_def quiet_own_def quiet_save_def quiet_net_def quiet_ui_def quiet_fs_def
        quiet_screen_def pairing_machine_def answering_net_def example_machine_def example_console_def example_screen_def Let_def
        example_env_by_def idle_env_def idle_save_def idle_ui_def idle_fs_def null_stream_def quiet_stream_def)
  then show ?thesis by (simp add: leaves_settings_def ruin_def)
qed

lemma example_pairing_run:
  "\<exists>a'. finish_pairing pairing_machine example_console tbl ''qr'' ''123456'' (example_app [] True) = Some (True, a')"
proof -
  let ?a = "example_app [] True"
  have config: "ap_config ?a = example_settings" "ap_has_token ?a" "snd (app.more ?a)" by (simp_all add: example_app_def)
  have screen: "ma_screen pairing_machine = example_screen" "call_io (ma_net_init pairing_machine) = return_io OK"
    by (simp_all add: pairing_machine_def)
  have secret: "daemoon_3ds_secret_save pairing_machine example_console ''abc'' ''d1'' a = Some (OK, a)" for a
  proof -
    have "\<exists>self. own_title example_console = return_io (Inr self)"
      by (simp add: own_title_def example_console_def call_io_def bind_io_def return_io_def fun_eq_iff)
    then obtain self where "own_title example_console = return_io (Inr self)" by blast
    moreover have "\<exists>buf. sb_finish (secret_text ''abc'' ''d1'') = Inr buf"
      by (simp add: secret_text_def sb_finish_def sb_simps SECRET_MAX_def TOKEN_MAX_def DEVICE_ID_MAX_def cstr_Cons)
    moreover have "call_fn (Some (co_own example_console)) sv_open_save_write (\<lambda>f. f t) = return_io (OK, 0)"
      "call_fn (Some (co_own example_console)) sv_open_file (\<lambda>f. f h p m) = return_io (OK, Some null_stream)"
      "call_fn (Some (co_own example_console)) sv_commit (\<lambda>f. f h) = return_io OK"
      "call_fn (Some (co_own example_console)) sv_close_save (\<lambda>f. f h) = return_io OK" for t h p m
      by (simp_all add: example_console_def example_env_by_def idle_save_def call_fn_def call_io_def return_io_def fun_eq_iff)
    moreover have "daemoon_stream_write (Some null_stream :: example_app stream_ptr) bs = return_io OK"
      "daemoon_stream_close (Some null_stream :: example_app stream_ptr) = return_io OK" for bs
      by (simp_all add: daemoon_stream_write_def daemoon_stream_close_def null_stream_def call_io_def return_io_def fun_eq_iff)
    ultimately show ?thesis
      by (auto simp: daemoon_3ds_secret_save_def secret_open_def secret_write_def trace_step_def screen)
  qed
  have shown: "message (ma_screen pairing_machine) title body accent a = Some ((), a)" if "snd (app.more a)" for title body accent a
    using example_message [OF that] by (simp add: screen)
  have store: "\<exists>a'. pairing_store pairing_machine example_console tbl ''abc'' ''d1'' a = Some (True, a')" if "snd (app.more a)" for a
  proof -
    let ?cfg = "(ap_config a)\<lparr>cf_token := ''abc'', cf_device_id := ''d1''\<rparr>"
    let ?c = "a\<lparr>ap_has_token := True, ap_config := ?cfg\<lparr>cf_token_on_card := False\<rparr>\<rparr>"
    have fits: "strlcpy_void TOKEN_MAX ''abc'' = ''abc''" "strlcpy_void DEVICE_ID_MAX ''d1'' = ''d1''"
      by (simp_all add: strlcpy_void_def daemoon_strlcpy_def TOKEN_MAX_def DEVICE_ID_MAX_def cstr_Cons)
    obtain r' w' where saved: "daemoon_3ds_config_save CONFIG_PATH (ap_config ?c) ?c = (r', w')" by fastforce
    have "app.more w' = app.more ?c"
      by (rule more_of_card) (use card_only_config(1) saved in \<open>metis card_only_def snd_conv\<close>)
    then have w': "snd (app.more w')" using that by simp
    then have said: "report pairing_machine tbl op r w' = Some ((), w')" "app_message pairing_machine tbl m accent w' = Some ((), w')" for op r m accent
      by (simp_all add: report_def app_message_def with_app_def shown)
    have "pairing_store pairing_machine example_console tbl ''abc'' ''d1'' a = Some (True, w')"
      using saved
      by (cases "r' = OK"; simp add: pairing_store_def bind_set_app fits)
         (simp_all add: bind_io_def with_set secret screen return_io_def save_config_def call_io_def said with_app_def)
    then show ?thesis by blast
  qed
  have exchange: "pairing_exchange pairing_machine example_console ''qr'' ''123456'' ?a = Some ((OK, Some ''abc'', Some ''d1''), ?a)"
    by (rule example_exchange_pair [OF config(1)])
  obtain a' where stored: "pairing_store pairing_machine example_console tbl ''abc'' ''d1'' ?a = Some (True, a')"
    using store [OF config(3)] by blast
  have "cf_server_url (ap_config ?a) \<noteq> []" by (simp add: config(1) example_settings_def)
  then have "finish_pairing pairing_machine example_console tbl ''qr'' ''123456'' ?a = Some (True, a')"
    by (simp add: finish_pairing_def with_app_def screen draw_loading_def) (simp add: bind_io_def exchange stored with_app_def return_io_def)
  then show ?thesis by blast
qed

text \<open>
  A console whose archive refuses the token keeps it in the file. After a restart a save of the
  settings takes it out of the file, before the archive is asked again and refuses again: the token is
  left in memory only, although the variables say that it is on the card.
\<close>

definition refusing_console :: "example_app console" where
  "refusing_console = example_console\<lparr>co_own := (co_own example_console)
    \<lparr>sv_open_save := Some (\<lambda>t w. ((ERR_NOT_FOUND, 0), w)), sv_open_save_write := Some (\<lambda>t w. ((ERR_BACKEND_ERROR, 0), w))\<rparr>\<rparr>"

definition restarted_app :: example_app where
  "restarted_app = \<lparr>cd_nodes =
      [(CONFIG_PATH, Data (key_line ''server'' ''http://s'' @ key_line ''label'' ''label'' @ key_line ''token'' ''t'')), (WORK_DIR, Folder)],
    cd_open = [], cd_next = 0, cd_faults = [], cd_log = [],
    ap_lib_3ds = \<lparr>lb_titles = None, lb_loaded = False, lb_selected = 0, lb_scroll = 0\<rparr>,
    ap_lib_nds = \<lparr>lb_titles = None, lb_loaded = False, lb_selected = 0, lb_scroll = 0\<rparr>,
    ap_source_nds = False, ap_save_nds = False, ap_has_token = True, ap_config = example_settings, ap_lang = 0,
    ap_batch = no_tally, \<dots> = (True, True)\<rparr>"

lemma restarted_save:
  "\<exists>c. daemoon_3ds_config_save CONFIG_PATH example_settings restarted_app = (OK, c) \<and>
    node_at c CONFIG_PATH = Some (Data (key_line ''server'' ''http://s'' @ key_line ''label'' ''label'' @
      key_line ''autosync'' ''1'' @ key_line ''welcomed'' ''1'')) \<and> card.more c = card.more restarted_app"
proof -
  let ?x = "daemoon_3ds_config_save CONFIG_PATH example_settings restarted_app"
  have "fst ?x = OK \<and> node_at (snd ?x) CONFIG_PATH = Some (Data (key_line ''server'' ''http://s'' @ key_line ''label'' ''label'' @
      key_line ''autosync'' ''1'' @ key_line ''welcomed'' ''1''))"
    by code_simp
  moreover have "card.more (snd ?x) = card.more restarted_app" using card_only_config(1) by (metis card_only_def)
  ultimately show ?thesis by (cases ?x) simp
qed

lemma settings_lose_token:
  "\<exists>a'. settings_save example_machine refusing_console tbl restarted_app = Some ((), a') \<and>
    node_at a' CONFIG_PATH = Some (Data (key_line ''server'' ''http://s'' @ key_line ''label'' ''label'' @
      key_line ''autosync'' ''1'' @ key_line ''welcomed'' ''1'')) \<and>
    cf_token (ap_config a') = ''t'' \<and> cf_token_on_card (ap_config a')"
proof -
  obtain c where saved: "daemoon_3ds_config_save CONFIG_PATH example_settings restarted_app = (OK, c)"
    and file': "node_at c CONFIG_PATH = Some (Data (key_line ''server'' ''http://s'' @ key_line ''label'' ''label'' @
      key_line ''autosync'' ''1'' @ key_line ''welcomed'' ''1''))" and more: "card.more c = card.more restarted_app"
    using restarted_save by blast
  have vars: "ap_config c = example_settings" "snd (app.more c)"
    using more by (cases c; simp add: restarted_app_def)+
  obtain self where self: "own_title refusing_console = return_io (Inr self)"
    by (simp add: own_title_def refusing_console_def example_console_def call_io_def bind_io_def return_io_def fun_eq_iff)
  have refused: "daemoon_3ds_secret_load refusing_console n k = return_io (Inl ERR_NOT_FOUND)" for n k
    by (simp add: daemoon_3ds_secret_load_def self) (simp add: refusing_console_def call_fn_def call_io_def bind_io_def return_io_def fun_eq_iff)
  have step: "trace_step example_machine refusing_console st r = return_io ()" for st r
    by (simp add: trace_step_def refusing_console_def example_console_def call_io_def bind_io_def return_io_def fun_eq_iff)
  have formats: "format_loop example_machine refusing_console t ns ERR_UNSUPPORTED = return_io ERR_UNSUPPORTED" for t ns
    by (induction ns) (simp_all add: step, simp add: refusing_console_def example_console_def call_io_def bind_io_def return_io_def)
  have "call_fn (Some (co_own refusing_console)) sv_open_save_write (\<lambda>f. f t) = return_io (ERR_BACKEND_ERROR, 0)" for t
    by (simp add: refusing_console_def call_fn_def call_io_def return_io_def fun_eq_iff)
  then have "secret_open example_machine refusing_console t = return_io (ERR_BACKEND_ERROR, 0)" for t
    by (simp add: secret_open_def step formats)
  moreover obtain buf where "sb_finish (secret_text ''t'' []) = Inr buf"
    by (simp add: secret_text_def sb_finish_def sb_simps SECRET_MAX_def TOKEN_MAX_def DEVICE_ID_MAX_def cstr_Cons)
  ultimately have stays: "daemoon_3ds_secret_save example_machine refusing_console ''t'' [] = return_io ERR_BACKEND_ERROR"
    by (simp add: daemoon_3ds_secret_save_def self)
  let ?c = "token_now c" let ?d = "?c\<lparr>ap_config := example_settings\<lparr>cf_token_on_card := True\<rparr>\<rparr>"
  have c: "ap_config ?c = example_settings" using vars(1) by (simp add: token_now_def)
  have parts: "cf_token example_settings = ''t''" "cf_device_id example_settings = []" by (simp_all add: example_settings_def)
  have adopted: "secret_adopt example_machine refusing_console ?c = Some ((), ?d)"
    by (simp add: secret_adopt_def refused with_app_def c parts stays) (simp add: bind_io_def with_set c return_io_def)
  have said: "app_message example_machine tbl m accent ?d = Some ((), ?d)" for m accent
    using vars(2) by (simp add: app_message_def with_app_def example_message token_now_def)
  have "settings_save example_machine refusing_console tbl restarted_app = Some ((), ?d)"
  proof -
    have "ap_config restarted_app = example_settings" "ma_net_init example_machine x = (OK, x)" for x
      by (simp_all add: restarted_app_def example_machine_def Let_def)
    with saved show ?thesis
      by (simp add: settings_save_def save_config_def with_app_def call_io_def)
         (simp add: bind_io_def with_set return_io_def adopted said with_app_def call_io_def)
  qed
  moreover have "node_at ?d = node_at c" by (simp add: token_now_def)
  ultimately show ?thesis using file' parts(1) by (intro exI [of _ ?d]) simp
qed

section \<open>Properties\<close>

text \<open>C20 The credential kept in the application's own save is read back as it was written: a token and an
  identifier without line ends that fit their buffers, the identifier with its line end, make a text
  that fits the file's buffer, and reading that text gives both again.\<close>
theorem secret_survives:
  assumes "nul_free token" "CHR 0x0a \<notin> set token" "length token < TOKEN_MAX"
    and "nul_free device_id" "CHR 0x0a \<notin> set device_id" "length device_id + 1 < DEVICE_ID_MAX"
  shows "\<exists>buf. sb_finish (secret_text token device_id) = Inr buf \<and> length buf < SECRET_MAX \<and>
    secret_lines buf TOKEN_MAX DEVICE_ID_MAX = (token, device_id)"
proof -
  let ?buf = "token @ CHR 0x0a # device_id @ [CHR 0x0a]"
  have fits: "length ?buf < SECRET_MAX" using assms(3,6) by (simp add: SECRET_MAX_def)
  have "sb_finish (secret_text token device_id) = Inr ?buf"
    using assms(1,4) fits by (simp add: sb_finish_def secret_text_def sb_simps cstr_nul_free)
  moreover have "cstr ?buf = ?buf" using assms(1,4) by (simp add: cstr_append_nul_free cstr_Cons cstr_nul_free)
  moreover have "takeWhile (\<lambda>c. c \<noteq> CHR 0x0a) ?buf = token" "dropWhile (\<lambda>c. c \<noteq> CHR 0x0a) ?buf = CHR 0x0a # device_id @ [CHR 0x0a]"
    using assms(2) by (simp_all add: takeWhile_append dropWhile_append)
  moreover have "strlcpy_void TOKEN_MAX token = token" 
    using assms(1,3) by (simp add: strlcpy_void_def daemoon_strlcpy_def cstr_nul_free)
  moreover have "takeWhile (\<lambda>c. c \<noteq> CHR 0x0a) (strlcpy_void DEVICE_ID_MAX (device_id @ [CHR 0x0a])) = device_id"
    using assms(4-6) by (simp add: strlcpy_void_def daemoon_strlcpy_def cstr_append_nul_free cstr_Cons takeWhile_append)
  ultimately show ?thesis using fits by (intro exI [of _ ?buf]) (simp add: secret_lines_def Let_def)
qed

theorem secret_survives_witness:
  "\<exists>buf. sb_finish (secret_text ''abc'' ''d1'') = Inr buf \<and> secret_lines buf TOKEN_MAX DEVICE_ID_MAX = (''abc'', ''d1'')"
  using secret_survives [of "''abc''" "''d1''"] by (auto simp: TOKEN_MAX_def DEVICE_ID_MAX_def)




end
