(* ===== verification/Updater.thy ===== *)
theory Updater
  imports App
begin

text \<open>
  The updater of the installed 3DS application (\<open>platform/3ds/source/updater.c\<close>). libcurl and the
  installer of the console are parameters (\<open>updater\<close>). A transfer is what libcurl does with its
  callbacks: it hands over a piece of the body or reports its progress, is told whether to go on, and
  ends with a code.
\<close>

section \<open>The library around it\<close>

datatype 'w transfer =
  TDone nat 'w
| TData bytes 'w "nat \<Rightarrow> 'w \<Rightarrow> 'w transfer"
| TProgress nat nat 'w "bool \<Rightarrow> 'w \<Rightarrow> 'w transfer"

text \<open>The callbacks have a state of their own: one answers how many bytes it took, the other whether to stop.\<close>

primrec run_transfer ::
  "('u \<Rightarrow> bytes \<Rightarrow> ('w, nat \<times> 'u) prog) \<Rightarrow> ('u \<Rightarrow> nat \<Rightarrow> nat \<Rightarrow> ('w, bool) prog) \<Rightarrow> 'w transfer \<Rightarrow> 'u \<Rightarrow> ((nat \<times> 'u) \<times> 'w) option" where
  "run_transfer put tell (TDone code w) u = Some ((code, u), w)"
| "run_transfer put tell (TData bs w k) u =
    (case put u bs w of None \<Rightarrow> None | Some ((n, u'), w') \<Rightarrow> run_transfer put tell (k n w') u')"
| "run_transfer put tell (TProgress whole n w k) u =
    (case tell u whole n w of None \<Rightarrow> None | Some (stop, w') \<Rightarrow> run_transfer put tell (k stop w') u)"

text \<open>
  \<open>up_perform\<close> is a transfer from an address within a time, following redirections or not;
  \<open>up_easy\<close> whether libcurl gave a handle; the others are the installer: begin, write a piece at an
  offset (how much was written, \<open>None\<close> when it failed), cancel and finish.
\<close>

record 'w updater =
  up_easy :: "'w \<Rightarrow> bool \<times> 'w"
  up_perform :: "bytes \<Rightarrow> nat \<Rightarrow> bool \<Rightarrow> 'w \<Rightarrow> 'w transfer"
  up_cleanup :: "'w \<Rightarrow> unit \<times> 'w"
  up_begin :: "'w \<Rightarrow> bool \<times> 'w"
  up_write :: "u64 \<Rightarrow> bytes \<Rightarrow> 'w \<Rightarrow> nat option \<times> 'w"
  up_cancel :: "'w \<Rightarrow> unit \<times> 'w"
  up_finish :: "'w \<Rightarrow> bool \<times> 'w"

definition UPDATE_VERSION_URL :: bytes where "UPDATE_VERSION_URL = ''https://daemoon.mir.sh/install/3ds.version''"
definition UPDATE_CIA_URL :: bytes where "UPDATE_CIA_URL = ''https://daemoon.mir.sh/install/3ds.cia''"

text \<open>The numbers are those of \<open>CURLcode\<close>.\<close>

definition curl_result :: "nat \<Rightarrow> result" where
  "curl_result code =
    (if code = 0 then OK else if code = 28 then ERR_TIMEOUT else if code = 27 then ERR_OUT_OF_MEMORY else ERR_NETWORK_ERROR)"

section \<open>The version on the server\<close>

record text_sink =
  tx_buf :: bytes
  tx_cap :: nat
  tx_full :: bool

definition write_text :: "text_sink \<Rightarrow> bytes \<Rightarrow> ('w, nat \<times> text_sink) prog" where
  "write_text sink bs =
    return_io (if length bs > tx_cap sink - length (tx_buf sink) - 1 then (0, sink\<lparr>tx_full := True\<rparr>)
      else (length bs, sink\<lparr>tx_buf := tx_buf sink @ bs\<rparr>))"

definition version_char :: "char \<Rightarrow> bool" where
  "version_char c \<longleftrightarrow> (CHR ''0'' \<le> c \<and> c \<le> CHR ''9'') \<or> (CHR ''a'' \<le> c \<and> c \<le> CHR ''z'') \<or> (CHR ''A'' \<le> c \<and> c \<le> CHR ''Z'') \<or>
    c = CHR ''.'' \<or> c = CHR ''_'' \<or> c = CHR ''-''"

primrec c_strstr :: "bytes \<Rightarrow> bytes \<Rightarrow> bool" where
  "c_strstr [] n = (n = [])"
| "c_strstr (c # s) n = (take (length n) (c # s) = n \<or> c_strstr s n)"

text \<open>The version read, and whether it is another one than the running build's.\<close>

definition version_read :: "bytes \<Rightarrow> text_sink \<Rightarrow> result + bytes \<times> bool" where
  "version_read build sink =
    (if tx_full sink \<or> tx_buf sink = [] then Inl ERR_PARSE_ERROR
     else let latest = rev (dropWhile (\<lambda>c. c = CHR 0x0d \<or> c = CHR 0x0a \<or> c = CHR '' '') (rev (tx_buf sink)))
       in if latest = [] \<or> \<not> list_all version_char latest then Inl ERR_PARSE_ERROR
          else Inr (latest, \<not> c_strstr (cstr build) latest))"

definition daemoon_3ds_update_available ::
  "'w machine \<Rightarrow> 'w updater \<Rightarrow> bytes option \<Rightarrow> nat \<Rightarrow> ('w, result + bytes \<times> bool) prog" where
  "daemoon_3ds_update_available ma up build latest_cap =
    (case build of None \<Rightarrow> return_io (Inl ERR_INVALID_REQUEST)
     | Some build \<Rightarrow>
      if latest_cap < 2 then return_io (Inl ERR_INVALID_REQUEST)
      else bind_io (call_io (ma_net_init ma)) (\<lambda>r.
        if r \<noteq> OK then return_io (Inl r)
        else bind_io (call_io (up_easy up)) (\<lambda>curl.
        if \<not> curl then return_io (Inl ERR_OUT_OF_MEMORY)
        else bind_io (\<lambda>w. run_transfer write_text (\<lambda>_ _ _. return_io False) (up_perform up UPDATE_VERSION_URL 10000 False w)
            \<lparr>tx_buf = [], tx_cap = latest_cap, tx_full = False\<rparr>) (\<lambda>(code, sink).
          bind_io (call_io (up_cleanup up)) (\<lambda>_.
          return_io (if code \<noteq> 0 then Inl (curl_result code) else version_read build sink))))))"

section \<open>The installation\<close>

record cia_sink =
  cs_offset :: u64
  cs_error :: result

definition write_cia :: "'w updater \<Rightarrow> cia_sink \<Rightarrow> bytes \<Rightarrow> ('w, nat \<times> cia_sink) prog" where
  "write_cia up sink bs =
    (if length bs > 0xffffffff then return_io (0, sink\<lparr>cs_error := ERR_IO_ERROR\<rparr>)
     else bind_io (call_io (up_write up (cs_offset sink) bs)) (\<lambda>x.
       return_io (if x \<noteq> Some (length bs) then (0, sink\<lparr>cs_error := ERR_IO_ERROR\<rparr>)
         else (length bs, sink\<lparr>cs_offset := cs_offset sink + of_nat (length bs)\<rparr>))))"

text \<open>The caller's progress callback draws; the transfer goes on as long as the application does.\<close>

definition update_progress ::
  "'w screen \<Rightarrow> (nat \<Rightarrow> nat \<Rightarrow> ('w, unit) prog) option \<Rightarrow> cia_sink \<Rightarrow> nat \<Rightarrow> nat \<Rightarrow> ('w, bool) prog" where
  "update_progress sc told sink whole now =
    bind_io (case told of None \<Rightarrow> return_io () | Some f \<Rightarrow> f (min now 0xffffffff) (min whole 0xffffffff)) (\<lambda>_.
    bind_io (aptMainLoop sc) (\<lambda>go. return_io (\<not> go)))"

definition daemoon_3ds_update_install ::
  "'w machine \<Rightarrow> 'w updater \<Rightarrow> (nat \<Rightarrow> nat \<Rightarrow> ('w, unit) prog) option \<Rightarrow> ('w, result) prog" where
  "daemoon_3ds_update_install ma up told =
    bind_io (call_io (ma_net_init ma)) (\<lambda>r.
    if r \<noteq> OK then return_io r
    else bind_io (call_io (up_begin up)) (\<lambda>begun.
    if \<not> begun then return_io ERR_IO_ERROR
    else bind_io (call_io (up_easy up)) (\<lambda>curl.
    if \<not> curl then bind_io (call_io (up_cancel up)) (\<lambda>_. return_io ERR_OUT_OF_MEMORY)
    else bind_io (\<lambda>w. run_transfer (write_cia up) (update_progress (ma_screen ma) told) (up_perform up UPDATE_CIA_URL 120000 True w)
        \<lparr>cs_offset = 0, cs_error = OK\<rparr>) (\<lambda>(code, sink).
      bind_io (call_io (up_cleanup up)) (\<lambda>_.
      if cs_error sink \<noteq> OK \<or> code \<noteq> 0
      then bind_io (call_io (up_cancel up)) (\<lambda>_. return_io (if cs_error sink \<noteq> OK then cs_error sink else curl_result code))
      else bind_io (call_io (up_finish up)) (\<lambda>finished. return_io (if finished then OK else ERR_IO_ERROR)))))))"

section \<open>What it leaves alone\<close>

primrec quiet_transfer :: "('w \<Rightarrow> bool) \<Rightarrow> 'w transfer \<Rightarrow> bool" where
  "quiet_transfer I (TDone code w) \<longleftrightarrow> I w"
| "quiet_transfer I (TData bs w k) \<longleftrightarrow> I w \<and> (\<forall>n w'. I w' \<longrightarrow> quiet_transfer I (k n w'))"
| "quiet_transfer I (TProgress whole n w k) \<longleftrightarrow> I w \<and> (\<forall>stop w'. I w' \<longrightarrow> quiet_transfer I (k stop w'))"

definition quiet_updater :: "('w \<Rightarrow> bool) \<Rightarrow> 'w updater \<Rightarrow> bool" where
  "quiet_updater I up \<longleftrightarrow> (\<forall>w. I w \<longrightarrow> I (snd (up_easy up w))) \<and> (\<forall>url t f w. I w \<longrightarrow> quiet_transfer I (up_perform up url t f w)) \<and>
    (\<forall>w. I w \<longrightarrow> I (snd (up_cleanup up w))) \<and> (\<forall>w. I w \<longrightarrow> I (snd (up_begin up w))) \<and>
    (\<forall>off bs w. I w \<longrightarrow> I (snd (up_write up off bs w))) \<and> (\<forall>w. I w \<longrightarrow> I (snd (up_cancel up w))) \<and>
    (\<forall>w. I w \<longrightarrow> I (snd (up_finish up w)))"

lemma run_transfer_keeps:
  assumes "\<And>u bs. safe I (put u bs)" "\<And>u n whole. safe I (tell u n whole)"
  shows "quiet_transfer I x \<Longrightarrow> run_transfer put tell x u = Some (a, w') \<Longrightarrow> I w'"
proof (induction x arbitrary: u)
  case (TDone code w)
  then show ?case by simp
next
  case (TData bs w k)
  then obtain n u' w1 where put: "put u bs w = Some ((n, u'), w1)" "run_transfer put tell (k n w1) u' = Some (a, w')"
    by (auto split: option.splits)
  have "I w1" using keepsD [OF assms(1) _ put(1)] TData.prems(1) by simp
  with TData.prems(1) show ?case using TData.IH [OF rangeI rangeI _ put(2)] by simp
next
  case (TProgress whole n w k)
  then obtain stop w1 where went: "tell u whole n w = Some (stop, w1)" "run_transfer put tell (k stop w1) u = Some (a, w')"
    by (auto split: option.splits)
  have "I w1" using keepsD [OF assms(2) _ went(1)] TProgress.prems(1) by simp
  with TProgress.prems(1) show ?case using TProgress.IH [OF rangeI rangeI _ went(2)] by simp
qed

lemma safe_transfer [keeps_intros]:
  assumes "quiet_updater I up" "\<And>u bs. safe I (put u bs)" "\<And>u n whole. safe I (tell u n whole)"
  shows "safe I (\<lambda>w. run_transfer put tell (up_perform up url t f w) u)"
  unfolding keeps_def using assms(1) run_transfer_keeps [OF assms(2,3)] by (fastforce simp: quiet_updater_def)

lemma safe_updater_calls [keeps_intros]:
  assumes "quiet_updater I up"
  shows "safe I (call_io (up_easy up))" "safe I (call_io (up_cleanup up))" "safe I (call_io (up_begin up))"
    "safe I (call_io (up_write up off bs))" "safe I (call_io (up_cancel up))" "safe I (call_io (up_finish up))"
  using assms by (auto simp: quiet_updater_def intro!: keeps_call)

lemma safe_updater [keeps_intros]:
  assumes "quiet_machine I ma" "quiet_updater I up"
  shows "safe I (daemoon_3ds_update_available ma up build cap)"
    "(\<And>n k f. told = Some f \<Longrightarrow> safe I (f n k)) \<Longrightarrow> safe I (daemoon_3ds_update_install ma up told)"
proof -
  have net: "safe I (call_io (ma_net_init ma))" using assms(1) by (auto simp: quiet_machine_def intro!: keeps_call)
  show "safe I (daemoon_3ds_update_available ma up build cap)"
    unfolding daemoon_3ds_update_available_def write_text_def using assms(2) net
    by (auto intro!: keeps_intros split: option.split)
  assume told: "\<And>n k f. told = Some f \<Longrightarrow> safe I (f n k)"
  have "safe I (update_progress (ma_screen ma) told sink whole now)" for sink whole now
    unfolding update_progress_def using assms(1) told by (auto intro!: keeps_intros safe_screen split: option.split)
  moreover have "safe I (write_cia up sink bs)" for sink bs
    unfolding write_cia_def using assms by (auto intro!: keeps_intros)
  ultimately show "safe I (daemoon_3ds_update_install ma up told)"
    unfolding daemoon_3ds_update_install_def using assms(2) net by (auto intro!: keeps_intros)
qed

section \<open>What is offered and what is installed\<close>

text \<open>A version that is offered is not empty and made of the characters of a version only.\<close>

lemma version_read_clean:
  "version_read build sink = Inr (latest, available) \<Longrightarrow>
    latest \<noteq> [] \<and> list_all version_char latest \<and> available = (\<not> c_strstr (cstr build) latest)"
  by (auto simp: version_read_def Let_def split: if_splits)

lemma c_strstr_iff: "c_strstr s n \<longleftrightarrow> (\<exists>pre post. s = pre @ n @ post)"
proof (induction s)
  case (Cons c s)
  have "take (length n) (c # s) = n \<longleftrightarrow> (\<exists>post. c # s = n @ post)"
    by (metis append_eq_conv_conj)
  with Cons show ?case by (auto simp: Cons_eq_append_conv)
qed auto

end
