(* ===== verification/Start.thy ===== *)
theory Start
  imports Pairing Updater
begin

text \<open>
  The 3DS application from its start to its end (\<open>main\<close> of \<open>platform/3ds/source/main.c\<close>): the
  update, the self test, the grid of titles with its cursor, and the order in which all of this and
  the runs of the other theories come. \<open>start\<close> is what else of the console this needs.
\<close>

text \<open>
  \<open>so_cfgu\<close> and \<open>so_gfx\<close> say whether the console's settings can be read and whether there is a screen;
  \<open>so_services\<close> starts the installer and hands the backends their directories; \<open>so_rtc\<close> is the
  console's own clock; \<open>so_cache_open\<close> reads the cache of names, \<open>so_exit\<close> closes what was opened.
  \<open>so_conformance\<close> is the test suite of the save backend, run against a title: the checks so far,
  the failures of this run and the last failure; \<open>so_sample_rows\<close> draws sample rows of the list of backups.
\<close>

record 'w start =
  so_cfgu :: "'w \<Rightarrow> bool \<times> 'w"
  so_gfx :: "lang \<Rightarrow> 'w \<Rightarrow> bool \<times> 'w"
  so_services :: "'w \<Rightarrow> unit \<times> 'w"
  so_rtc :: "'w \<Rightarrow> nat \<times> 'w"
  so_cache_open :: "'w \<Rightarrow> unit \<times> 'w"
  so_exit :: "'w \<Rightarrow> unit \<times> 'w"
  so_conformance :: "title \<Rightarrow> 'w \<Rightarrow> (nat \<times> nat \<times> bytes) \<times> 'w"
  so_sample_rows :: "title \<Rightarrow> nat \<Rightarrow> 'w \<Rightarrow> unit \<times> 'w"

section \<open>The update\<close>

abbreviation (input) STR_UPDATE_AVAILABLE :: str_id where "STR_UPDATE_AVAILABLE \<equiv> 159"
abbreviation (input) STR_UPDATE_DOWNLOADING :: str_id where "STR_UPDATE_DOWNLOADING \<equiv> 160"
abbreviation (input) STR_UPDATE_INSTALLED :: str_id where "STR_UPDATE_INSTALLED \<equiv> 161"
abbreviation (input) STR_UPDATE_TITLE :: str_id where "STR_UPDATE_TITLE \<equiv> 162"

definition action_auto_update ::
  "('x app_scheme) machine \<Rightarrow> ('x app_scheme) console \<Rightarrow> ('x app_scheme) updater \<Rightarrow> lang_table \<Rightarrow> ('x app_scheme, bool) prog" where
  "action_auto_update ma co up tbl =
    (let sc = ma_screen ma; downloading = (\<lambda>n whole. with_app (\<lambda>a. draw_loading sc tbl (ap_lang a) STR_UPDATE_DOWNLOADING n whole)) in
     bind_io (daemoon_3ds_update_available ma up (Some (co_build co)) 64) (\<lambda>x. case x of
       Inl r \<Rightarrow> bind_io (trace sc ''update/check'' (Some (daemoon_result_code r))) (\<lambda>_. return_io False)
     | Inr (latest, available) \<Rightarrow>
       bind_io (trace sc ''update/latest'' (Some latest)) (\<lambda>_.
       if \<not> available then return_io False
       else bind_io (call_fn (Some (ma_ui ma)) ui_confirm (\<lambda>f. f \<lparr>sr_id = STR_UPDATE_AVAILABLE, sr_args = [latest]\<rparr>)) (\<lambda>yes.
         if yes = 0 then bind_io (trace sc ''update/declined'' (Some latest)) (\<lambda>_. return_io False)
         else bind_io (downloading 0 0) (\<lambda>_.
           bind_io (daemoon_3ds_update_install ma up (Some downloading)) (\<lambda>r.
           bind_io (trace sc ''update/install'' (Some (daemoon_result_code r))) (\<lambda>_.
           if r \<noteq> OK then bind_io (report ma tbl STR_UPDATE_TITLE r) (\<lambda>_. return_io False)
           else bind_io (with_app (\<lambda>a. message sc (daemoon_str tbl (ap_lang a) STR_UPDATE_TITLE)
               (daemoon_str tbl (ap_lang a) STR_UPDATE_INSTALLED) GFX_OK)) (\<lambda>_. return_io True))))))))"

section \<open>The self test\<close>

abbreviation (input) STR_SELFTEST_NO_ARCHIVE :: str_id where "STR_SELFTEST_NO_ARCHIVE \<equiv> 131"
abbreviation (input) STR_SELFTEST_SELF :: str_id where "STR_SELFTEST_SELF \<equiv> 132"

text \<open>The archive it runs against is there, or could be made.\<close>

definition autotest_archive :: "('x app_scheme) machine \<Rightarrow> ('x app_scheme) console \<Rightarrow> title \<Rightarrow> ('x app_scheme, bool) prog" where
  "autotest_archive ma co self =
    bind_io (call_fn (Some (ma_save ma)) sv_open_save (\<lambda>f. f self)) (\<lambda>(r, probe).
    if r = OK then bind_io (call_fn (Some (ma_save ma)) sv_close_save (\<lambda>f. f probe)) (\<lambda>_. return_io True)
    else bind_io (call_io (co_format co self 128)) (\<lambda>fr. return_io (fr = OK)))"

text \<open>The token goes back into the archive the test has cleared.\<close>

definition secret_again :: "('x app_scheme) machine \<Rightarrow> ('x app_scheme) console \<Rightarrow> (result \<Rightarrow> ('x app_scheme, unit) prog) \<Rightarrow> ('x app_scheme, unit) prog" where
  "secret_again ma co said = with_app (\<lambda>a.
    if cf_token (ap_config a) = [] then return_io ()
    else bind_io (daemoon_3ds_secret_save ma co (cf_token (ap_config a)) (cf_device_id (ap_config a))) said)"

definition secret_restored :: "('x app_scheme) machine \<Rightarrow> ('x app_scheme) console \<Rightarrow> ('x app_scheme, unit) prog" where
  "secret_restored ma co =
    bind_io (secret_again ma co (\<lambda>sr. trace (ma_screen ma) ''secret/restored'' (Some (daemoon_result_code sr)))) (\<lambda>_.
    secret_again ma co (\<lambda>_. return_io ()))"

definition autotest_line :: "'w console \<Rightarrow> title \<Rightarrow> nat \<Rightarrow> nat \<Rightarrow> bytes \<Rightarrow> bytes" where
  "autotest_line co self checks failures first =
    (let sb = sb_add (sb_add (daemoon_strbuf_init 256) ''build='') (co_build co);
         sb = sb_add (sb_add sb '' target='') (ti_id self);
         sb = daemoon_strbuf_add_uint (sb_add sb '' checks='') checks;
         sb = daemoon_strbuf_add_uint (sb_add sb '' failures='') failures;
         sb = (if failures > 0 \<and> cstr first \<noteq> [] then sb_add (sb_add sb '' first: '') first else sb)
     in sb_buf (daemoon_strbuf_addc sb CHR 0x0a))"

definition run_autotest ::
  "('x app_scheme) machine \<Rightarrow> ('x app_scheme) console \<Rightarrow> ('x app_scheme) start \<Rightarrow> lang_table \<Rightarrow> ('x app_scheme, unit) prog" where
  "run_autotest ma co so tbl =
    bind_io (own_title co) (\<lambda>x. case x of Inl r \<Rightarrow> return_io () | Inr own \<Rightarrow> with_app (\<lambda>a.
    let self = own\<lparr>ti_name := strlcpy_void NAME_MAX (daemoon_str tbl (ap_lang a) STR_SELFTEST_SELF)\<rparr> in
    bind_io (autotest_archive ma co self) (\<lambda>there.
    if \<not> there then app_message ma tbl STR_SELFTEST_NO_ARCHIVE GFX_WARN
    else
      bind_io (call_io (so_conformance so self)) (\<lambda>(checks, failures, first).
      bind_io (secret_restored ma co) (\<lambda>_.
      bind_io (trace (ma_screen ma) ''autotest/picker-draw'' None) (\<lambda>_.
      bind_io (call_io (so_sample_rows so self 8)) (\<lambda>_.
      bind_io (trace (ma_screen ma) ''autotest/picker-drawn'' None) (\<lambda>_.
      let line = autotest_line co self checks failures first in
      bind_io (with_app (\<lambda>a. fs_open_file (g_env ma a) (WORK_DIR @ ''/selftest.txt'') OPEN_WRITE)) (\<lambda>(opened, out).
      bind_io (if opened = OK then bind_io (daemoon_stream_write out line) (\<lambda>_. bind_io (daemoon_stream_close out) (\<lambda>_. return_io ()))
        else return_io ()) (\<lambda>_.
      with_app (\<lambda>a. message (ma_screen ma) (daemoon_str tbl (ap_lang a) STR_APP_TITLE) line
        (if failures = 0 then GFX_OK else GFX_DANGER))))))))))))"


section \<open>The grid\<close>

abbreviation (input) STR_GRID_EMPTY :: str_id where "STR_GRID_EMPTY \<equiv> 85"
abbreviation (input) STR_GRID_NOTHING_SELECTED :: str_id where "STR_GRID_NOTHING_SELECTED \<equiv> 86"
abbreviation (input) STR_GRID_SAVES :: str_id where "STR_GRID_SAVES \<equiv> 87"
abbreviation (input) STR_HINT_GRID :: str_id where "STR_HINT_GRID \<equiv> 93"
abbreviation (input) STR_LIB_3DS :: str_id where "STR_LIB_3DS \<equiv> 95"
abbreviation (input) STR_LIB_NDS :: str_id where "STR_LIB_NDS \<equiv> 96"
abbreviation (input) STR_TITLE_NO_SECURE_VALUE :: str_id where "STR_TITLE_NO_SECURE_VALUE \<equiv> 157"
abbreviation (input) STR_TITLE_SECURE_VALUE :: str_id where "STR_TITLE_SECURE_VALUE \<equiv> 158"
abbreviation (input) STR_ERR_TITLE_LIST :: str_id where "STR_ERR_TITLE_LIST \<equiv> 78"

definition GRID_COLS :: int where "GRID_COLS = 6"
definition GRID_ROWS :: int where "GRID_ROWS = 3"
definition GRID_PAGE :: int where "GRID_PAGE = GRID_COLS * GRID_ROWS"

text \<open>What is at the bottom of the screen: backup, restore, sync, run over the libraries, settings.\<close>

definition menu_labels :: "str_id list" where "menu_labels = [100, 102, 106, 101, 104]"

text \<open>Division of C, towards zero.\<close>

definition grid_row :: "int \<Rightarrow> int" where
  "grid_row i = sgn i * (\<bar>i\<bar> div GRID_COLS)"

definition lb_count :: "library \<Rightarrow> int" where
  "lb_count lb = (case lb_titles lb of None \<Rightarrow> 0 | Some ts \<Rightarrow> int (length ts))"

definition move_selected :: "key set \<Rightarrow> int \<Rightarrow> int \<Rightarrow> int" where
  "move_selected down cnt s =
    (let s = (if KEY_RIGHT \<in> down \<and> s + 1 < cnt then s + 1 else s);
         s = (if KEY_LEFT \<in> down \<and> s > 0 then s - 1 else s);
         s = (if KEY_DOWN \<in> down \<and> s + GRID_COLS < cnt then s + GRID_COLS else s)
     in if KEY_UP \<in> down \<and> s - GRID_COLS \<ge> 0 then s - GRID_COLS else s)"

definition keep_on_screen :: "int \<Rightarrow> int \<Rightarrow> int" where
  "keep_on_screen s scroll =
    (let scroll = (if grid_row s < scroll then grid_row s else scroll)
     in if grid_row s \<ge> scroll + GRID_ROWS then grid_row s - GRID_ROWS + 1 else scroll)"

definition move_cursor :: "key set \<Rightarrow> library \<Rightarrow> library" where
  "move_cursor down lb =
    (let s = move_selected down (lb_count lb) (lb_selected lb)
     in lb\<lparr>lb_selected := s, lb_scroll := keep_on_screen s (lb_scroll lb)\<rparr>)"

text \<open>The action a key asks for.\<close>

definition key_action :: "key set \<Rightarrow> nat option" where
  "key_action down =
    (if KEY_X \<in> down then Some 3 else if KEY_Y \<in> down then Some 1 else if KEY_A \<in> down then Some 0 else None)"

definition grid_corner :: "lang_table \<Rightarrow> lang \<Rightarrow> bytes \<Rightarrow> library \<Rightarrow> bytes" where
  "grid_corner tbl lg build lb =
    (let cnt = to_uint (nat (lb_count lb)) in
     if lb_count lb > GRID_PAGE then take 95 (dec (nat (lb_selected lb + 1)) @ ''/'' @ dec cnt @ ''   '' @ build)
     else take 95 (strf_text tbl lg 48 STR_GRID_SAVES [take 15 (dec cnt)] @ ''   '' @ build))"

text \<open>The names on the page.\<close>

definition grid_names :: "library \<Rightarrow> bytes list" where
  "grid_names lb =
    map (\<lambda>i. ti_name (the (lb_titles lb) ! nat i)) (filter (\<lambda>i. i < lb_count lb) (map (\<lambda>i. lb_scroll lb * GRID_COLS + int i) [0..<nat GRID_PAGE]))"

definition draw_grid :: "lang_table \<Rightarrow> lang \<Rightarrow> bytes \<Rightarrow> bool \<Rightarrow> library \<Rightarrow> str_id list \<times> bytes list" where
  "draw_grid tbl lg build nds lb =
    ([STR_APP_TITLE, if nds then STR_LIB_NDS else STR_LIB_3DS] @ (if lb_count lb = 0 then [STR_GRID_EMPTY] else []),
     grid_corner tbl lg build lb # grid_names lb)"

definition draw_details :: "('x app_scheme) console \<Rightarrow> lang_table \<Rightarrow> lang \<Rightarrow> library \<Rightarrow> ('x app_scheme, str_id list \<times> bytes list) prog" where
  "draw_details co tbl lg lb =
    (if lb_count lb > 0 then
       let t = the (lb_titles lb) ! nat (lb_selected lb) in
       bind_io (call_io (co_secure co t)) (\<lambda>(r, secure).
       return_io (case secure of
         Some v \<Rightarrow> if r = OK then (menu_labels @ [STR_HINT_GRID],
             [ti_name t, ti_id t, strf_text tbl lg 160 STR_TITLE_SECURE_VALUE [hex_digits_of 16 (unat v)]])
           else (STR_TITLE_NO_SECURE_VALUE # menu_labels @ [STR_HINT_GRID], [ti_name t, ti_id t])
       | None \<Rightarrow> (STR_TITLE_NO_SECURE_VALUE # menu_labels @ [STR_HINT_GRID], [ti_name t, ti_id t])))
     else return_io (STR_GRID_NOTHING_SELECTED # menu_labels @ [STR_HINT_GRID], []))"

text \<open>One frame: the cursor, the two screens, and the action the keys or the pen ask for.\<close>

definition grid_frame ::
  "('x app_scheme) machine \<Rightarrow> ('x app_scheme) console \<Rightarrow> lang_table \<Rightarrow> key set \<Rightarrow> ('x app_scheme, nat option) prog" where
  "grid_frame ma co tbl down = with_app (\<lambda>a.
    let some = lb_count (lib_of (cur a) a) > 0 in
    bind_io (if some then set_app (set_lib (cur a) (move_cursor down)) else return_io ()) (\<lambda>_. with_app (\<lambda>a.
    let lb = lib_of (cur a) a; top = draw_grid tbl (ap_lang a) (co_build co) (ap_source_nds a) lb in
    bind_io (draw_details co tbl (ap_lang a) lb) (\<lambda>bottom.
    bind_io (draw (ma_screen ma) (fst top @ fst bottom) (snd top @ snd bottom)) (\<lambda>_.
    bind_io (call_io (ma_touched ma down)) (\<lambda>touched.
    return_io (case touched of Some i \<Rightarrow> Some i | None \<Rightarrow> if some then key_action down else None)))))))"

definition grid_act ::
  "('x app_scheme) machine \<Rightarrow> ('x app_scheme) console \<Rightarrow> lang_table \<Rightarrow> 'z miniz \<Rightarrow> nat option \<Rightarrow> ('x app_scheme, unit) prog" where
  "grid_act ma co tbl mz action =
    (if action = Some 0 then action_backup ma tbl mz
     else if action = Some 1 then action_restore ma tbl mz
     else if action = Some 2 then action_sync ma tbl mz
     else if action = Some 4 then action_settings ma co tbl
     else if action = Some 3 then bind_io (action_batch ma tbl mz) (\<lambda>changed.
       if changed then bind_io (reload_titles ma tbl) (\<lambda>_. return_io ()) else return_io ())
     else return_io ())"

partial_function (option) grid_loop ::
  "('x app_scheme) machine \<Rightarrow> ('x app_scheme) console \<Rightarrow> lang_table \<Rightarrow> 'z miniz \<Rightarrow> 'x app_scheme \<Rightarrow> (unit \<times> 'x app_scheme) option" where
  "grid_loop ma co tbl mz w =
    Option.bind (aptMainLoop (ma_screen ma) w) (\<lambda>(go, w).
    if \<not> go then Some ((), w)
    else Option.bind (hidKeysDown (ma_screen ma) w) (\<lambda>(down, w).
    if KEY_START \<in> down then Some ((), w)
    else if KEY_L \<in> down \<or> KEY_R \<in> down then
      Option.bind (show_library ma tbl (\<not> ap_source_nds w) w) (\<lambda>(_, w). grid_loop ma co tbl mz w)
    else Option.bind (grid_frame ma co tbl down w) (\<lambda>(action, w).
      Option.bind (grid_act ma co tbl mz action w) (\<lambda>(_, w). grid_loop ma co tbl mz w))))"

section \<open>From the start to the end\<close>

text \<open>What survived the last run, without the token.\<close>

definition config_line_traced :: "config \<Rightarrow> bytes" where
  "config_line_traced cfg =
    take 159 (''server='' @ (if cf_server_url cfg \<noteq> [] then ''yes'' else ''no'') @ '' token='' @ (if cf_token cfg \<noteq> [] then ''yes'' else ''no'') @
      '' device='' @ (if cf_device_id cfg \<noteq> [] then cf_device_id cfg else ''-'') @
      '' lang='' @ (if cf_language cfg \<noteq> [] then cf_language cfg else ''auto''))"

text \<open>The language and its font; English when there is none for it. \<open>False\<close> when there is no screen.\<close>

definition start_screen :: "('x app_scheme) machine \<Rightarrow> ('x app_scheme) console \<Rightarrow> ('x app_scheme) start \<Rightarrow> ('x app_scheme, bool) prog" where
  "start_screen ma co so =
    bind_io (call_io (so_cfgu so)) (\<lambda>readable.
    bind_io (if readable then select_language co else bind_io (call_io (co_smdh co 1)) (\<lambda>_. return_io LANG_EN)) (\<lambda>l.
    bind_io (call_io (so_gfx so l)) (\<lambda>screen.
    if \<not> screen then return_io False
    else bind_io (call_io (co_drawable co l)) (\<lambda>drawable.
      if drawable then return_io True
      else bind_io (trace (ma_screen ma) ''font/fallback'' (Some (daemoon_lang_code l))) (\<lambda>_.
        bind_io (call_io (co_font co LANG_EN)) (\<lambda>_.
        bind_io (set_app (set_lang LANG_EN)) (\<lambda>_. return_io True)))))))"

definition start_traces :: "('x app_scheme) machine \<Rightarrow> ('x app_scheme) console \<Rightarrow> ('x app_scheme) start \<Rightarrow> ('x app_scheme, unit) prog" where
  "start_traces ma co so =
    (let sc = ma_screen ma in
     bind_io (trace sc ''app/start'' (Some (co_build co))) (\<lambda>_.
     bind_io (with_app (\<lambda>a. trace sc ''app/config'' (Some (config_line_traced (ap_config a))))) (\<lambda>_.
     bind_io (call_io (ma_clock ma 64)) (\<lambda>(r, now).
     bind_io (trace sc ''app/clock'' (Some (if r \<noteq> OK then ''time() unusable'' else now))) (\<lambda>_.
     bind_io (call_io (so_rtc so)) (\<lambda>n.
     trace sc ''app/clock-rtc'' (Some (take 63 (''osGetTime='' @ dec n)))))))))"

text \<open>The environment: the network if there is something to sync with, the backend of the console's titles.\<close>

definition start_env :: "('x app_scheme) machine \<Rightarrow> ('x app_scheme) start \<Rightarrow> ('x app_scheme, unit) prog" where
  "start_env ma so =
    bind_io (with_app (\<lambda>a. if daemoon_3ds_config_can_sync (ap_config a) then call_io (ma_net_init ma) else return_io OK)) (\<lambda>_.
    bind_io (set_app (\<lambda>a. select_backend False (token_now a))) (\<lambda>_.
    bind_io (with_app (\<lambda>a. fs_make_dir (g_env ma a) (WORK_DIR @ ''/cache''))) (\<lambda>_.
    call_io (so_cache_open so))))"

definition unattended_run :: "('x app_scheme) machine \<Rightarrow> ('x app_scheme, bool) prog" where
  "unattended_run ma = with_app (\<lambda>a.
    bind_io (fs_file_exists (g_env ma a) (WORK_DIR @ ''/AUTOTEST'')) (\<lambda>autotest.
    if autotest then return_io True else fs_file_exists (g_env ma a) AUTOPAIR_PATH))"

text \<open>What comes before the grid; whether the application is to end there.\<close>

definition before_grid ::
  "('x app_scheme) machine \<Rightarrow> ('x app_scheme) console \<Rightarrow> ('x app_scheme) updater \<Rightarrow> lang_table \<Rightarrow> 'z miniz \<Rightarrow> ('x app_scheme, bool) prog" where
  "before_grid ma co up tbl mz =
    bind_io (unattended_run ma) (\<lambda>unattended.
    bind_io (hidKeysHeld (ma_screen ma)) (\<lambda>held. with_app (\<lambda>a.
    let autosync = daemoon_3ds_autosync_due (cf_autosync (ap_config a)) (daemoon_3ds_config_can_sync (ap_config a)) (KEY_B \<in> held) unattended in
    bind_io (if \<not> unattended \<and> KEY_B \<notin> held then action_auto_update ma co up tbl else return_io False) (\<lambda>updated.
    if updated then return_io True
    else
      bind_io (with_app (\<lambda>a. if \<not> unattended \<and> \<not> autosync \<and> daemoon_3ds_welcome_needed (Some (ap_config a))
        then run_welcome ma co tbl else return_io ())) (\<lambda>_.
      if autosync then run_autosync ma tbl mz else return_io False)))))"

definition the_grid ::
  "('x app_scheme) machine \<Rightarrow> ('x app_scheme) console \<Rightarrow> ('x app_scheme) start \<Rightarrow> lang_table \<Rightarrow> 'z miniz \<Rightarrow> ('x app_scheme, unit) prog" where
  "the_grid ma co so tbl mz =
    bind_io (show_library ma tbl False) (\<lambda>r.
    bind_io (if r \<noteq> OK then app_message ma tbl STR_ERR_TITLE_LIST GFX_DANGER else return_io ()) (\<lambda>_.
    bind_io (with_app (\<lambda>a. fs_file_exists (g_env ma a) (WORK_DIR @ ''/AUTOTEST''))) (\<lambda>autotest.
    if autotest then run_autotest ma co so tbl
    else bind_io (with_app (\<lambda>a. fs_file_exists (g_env ma a) AUTOPAIR_PATH)) (\<lambda>autopair.
      if autopair then run_autopair ma co tbl else grid_loop ma co tbl mz))))"

definition end_app :: "('x app_scheme) machine \<Rightarrow> ('x app_scheme) start \<Rightarrow> ('x app_scheme, unit) prog" where
  "end_app ma so =
    bind_io (trace (ma_screen ma) ''app/exit'' None) (\<lambda>_.
    bind_io (set_app (free_library 0)) (\<lambda>_.
    bind_io (set_app (free_library 1)) (\<lambda>_.
    bind_io (call_io (ma_cache_flush ma)) (\<lambda>_. call_io (so_exit so)))))"

text \<open>The exit code of the process.\<close>

definition main ::
  "('x app_scheme) machine \<Rightarrow> ('x app_scheme) console \<Rightarrow> ('x app_scheme) updater \<Rightarrow> ('x app_scheme) start \<Rightarrow> lang_table \<Rightarrow> 'z miniz \<Rightarrow>
    ('x app_scheme, nat) prog" where
  "main ma co up so tbl mz =
    bind_io (call_io (daemoon_3ds_config_load CONFIG_PATH)) (\<lambda>(r, cfg).
    bind_io (set_config (\<lambda>_. cfg)) (\<lambda>_.
    bind_io (start_screen ma co so) (\<lambda>screen.
    if \<not> screen then return_io 1
    else
      bind_io (call_io (so_services so)) (\<lambda>_.
      bind_io (start_traces ma co so) (\<lambda>_.
      bind_io (start_env ma so) (\<lambda>_.
      bind_io (before_grid ma co up tbl mz) (\<lambda>finished.
      bind_io (if finished then return_io () else the_grid ma co so tbl mz) (\<lambda>_.
      bind_io (end_app ma so) (\<lambda>_. return_io 0)))))))))"


section \<open>What a whole run leaves alone\<close>

definition quiet_start :: "('w \<Rightarrow> bool) \<Rightarrow> 'w start \<Rightarrow> bool" where
  "quiet_start I so \<longleftrightarrow> (\<forall>w. I w \<longrightarrow> I (snd (so_cfgu so w))) \<and> (\<forall>l w. I w \<longrightarrow> I (snd (so_gfx so l w))) \<and>
    (\<forall>w. I w \<longrightarrow> I (snd (so_services so w))) \<and> (\<forall>w. I w \<longrightarrow> I (snd (so_rtc so w))) \<and>
    (\<forall>w. I w \<longrightarrow> I (snd (so_cache_open so w))) \<and> (\<forall>w. I w \<longrightarrow> I (snd (so_exit so w))) \<and>
    (\<forall>t w. I w \<longrightarrow> I (snd (so_conformance so t w))) \<and> (\<forall>t n w. I w \<longrightarrow> I (snd (so_sample_rows so t n w)))"

text \<open>A whole console that leaves \<open>I\<close> alone except by writing to a save; \<open>I\<close> does not speak of the rest.\<close>

definition quiet_run ::
  "('x app_scheme \<Rightarrow> bool) \<Rightarrow> ('x app_scheme) machine \<Rightarrow> ('x app_scheme) console \<Rightarrow> ('x app_scheme) updater \<Rightarrow> ('x app_scheme) start \<Rightarrow> bool" where
  "quiet_run I ma co up so \<longleftrightarrow> quiet_machine I ma \<and> quiet_console I ma co \<and> quiet_updater I up \<and> quiet_start I so \<and>
    quiet_settings I \<and> quiet_card I \<and> apart I \<and> steady ma \<and> (\<forall>down w. I w \<longrightarrow> I (snd (ma_touched ma down w)))"

lemma quiet_runD:
  assumes "quiet_run I ma co up so"
  shows "quiet_machine I ma" "quiet_console I ma co" "quiet_updater I up" "quiet_start I so" "quiet_settings I" "quiet_card I" "apart I"
  using assms by (simp_all add: quiet_run_def)

lemma safe_start_calls [keeps_intros]:
  assumes "quiet_start I so"
  shows "safe I (call_io (so_cfgu so))" "safe I (call_io (so_gfx so l))" "safe I (call_io (so_services so))"
    "safe I (call_io (so_rtc so))" "safe I (call_io (so_cache_open so))" "safe I (call_io (so_exit so))"
    "safe I (call_io (so_conformance so t))" "safe I (call_io (so_sample_rows so t n))"
  using assms by (auto simp: quiet_start_def intro!: keeps_call)

lemma safe_auto_update [keeps_intros]:
  assumes "quiet_machine I ma" "quiet_updater I up"
  shows "safe I (action_auto_update ma co up tbl)"
  unfolding action_auto_update_def Let_def using assms by (auto intro!: keeps_intros split: sum.split prod.split)

lemma safe_autotest [keeps_intros]:
  assumes "quiet_machine I ma" "quiet_console I ma co" "quiet_start I so"
  shows "safe I (run_autotest ma co so tbl)"
proof -
  have archive: "safe I (call_fn (Some (ma_save ma)) sv_open_save (\<lambda>f. f self))" "safe I (call_fn (Some (ma_save ma)) sv_close_save (\<lambda>f. f save))" for self save
    using assms(1) by (auto simp: quiet_machine_def quiet_library_def quiet_save_def intro!: safe_call_fn)
  have format: "safe I (call_io (co_format co self n))" for self n using assms(2) by (auto intro!: keeps_intros)
  have "safe I (autotest_archive ma co self)" for self
    unfolding autotest_archive_def
    by (rule safe_bind [OF archive(1)]) (auto intro!: safe_bind [OF archive(2)] safe_bind [OF format] keeps_return)
  moreover have "safe I (secret_restored ma co)"
    unfolding secret_restored_def secret_again_def using assms by (auto intro!: keeps_intros)
  moreover have file': "keeps I (with_app (\<lambda>a. fs_open_file (g_env ma a) p m)) (\<lambda>x. quiet_stream I (snd x))" for p m
    using quiet_fs_open [OF quiet_g_env [OF assms(1)]] by (auto intro!: safe_with_app)
  ultimately show ?thesis
    unfolding run_autotest_def Let_def using assms by (auto intro!: keeps_intros keeps_bind_open [OF file'] split: sum.split)
qed

lemma safe_start_steps:
  assumes "quiet_run I ma co up so"
  shows "safe I (start_screen ma co so)" "safe I (start_traces ma co so)" "safe I (start_env ma so)"
    "safe I (unattended_run ma)" "safe I (end_app ma so)"
proof -
  have env: "safe I (set_app (\<lambda>a. select_backend False (token_now a)))"
    using assms by (auto simp: quiet_run_def quiet_settings_def apart_updates token_now_def intro!: safe_set_app)
  show "safe I (start_screen ma co so)" "safe I (start_traces ma co so)" "safe I (unattended_run ma)" "safe I (end_app ma so)"
    unfolding start_screen_def start_traces_def unattended_run_def end_app_def Let_def
    using quiet_runD [OF assms] by (auto intro!: keeps_intros)
  show "safe I (start_env ma so)"
    unfolding start_env_def using quiet_runD [OF assms] env by (auto intro!: keeps_intros)
qed

lemma safe_grid_frame:
  assumes "quiet_run I ma co up so"
  shows "safe I (grid_frame ma co tbl down)"
proof -
  have "safe I (call_io (ma_touched ma down))" using assms by (auto simp: quiet_run_def intro!: keeps_call)
  then show ?thesis
    unfolding grid_frame_def draw_details_def Let_def using quiet_runD [OF assms]
    by (auto intro!: keeps_intros split: option.split)
qed

section \<open>When a run overwrites a save\<close>

text \<open>A synchronisation of the title under the cursor destroys \<open>I\<close>.\<close>

definition sync_broke_here :: "('x app_scheme \<Rightarrow> bool) \<Rightarrow> ('x app_scheme) machine \<Rightarrow> 'z miniz \<Rightarrow> bool" where
  "sync_broke_here I ma mz \<longleftrightarrow> (\<exists>u x u' stats.
    daemoon_sync_title_with (g_env ma u) mz (cur_title u) (Some k_ask_everything) stats u = Some (x, u') \<and> I u \<and> \<not> I u')"

definition run_broke :: "('x app_scheme \<Rightarrow> bool) \<Rightarrow> ('x app_scheme) machine \<Rightarrow> lang_table \<Rightarrow> 'z miniz \<Rightarrow> bool" where
  "run_broke I ma tbl mz \<longleftrightarrow> (\<exists>l \<in> {0, 1}. sync_broke I ma mz l daemoon_3ds_autosync_opts) \<or>
    (\<exists>row l. l \<in> {0, 1} \<and> batch_said_yes I ma tbl (daemoon_3ds_batch_policy row) \<and> sync_broke I ma mz l (batch_opts (daemoon_3ds_batch_policy row))) \<or>
    (\<exists>a. restore_broke_here I ma mz a) \<or> sync_broke_here I ma mz"

lemma safe_if_unbroken:
  assumes "quiet_run I ma co up so" "\<not> run_broke I ma tbl mz"
  shows "safe I (run_autosync ma tbl mz)" "safe I (grid_act ma co tbl mz action)"
proof -
  note quiet = quiet_runD [OF assms(1)]
  have steady: "steady ma" using assms(1) by (simp add: quiet_run_def)
  show "safe I (run_autosync ma tbl mz)"
    using autosync_app_breaks [OF quiet(1,7) steady] assms(2) unfolding keeps_def run_broke_def by blast
  have "safe I (action_batch ma tbl mz)"
    using batch_app_breaks [OF quiet(1,7) steady] assms(2) unfolding keeps_def run_broke_def by blast
  moreover have "safe I (action_restore ma tbl mz)"
    using restore_app_breaks [OF quiet(1,6)] assms(2) unfolding keeps_def run_broke_def by blast
  moreover have "safe I (action_sync ma tbl mz)"
  proof -
    have "safe I (with_app (\<lambda>a. daemoon_sync_title (g_env ma a) mz (cur_title a) no_stats))"
      using assms(2) unfolding keeps_def run_broke_def sync_broke_here_def with_app_def sync_title_default by blast
    then show ?thesis unfolding action_sync_def using quiet(1) by (auto intro!: keeps_intros)
  qed
  moreover have "safe I (action_settings ma co tbl)" using quiet by (auto intro!: keeps_intros)
  ultimately show "safe I (grid_act ma co tbl mz action)"
    unfolding grid_act_def using quiet backup_app_safe by (auto simp: reload_titles_def intro!: keeps_intros)
qed

lemma safe_grid_loop:
  assumes quiet: "quiet_run I ma co up so" and acts: "\<And>action. safe I (grid_act ma co tbl mz action)"
  shows "safe I (grid_loop ma co tbl mz)"
proof (rule safe_loop)
  fix w a w'
  assume I: "I w" and run: "grid_loop ma co tbl mz w = Some (a, w')"
  have "quiet_run I ma co up so \<longrightarrow> (\<forall>action. safe I (grid_act ma co tbl mz action)) \<longrightarrow> I w \<longrightarrow> I (snd y)"
    if "grid_loop ma co tbl mz w = Some y" for y
    using that
  proof (induction ma co tbl mz w y rule: grid_loop.raw_induct [rotated 1, consumes 1, case_names step])
    case (step loop ma co tbl mz w y)
    show ?case
    proof (intro impI)
      assume hyps: "quiet_run I ma co up so" "\<forall>action. safe I (grid_act ma co tbl mz action)" "I w"
      have again: "I w \<Longrightarrow> lands I (loop ma co tbl mz w)" for w
        using step(1) hyps(1,2) by (fastforce intro: landsI)
      have library: "safe I (\<lambda>a. show_library ma tbl (\<not> ap_source_nds a) a)"
        using safe_show_library [OF quiet_runD(1,7) [OF hyps(1)]] by (auto simp: keeps_def)
      show "I (snd y)"
        by (rule landsD [OF step(2)])
           (auto intro!: lands_intros safe_screen quiet_machine_screen quiet_runD(1) [OF hyps(1)] library safe_grid_frame [OF hyps(1)]
             hyps(2) [rule_format] hyps(3) again)
    qed
  qed
  with I run quiet acts show "I w'" by fastforce
qed

lemma main_breaks:
  assumes quiet: "quiet_run I ma co up so" and I: "I a" and run: "main ma co up so tbl mz a = Some (r, a')" and lost: "\<not> I a'"
  shows "run_broke I ma tbl mz"
proof (rule ccontr)
  assume unbroken: "\<not> run_broke I ma tbl mz"
  note acts = safe_if_unbroken [OF quiet unbroken] and services = quiet_runD [OF quiet]
  have config: "safe I (call_io (daemoon_3ds_config_load CONFIG_PATH))"
    using services(5) by (auto simp: quiet_settings_def intro!: keeps_call)
  have "safe I (before_grid ma co up tbl mz)"
    unfolding before_grid_def Let_def using services acts(1) safe_start_steps(4) [OF quiet] by (auto intro!: keeps_intros)
  moreover have "safe I (the_grid ma co so tbl mz)"
    unfolding the_grid_def using services safe_grid_loop [OF quiet acts(2)] by (auto intro!: keeps_intros)
  ultimately have "safe I (main ma co up so tbl mz)"
    unfolding main_def using services config safe_start_steps [OF quiet] by (auto intro!: keeps_intros)
  with run I lost show False by (meson keepsD)
qed


text \<open>A token the settings do not hold is not put back after the test has cleared the archive.\<close>

lemma selftest_token_gone:
  "cf_token (ap_config a) = [] \<Longrightarrow> secret_restored ma co a = Some ((), a)"
  by (simp add: secret_restored_def secret_again_def with_app_def bind_io_def return_io_def)

section \<open>The cursor\<close>

lemma grid_row_div: "0 \<le> i \<Longrightarrow> grid_row i = i div GRID_COLS"
  by (cases "i = 0") (simp_all add: grid_row_def)

lemma selected_in_range: "0 \<le> s \<Longrightarrow> s < cnt \<Longrightarrow> 0 \<le> move_selected down cnt s \<and> move_selected down cnt s < cnt"
  by (auto simp: move_selected_def Let_def GRID_COLS_def)

lemma row_on_screen:
  assumes "0 \<le> s" "0 \<le> scroll"
  shows "0 \<le> keep_on_screen s scroll" "keep_on_screen s scroll * GRID_COLS \<le> s" "s < keep_on_screen s scroll * GRID_COLS + GRID_PAGE"
  using assms by (auto simp: keep_on_screen_def Let_def grid_row_div GRID_COLS_def GRID_ROWS_def GRID_PAGE_def)

text \<open>The cursor is on a title, and that title is on the screen.\<close>

definition cursor_on :: "library \<Rightarrow> bool" where
  "cursor_on lb \<longleftrightarrow> 0 \<le> lb_selected lb \<and> lb_selected lb < lb_count lb \<and> 0 \<le> lb_scroll lb"

definition cursor_shown :: "library \<Rightarrow> bool" where
  "cursor_shown lb \<longleftrightarrow> cursor_on lb \<and> lb_scroll lb * GRID_COLS \<le> lb_selected lb \<and> lb_selected lb < lb_scroll lb * GRID_COLS + GRID_PAGE"

lemma move_cursor_simps: "lb_count (move_cursor down lb) = lb_count lb" "lb_titles (move_cursor down lb) = lb_titles lb"
  by (simp_all add: move_cursor_def Let_def lb_count_def)

lemma move_cursor_shown: "cursor_on lb \<Longrightarrow> cursor_shown (move_cursor down lb)"
  using selected_in_range [of "lb_selected lb" "lb_count lb" down] row_on_screen [of "move_selected down (lb_count lb) (lb_selected lb)" "lb_scroll lb"]
  by (simp add: cursor_on_def cursor_shown_def move_cursor_simps) (simp add: move_cursor_def Let_def)

lemma moves_shown:
  "cursor_on lb \<Longrightarrow> downs \<noteq> [] \<Longrightarrow> cursor_shown (foldl (\<lambda>lb down. move_cursor down lb) lb downs) \<and>
    lb_titles (foldl (\<lambda>lb down. move_cursor down lb) lb downs) = lb_titles lb"
proof (induction downs arbitrary: lb)
  case (Cons down downs)
  have "cursor_shown (move_cursor down lb)" by (rule move_cursor_shown [OF Cons.prems(1)])
  then show ?case using Cons.IH [of "move_cursor down lb"]
    by (cases downs) (simp_all add: cursor_shown_def move_cursor_simps)
qed simp

lemma clamped_on: "0 \<le> lb_selected lb \<Longrightarrow> 0 \<le> lb_scroll lb \<Longrightarrow> 0 < lb_count lb \<Longrightarrow> cursor_on (clamp_selected lb)"
  by (auto simp: cursor_on_def clamp_selected_def lb_count_def Let_def split: option.split)

lemma shown_name:
  assumes "cursor_shown lb"
  shows "\<exists>k < length (grid_names lb). int k = lb_selected lb - lb_scroll lb * GRID_COLS \<and>
    grid_names lb ! k = ti_name (the (lb_titles lb) ! nat (lb_selected lb))"
proof -
  let ?first = "lb_scroll lb * GRID_COLS" and ?k = "nat (lb_selected lb - lb_scroll lb * GRID_COLS)"
  let ?shown = "nat (min GRID_PAGE (lb_count lb - ?first))"
  have k: "int ?k = lb_selected lb - ?first" "?k < ?shown" "?first + int ?k = lb_selected lb"
    using assms by (auto simp: cursor_shown_def cursor_on_def)
  have "filter (\<lambda>i. i < lb_count lb) (map (\<lambda>i. ?first + int i) [0..<nat GRID_PAGE]) = map (\<lambda>i. ?first + int i) [0..<?shown]"
  proof -
    have split: "[0..<nat GRID_PAGE] = [0..<?shown] @ [?shown..<nat GRID_PAGE]"
    proof -
      have "?shown \<le> nat GRID_PAGE" by (rule nat_mono) simp
      then have "?shown + (nat GRID_PAGE - ?shown) = nat GRID_PAGE" by (rule le_add_diff_inverse)
      then show ?thesis using upt_add_eq_append [of 0 ?shown "nat GRID_PAGE - ?shown"] by (simp only: le0 simp_thms)
    qed
    have "filter (\<lambda>i. i < lb_count lb) (map (\<lambda>i. ?first + int i) [?shown..<nat GRID_PAGE]) = []"
      by (auto simp: filter_empty_conv)
    moreover have "filter (\<lambda>i. i < lb_count lb) (map (\<lambda>i. ?first + int i) [0..<?shown]) = map (\<lambda>i. ?first + int i) [0..<?shown]"
      by (auto simp: filter_id_conv)
    ultimately show ?thesis unfolding split by simp
  qed
  then have names: "grid_names lb = map (\<lambda>i. ti_name (the (lb_titles lb) ! nat (?first + int i))) [0..<?shown]"
    by (simp add: grid_names_def comp_def)
  show ?thesis
    by (rule exI [of _ ?k]) (use k in \<open>simp add: names\<close>)
qed


section \<open>A run of the example\<close>

text \<open>The console is switched on with the settings of the example on its card, the token among them.\<close>

definition token_on_card_settings :: config where
  "token_on_card_settings = example_settings\<lparr>cf_token_on_card := True\<rparr>"

definition switched_on :: example_app where
  "switched_on = (example_app [(CONFIG_PATH, Data (file_of (head_keys token_on_card_settings @ config_keys token_on_card_settings)))] True)
    \<lparr>ap_config := daemoon_3ds_config_defaults, ap_has_token := False\<rparr>"

definition example_updater :: "example_app updater" where
  "example_updater = \<lparr>up_easy = (\<lambda>a. (False, a)), up_perform = (\<lambda>url t f a. TDone 0 a), up_cleanup = (\<lambda>a. ((), a)),
    up_begin = (\<lambda>a. (False, a)), up_write = (\<lambda>off bs a. (None, a)), up_cancel = (\<lambda>a. ((), a)), up_finish = (\<lambda>a. (False, a))\<rparr>"

definition example_start :: "example_app start" where
  "example_start = \<lparr>so_cfgu = (\<lambda>a. (True, a)), so_gfx = (\<lambda>l a. (True, a)), so_services = (\<lambda>a. ((), a)), so_rtc = (\<lambda>a. (0, a)),
    so_cache_open = (\<lambda>a. ((), a)), so_exit = (\<lambda>a. ((), a)), so_conformance = (\<lambda>t a. ((0, 0, []), a)), so_sample_rows = (\<lambda>t n a. ((), a))\<rparr>"

lemma example_config_back:
  "\<exists>c. daemoon_3ds_config_load CONFIG_PATH switched_on = ((OK, example_settings), c) \<and> card.more c = card.more switched_on"
proof -
  have "daemoon_utf8_valid (Some ''label'')"
    by (simp add: daemoon_utf8_valid_def utf8_valid_loop.simps seq_len_def utf8_lead_def utf8_overlong_def
        utf8_out_of_range_def u8_def)
  moreover have "clean ''http://s''" "clean ''t''" "clean ''label''" "clean []" by (simp_all add: clean_def)
  moreover have "strip_slashes ''http://s'' = ''http://s''" by (simp add: strip_slashes_def)
  ultimately have ok: "config_ok token_on_card_settings"
    by (simp add: config_ok_def token_on_card_settings_def example_settings_def TOKEN_MAX_def LABEL_MAX_def PATH_MAX_def DEVICE_ID_MAX_def)
  obtain c where load: "daemoon_3ds_config_load CONFIG_PATH switched_on =
      ((OK, token_on_card_settings\<lparr>cf_token := if cf_token_on_card token_on_card_settings then cf_token token_on_card_settings else [],
        cf_token_on_card := False\<rparr>), c)"
    using load_3ds_back [OF ok, of switched_on CONFIG_PATH] by (auto simp: switched_on_def example_app_def)
  moreover have "card.more c = card.more switched_on" using card_only_config(2) load by (metis card_only_def snd_conv)
  ultimately show ?thesis by (simp add: token_on_card_settings_def example_settings_def)
qed

lemma example_run_quiet: "quiet_run intact example_machine example_console example_updater example_start"
proof -
  have "quiet_settings intact" by (rule apart_from_all) simp
  moreover have "quiet_console intact example_machine example_console"
  proof -
    have "quiet intact (fetch_env_by ruin)" by (rule example_quiet)
    then show ?thesis
      by (simp add: quiet_console_def quiet_own_def example_console_def quiet_def example_machine_def Let_def example_env_by_def
        idle_env_def idle_save_def quiet_stream_def null_stream_def)
  qed
  moreover have "quiet_updater intact example_updater" by (simp add: quiet_updater_def example_updater_def)
  moreover have "quiet_start intact example_start" by (simp add: quiet_start_def example_start_def)
  ultimately show ?thesis using example_machine_quiet by (simp add: quiet_run_def example_machine_def Let_def)
qed


lemma example_console_calls [simp]:
  "call_io (co_language example_console) = return_io None" "call_io (co_smdh example_console n) = return_io ()"
  "call_io (co_drawable example_console l) = return_io True"
  "call_io (so_cfgu example_start) = return_io True" "call_io (so_gfx example_start l) = return_io True"
  "call_io (so_services example_start) = return_io ()" "call_io (so_rtc example_start) = return_io 0"
  "call_io (so_cache_open example_start) = return_io ()" "call_io (so_exit example_start) = return_io ()"
  "call_io (up_easy example_updater) = return_io False" "call_io (ma_cache_flush example_machine) = return_io ()"
  by (simp_all add: example_console_def example_start_def example_updater_def example_machine_def call_io_def return_io_def fun_eq_iff Let_def)

lemma example_fs_calls:
  "fs_make_dir (g_env example_machine a) p = return_io OK"
  "fs_file_exists (g_env example_machine a) p = return_io (take 15 p = ''sdmc:/DaeMoon/b'')"
  by (simp_all add: fs_make_dir_def fs_file_exists_def g_env_def example_machine_def Let_def example_env_by_def idle_env_def idle_fs_def
      call_fn_def call_io_def return_io_def fun_eq_iff)

lemma example_no_update: "action_auto_update example_machine example_console example_updater tbl = return_io False"
  by (simp add: action_auto_update_def daemoon_3ds_update_available_def Let_def)

lemma vars_of_card:
  fixes a :: "'x app_scheme"
  shows "card.more a = card.more b \<Longrightarrow> ap_lib_3ds a = ap_lib_3ds b \<and> ap_lib_nds a = ap_lib_nds b \<and> app.more a = app.more b"
  by (cases a, cases b) simp

lemma example_main_run:
  "\<exists>a'. main example_machine example_console example_updater example_start tbl example_zip switched_on = Some (0, a') \<and> \<not> intact a'"
proof -
  obtain c where load: "daemoon_3ds_config_load CONFIG_PATH switched_on = ((OK, example_settings), c)" and more: "card.more c = card.more switched_on"
    using example_config_back by blast
  let ?a1 = "c\<lparr>ap_config := example_settings\<rparr>"
  let ?a2 = "set_lang LANG_EN ?a1"
  let ?a3 = "select_backend False (token_now ?a2)"
  have c: "ap_lib_3ds c = ap_lib_3ds switched_on" "ap_lib_nds c = ap_lib_nds switched_on" "app.more c = app.more switched_on"
    using vars_of_card [OF more] by simp_all
  have a3: "ready ?a3" "snd (app.more ?a3)"
    using c by (simp_all add: ready_def set_lang_def token_now_def select_backend_def switched_on_def example_app_def lib_titles_def
        lib_of_def example_settings_def)
  obtain a4 where autosync: "run_autosync example_machine tbl example_zip ?a3 = Some (True, a4)" "\<not> intact a4"
    using example_autosync_from [OF a3] by blast
  have language: "chosen_language ?a1 = None" by (simp add: chosen_language_def example_settings_def)
  have screen: "start_screen example_machine example_console example_start ?a1 = Some (True, ?a2)"
    by (simp add: start_screen_def select_language_def console_language_def with_app_def language set_app_def bind_io_def return_io_def)
  have traces: "start_traces example_machine example_console example_start a = Some ((), a)" for a
    by (simp add: start_traces_def with_app_def bind_io_def return_io_def)
  have can: "daemoon_3ds_config_can_sync example_settings" by (simp add: daemoon_3ds_config_can_sync_def example_settings_def)
  have env: "start_env example_machine example_start ?a2 = Some ((), ?a3)"
    by (simp add: start_env_def with_app_def example_fs_calls bind_io_def return_io_def set_app_def set_lang_def can)
  have unattended: "unattended_run example_machine = return_io False"
    by (simp add: unattended_run_def with_app_def example_fs_calls WORK_DIR_def AUTOPAIR_PATH_def fun_eq_iff bind_io_def return_io_def)
  have settings: "ap_config ?a3 = example_settings" using a3(1) by (simp add: ready_def)
  have due: "daemoon_3ds_autosync_due (cf_autosync example_settings) (daemoon_3ds_config_can_sync example_settings) False False"
    using can by (simp add: daemoon_3ds_autosync_due_def example_settings_def)
  have before: "before_grid example_machine example_console example_updater tbl example_zip ?a3 = Some (True, a4)"
    using autosync(1) due
    by (simp add: before_grid_def unattended example_no_update with_app_def settings Let_def bind_io_def return_io_def)
  obtain a5 where ended: "end_app example_machine example_start a4 = Some ((), a5)" "app.more a5 = app.more a4"
    by (simp add: end_app_def bind_set_app bind_io_def return_io_def set_app_def free_library_def set_lib_def Let_def select_backend_def)
  have "main example_machine example_console example_updater example_start tbl example_zip switched_on = Some (0, a5)"
  proof -
    have "call_io (daemoon_3ds_config_load CONFIG_PATH) switched_on = Some ((OK, example_settings), c)" by (simp add: call_io_def load)
    note loaded = this
    show ?thesis unfolding main_def by (simp add: bind_io_def loaded with_set screen traces env before ended(1) return_io_def)
  qed
  with ended(2) autosync(2) show ?thesis by auto
qed


section \<open>Where a restore came from\<close>

lemma asked_restore:
  assumes "quiet I env" "restore_package env mz title path False v = Some (s, v')" "I v" "\<not> I v'"
  shows "\<exists>q yes q'. confirm env STR_CONFIRM_RESTORE (ti_name title) q = Some (yes, q') \<and> yes \<noteq> 0"
proof -
  have "restore_chain I env mz title path False s"
    using restore_chainI [OF assms(1,3,2)] assms(4) by (simp add: got_through_def)
  then show ?thesis unfolding restore_chain_def by auto
qed

lemma asked_sync:
  assumes "quiet_machine I ma" "sync_broke_here I ma mz"
  shows "\<exists>u title path s v v'. restore_package (g_env ma u) mz title path False v = Some (s, v') \<and> I v \<and> \<not> I v'"
proof -
  from assms(2) obtain u x u' stats where "I u" "\<not> I u'"
    "daemoon_sync_title_with (g_env ma u) mz (cur_title u) (Some k_ask_everything) stats u = Some (x, u')"
    unfolding sync_broke_here_def by blast
  from sync_title_breaks [OF quiet_g_env [OF assms(1)] this(1,3,2)]
  obtain path v s v' where "restore_package (g_env ma u) mz (cur_title u) path False v = Some (s, v')" "I v" "\<not> I v'"
    unfolding restore_broke_def by (auto simp: k_ask_everything_def)
  then show ?thesis by blast
qed

lemma unchanged_sync:
  assumes "quiet_machine I ma" "sync_broke I ma mz l daemoon_3ds_autosync_opts"
  shows "\<exists>u title path s v v' local remote w1 w2 w3. restore_package (g_env ma u) mz title path True v = Some (s, v') \<and> I v \<and> \<not> I v' \<and>
    daemoon_sync_scan_local (g_env ma u) title w1 = Some ((OK, local), w2) \<and>
    daemoon_api_get_latest (g_env ma u) (ti_platform title) (ti_id title) w2 = Some (Inr remote, w3) \<and>
    daemoon_sync_decide (Some local) (Some remote) = SYNC_DOWNLOAD \<and> \<not> daemoon_sync_local_dirty (Some local)"
proof -
  from assms(2) obtain u x u' i stats where "I u" "\<not> I u'"
    "daemoon_sync_title_with (g_env ma u) mz (lib_titles l u ! i) (Some daemoon_3ds_autosync_opts) stats u = Some (x, u')"
    unfolding sync_broke_def by blast
  note breaks = sync_title_breaks [OF quiet_g_env [OF assms(1)] this(1,3,2)]
  have opts: "so_conflict daemoon_3ds_autosync_opts = POLICY_DEFER" "so_restore_confirmed daemoon_3ds_autosync_opts"
    by (simp_all add: daemoon_3ds_autosync_opts_def)
  from breaks opts obtain path v s v' where "restore_package (g_env ma u) mz (lib_titles l u ! i) path True v = Some (s, v')" "I v" "\<not> I v'"
    unfolding restore_broke_def by auto
  moreover from breaks opts obtain local remote w1 w2 w3 where
    "daemoon_sync_scan_local (g_env ma u) (lib_titles l u ! i) w1 = Some ((OK, local), w2)"
    "daemoon_api_get_latest (g_env ma u) (ti_platform (lib_titles l u ! i)) (ti_id (lib_titles l u ! i)) w2 = Some (Inr remote, w3)"
    "daemoon_sync_decide (Some local) (Some remote) = SYNC_DOWNLOAD"
    by auto
  moreover note download_not_dirty [OF this(3)]
  ultimately show ?thesis by blast
qed

section \<open>Properties\<close>



text \<open>C17 The cursor of the grid stays on a title, and the title it is on is on the screen: whatever library was
  read, after any keys, as many frames as there were, the selected index is within the library, and
  among the names on the page is, at the cursor's place, the name of the title that a backup, a restore
  or a synchronisation would be of.\<close>
theorem cursor_stays_on_screen:
  assumes "0 \<le> lb_selected lb" "0 \<le> lb_scroll lb" "0 < lb_count lb" "downs \<noteq> []"
    and "lb' = foldl (\<lambda>lb down. move_cursor down lb) (clamp_selected lb) downs"
  shows "0 \<le> lb_selected lb' \<and> lb_selected lb' < lb_count lb \<and> lb_titles lb' = lb_titles lb \<and>
    (\<exists>k < length (grid_names lb'). int k = lb_selected lb' - lb_scroll lb' * GRID_COLS \<and>
      grid_names lb' ! k = ti_name (the (lb_titles lb) ! nat (lb_selected lb')))"
proof -
  have clamped: "lb_titles (clamp_selected lb) = lb_titles lb" by (simp add: clamp_selected_def Let_def)
  have moved: "cursor_shown lb'" "lb_titles lb' = lb_titles lb"
    using moves_shown [OF clamped_on [OF assms(1-3)] assms(4)] clamped assms(5) by simp_all
  moreover have "lb_count lb' = lb_count lb" using moved(2) by (simp add: lb_count_def)
  ultimately show ?thesis using shown_name [OF moved(1)] by (simp add: cursor_shown_def cursor_on_def)
qed

theorem cursor_stays_on_screen_witness:
  "lb_selected (move_cursor {KEY_DOWN} \<lparr>lb_titles = Some (replicate 40 example_title), lb_loaded = True, lb_selected = 17, lb_scroll = 0\<rparr>) < 40"
proof -
  let ?lb = "\<lparr>lb_titles = Some (replicate 40 example_title), lb_loaded = True, lb_selected = 17, lb_scroll = 0\<rparr>"
  have "clamp_selected ?lb = ?lb" by (simp add: clamp_selected_def)
  with cursor_stays_on_screen [of ?lb "[{KEY_DOWN}]" "move_cursor {KEY_DOWN} ?lb"] show ?thesis by (simp add: lb_count_def)
qed


end
