(* ===== verification/Spec2Isabelle.thy ===== *)
theory Spec2Isabelle
  imports Transfers Protocol Start
begin

text \<open>
  DaeMoon keeps the saves of game consoles on a server of one's own and moves them between consoles.
  This library models the portable core (\<open>core/src\<close>, \<open>core/include/daemoon\<close>), the files and settings
  of the consoles (\<open>platform/common\<close>, \<open>config.c\<close> of both) and the 3DS application above them
  (\<open>platform/3ds/source/main.c\<close> and what it calls), and proves what they promise: a save is never
  overwritten without a confirmation, a backup and a verified package, from the start of the application
  to its exit; two changed saves are never merged or silently replaced; what is written to disk and to
  the wire can be read back; nothing that comes from a package or from the server can reach outside
  its place; a credential is kept where the console says it is.

  \<^bold>\<open>The program and its world.\<close> The core does everything through four interfaces of C
  function pointers (saves, network, user, files). Here they are records of optional functions over a
  world \<open>'w\<close> of any type (\<open>Backend\<close>: \<open>save_backend\<close>, \<open>net_backend\<close>,
  \<open>ui_backend\<close>, \<open>fs_backend\<close>, \<open>env\<close>), so a theorem holds of every console, every
  server and every failure they can report. An operation of the core is a program
  \<open>'w \<Rightarrow> ('a \<times> 'w) option\<close> (\<open>Prelude\<close>); \<open>None\<close> is a call through NULL or a loop
  over a source that never ends, so that returning is something to prove. A \<open>daemoon_result_t\<close> is a
  value of \<open>result\<close>; a buffer that is filled only on success is part of a sum. A C buffer of size
  \<open>n\<close> is its text of at most \<open>n - 1\<close> bytes; where the code cuts or refuses, so does the model.
  Callbacks a library makes while it runs (the network backend pulling a body, the zip library reading
  a file, a directory walk) are trees that a runner feeds (\<open>exchange\<close>, \<open>mz_call\<close>, \<open>walk\<close>).

  \<^bold>\<open>Theories and sources.\<close>
  \<^item> \<open>Prelude\<close>, \<open>Bits\<close>: programs, weakest preconditions, postconditions (\<open>ensures\<close>), C
    strings, lists, masks.
  \<^item> \<open>Result\<close>: \<open>error_table.c\<close>, \<open>error_codes.h\<close>, \<open>result.h\<close>. Codes round trip;
    no unknown code reads as success.
  \<^item> \<open>Utf8\<close>, \<open>Strbuf\<close>, \<open>Sha256\<close>: \<open>util/utf8.c\<close>, \<open>util/strbuf.c\<close>,
    \<open>util/sha256.c\<close>. Validation accepts the encodings of scalar values and nothing else; a string
    builder holds the first bytes of what was appended and knows when something is missing
    (locale \<open>append_buffer\<close>, interpreted here and for the response buffers of the client); the
    digest does not depend on how its input was cut and is FIPS 180-4 (locale \<open>incremental_hash\<close>).
  \<^item> \<open>Jsmn\<close>, \<open>Json\<close>, \<open>Json_Flat\<close>: \<open>vendor/jsmn/jsmn.h\<close> as the core configures it,
    \<open>util/json.c\<close>, and the flat objects the core writes, which the core reads back.
  \<^item> \<open>Backend\<close>: \<open>backend.h\<close>, \<open>backend.c\<close>. Names on the wire (locale \<open>wire_names\<close>),
    stream copies, the check of an environment.
  \<^item> \<open>Manifest\<close>, \<open>Archive\<close>: \<open>manifest.c\<close>, \<open>archive.c\<close>. A valid manifest is stored
    without loss and the parser returns only valid ones; the digest of a save is the documented one, a
    package that verifies has it, and entry paths stay inside the directory.
  \<^item> \<open>I18n\<close>, \<open>Api\<close>: \<open>i18n.c\<close>, \<open>api.c\<close>. Substitution and sizes as text; routing of
    response bodies, number of attempts, addresses, pairing codes; every call ends.
  \<^item> \<open>Sync\<close>: \<open>sync.c\<close>, \<open>sync.h\<close>: the decision, the state file, backup, restore, upload,
    download, conflicts, one run over a title.
  \<^item> \<open>Frame\<close>: which operations leave which property of the world alone (\<open>keeps\<close>,
    \<open>quiet\<close>), one rule per operation.
  \<^item> \<open>SyncSafety\<close>, \<open>Guarantees\<close>, \<open>Transfers\<close>, \<open>StateFile\<close>: what precedes a write to
    a save, what a success means, how a run is counted, what is recorded, and that the record is read back.
  \<^item> \<open>Protocol\<close>: several consoles and one server as a labelled transition system over the
    decision, with its invariant, the refinement of a three-way comparison, and that nothing is lost.

  \<^item> \<open>Stdio\<close>, \<open>Newlib\<close>: the C library on a card (\<open>card\<close>: the tree of files, the open streams, the
    failures to come, the log of states a power cut can leave) and \<open>platform/common/fs_newlib.c\<close> over
    it. The state file is swapped in as a whole and read back.
  \<^item> \<open>Config\<close>: \<open>platform/common/config_lines.c\<close>, \<open>config.c\<close> of the 3DS and of the Switch. The
    settings survive on the card; an archived token never reaches it.
  \<^item> \<open>Console\<close>: the decisions of the consoles (\<open>title_id.c\<close> of both, \<open>batch_steps.c\<close>,
    \<open>autosync_steps.c\<close>, \<open>welcome_steps.c\<close>). \<open>Runs\<close>: the loops around them (\<open>autosync.c\<close>,
    \<open>batch.c\<close>, \<open>welcome.c\<close>). \<open>BackupList\<close>: \<open>backup_list.c\<close>, \<open>backups.c\<close>.
  \<^item> \<open>App\<close>: the libraries, the messages, the runs and the actions on a title of \<open>main.c\<close>.
    \<open>Survey\<close>: its report on the saves. \<open>Pairing\<close>: \<open>secret.c\<close>, and of \<open>main.c\<close> the language, the
    pairing, the first run and the settings. \<open>Updater\<close>: \<open>updater.c\<close>. \<open>Start\<close>: the update, the self
    test, the grid and \<open>main\<close> itself, with the theorem that a whole run overwrites no save blindly.

  The application's variables (\<open>g_lib\<close>, \<open>g_config\<close>, \<open>g_env\<close> and so on) are a record \<open>app\<close> that
  extends the card, so one state holds the files and the variables; the rest of the world is its last
  field. What the application calls of the console is in records of functions: \<open>screen\<close> (whether the
  application goes on, the keys, a frame with the messages and texts on it, the trace), \<open>machine\<close> (the
  backends, the network, the keyboard), \<open>console\<close>, \<open>updater\<close> (libcurl and the installer) and
  \<open>start\<close>. \<open>quiet_machine\<close>, \<open>quiet_console\<close>, \<open>quiet_updater\<close> and \<open>quiet_start\<close> say of them
  what \<open>quiet\<close> says of an environment, \<open>quiet_run\<close> says it of all.

  \<^bold>\<open>How a safety property is stated.\<close> The engine cannot see into a save, so "the save is not
  overwritten" is any property \<open>I\<close> of the world that only the entry points writing to a save can
  destroy (\<open>quiet I env\<close>). The theorems about restoring and synchronising hold for every such \<open>I\<close>.

  \<^bold>\<open>Loops and bounds.\<close> Loops over lists and counters are structural; the read loops that stop when a
  buffer is full have a measure (\<open>state_read_loop\<close>, \<open>read_full_loop\<close>, \<open>zip_read_loop\<close>); the
  loops that stop when a source does (\<open>copy_loop\<close>, \<open>hash_read_loop\<close>) are partial functions, and
  returning is proved for sources that deliver something while anything is left. The loops of the
  screens (\<open>pick_loop\<close>, \<open>message_loop\<close>, \<open>settings_loop\<close>, \<open>grid_loop\<close> and their like) are partial
  functions too, because a person may look at a screen for ever; what is proved of them is what every
  run of them leaves alone and what they end with. No definition uses fuel. Sizes are natural numbers with the C widths written out where a value is cast
  (\<open>to_uint\<close>, \<open>to_llong\<close>) or can wrap (\<open>bump\<close>); the digest works on \<open>32 word\<close>.

  \<^bold>\<open>Parameters.\<close> The zip library (\<open>vendor/miniz\<close>) is the record \<open>miniz\<close>, about which nothing is
  assumed. The translated messages are a parameter of \<open>I18n\<close>. The server is the network backend; only
  \<open>Protocol\<close> states what consoles rely on, namely that versions are numbered in order and that an upload
  is accepted only over the parent version it names.

  \<^bold>\<open>Not modelled.\<close> What stands behind the interfaces and the records above and is calls to the system
  or to a library: the save backends of the consoles and of a desktop (\<open>save_backend.c\<close>,
  \<open>nds_backend.c\<close>, \<open>dir_tree.c\<close>, \<open>title_cache.c\<close>, \<open>platform/posix\<close>), the network backends, the
  drawing, the camera, the pictures and the trace of the 3DS (\<open>gfx.c\<close>, \<open>qr_scan.c\<close>, \<open>icons.c\<close>,
  \<open>ui_backend.c\<close> and the like), and where on a screen things are. The Switch application, which is C++;
  the command line tool; the server, which is Go; generated texts, tests and vendored code. A read of an
  uninitialised buffer (\<open>read_manifest_from\<close> for an empty \<open>manifest.json\<close>) is modelled as reading an
  empty text, and a local buffer nothing was written to holds \<open>co_stack\<close>. Allocation does not fail in
  the core, which allocates nothing.
\<close>

end
